(* ===== verification/Prelude.thy ===== *)
theory Prelude
imports Main "HOL-Library.Word"
begin

text \<open>
  What every component shares: bytes and 64-bit integers, the state-and-error monad in which
  the data layer is written, the three SQL row primitives (select, update in place, delete) on
  lists of rows in rowid order, and the collections of simplification rules the component
  theories extend.
\<close>

section \<open>Collections\<close>

named_theorems tbl_simps \<open>row primitives: membership, keys, lengths\<close>
named_theorems dbm_simps \<open>the state-and-error monad, unfolded one statement at a time\<close>
named_theorems keeps_intros \<open>a statement keeps an invariant\<close>

section \<open>Bytes and 64-bit integers\<close>

type_synonym byte = "8 word"

text \<open>Go's strings are byte sequences, and so is HOL's \<open>string\<close> (a \<open>char\<close> is a byte).\<close>

definition bytes_of :: "string \<Rightarrow> byte list" where
  "bytes_of s = map (\<lambda>c. word_of_nat (of_char c)) s"

definition string_of :: "byte list \<Rightarrow> string" where
  "string_of bs = map (\<lambda>b. char_of (unat b)) bs"

lemma unat_less_256: "unat (b :: byte) < 256"
proof -
  have "unat b < 2 ^ LENGTH(8)" by (rule unsigned_less)
  then show ?thesis by simp
qed

lemma string_of_bytes_of [simp]: "string_of (bytes_of s) = s"
proof -
  have "char_of (unat (word_of_nat (of_char c) :: byte)) = c" for c :: char
  proof -
    have "(of_char c :: nat) < 256" by simp
    then have "unat (word_of_nat (of_char c) :: byte) = of_char c"
      by (simp add: unat_of_nat)
    then show ?thesis by simp
  qed
  then show ?thesis by (simp add: string_of_def bytes_of_def comp_def)
qed

lemma bytes_of_string_of [simp]: "bytes_of (string_of bs) = bs"
proof -
  have "word_of_nat (of_char (char_of (unat b) :: char)) = b" for b :: byte
  proof -
    have "unat b < 256" using unat_less_256 [of b] by simp
    then show ?thesis by simp
  qed
  then show ?thesis by (simp add: string_of_def bytes_of_def comp_def map_idI)
qed

lemma length_bytes_of [simp]: "length (bytes_of s) = length s"
  by (simp add: bytes_of_def)

lemma length_string_of [simp]: "length (string_of bs) = length bs"
  by (simp add: string_of_def)

text \<open>Go's \<open>int64\<close> addition wraps; a value read back from SQLite must fit.\<close>

definition in_int64 :: "int \<Rightarrow> bool" where
  "in_int64 x \<longleftrightarrow> - (2 ^ 63) \<le> x \<and> x < 2 ^ 63"

definition wrap64 :: "int \<Rightarrow> int" where
  "wrap64 x = (x + 2 ^ 63) mod 2 ^ 64 - 2 ^ 63"

lemma wrap64_id [simp]: "in_int64 x \<Longrightarrow> wrap64 x = x"
  by (simp add: wrap64_def in_int64_def)

lemma wrap64_in_int64: "in_int64 (wrap64 x)"
proof -
  have "0 \<le> (x + 2 ^ 63) mod 2 ^ 64" "(x + 2 ^ 63) mod 2 ^ 64 < 2 ^ 64" by simp_all
  then show ?thesis by (simp add: wrap64_def in_int64_def)
qed

section \<open>The state-and-error monad\<close>

text \<open>
  A data-layer call takes the state and returns a result or an error together with the state
  it leaves: an error does not by itself undo anything, only a transaction does.
\<close>

type_synonym ('s, 'e, 'a) sem = "'s \<Rightarrow> ('e + 'a) \<times> 's"

definition retM :: "'a \<Rightarrow> ('s, 'e, 'a) sem" where
  "retM x s = (Inr x, s)"

definition failM :: "'e \<Rightarrow> ('s, 'e, 'a) sem" where
  "failM e s = (Inl e, s)"

definition bindM :: "('s, 'e, 'a) sem \<Rightarrow> ('a \<Rightarrow> ('s, 'e, 'b) sem) \<Rightarrow> ('s, 'e, 'b) sem" where
  "bindM m f s = (case m s of (Inl e, s') \<Rightarrow> (Inl e, s') | (Inr x, s') \<Rightarrow> f x s')"

definition liftM :: "('e + 'a) \<Rightarrow> ('s, 'e, 'a) sem" where
  "liftM r s = (r, s)"

lemmas semM_defs = retM_def failM_def bindM_def liftM_def

declare retM_def [dbm_simps] failM_def [dbm_simps] bindM_def [dbm_simps] liftM_def [dbm_simps]

lemma bindM_InrE:
  assumes "bindM m f s = (Inr y, s')"
  obtains x s1 where "m s = (Inr x, s1)" "f x s1 = (Inr y, s')"
  using assms by (auto simp: bindM_def split: prod.splits sum.splits)

lemma retM_InrE: "retM x s = (Inr y, s') \<Longrightarrow> y = x \<and> s' = s"
  by (simp add: retM_def)

lemma bindM_Inr: "m s = (Inr x, s1) \<Longrightarrow> bindM m f s = f x s1"
  by (simp add: bindM_def)

lemma bindM_Inl: "m s = (Inl e, s1) \<Longrightarrow> bindM m f s = (Inl e, s1)"
  by (simp add: bindM_def)

text \<open>Running a sequence of calls whose results are known, one statement at a time.\<close>

lemma bindM_step: "m s = (Inr x, s1) \<Longrightarrow> f x s1 = r \<Longrightarrow> bindM m f s = r"
  by (simp add: bindM_def)

text \<open>\<open>keeps I m\<close>: the call \<open>m\<close> leaves a state satisfying \<open>I\<close> whenever it starts in one.\<close>

definition keeps :: "('s \<Rightarrow> bool) \<Rightarrow> ('s \<Rightarrow> 'r \<times> 's) \<Rightarrow> bool" where
  "keeps I m \<longleftrightarrow> (\<forall>s. I s \<longrightarrow> I (snd (m s)))"

lemma keepsI: "(\<And>s. I s \<Longrightarrow> I (snd (m s))) \<Longrightarrow> keeps I m"
  by (simp add: keeps_def)

lemma keepsD: "keeps I m \<Longrightarrow> I s \<Longrightarrow> I (snd (m s))"
  by (simp add: keeps_def)

lemma keeps_ret [keeps_intros]: "keeps I (retM x)"
  by (simp add: keeps_def retM_def)

lemma keeps_fail [keeps_intros]: "keeps I (failM e)"
  by (simp add: keeps_def failM_def)

lemma keeps_lift [keeps_intros]: "keeps I (liftM r)"
  by (simp add: keeps_def liftM_def)

lemma keeps_bind [keeps_intros]:
  assumes "keeps I m" and "\<And>x. keeps I (f x)"
  shows "keeps I (bindM m f)"
  unfolding keeps_def
proof (intro allI impI)
  fix s
  assume "I s"
  show "I (snd (bindM m f s))"
  proof (cases "m s")
    case (Pair r s')
    with assms(1) \<open>I s\<close> have "I s'" by (auto simp: keeps_def dest: spec [of _ s])
    then show ?thesis
      using assms(2) Pair by (cases r) (auto simp: bindM_def keeps_def)
  qed
qed

lemma keeps_if [keeps_intros]:
  "keeps I a \<Longrightarrow> keeps I b \<Longrightarrow> keeps I (if c then a else b)"
  by simp

section \<open>Rows\<close>

text \<open>A table is the list of its rows in rowid order: \<open>INSERT\<close> appends.\<close>

definition upd_where :: "('r \<Rightarrow> bool) \<Rightarrow> ('r \<Rightarrow> 'r) \<Rightarrow> 'r list \<Rightarrow> 'r list" where
  "upd_where p f rs = map (\<lambda>r. if p r then f r else r) rs"

definition del_where :: "('r \<Rightarrow> bool) \<Rightarrow> 'r list \<Rightarrow> 'r list" where
  "del_where p rs = filter (\<lambda>r. \<not> p r) rs"

definition count_where :: "('r \<Rightarrow> bool) \<Rightarrow> 'r list \<Rightarrow> nat" where
  "count_where p rs = length (filter p rs)"

lemma set_del_where [tbl_simps]: "set (del_where p rs) = {r \<in> set rs. \<not> p r}"
  by (auto simp: del_where_def)

lemma set_upd_where [tbl_simps]:
  "set (upd_where p f rs) = (\<lambda>r. if p r then f r else r) ` set rs"
  by (simp add: upd_where_def)

lemma map_key_upd_where [tbl_simps]:
  "(\<And>r. p r \<Longrightarrow> k (f r) = k r) \<Longrightarrow> map k (upd_where p f rs) = map k rs"
  by (simp add: upd_where_def)

lemma distinct_map_del_where [tbl_simps]:
  "distinct (map k rs) \<Longrightarrow> distinct (map k (del_where p rs))"
  by (induction rs) (auto simp: del_where_def)

lemma del_where_none [tbl_simps]: "(\<And>r. r \<in> set rs \<Longrightarrow> \<not> p r) \<Longrightarrow> del_where p rs = rs"
  by (simp add: del_where_def)

lemma upd_where_none [tbl_simps]: "(\<And>r. r \<in> set rs \<Longrightarrow> \<not> p r) \<Longrightarrow> upd_where p f rs = rs"
  by (simp add: upd_where_def map_idI)

lemma count_where_0 [tbl_simps]: "count_where p rs = 0 \<longleftrightarrow> (\<forall>r \<in> set rs. \<not> p r)"
  by (auto simp: count_where_def filter_empty_conv)

lemma del_where_append [tbl_simps]: "del_where p (xs @ ys) = del_where p xs @ del_where p ys"
  by (simp add: del_where_def)

lemma upd_where_append [tbl_simps]:
  "upd_where p f (xs @ ys) = upd_where p f xs @ upd_where p f ys"
  by (simp add: upd_where_def)

lemma find_Some_in: "find p rs = Some r \<Longrightarrow> r \<in> set rs \<and> p r"
  by (auto simp: find_Some_iff)

lemma find_None_all: "find p rs = None \<longleftrightarrow> (\<forall>r \<in> set rs. \<not> p r)"
  by (auto simp: find_None_iff)

lemma find_append:
  "find p (xs @ ys) = (case find p xs of None \<Rightarrow> find p ys | Some x \<Rightarrow> Some x)"
  by (induction xs) auto

lemma find_unique:
  assumes "r \<in> set rs" and "p r" and "\<And>u. u \<in> set rs \<Longrightarrow> p u \<Longrightarrow> u = r"
  shows "find p rs = Some r"
proof (cases "find p rs")
  case None
  with assms(1,2) show ?thesis by (simp add: find_None_all)
next
  case (Some u)
  then have "u = r" using assms(3) [of u] find_Some_in [OF Some] by simp
  with Some show ?thesis by simp
qed

text \<open>With a key that is \<open>UNIQUE\<close>, looking a row up by the key finds exactly that row.\<close>

lemma find_by_key:
  "distinct (map k rs) \<Longrightarrow> r \<in> set rs \<Longrightarrow> find (\<lambda>x. k x = k r) rs = Some r"
  by (induction rs) (auto simp: image_iff)

lemma key_unique:
  "distinct (map k rs) \<Longrightarrow> r \<in> set rs \<Longrightarrow> r' \<in> set rs \<Longrightarrow> k r = k r' \<Longrightarrow> r = r'"
  by (auto simp: distinct_map inj_on_def)

lemma distinct_map_snoc:
  "distinct (map k (rs @ [r])) \<longleftrightarrow> distinct (map k rs) \<and> k r \<notin> k ` set rs"
  by auto

lemma find_upd_where_same:
  assumes "\<And>r. k (f r) = k r"
  shows "find (\<lambda>r. k r = x) (upd_where (\<lambda>r. k r = x) f rs)
     = map_option f (find (\<lambda>r. k r = x) rs)"
  by (induction rs) (auto simp: upd_where_def assms)

lemma find_upd_where_other:
  assumes "\<And>r. k (f r) = k r" and "\<And>r. k r = x \<Longrightarrow> \<not> p r"
  shows "find (\<lambda>r. k r = x) (upd_where p f rs) = find (\<lambda>r. k r = x) rs"
  using assms by (induction rs) (auto simp: upd_where_def)

end
