(* ===== verification/GoStrings.thy ===== *)
theory GoStrings
imports Prelude "HOL-Library.Sublist"
begin

text \<open>
  The part of Go's \<open>strings\<close> and \<open>strconv\<close> packages the program calls, on byte strings:
  prefixes and suffixes, \<open>TrimSpace\<close> with Unicode's white space in UTF-8, \<open>ToLower\<close>
  (exact on ASCII; the Unicode tables behind it are the parameter \<open>ul\<close>), \<open>Cut\<close>,
  decimal printing and \<open>Atoi\<close>.
\<close>

section \<open>Prefixes, suffixes, cutting\<close>

definition HasPrefix :: "string \<Rightarrow> string \<Rightarrow> bool" where
  "HasPrefix s p \<longleftrightarrow> take (length p) s = p"

definition TrimPrefix :: "string \<Rightarrow> string \<Rightarrow> string" where
  "TrimPrefix s p = (if HasPrefix s p then drop (length p) s else s)"

definition HasSuffix :: "string \<Rightarrow> string \<Rightarrow> bool" where
  "HasSuffix s p \<longleftrightarrow> length p \<le> length s \<and> drop (length s - length p) s = p"

definition TrimSuffix :: "string \<Rightarrow> string \<Rightarrow> string" where
  "TrimSuffix s p = (if HasSuffix s p then take (length s - length p) s else s)"

text \<open>\<open>strings.Cut\<close> at a one-byte separator: before, after, whether it occurs.\<close>

definition Cut :: "string \<Rightarrow> char \<Rightarrow> string \<times> string \<times> bool" where
  "Cut s c = (if c \<in> set s then (takeWhile (\<lambda>x. x \<noteq> c) s, tl (dropWhile (\<lambda>x. x \<noteq> c) s), True)
              else (s, [], False))"

lemma HasPrefix_append [simp]: "HasPrefix (p @ s) p"
  by (simp add: HasPrefix_def)

lemma TrimPrefix_append [simp]: "TrimPrefix (p @ s) p = s"
  by (simp add: TrimPrefix_def)

lemma HasSuffix_append [simp]: "HasSuffix (p @ s) s"
  by (simp add: HasSuffix_def)

lemma TrimSuffix_append [simp]: "TrimSuffix (p @ s) s = p"
  by (simp add: TrimSuffix_def)

lemma HasPrefix_iff: "HasPrefix s p \<longleftrightarrow> (\<exists>r. s = p @ r)"
  by (metis HasPrefix_append HasPrefix_def append_take_drop_id)

lemma HasPrefix_take: "HasPrefix (take n s) p \<Longrightarrow> HasPrefix s p"
  by (metis HasPrefix_iff append.assoc append_take_drop_id)

text \<open>\<open>strings.Split\<close> at a one-byte separator.\<close>

fun Split :: "char \<Rightarrow> string \<Rightarrow> string list" where
  "Split c [] = [[]]"
| "Split c (x # xs) =
     (if x = c then [] # Split c xs
      else case Split c xs of [] \<Rightarrow> [[x]] | y # ys \<Rightarrow> (x # y) # ys)"

lemma Split_none [simp]: "c \<notin> set p \<Longrightarrow> Split c p = [p]"
  by (induction p) auto

lemma Split_append [simp]: "c \<notin> set p \<Longrightarrow> Split c (p @ c # s) = p # Split c s"
  by (induction p) auto

section \<open>White space\<close>

text \<open>The UTF-8 encodings of \<open>unicode.IsSpace\<close>.\<close>

definition space_seqs :: "string list" where
  "space_seqs = map (map (\<lambda>n. char_of (n :: nat)))
     ([[9], [10], [11], [12], [13], [32], [0xC2, 0x85], [0xC2, 0xA0], [0xE1, 0x9A, 0x80]]
      @ map (\<lambda>k. [0xE2, 0x80, 0x80 + k]) [0..<11]
      @ [[0xE2, 0x80, 0xA8], [0xE2, 0x80, 0xA9], [0xE2, 0x80, 0xAF], [0xE2, 0x81, 0x9F],
         [0xE3, 0x80, 0x80]])"

function strip_front :: "string list \<Rightarrow> string \<Rightarrow> string" where
  "strip_front ws s =
     (case find (\<lambda>w. w \<noteq> [] \<and> HasPrefix s w) ws of
        None \<Rightarrow> s
      | Some w \<Rightarrow> strip_front ws (drop (length w) s))"
  by pat_completeness auto
termination
proof (relation "measure (\<lambda>(ws, s). length s)", goal_cases)
  case 1
  show ?case by simp
next
  case (2 ws s w)
  then have "w \<noteq> []" "HasPrefix s w" by (auto dest: find_Some_in)
  then have "s \<noteq> []" by (auto simp: HasPrefix_def)
  with \<open>w \<noteq> []\<close> show ?case by simp
qed

declare strip_front.simps [simp del]

definition TrimSpace :: "string \<Rightarrow> string" where
  "TrimSpace s = rev (strip_front (map rev space_seqs) (rev (strip_front space_seqs s)))"

lemma strip_front_clean:
  "w \<in> set ws \<Longrightarrow> w \<noteq> [] \<Longrightarrow> \<not> HasPrefix (strip_front ws s) w"
proof (induction ws s rule: strip_front.induct)
  case (1 ws s)
  then show ?case
    by (subst strip_front.simps) (auto split: option.splits simp: find_None_all)
qed

lemma strip_front_id:
  "(\<And>w. w \<in> set ws \<Longrightarrow> w \<noteq> [] \<Longrightarrow> \<not> HasPrefix s w) \<Longrightarrow> strip_front ws s = s"
  by (subst strip_front.simps) (auto split: option.splits dest: find_Some_in)

lemma strip_front_suffix: "\<exists>p. s = p @ strip_front ws s"
proof (induction ws s rule: strip_front.induct)
  case (1 ws s)
  show ?case
  proof (cases "find (\<lambda>w. w \<noteq> [] \<and> HasPrefix s w) ws")
    case None
    then show ?thesis by (subst strip_front.simps) simp
  next
    case (Some w)
    with "1.IH" obtain p where "drop (length w) s = p @ strip_front ws (drop (length w) s)"
      by blast
    then have "s = (take (length w) s @ p) @ strip_front ws (drop (length w) s)"
      by (metis append.assoc append_take_drop_id)
    moreover have "strip_front ws s = strip_front ws (drop (length w) s)"
      using Some by (subst strip_front.simps) simp
    ultimately show ?thesis by metis
  qed
qed

lemma TrimSpace_clean:
  assumes "w \<in> set space_seqs" and "w \<noteq> []"
  shows "\<not> HasPrefix (TrimSpace s) w" and "\<not> HasPrefix (rev (TrimSpace s)) (rev w)"
proof -
  let ?l = "strip_front space_seqs s"
  obtain p where "rev ?l = p @ strip_front (map rev space_seqs) (rev ?l)"
    using strip_front_suffix by blast
  then have "?l = TrimSpace s @ rev p"
    by (metis TrimSpace_def rev_append rev_rev_ident)
  then have "HasPrefix (TrimSpace s) w \<Longrightarrow> HasPrefix ?l w"
    by (metis HasPrefix_iff append.assoc)
  with strip_front_clean [OF assms] show "\<not> HasPrefix (TrimSpace s) w" by blast
  show "\<not> HasPrefix (rev (TrimSpace s)) (rev w)"
    using strip_front_clean [of "rev w" "map rev space_seqs" "rev ?l"] assms
    by (simp add: TrimSpace_def)
qed

lemma TrimSpace_id:
  assumes "\<And>w. w \<in> set space_seqs \<Longrightarrow> \<not> HasPrefix s w"
    and "\<And>w. w \<in> set space_seqs \<Longrightarrow> \<not> HasPrefix (rev s) (rev w)"
  shows "TrimSpace s = s"
proof -
  have "strip_front space_seqs s = s"
    using assms(1) by (intro strip_front_id) auto
  moreover have "strip_front (map rev space_seqs) (rev s) = rev s"
    using assms(2) by (intro strip_front_id) auto
  ultimately show ?thesis by (simp add: TrimSpace_def)
qed

lemma TrimSpace_idem: "TrimSpace (TrimSpace s) = TrimSpace s"
proof (rule TrimSpace_id)
  fix w
  assume w: "w \<in> set space_seqs"
  then have "w \<noteq> []" by (auto simp: space_seqs_def)
  with w show "\<not> HasPrefix (TrimSpace s) w" "\<not> HasPrefix (rev (TrimSpace s)) (rev w)"
    by (rule TrimSpace_clean)+
qed

text \<open>A string whose first and last characters are visible ASCII has nothing to trim.\<close>

definition visible :: "char \<Rightarrow> bool" where
  "visible c \<longleftrightarrow> 32 < (of_char c :: nat) \<and> (of_char c :: nat) < 127"

lemma space_not_visible:
  "w \<in> set space_seqs \<Longrightarrow> w \<noteq> [] \<and> \<not> visible (hd w) \<and> \<not> visible (last w)"
  by (auto simp: space_seqs_def visible_def)

lemma HasPrefix_hd: "HasPrefix s w \<Longrightarrow> w \<noteq> [] \<Longrightarrow> s \<noteq> [] \<and> hd s = hd w"
  by (cases s; cases w) (auto simp: HasPrefix_def)

lemma TrimSpace_visible:
  assumes "s = [] \<or> visible (hd s) \<and> visible (last s)"
  shows "TrimSpace s = s"
proof (rule TrimSpace_id)
  fix w
  assume "w \<in> set space_seqs"
  note w = space_not_visible [OF this]
  show "\<not> HasPrefix s w" using w assms HasPrefix_hd [of s w] by metis
  show "\<not> HasPrefix (rev s) (rev w)"
    using w assms HasPrefix_hd [of "rev s" "rev w"] by (metis hd_rev rev_is_Nil_conv)
qed

section \<open>Case\<close>

definition is_ascii :: "string \<Rightarrow> bool" where
  "is_ascii s \<longleftrightarrow> list_all (\<lambda>c. (of_char c :: nat) < 128) s"

definition lower_char :: "char \<Rightarrow> char" where
  "lower_char c = (if 65 \<le> (of_char c :: nat) \<and> (of_char c :: nat) \<le> 90
                   then char_of ((of_char c :: nat) + 32) else c)"

definition ToLower :: "(string \<Rightarrow> string) \<Rightarrow> string \<Rightarrow> string" where
  "ToLower ul s = (if is_ascii s then map lower_char s else ul s)"

lemma of_char_lower_char: "(of_char (lower_char c) :: nat) =
    (if 65 \<le> (of_char c :: nat) \<and> (of_char c :: nat) \<le> 90 then of_char c + 32 else of_char c)"
  by (simp add: lower_char_def)

lemma lower_char_idem [simp]: "lower_char (lower_char c) = lower_char c"
  by (simp add: lower_char_def)

lemma is_ascii_lower [simp]: "is_ascii (map lower_char s) = is_ascii s"
  by (induction s) (auto simp: is_ascii_def of_char_lower_char)

lemma is_ascii_append [simp]: "is_ascii (a @ b) \<longleftrightarrow> is_ascii a \<and> is_ascii b"
  by (simp add: is_ascii_def)

lemma ToLower_ascii: "is_ascii s \<Longrightarrow> ToLower ul s = map lower_char s"
  by (simp add: ToLower_def)

lemma ToLower_idem_ascii: "is_ascii s \<Longrightarrow> ToLower ul (ToLower ul s) = ToLower ul s"
  by (simp add: ToLower_def comp_def)

section \<open>Decimal numbers\<close>

definition digit_char :: "nat \<Rightarrow> char" where
  "digit_char n = char_of (48 + n)"

definition is_digit :: "char \<Rightarrow> bool" where
  "is_digit c \<longleftrightarrow> 48 \<le> (of_char c :: nat) \<and> (of_char c :: nat) \<le> 57"

definition digit_val :: "char \<Rightarrow> nat" where
  "digit_val c = of_char c - 48"

fun dec_nat :: "nat \<Rightarrow> string" where
  "dec_nat n = (if n < 10 then [digit_char n] else dec_nat (n div 10) @ [digit_char (n mod 10)])"

declare dec_nat.simps [simp del]

definition dec_int :: "int \<Rightarrow> string" where
  "dec_int x = (if x < 0 then CHR ''-'' # dec_nat (nat (- x)) else dec_nat (nat x))"

definition undec :: "string \<Rightarrow> nat" where
  "undec s = foldl (\<lambda>n c. 10 * n + digit_val c) 0 s"

text \<open>\<open>strconv.Atoi\<close>: an optional sign, at least one digit, the value must fit an \<open>int\<close>.\<close>

definition Atoi :: "string \<Rightarrow> int option" where
  "Atoi s =
     (let neg = (s \<noteq> [] \<and> hd s = CHR ''-'');
          ds = (if s \<noteq> [] \<and> (hd s = CHR ''-'' \<or> hd s = CHR ''+'') then tl s else s);
          v = (if neg then - int (undec ds) else int (undec ds))
      in if ds = [] \<or> \<not> list_all is_digit ds \<or> \<not> in_int64 v then None else Some v)"

lemma digit_char_props [simp]:
  "n < 10 \<Longrightarrow> is_digit (digit_char n)" "n < 10 \<Longrightarrow> digit_val (digit_char n) = n"
  by (simp_all add: is_digit_def digit_char_def digit_val_def)

lemma dec_nat_digits: "list_all is_digit (dec_nat n)"
  by (induction n rule: dec_nat.induct) (subst dec_nat.simps, auto)

lemma dec_nat_nonempty: "dec_nat n \<noteq> []"
  by (subst dec_nat.simps) simp

lemma undec_dec_nat: "undec (dec_nat n) = n"
proof (induction n rule: dec_nat.induct)
  case (1 n)
  then show ?case by (subst dec_nat.simps) (auto simp: undec_def)
qed

lemma not_digit_sign: "\<not> is_digit CHR ''-''" "\<not> is_digit CHR ''+''"
  by (simp_all add: is_digit_def)

lemma Atoi_dec_int: "in_int64 x \<Longrightarrow> Atoi (dec_int x) = Some x"
proof -
  assume x: "in_int64 x"
  have hd: "is_digit (hd (dec_nat n))" for n
    using dec_nat_digits [of n] dec_nat_nonempty [of n] by (cases "dec_nat n") auto
  then have "hd (dec_nat n) \<noteq> CHR ''-''" "hd (dec_nat n) \<noteq> CHR ''+''" for n
    using not_digit_sign by metis+
  with x show ?thesis
    by (auto simp: Atoi_def dec_int_def dec_nat_digits dec_nat_nonempty undec_dec_nat)
qed

lemma dec_int_inject: "dec_int x = dec_int y \<Longrightarrow> x = y"
proof -
  assume eq: "dec_int x = dec_int y"
  have neg: "dec_int z = CHR ''-'' # r \<Longrightarrow> z < 0" for z r
    using dec_nat_digits [of "nat z"] not_digit_sign
    by (cases "dec_nat (nat z)") (auto simp: dec_int_def split: if_splits)
  have *: "nat (- x) = nat (- y)" if "x < 0" "y < 0"
    using eq that by (metis dec_int_def list.inject undec_dec_nat)
  have **: "nat x = nat y" if "\<not> x < 0" "\<not> y < 0"
    using eq that by (metis dec_int_def undec_dec_nat)
  have "x < 0 \<longleftrightarrow> y < 0"
    using neg eq by (metis dec_int_def)
  with * ** show ?thesis by (cases "x < 0") auto
qed

end
