(* ===== verification/Tokens.thy ===== *)
theory Tokens
imports GoStrings
begin

text \<open>
  Random credentials and their digests (\<open>internal/db/db.go\<close>, \<open>internal/api/server.go\<close>):
  hexadecimal encoding, client tokens, API keys, the human-typeable codes, and the digest under
  which a credential is stored. The random source is an argument (\<open>None\<close> when \<open>rand.Read\<close>
  fails), and so is SHA-256: every theorem holds for each of its results.
\<close>

section \<open>Hexadecimal\<close>

definition hex_digit :: "nat \<Rightarrow> char" where
  "hex_digit n = char_of (if n < 10 then 48 + n else 87 + n)"

definition hex_encode :: "byte list \<Rightarrow> string" where
  "hex_encode bs = concat (map (\<lambda>b. [hex_digit (unat b div 16), hex_digit (unat b mod 16)]) bs)"

definition is_hex :: "char \<Rightarrow> bool" where
  "is_hex c \<longleftrightarrow> (48 \<le> (of_char c :: nat) \<and> (of_char c :: nat) \<le> 57)
     \<or> (97 \<le> (of_char c :: nat) \<and> (of_char c :: nat) \<le> 102)"

lemma is_hex_hex_digit: "n < 16 \<Longrightarrow> is_hex (hex_digit n)"
  by (auto simp: is_hex_def hex_digit_def)

lemma hex_digit_inject: "m < 16 \<Longrightarrow> n < 16 \<Longrightarrow> hex_digit m = hex_digit n \<longleftrightarrow> m = n"
proof
  assume "m < 16" "n < 16" "hex_digit m = hex_digit n"
  then have "(of_char (hex_digit m) :: nat) = of_char (hex_digit n)" by simp
  with \<open>m < 16\<close> \<open>n < 16\<close> show "m = n" by (auto simp: hex_digit_def split: if_splits)
qed simp

lemma hex_encode_simps [simp]:
  "hex_encode [] = []"
  "hex_encode (b # bs) = hex_digit (unat b div 16) # hex_digit (unat b mod 16) # hex_encode bs"
  by (simp_all add: hex_encode_def)

lemma length_hex_encode [simp]: "length (hex_encode bs) = 2 * length bs"
  by (induction bs) auto

lemma byte_nibbles [simp]: "unat (b :: byte) div 16 < 16" "unat (b :: byte) mod 16 < 16"
  using unat_less_256 [of b] by auto

lemma hex_encode_hex: "list_all is_hex (hex_encode bs)"
  by (induction bs) (auto simp: is_hex_hex_digit)

lemma hex_encode_inject: "hex_encode as = hex_encode bs \<longleftrightarrow> as = bs"
proof
  show "hex_encode as = hex_encode bs \<Longrightarrow> as = bs"
  proof (induction as arbitrary: bs)
    case Nil
    then show ?case by (cases bs) auto
  next
    case (Cons a as)
    then obtain b bs' where bs: "bs = b # bs'" by (cases bs) auto
    with Cons.prems have "unat a div 16 = unat b div 16" "unat a mod 16 = unat b mod 16"
      by (auto simp: hex_digit_inject)
    then have "unat a = unat b" by (metis div_mult_mod_eq)
    then have "a = b" by (simp add: word_unat_eq_iff)
    with Cons bs show ?case by auto
  qed
qed simp

section \<open>Tokens, API keys, codes\<close>

datatype tokerr = RandFailed

text \<open>\<open>HashToken\<close>: the digest of the token's bytes, in hexadecimal.\<close>

definition HashToken :: "(byte list \<Rightarrow> byte list) \<Rightarrow> string \<Rightarrow> string" where
  "HashToken sha256 token = hex_encode (sha256 (bytes_of token))"

definition GenerateToken ::
    "(byte list \<Rightarrow> byte list) \<Rightarrow> byte list option \<Rightarrow> tokerr + string \<times> string" where
  "GenerateToken sha256 rand =
     (case rand of
        None \<Rightarrow> Inl RandFailed
      | Some raw \<Rightarrow>
          (let token = ''ptly_'' @ hex_encode raw;
               sum = sha256 (bytes_of token);
               hash = hex_encode sum
           in Inr (token, hash)))"

definition GenerateAPIKey ::
    "(byte list \<Rightarrow> byte list) \<Rightarrow> byte list option \<Rightarrow> tokerr + string \<times> string" where
  "GenerateAPIKey sha256 rand =
     (case rand of
        None \<Rightarrow> Inl RandFailed
      | Some raw \<Rightarrow>
          (let key = ''ptly_api_'' @ hex_encode raw;
               sum = sha256 (bytes_of key);
               hash = hex_encode sum
           in Inr (key, hash)))"

definition enrollCodeAlphabet :: string where
  "enrollCodeAlphabet = ''ABCDEFGHJKLMNPQRSTUVWXYZ23456789''"

text \<open>\<open>randomCode n\<close>: one alphabet letter per random byte, by remainder.\<close>

definition code_char :: "byte \<Rightarrow> char" where
  "code_char v = enrollCodeAlphabet ! (unat v mod length enrollCodeAlphabet)"

definition randomCode :: "nat \<Rightarrow> byte list option \<Rightarrow> tokerr + string" where
  "randomCode n rand =
     (case rand of None \<Rightarrow> Inl RandFailed | Some raw \<Rightarrow> Inr (map code_char (take n raw)))"

text \<open>\<open>randomHex\<close> of the API server ignores the reader's error, leaving the buffer as it is.\<close>

definition randomHex :: "nat \<Rightarrow> byte list option \<Rightarrow> string" where
  "randomHex n rand =
     (case rand of None \<Rightarrow> hex_encode (replicate n 0) | Some raw \<Rightarrow> hex_encode (take n raw))"

lemma GenerateToken_hash:
  "GenerateToken sha r = Inr (t, h) \<Longrightarrow> h = HashToken sha t"
  by (auto simp: GenerateToken_def HashToken_def Let_def split: option.splits)

lemma GenerateAPIKey_hash:
  "GenerateAPIKey sha r = Inr (t, h) \<Longrightarrow> h = HashToken sha t"
  by (auto simp: GenerateAPIKey_def HashToken_def Let_def split: option.splits)

lemma not_is_hex_p: "\<not> is_hex (CHR ''p'')"
  by (simp add: is_hex_def)

lemma hex_no_api_prefix: "list_all is_hex h \<Longrightarrow> \<not> HasPrefix (''ptly_'' @ h) ''ptly_api_''"
  using not_is_hex_p by (cases h; cases "tl h") (auto simp: HasPrefix_def)

lemma GenerateToken_not_api:
  "GenerateToken sha r = Inr (t, h) \<Longrightarrow> \<not> HasPrefix t ''ptly_api_''"
  by (auto simp: GenerateToken_def Let_def hex_encode_hex hex_no_api_prefix
           split: option.splits simp del: append.simps append_Cons)

lemma GenerateAPIKey_prefix:
  "GenerateAPIKey sha r = Inr (t, h) \<Longrightarrow> HasPrefix t ''ptly_api_''"
  by (auto simp: GenerateAPIKey_def Let_def HasPrefix_def split: option.splits)

lemma length_alphabet [simp]: "length enrollCodeAlphabet = 32"
  by (simp add: enrollCodeAlphabet_def)

lemma distinct_alphabet: "distinct enrollCodeAlphabet"
  by (simp add: enrollCodeAlphabet_def)

lemma code_char_in: "code_char v \<in> set enrollCodeAlphabet"
  by (simp add: code_char_def)

lemma length_randomCode:
  "randomCode n (Some raw) = Inr c \<Longrightarrow> length raw = n \<Longrightarrow> length c = n"
  by (auto simp: randomCode_def)

lemma randomCode_alphabet: "randomCode n r = Inr c \<Longrightarrow> set c \<subseteq> set enrollCodeAlphabet"
  by (auto simp: randomCode_def code_char_in split: option.splits)

text \<open>The alphabet has 32 letters and 32 divides 256: each letter comes from eight byte values.\<close>

lemma code_char_uniform:
  assumes "c \<in> set enrollCodeAlphabet"
  shows "card {v :: byte. code_char v = c} = 8"
proof -
  from assms obtain i where i: "i < 32" "c = enrollCodeAlphabet ! i"
    by (metis in_set_conv_nth length_alphabet)
  have "code_char v = c \<longleftrightarrow> unat v mod 32 = i" for v :: byte
    using i distinct_alphabet by (simp add: code_char_def nth_eq_iff_index_eq)
  then have "{v :: byte. code_char v = c} = word_of_nat ` {n. n < 256 \<and> n mod 32 = i}"
  proof (intro set_eqI iffI)
    fix v :: byte
    assume *: "\<And>v. (code_char v = c) = (unat v mod 32 = i)" and "v \<in> {v. code_char v = c}"
    then have "unat v \<in> {n. n < 256 \<and> n mod 32 = i}" using unat_less_256 by auto
    moreover have "v = word_of_nat (unat v)" by simp
    ultimately show "v \<in> word_of_nat ` {n. n < 256 \<and> n mod 32 = i}" by blast
  next
    fix v :: byte
    assume *: "\<And>v. (code_char v = c) = (unat v mod 32 = i)"
      and "v \<in> word_of_nat ` {n. n < 256 \<and> n mod 32 = i}"
    then obtain n where "n < 256" "n mod 32 = i" "v = word_of_nat n" by auto
    then show "v \<in> {v. code_char v = c}" by (simp add: * unat_of_nat)
  qed
  moreover have "inj_on (word_of_nat :: nat \<Rightarrow> byte) {n. n < 256 \<and> n mod 32 = i}"
    by (auto simp: inj_on_def word_of_nat_eq_iff take_bit_nat_eq_self)
  moreover have "{n. n < 256 \<and> n mod 32 = i} = (\<lambda>k. 32 * k + i) ` {..<8}"
  proof (rule set_eqI, rule iffI)
    fix n
    assume "n \<in> {n. n < 256 \<and> n mod 32 = i}"
    then have "n = 32 * (n div 32) + i" "n div 32 < 8" by auto
    then show "n \<in> (\<lambda>k. 32 * k + i) ` {..<8}" by blast
  qed (use i in auto)
  moreover have "card ((\<lambda>k. 32 * k + i) ` {..<8}) = 8"
    by (subst card_image) (auto simp: inj_on_def)
  ultimately show ?thesis by (simp add: card_image)
qed

end
