(* ===== verification/Database.thy ===== *)
theory Database
imports Tokens
begin

text \<open>
  The SQLite data layer (\<open>internal/db/db.go\<close> over \<open>internal/db/schema.sql\<close>): the rows of
  each table, the database state, SQL statements with their UNIQUE, PRIMARY KEY and foreign-key
  checks, transactions, and one definition per method of \<open>DB\<close>. Identifiers
  (\<open>uuid.NewString\<close>), random bytes, the clock (Unix seconds) and SHA-256 are arguments. A call
  on a closed handle fails with \<open>DBClosed\<close>; other driver failures are not modelled.
\<close>

section \<open>Rows and structs\<close>

record AdminUser =
  a_ID :: string
  a_Username :: string
  a_PasswordHash :: string
  a_MustChangePassword :: bool

record Client =
  c_ID :: string
  c_Name :: string
  c_TokenHash :: string
  c_CreatedAt :: int
  c_LastSeen :: "int option"
  c_TrafficLimitBytes :: "int option"

text \<open>A row of \<open>tunnels\<close>; \<open>public_port\<close> is nullable. The struct the code hands out follows.\<close>

record tunnel_row =
  r_id :: string
  r_client_id :: string
  r_name :: string
  r_local_host :: string
  r_local_port :: int
  r_public_port :: "int option"
  r_protocol :: string
  r_enabled :: bool
  r_traffic_limit :: "int option"
  r_public_hostname :: string
  r_proxy_protocol :: bool
  r_bytes_in :: int
  r_bytes_out :: int
  r_created_at :: int

record Tunnel =
  t_ID :: string
  t_ClientID :: string
  t_Name :: string
  t_LocalHost :: string
  t_LocalPort :: int
  t_PublicPort :: int
  t_Protocol :: string
  t_Enabled :: bool
  t_TrafficLimitBytes :: "int option"
  t_PublicHostname :: string
  t_ProxyProtocol :: bool
  t_BytesInTotal :: int
  t_BytesOutTotal :: int
  t_CreatedAt :: int

record sample_row =
  s_tunnel_id :: string
  s_ts :: int
  s_bytes_in :: int
  s_bytes_out :: int

record enroll_row =
  e_client_id :: string
  e_token :: string
  e_created_at :: int
  e_expires_at :: int

record ApiKey =
  k_ID :: string
  k_Name :: string
  k_TokenHash :: string
  k_CreatedAt :: int
  k_LastUsed :: "int option"

record db =
  d_open :: bool
  d_admins :: "AdminUser list"
  d_clients :: "Client list"
  d_tunnels :: "tunnel_row list"
  d_samples :: "sample_row list"
  d_settings :: "string \<rightharpoonup> string"
  d_revoked :: "string \<rightharpoonup> int"
  d_api_keys :: "ApiKey list"
  d_codes :: "string \<rightharpoonup> enroll_row"

definition fresh_db :: db where
  "fresh_db = \<lparr>d_open = True, d_admins = [], d_clients = [], d_tunnels = [], d_samples = [],
     d_settings = Map.empty, d_revoked = Map.empty, d_api_keys = [], d_codes = Map.empty\<rparr>"

datatype dberr =
    DBClosed
  | ErrNoRows
  | ConstraintFailed
  | IntegerOverflow
  | InvalidSetupCode
  | InvalidEnrollmentCode
  | EnrollmentCodeExpired
  | TokErr tokerr

type_synonym 'a dbm = "(db, dberr, 'a) sem"

section \<open>Statements and transactions\<close>

definition queryM :: "(db \<Rightarrow> dberr + 'a) \<Rightarrow> 'a dbm" where
  "queryM q d = (if d_open d then q d else Inl DBClosed, d)"

text \<open>\<open>Exec\<close>: the affected-row count and the new state, or an error and no change.\<close>

definition execM :: "(db \<Rightarrow> dberr + nat \<times> db) \<Rightarrow> nat dbm" where
  "execM u d = (if \<not> d_open d then (Inl DBClosed, d)
     else case u d of Inl e \<Rightarrow> (Inl e, d) | Inr (n, d') \<Rightarrow> (Inr n, d'))"

text \<open>\<open>Begin\<close>, the body, then \<open>Commit\<close>; the deferred \<open>Rollback\<close> undoes a body that failed.\<close>

definition with_tx :: "'a dbm \<Rightarrow> 'a dbm" where
  "with_tx m d = (if \<not> d_open d then (Inl DBClosed, d)
     else case m d of (Inl e, _) \<Rightarrow> (Inl e, d) | (Inr x, d') \<Rightarrow> (Inr x, d'))"

definition tokM :: "tokerr + 'a \<Rightarrow> 'a dbm" where
  "tokM r = liftM (map_sum TokErr id r)"

text \<open>\<open>RowsAffected() == 0\<close> is reported as \<open>sql.ErrNoRows\<close>.\<close>

definition requireRow :: "nat \<Rightarrow> unit dbm" where
  "requireRow n = (if n = 0 then failM ErrNoRows else retM ())"

declare queryM_def [dbm_simps] execM_def [dbm_simps] tokM_def [dbm_simps]
  requireRow_def [dbm_simps]

lemma with_tx_rollback: "with_tx m d = (Inl e, d') \<Longrightarrow> d' = d"
  by (auto simp: with_tx_def split: if_splits prod.splits sum.splits)

lemma with_tx_commit: "with_tx m d = (Inr x, d') \<Longrightarrow> m d = (Inr x, d') \<and> d_open d"
  by (auto simp: with_tx_def split: if_splits prod.splits sum.splits)

lemma with_tx_Inr: "d_open d \<Longrightarrow> m d = (Inr x, d') \<Longrightarrow> with_tx m d = (Inr x, d')"
  by (simp add: with_tx_def)

lemma with_tx_cong: "m d = m' d \<Longrightarrow> with_tx m d = with_tx m' d"
  by (simp add: with_tx_def)

lemma keeps_query [keeps_intros]: "keeps I (queryM q)"
  by (simp add: keeps_def queryM_def)

lemma keeps_tok [keeps_intros]: "keeps I (tokM r)"
  by (simp add: tokM_def keeps_lift)

lemma keeps_requireRow [keeps_intros]: "keeps I (requireRow n)"
  by (simp add: requireRow_def keeps_ret keeps_fail)

lemma keeps_exec:
  "(\<And>d n d'. I d \<Longrightarrow> d_open d \<Longrightarrow> u d = Inr (n, d') \<Longrightarrow> I d') \<Longrightarrow> keeps I (execM u)"
  by (auto simp: keeps_def execM_def split: sum.splits)

lemma keeps_exec_always: "(\<And>d. I d \<Longrightarrow> I (g d)) \<Longrightarrow> keeps I (execM (\<lambda>d. Inr (k d, g d)))"
  by (auto simp: keeps_def execM_def)

lemma keeps_exec_check:
  "(\<And>d. I d \<Longrightarrow> \<not> c d \<Longrightarrow> I (g d)) \<Longrightarrow> keeps I (execM (\<lambda>d. if c d then Inl e else Inr (k d, g d)))"
  by (auto simp: keeps_def execM_def)

lemma keeps_tx [keeps_intros]: "keeps I m \<Longrightarrow> keeps I (with_tx m)"
  by (fastforce simp: keeps_def with_tx_def split: prod.splits sum.splits)

definition CloseDB :: "db \<Rightarrow> (dberr + unit) \<times> db" where
  "CloseDB d = (Inr (), d\<lparr>d_open := False\<rparr>)"

section \<open>Admin account and settings\<close>

definition setupCodeSettingKey :: string where
  "setupCodeSettingKey = ''setup_code''"

definition HasAdminUser :: "bool dbm" where
  "HasAdminUser = queryM (\<lambda>d. Inr (0 < length (d_admins d)))"

definition GetAdminUser :: "AdminUser dbm" where
  "GetAdminUser = queryM (\<lambda>d. case d_admins d of [] \<Rightarrow> Inl ErrNoRows | a # _ \<Rightarrow> Inr a)"

definition insert_admin :: "AdminUser \<Rightarrow> nat dbm" where
  "insert_admin a = execM (\<lambda>d.
     if list_ex (\<lambda>b. a_ID b = a_ID a \<or> a_Username b = a_Username a) (d_admins d)
     then Inl ConstraintFailed else Inr (1, d\<lparr>d_admins := d_admins d @ [a]\<rparr>))"

definition CreateAdminUser :: "string \<Rightarrow> string \<Rightarrow> string \<Rightarrow> AdminUser dbm" where
  "CreateAdminUser uuid username passwordHash =
     (let a = \<lparr>a_ID = uuid, a_Username = username, a_PasswordHash = passwordHash,
               a_MustChangePassword = False\<rparr>
      in bindM (insert_admin a) (\<lambda>_. retM a))"

definition UpdateAdminCredentials :: "string \<Rightarrow> string \<Rightarrow> string \<Rightarrow> bool \<Rightarrow> nat dbm" where
  "UpdateAdminCredentials uid username passwordHash mustChange = execM (\<lambda>d.
     if list_ex (\<lambda>a. a_ID a = uid) (d_admins d)
        \<and> list_ex (\<lambda>a. a_ID a \<noteq> uid \<and> a_Username a = username) (d_admins d)
     then Inl ConstraintFailed
     else Inr (count_where (\<lambda>a. a_ID a = uid) (d_admins d),
               d\<lparr>d_admins := upd_where (\<lambda>a. a_ID a = uid)
                  (\<lambda>a. a\<lparr>a_Username := username, a_PasswordHash := passwordHash,
                         a_MustChangePassword := mustChange\<rparr>) (d_admins d)\<rparr>))"

definition GetSetting :: "string \<Rightarrow> string option dbm" where
  "GetSetting key = queryM (\<lambda>d. Inr (d_settings d key))"

definition SetSetting :: "string \<Rightarrow> string \<Rightarrow> nat dbm" where
  "SetSetting key val = execM (\<lambda>d. Inr (1, d\<lparr>d_settings := (d_settings d)(key \<mapsto> val)\<rparr>))"

definition DeleteSetting :: "string \<Rightarrow> nat dbm" where
  "DeleteSetting key = execM (\<lambda>d.
     Inr (if d_settings d key = None then 0 else 1,
          d\<lparr>d_settings := (d_settings d)(key := None)\<rparr>))"

definition EnsureSetupCode :: "byte list option \<Rightarrow> (string \<times> bool) dbm" where
  "EnsureSetupCode rand =
     bindM HasAdminUser (\<lambda>hasAdmin.
       if hasAdmin then retM ([], True)
       else bindM (GetSetting setupCodeSettingKey) (\<lambda>r.
         case r of
           Some existing \<Rightarrow> retM (existing, False)
         | None \<Rightarrow>
             bindM (tokM (randomCode 12 rand)) (\<lambda>code.
             bindM (SetSetting setupCodeSettingKey code) (\<lambda>_. retM (code, False)))))"

definition ClaimSetupCode :: "string \<Rightarrow> unit dbm" where
  "ClaimSetupCode code =
     bindM (GetSetting setupCodeSettingKey) (\<lambda>r.
       case r of
         None \<Rightarrow> failM InvalidSetupCode
       | Some stored \<Rightarrow>
           if code = [] \<or> stored \<noteq> code then failM InvalidSetupCode
           else bindM (DeleteSetting setupCodeSettingKey) (\<lambda>_. retM ()))"

section \<open>Clients\<close>

definition insert_client :: "Client \<Rightarrow> nat dbm" where
  "insert_client c = execM (\<lambda>d.
     if list_ex (\<lambda>b. c_ID b = c_ID c \<or> c_Name b = c_Name c \<or> c_TokenHash b = c_TokenHash c)
          (d_clients d)
     then Inl ConstraintFailed else Inr (1, d\<lparr>d_clients := d_clients d @ [c]\<rparr>))"

definition CreateClient ::
    "(byte list \<Rightarrow> byte list) \<Rightarrow> byte list option \<Rightarrow> string \<Rightarrow> int \<Rightarrow> string \<Rightarrow> (Client \<times> string) dbm"
where
  "CreateClient sha256 rand uuid now name =
     bindM (tokM (GenerateToken sha256 rand)) (\<lambda>(token, hash).
       let c = \<lparr>c_ID = uuid, c_Name = name, c_TokenHash = hash, c_CreatedAt = now,
                c_LastSeen = None, c_TrafficLimitBytes = None\<rparr>
       in bindM (insert_client c) (\<lambda>_. retM (c, token)))"

definition update_clients :: "string \<Rightarrow> (Client \<Rightarrow> Client) \<Rightarrow> nat dbm" where
  "update_clients cid f = execM (\<lambda>d.
     Inr (count_where (\<lambda>c. c_ID c = cid) (d_clients d),
          d\<lparr>d_clients := upd_where (\<lambda>c. c_ID c = cid) f (d_clients d)\<rparr>))"

text \<open>The token digest is \<open>UNIQUE\<close>: the update fails when another row already holds it.\<close>

definition RotateClientToken ::
    "(byte list \<Rightarrow> byte list) \<Rightarrow> byte list option \<Rightarrow> string \<Rightarrow> string dbm" where
  "RotateClientToken sha256 rand clientID =
     bindM (tokM (GenerateToken sha256 rand)) (\<lambda>(token, hash).
     bindM (execM (\<lambda>d.
         if list_ex (\<lambda>c. c_ID c = clientID) (d_clients d)
            \<and> list_ex (\<lambda>c. c_ID c \<noteq> clientID \<and> c_TokenHash c = hash) (d_clients d)
         then Inl ConstraintFailed
         else Inr (count_where (\<lambda>c. c_ID c = clientID) (d_clients d),
                   d\<lparr>d_clients := upd_where (\<lambda>c. c_ID c = clientID)
                      (\<lambda>c. c\<lparr>c_TokenHash := hash\<rparr>) (d_clients d)\<rparr>))) (\<lambda>n.
     bindM (requireRow n) (\<lambda>_. retM token)))"

definition row_or_err :: "'a option \<Rightarrow> dberr + 'a" where
  "row_or_err r = (case r of None \<Rightarrow> Inl ErrNoRows | Some x \<Rightarrow> Inr x)"

definition GetClientByTokenHash :: "string \<Rightarrow> Client dbm" where
  "GetClientByTokenHash hash =
     queryM (\<lambda>d. row_or_err (find (\<lambda>c. c_TokenHash c = hash) (d_clients d)))"

definition GetClientByID :: "string \<Rightarrow> Client dbm" where
  "GetClientByID cid = queryM (\<lambda>d. row_or_err (find (\<lambda>c. c_ID c = cid) (d_clients d)))"

definition ListClients :: "Client list dbm" where
  "ListClients = queryM (\<lambda>d. Inr (sort_key c_CreatedAt (d_clients d)))"

definition UpdateClientTrafficLimit :: "string \<Rightarrow> int option \<Rightarrow> unit dbm" where
  "UpdateClientTrafficLimit cid limit =
     bindM (update_clients cid (\<lambda>c. c\<lparr>c_TrafficLimitBytes := limit\<rparr>)) requireRow"

definition UpdateClientLastSeen :: "int \<Rightarrow> string \<Rightarrow> nat dbm" where
  "UpdateClientLastSeen now cid = update_clients cid (\<lambda>c. c\<lparr>c_LastSeen := Some now\<rparr>)"

text \<open>\<open>DELETE FROM clients WHERE p\<close> cascades to tunnels, their samples, and enrollment codes.\<close>

definition cascade_clients :: "(Client \<Rightarrow> bool) \<Rightarrow> db \<Rightarrow> db" where
  "cascade_clients p d =
     (let gone = map c_ID (filter p (d_clients d));
          tgone = map r_id (filter (\<lambda>t. List.member gone (r_client_id t)) (d_tunnels d))
      in d\<lparr>d_clients := del_where p (d_clients d),
           d_tunnels := del_where (\<lambda>t. List.member gone (r_client_id t)) (d_tunnels d),
           d_samples := del_where (\<lambda>s. List.member tgone (s_tunnel_id s)) (d_samples d),
           d_codes := (\<lambda>h. case d_codes d h of None \<Rightarrow> None
              | Some e \<Rightarrow> if List.member gone (e_client_id e) then None else Some e)\<rparr>)"

definition delete_clients :: "(Client \<Rightarrow> bool) \<Rightarrow> nat dbm" where
  "delete_clients p = execM (\<lambda>d. Inr (count_where p (d_clients d), cascade_clients p d))"

definition revoke_token :: "int \<Rightarrow> string \<Rightarrow> nat dbm" where
  "revoke_token now hash = execM (\<lambda>d. Inr (1, d\<lparr>d_revoked := (d_revoked d)(hash \<mapsto> now)\<rparr>))"

definition DeleteClient :: "int \<Rightarrow> string \<Rightarrow> unit dbm" where
  "DeleteClient now cid = with_tx
     (bindM (queryM (\<lambda>d. row_or_err (map_option c_TokenHash
                           (find (\<lambda>c. c_ID c = cid) (d_clients d))))) (\<lambda>tokenHash.
      bindM (delete_clients (\<lambda>c. c_ID c = cid)) (\<lambda>_.
      bindM (revoke_token now tokenHash) (\<lambda>_. retM ()))))"

fun revoke_all :: "int \<Rightarrow> string list \<Rightarrow> unit dbm" where
  "revoke_all now [] = retM ()"
| "revoke_all now (h # hs) = bindM (revoke_token now h) (\<lambda>_. revoke_all now hs)"

definition FactoryReset :: "int \<Rightarrow> unit dbm" where
  "FactoryReset now = with_tx
     (bindM (queryM (\<lambda>d. Inr (map c_TokenHash (d_clients d)))) (\<lambda>hashes.
      bindM (revoke_all now hashes) (\<lambda>_.
      bindM (delete_clients (\<lambda>_. True)) (\<lambda>_.
      bindM (execM (\<lambda>d. Inr (length (d_admins d), d\<lparr>d_admins := []\<rparr>))) (\<lambda>_.
      bindM (execM (\<lambda>d. Inr (0, d\<lparr>d_settings := Map.empty\<rparr>))) (\<lambda>_. retM ()))))))"

definition IsTokenRevoked :: "string \<Rightarrow> db \<Rightarrow> bool" where
  "IsTokenRevoked tokenHash d \<longleftrightarrow> d_open d \<and> d_revoked d tokenHash \<noteq> None"

section \<open>Tunnels\<close>

text \<open>\<open>queryTunnels\<close> scans a row: a NULL \<open>public_port\<close> leaves the struct's field at 0.\<close>

definition scanTunnel :: "tunnel_row \<Rightarrow> Tunnel" where
  "scanTunnel r = \<lparr>t_ID = r_id r, t_ClientID = r_client_id r, t_Name = r_name r,
     t_LocalHost = r_local_host r, t_LocalPort = r_local_port r,
     t_PublicPort = (case r_public_port r of None \<Rightarrow> 0 | Some p \<Rightarrow> p),
     t_Protocol = r_protocol r, t_Enabled = r_enabled r,
     t_TrafficLimitBytes = r_traffic_limit r, t_PublicHostname = r_public_hostname r,
     t_ProxyProtocol = r_proxy_protocol r, t_BytesInTotal = r_bytes_in r,
     t_BytesOutTotal = r_bytes_out r, t_CreatedAt = r_created_at r\<rparr>"

definition insert_tunnel :: "tunnel_row \<Rightarrow> nat dbm" where
  "insert_tunnel t = execM (\<lambda>d.
     if list_ex (\<lambda>b. r_id b = r_id t
            \<or> (r_public_port t \<noteq> None \<and> r_public_port b = r_public_port t)) (d_tunnels d)
        \<or> \<not> list_ex (\<lambda>c. c_ID c = r_client_id t) (d_clients d)
     then Inl ConstraintFailed else Inr (1, d\<lparr>d_tunnels := d_tunnels d @ [t]\<rparr>))"

definition CreateTunnel ::
    "string \<Rightarrow> int \<Rightarrow> string \<Rightarrow> string \<Rightarrow> string \<Rightarrow> int \<Rightarrow> int \<Rightarrow> string \<Rightarrow> Tunnel dbm" where
  "CreateTunnel uuid now clientID name localHost localPort publicPort proto0 =
     (let proto = (if proto0 = [] then ''tcp'' else proto0);
          t = \<lparr>t_ID = uuid, t_ClientID = clientID, t_Name = name, t_LocalHost = localHost,
               t_LocalPort = localPort, t_PublicPort = publicPort, t_Protocol = proto,
               t_Enabled = True, t_TrafficLimitBytes = None, t_PublicHostname = [],
               t_ProxyProtocol = False, t_BytesInTotal = 0, t_BytesOutTotal = 0,
               t_CreatedAt = now\<rparr>;
          publicPortArg = (if publicPort > 0 then Some publicPort else None)
      in bindM (insert_tunnel \<lparr>r_id = t_ID t, r_client_id = t_ClientID t, r_name = t_Name t,
               r_local_host = t_LocalHost t, r_local_port = t_LocalPort t,
               r_public_port = publicPortArg, r_protocol = t_Protocol t, r_enabled = True,
               r_traffic_limit = None, r_public_hostname = [], r_proxy_protocol = False,
               r_bytes_in = 0, r_bytes_out = 0, r_created_at = t_CreatedAt t\<rparr>) (\<lambda>_. retM t))"

definition ListTunnelsByClient :: "string \<Rightarrow> Tunnel list dbm" where
  "ListTunnelsByClient clientID = queryM (\<lambda>d. Inr (map scanTunnel (sort_key r_created_at
     (filter (\<lambda>t. r_client_id t = clientID) (d_tunnels d)))))"

definition ListAllTunnels :: "Tunnel list dbm" where
  "ListAllTunnels = queryM (\<lambda>d. Inr (map scanTunnel (sort_key r_created_at (d_tunnels d))))"

definition ListEnabledTunnels :: "Tunnel list dbm" where
  "ListEnabledTunnels = queryM (\<lambda>d. Inr (map scanTunnel (sort_key r_created_at
     (filter r_enabled (d_tunnels d)))))"

definition GetTunnelByID :: "string \<Rightarrow> Tunnel dbm" where
  "GetTunnelByID tid = queryM (\<lambda>d. row_or_err (map_option scanTunnel
     (find (\<lambda>t. r_id t = tid) (d_tunnels d))))"

definition GetTunnelByHostname :: "string \<Rightarrow> Tunnel dbm" where
  "GetTunnelByHostname hostname = queryM (\<lambda>d. row_or_err (map_option scanTunnel
     (find (\<lambda>t. r_public_hostname t = hostname \<and> r_enabled t) (d_tunnels d))))"

definition HostnameTaken :: "string \<Rightarrow> string \<Rightarrow> bool dbm" where
  "HostnameTaken hostname excludeTunnelID = queryM (\<lambda>d.
     Inr (0 < count_where (\<lambda>t. r_public_hostname t = hostname \<and> r_id t \<noteq> excludeTunnelID)
                (d_tunnels d)))"

definition DeleteTunnel :: "string \<Rightarrow> nat dbm" where
  "DeleteTunnel tid = execM (\<lambda>d.
     Inr (count_where (\<lambda>t. r_id t = tid) (d_tunnels d),
          d\<lparr>d_tunnels := del_where (\<lambda>t. r_id t = tid) (d_tunnels d),
            d_samples := del_where (\<lambda>s. s_tunnel_id s = tid) (d_samples d)\<rparr>))"

definition update_tunnels :: "(tunnel_row \<Rightarrow> bool) \<Rightarrow> (tunnel_row \<Rightarrow> tunnel_row) \<Rightarrow> nat dbm" where
  "update_tunnels p f = execM (\<lambda>d.
     Inr (count_where p (d_tunnels d), d\<lparr>d_tunnels := upd_where p f (d_tunnels d)\<rparr>))"

definition SetTunnelEnabled :: "string \<Rightarrow> bool \<Rightarrow> nat dbm" where
  "SetTunnelEnabled tid enabled =
     update_tunnels (\<lambda>t. r_id t = tid) (\<lambda>t. t\<lparr>r_enabled := enabled\<rparr>)"

definition UpdateTunnelSettings :: "string \<Rightarrow> int option \<Rightarrow> string \<Rightarrow> bool \<Rightarrow> unit dbm" where
  "UpdateTunnelSettings tid trafficLimitBytes publicHostname proxyProtocol =
     bindM (update_tunnels (\<lambda>t. r_id t = tid)
        (\<lambda>t. t\<lparr>r_traffic_limit := trafficLimitBytes, r_public_hostname := publicHostname,
              r_proxy_protocol := proxyProtocol\<rparr>)) requireRow"

section \<open>Traffic\<close>

text \<open>
  \<open>SET bytes_in_total = bytes_in_total + ?\<close>: an integer sum that leaves the 64-bit range
  becomes a REAL in SQLite, which the \<open>Scan\<close> into \<open>int64\<close> later in the same transaction
  refuses; the model reports that failure at the statement.
\<close>

definition add_bytes :: "string \<Rightarrow> int \<Rightarrow> int \<Rightarrow> nat dbm" where
  "add_bytes tid bytesIn bytesOut = execM (\<lambda>d.
     if list_ex (\<lambda>t. r_id t = tid \<and> \<not> (in_int64 (r_bytes_in t + bytesIn)
                                       \<and> in_int64 (r_bytes_out t + bytesOut))) (d_tunnels d)
     then Inl IntegerOverflow
     else Inr (count_where (\<lambda>t. r_id t = tid) (d_tunnels d),
               d\<lparr>d_tunnels := upd_where (\<lambda>t. r_id t = tid)
                  (\<lambda>t. t\<lparr>r_bytes_in := r_bytes_in t + bytesIn,
                         r_bytes_out := r_bytes_out t + bytesOut\<rparr>) (d_tunnels d)\<rparr>))"

definition insert_sample :: "sample_row \<Rightarrow> nat dbm" where
  "insert_sample s = execM (\<lambda>d.
     if \<not> list_ex (\<lambda>t. r_id t = s_tunnel_id s) (d_tunnels d) then Inl ConstraintFailed
     else Inr (1, d\<lparr>d_samples := d_samples d @ [s]\<rparr>))"

text \<open>\<open>COALESCE(SUM(bytes_in_total + bytes_out_total), 0)\<close>, read into an \<open>int64\<close>.\<close>

definition client_total :: "string \<Rightarrow> tunnel_row list \<Rightarrow> int" where
  "client_total cid ts =
     sum_list (map (\<lambda>t. r_bytes_in t + r_bytes_out t) (filter (\<lambda>t. r_client_id t = cid) ts))"

definition query_client_total :: "string \<Rightarrow> int dbm" where
  "query_client_total cid = queryM (\<lambda>d.
     if in_int64 (client_total cid (d_tunnels d)) then Inr (client_total cid (d_tunnels d))
     else Inl IntegerOverflow)"

definition AddTunnelTraffic :: "int \<Rightarrow> string \<Rightarrow> int \<Rightarrow> int \<Rightarrow> unit dbm" where
  "AddTunnelTraffic now tunnelID bytesIn bytesOut = with_tx
     (bindM (add_bytes tunnelID bytesIn bytesOut) (\<lambda>_.
      bindM (insert_sample \<lparr>s_tunnel_id = tunnelID, s_ts = now, s_bytes_in = bytesIn,
                            s_bytes_out = bytesOut\<rparr>) (\<lambda>_.
      bindM (queryM (\<lambda>d. row_or_err (find (\<lambda>t. r_id t = tunnelID) (d_tunnels d)))) (\<lambda>t.
      bindM (case r_traffic_limit t of
               None \<Rightarrow> retM 0
             | Some limit \<Rightarrow>
                 if wrap64 (r_bytes_in t + r_bytes_out t) \<ge> limit
                 then update_tunnels (\<lambda>u. r_id u = tunnelID) (\<lambda>u. u\<lparr>r_enabled := False\<rparr>)
                 else retM 0) (\<lambda>_.
      bindM (queryM (\<lambda>d. row_or_err (map_option c_TrafficLimitBytes
               (find (\<lambda>c. c_ID c = r_client_id t) (d_clients d))))) (\<lambda>clientLimit.
      bindM (case clientLimit of
               None \<Rightarrow> retM 0
             | Some limit \<Rightarrow>
                 bindM (query_client_total (r_client_id t)) (\<lambda>clientTotal.
                   if clientTotal \<ge> limit
                   then update_tunnels (\<lambda>u. r_client_id u = r_client_id t)
                          (\<lambda>u. u\<lparr>r_enabled := False\<rparr>)
                   else retM 0)) (\<lambda>_. retM ())))))))"

definition ListTrafficSamples :: "string \<Rightarrow> int \<Rightarrow> (int \<times> int \<times> int) list dbm" where
  "ListTrafficSamples tunnelID since = queryM (\<lambda>d.
     Inr (map (\<lambda>s. (s_ts s, s_bytes_in s, s_bytes_out s))
       (sort_key s_ts (filter (\<lambda>s. s_tunnel_id s = tunnelID \<and> since \<le> s_ts s) (d_samples d)))))"

section \<open>Enrollment codes\<close>

definition insert_code :: "string \<Rightarrow> enroll_row \<Rightarrow> nat dbm" where
  "insert_code hash e = execM (\<lambda>d.
     if d_codes d hash \<noteq> None \<or> \<not> list_ex (\<lambda>c. c_ID c = e_client_id e) (d_clients d)
     then Inl ConstraintFailed else Inr (1, d\<lparr>d_codes := (d_codes d)(hash \<mapsto> e)\<rparr>))"

definition CreateEnrollmentCode ::
    "(byte list \<Rightarrow> byte list) \<Rightarrow> byte list option \<Rightarrow> int \<Rightarrow> string \<Rightarrow> string \<Rightarrow> int \<Rightarrow> string dbm"
where
  "CreateEnrollmentCode sha256 rand now clientID token ttl =
     bindM (tokM (randomCode 10 rand)) (\<lambda>code.
     bindM (insert_code (HashToken sha256 code)
              \<lparr>e_client_id = clientID, e_token = token, e_created_at = now,
               e_expires_at = now + ttl\<rparr>) (\<lambda>_. retM code))"

definition delete_code :: "string \<Rightarrow> nat dbm" where
  "delete_code hash = execM (\<lambda>d.
     Inr (if d_codes d hash = None then 0 else 1, d\<lparr>d_codes := (d_codes d)(hash := None)\<rparr>))"

text \<open>The lookup of the client comes after the commit: its failure does not bring the code back.\<close>

definition ExchangeEnrollmentCode ::
    "(byte list \<Rightarrow> byte list) \<Rightarrow> int \<Rightarrow> string \<Rightarrow> (Client \<times> string) dbm" where
  "ExchangeEnrollmentCode sha256 now code =
     (let hash = HashToken sha256 code in
      bindM (with_tx
        (bindM (queryM (\<lambda>d. case d_codes d hash of
                   None \<Rightarrow> Inl InvalidEnrollmentCode | Some e \<Rightarrow> Inr e)) (\<lambda>e.
           if now > e_expires_at e then failM EnrollmentCodeExpired
           else bindM (delete_code hash) (\<lambda>_. retM e)))) (\<lambda>e.
      bindM (GetClientByID (e_client_id e)) (\<lambda>client. retM (client, e_token e))))"

section \<open>API keys\<close>

definition insert_api_key :: "ApiKey \<Rightarrow> nat dbm" where
  "insert_api_key k = execM (\<lambda>d.
     if list_ex (\<lambda>b. k_ID b = k_ID k \<or> k_TokenHash b = k_TokenHash k) (d_api_keys d)
     then Inl ConstraintFailed else Inr (1, d\<lparr>d_api_keys := d_api_keys d @ [k]\<rparr>))"

definition CreateAPIKey ::
    "(byte list \<Rightarrow> byte list) \<Rightarrow> byte list option \<Rightarrow> string \<Rightarrow> int \<Rightarrow> string \<Rightarrow> (ApiKey \<times> string) dbm"
where
  "CreateAPIKey sha256 rand uuid now name =
     bindM (tokM (GenerateAPIKey sha256 rand)) (\<lambda>(key, hash).
       let k = \<lparr>k_ID = uuid, k_Name = name, k_TokenHash = hash, k_CreatedAt = now,
                k_LastUsed = None\<rparr>
       in bindM (insert_api_key k) (\<lambda>_. retM (k, key)))"

definition ListAPIKeys :: "ApiKey list dbm" where
  "ListAPIKeys = queryM (\<lambda>d. Inr (sort_key k_CreatedAt (d_api_keys d)))"

definition GetAPIKeyByHash :: "string \<Rightarrow> ApiKey dbm" where
  "GetAPIKeyByHash hash =
     queryM (\<lambda>d. row_or_err (find (\<lambda>k. k_TokenHash k = hash) (d_api_keys d)))"

definition UpdateAPIKeyLastUsed :: "int \<Rightarrow> string \<Rightarrow> nat dbm" where
  "UpdateAPIKeyLastUsed now kid = execM (\<lambda>d.
     Inr (count_where (\<lambda>k. k_ID k = kid) (d_api_keys d),
          d\<lparr>d_api_keys := upd_where (\<lambda>k. k_ID k = kid)
             (\<lambda>k. k\<lparr>k_LastUsed := Some now\<rparr>) (d_api_keys d)\<rparr>))"

definition DeleteAPIKey :: "string \<Rightarrow> nat dbm" where
  "DeleteAPIKey kid = execM (\<lambda>d.
     Inr (count_where (\<lambda>k. k_ID k = kid) (d_api_keys d),
          d\<lparr>d_api_keys := del_where (\<lambda>k. k_ID k = kid) (d_api_keys d)\<rparr>))"

end
