(* ===== verification/DbInvariant.thy ===== *)
theory DbInvariant
imports Database
begin

text \<open>
  The consistency of the database: key uniqueness and referential integrity. Every statement
  keeps it, hence every method of \<open>DB\<close> does, hence every state reachable from a fresh
  database by any sequence of calls is consistent.
\<close>

section \<open>Consistency\<close>

definition admins_ok :: "AdminUser list \<Rightarrow> bool" where
  "admins_ok as \<longleftrightarrow> distinct (map a_ID as) \<and> distinct (map a_Username as)"

definition clients_ok :: "Client list \<Rightarrow> bool" where
  "clients_ok cs \<longleftrightarrow> distinct (map c_ID cs) \<and> distinct (map c_Name cs)
     \<and> distinct (map c_TokenHash cs)"

definition ports_ok :: "tunnel_row list \<Rightarrow> bool" where
  "ports_ok ts \<longleftrightarrow> (\<forall>t \<in> set ts. \<forall>p. r_public_port t = Some p \<longrightarrow> 0 < p)
     \<and> (\<forall>t \<in> set ts. \<forall>u \<in> set ts. \<forall>p.
          r_public_port t = Some p \<longrightarrow> r_public_port u = Some p \<longrightarrow> r_id t = r_id u)"

definition tunnels_ok :: "Client list \<Rightarrow> tunnel_row list \<Rightarrow> bool" where
  "tunnels_ok cs ts \<longleftrightarrow> distinct (map r_id ts) \<and> ports_ok ts
     \<and> (\<forall>t \<in> set ts. r_client_id t \<in> c_ID ` set cs)"

definition samples_ok :: "tunnel_row list \<Rightarrow> sample_row list \<Rightarrow> bool" where
  "samples_ok ts ss \<longleftrightarrow> (\<forall>s \<in> set ss. s_tunnel_id s \<in> r_id ` set ts)"

definition codes_ok :: "Client list \<Rightarrow> (string \<rightharpoonup> enroll_row) \<Rightarrow> bool" where
  "codes_ok cs m \<longleftrightarrow> (\<forall>h e. m h = Some e \<longrightarrow> e_client_id e \<in> c_ID ` set cs)"

definition keys_ok :: "ApiKey list \<Rightarrow> bool" where
  "keys_ok ks \<longleftrightarrow> distinct (map k_ID ks) \<and> distinct (map k_TokenHash ks)"

definition db_wf :: "db \<Rightarrow> bool" where
  "db_wf d \<longleftrightarrow> admins_ok (d_admins d) \<and> clients_ok (d_clients d)
     \<and> tunnels_ok (d_clients d) (d_tunnels d) \<and> samples_ok (d_tunnels d) (d_samples d)
     \<and> codes_ok (d_clients d) (d_codes d) \<and> keys_ok (d_api_keys d)"

lemma db_wf_fresh: "db_wf fresh_db"
  by (simp add: db_wf_def fresh_db_def admins_ok_def clients_ok_def tunnels_ok_def ports_ok_def
        samples_ok_def codes_ok_def keys_ok_def)

lemma clients_ok_ids: "clients_ok cs \<Longrightarrow> distinct (map c_ID cs)"
  by (simp add: clients_ok_def)

lemma tunnels_ok_ids: "tunnels_ok cs ts \<Longrightarrow> distinct (map r_id ts)"
  by (simp add: tunnels_ok_def)

lemma db_wfD:
  assumes "db_wf d"
  shows "admins_ok (d_admins d)" "clients_ok (d_clients d)"
    "tunnels_ok (d_clients d) (d_tunnels d)" "samples_ok (d_tunnels d) (d_samples d)"
    "codes_ok (d_clients d) (d_codes d)" "keys_ok (d_api_keys d)"
  using assms by (simp_all add: db_wf_def)

lemma ports_ok_subset: "ports_ok ts \<Longrightarrow> set us \<subseteq> set ts \<Longrightarrow> ports_ok us"
  unfolding ports_ok_def by (meson subsetD)

lemma tunnels_ok_del:
  assumes "tunnels_ok cs ts" and "\<And>t. t \<in> set ts \<Longrightarrow> \<not> p t \<Longrightarrow> r_client_id t \<in> c_ID ` set cs'"
  shows "tunnels_ok cs' (del_where p ts)"
proof -
  have "ports_ok (del_where p ts)"
    by (rule ports_ok_subset [of ts]) (use assms(1) in \<open>auto simp: tunnels_ok_def set_del_where\<close>)
  with assms show ?thesis
    by (simp add: tunnels_ok_def distinct_map_del_where set_del_where)
qed

text \<open>Updates that leave the keys of a row alone leave every table consistent.\<close>

lemma clients_ok_upd:
  assumes "\<And>c. c_ID (f c) = c_ID c" "\<And>c. c_Name (f c) = c_Name c"
    "\<And>c. c_TokenHash (f c) = c_TokenHash c"
  shows "clients_ok (upd_where p f cs) = clients_ok cs"
  by (simp add: clients_ok_def map_key_upd_where assms)

lemma image_key_upd:
  assumes "\<And>r. k (f r) = k r"
  shows "k ` set (upd_where p f rs) = k ` set rs"
proof -
  have "map k (upd_where p f rs) = map k rs"
    by (rule map_key_upd_where) (rule assms)
  then show ?thesis by (metis list.set_map)
qed

lemma ports_ok_upd:
  assumes "\<And>t. r_id (f t) = r_id t" "\<And>t. r_public_port (f t) = r_public_port t"
    and ok: "ports_ok ts"
  shows "ports_ok (upd_where p f ts)"
proof -
  have in_upd: "\<exists>u \<in> set ts. r_id u = r_id t \<and> r_public_port u = r_public_port t"
    if "t \<in> set (upd_where p f ts)" for t
    using that assms by (auto simp: set_upd_where split: if_splits)
  show ?thesis
    unfolding ports_ok_def
  proof (intro conjI ballI allI impI)
    fix t p'
    assume "t \<in> set (upd_where p f ts)" "r_public_port t = Some p'"
    with in_upd [of t] ok show "0 < p'" unfolding ports_ok_def by metis
  next
    fix t u p'
    assume "t \<in> set (upd_where p f ts)" "u \<in> set (upd_where p f ts)"
      "r_public_port t = Some p'" "r_public_port u = Some p'"
    with in_upd [of t] in_upd [of u] ok show "r_id t = r_id u" unfolding ports_ok_def by metis
  qed
qed

lemma tunnels_ok_upd:
  assumes "\<And>t. r_id (f t) = r_id t" "\<And>t. r_public_port (f t) = r_public_port t"
    "\<And>t. r_client_id (f t) = r_client_id t"
    and ok: "tunnels_ok cs ts"
  shows "tunnels_ok cs (upd_where p f ts)"
proof -
  have "map r_id (upd_where p f ts) = map r_id ts"
    by (rule map_key_upd_where) (rule assms(1))
  moreover have "ports_ok (upd_where p f ts)"
    by (rule ports_ok_upd [OF assms(1,2)]) (use ok in \<open>simp add: tunnels_ok_def\<close>)
  moreover have "r_client_id ` set (upd_where p f ts) = r_client_id ` set ts"
    by (rule image_key_upd) (rule assms(3))
  ultimately show ?thesis
    using ok by (simp add: tunnels_ok_def flip: image_subset_iff)
qed

lemma tunnels_ok_clients: "c_ID ` set cs = c_ID ` set cs' \<Longrightarrow> tunnels_ok cs ts = tunnels_ok cs' ts"
  by (simp add: tunnels_ok_def)

lemma codes_ok_clients: "c_ID ` set cs = c_ID ` set cs' \<Longrightarrow> codes_ok cs m = codes_ok cs' m"
  by (simp add: codes_ok_def)

lemma samples_ok_tunnels: "r_id ` set ts = r_id ` set ts' \<Longrightarrow> samples_ok ts ss = samples_ok ts' ss"
  by (simp add: samples_ok_def)

section \<open>Statements\<close>

lemma keeps_option [keeps_intros]:
  "keeps I a \<Longrightarrow> (\<And>x. keeps I (b x)) \<Longrightarrow> keeps I (case v of None \<Rightarrow> a | Some x \<Rightarrow> b x)"
  by (cases v) auto

lemma keeps_prod [keeps_intros]: "(\<And>x y. keeps I (f x y)) \<Longrightarrow> keeps I (case v of (x, y) \<Rightarrow> f x y)"
  by (cases v) auto

lemma keeps_let [keeps_intros]: "(\<And>x. keeps I (f x)) \<Longrightarrow> keeps I (Let v f)"
  by simp

lemma keeps_update_tunnels [keeps_intros]:
  assumes "\<And>t. r_id (f t) = r_id t" "\<And>t. r_public_port (f t) = r_public_port t"
    "\<And>t. r_client_id (f t) = r_client_id t"
  shows "keeps db_wf (update_tunnels p f)"
  unfolding update_tunnels_def
proof (rule keeps_exec_always)
  fix d
  assume wf: "db_wf d"
  let ?ts = "upd_where p f (d_tunnels d)"
  have "r_id ` set ?ts = r_id ` set (d_tunnels d)"
    by (rule image_key_upd) (rule assms(1))
  moreover have "tunnels_ok (d_clients d) ?ts"
    by (rule tunnels_ok_upd) (use assms db_wfD(3) [OF wf] in auto)
  ultimately show "db_wf (d\<lparr>d_tunnels := ?ts\<rparr>)"
    using wf by (simp add: db_wf_def samples_ok_tunnels [of ?ts "d_tunnels d"])
qed

lemma keeps_add_bytes [keeps_intros]: "keeps db_wf (add_bytes tid i u)"
  unfolding add_bytes_def
proof (rule keeps_exec_check)
  fix d
  assume wf: "db_wf d"
  let ?f = "\<lambda>t. t\<lparr>r_bytes_in := r_bytes_in t + i, r_bytes_out := r_bytes_out t + u\<rparr>"
  let ?ts = "upd_where (\<lambda>t. r_id t = tid) ?f (d_tunnels d)"
  have "r_id ` set ?ts = r_id ` set (d_tunnels d)"
    by (rule image_key_upd) simp
  moreover have "tunnels_ok (d_clients d) ?ts"
    by (rule tunnels_ok_upd) (use db_wfD(3) [OF wf] in auto)
  ultimately show "db_wf (d\<lparr>d_tunnels := ?ts\<rparr>)"
    using wf by (simp add: db_wf_def samples_ok_tunnels [of ?ts "d_tunnels d"])
qed

lemma keeps_insert_sample [keeps_intros]: "keeps db_wf (insert_sample s)"
  unfolding insert_sample_def
proof (rule keeps_exec_check)
  fix d
  assume "db_wf d" and "\<not> \<not> list_ex (\<lambda>t. r_id t = s_tunnel_id s) (d_tunnels d)"
  moreover from this(2) have "s_tunnel_id s \<in> r_id ` set (d_tunnels d)"
    by (force simp: list_ex_iff)
  ultimately show "db_wf (d\<lparr>d_samples := d_samples d @ [s]\<rparr>)"
    by (simp add: db_wf_def samples_ok_def)
qed

lemma keeps_delete_tunnel [keeps_intros]: "keeps db_wf (DeleteTunnel tid)"
  unfolding DeleteTunnel_def
proof (rule keeps_exec_always)
  fix d
  assume wf: "db_wf d"
  let ?ts = "del_where (\<lambda>t. r_id t = tid) (d_tunnels d)"
  let ?ss = "del_where (\<lambda>s. s_tunnel_id s = tid) (d_samples d)"
  have "tunnels_ok (d_clients d) ?ts"
    using db_wfD(3) [OF wf] by (rule tunnels_ok_del) (use db_wfD(3) [OF wf] in
        \<open>simp add: tunnels_ok_def\<close>)
  moreover have "samples_ok ?ts ?ss"
    using db_wfD(4) [OF wf] by (fastforce simp: samples_ok_def set_del_where)
  ultimately show "db_wf (d\<lparr>d_tunnels := ?ts, d_samples := ?ss\<rparr>)"
    using wf by (simp add: db_wf_def)
qed

lemma ports_ok_snoc:
  assumes "ports_ok ts" and "\<And>p. r_public_port t = Some p \<Longrightarrow> 0 < p"
    and "r_public_port t \<noteq> None \<Longrightarrow> r_public_port t \<notin> r_public_port ` set ts"
  shows "ports_ok (ts @ [t])"
proof -
  have "r_id u = r_id v"
    if "u \<in> set (ts @ [t])" "v \<in> set (ts @ [t])" "r_public_port u = Some p"
      "r_public_port v = Some p" for u v p
  proof (cases "u = t \<or> v = t")
    case True
    then have "r_public_port t = Some p" using that(3,4) by auto
    with assms(3) have "Some p \<notin> r_public_port ` set ts" by simp
    then have "u \<notin> set ts" "v \<notin> set ts" using that(3,4) by (metis imageI)+
    with that(1,2) show ?thesis by simp
  next
    case False
    with that(1,2) have "u \<in> set ts" "v \<in> set ts" by auto
    with that(3,4) assms(1) show ?thesis unfolding ports_ok_def by blast
  qed
  moreover have "\<forall>u \<in> set (ts @ [t]). \<forall>p. r_public_port u = Some p \<longrightarrow> 0 < p"
    using assms(1,2) by (auto simp: ports_ok_def)
  ultimately show ?thesis unfolding ports_ok_def by blast
qed

lemma keeps_insert_tunnel [keeps_intros]:
  assumes "\<And>p. r_public_port t = Some p \<Longrightarrow> 0 < p"
  shows "keeps db_wf (insert_tunnel t)"
  unfolding insert_tunnel_def
proof (rule keeps_exec_check)
  fix d
  assume wf: "db_wf d"
    and ok: "\<not> (list_ex (\<lambda>b. r_id b = r_id t
            \<or> (r_public_port t \<noteq> None \<and> r_public_port b = r_public_port t)) (d_tunnels d)
        \<or> \<not> list_ex (\<lambda>c. c_ID c = r_client_id t) (d_clients d))"
  from ok have new: "r_id t \<notin> r_id ` set (d_tunnels d)"
    and fk: "r_client_id t \<in> c_ID ` set (d_clients d)"
    and port: "r_public_port t \<noteq> None \<Longrightarrow> r_public_port t \<notin> r_public_port ` set (d_tunnels d)"
    by (force simp: list_ex_iff)+
  have "ports_ok (d_tunnels d @ [t])"
    using db_wfD(3) [OF wf] assms port by (intro ports_ok_snoc) (auto simp: tunnels_ok_def)
  with wf new fk show "db_wf (d\<lparr>d_tunnels := d_tunnels d @ [t]\<rparr>)"
    by (simp add: db_wf_def tunnels_ok_def samples_ok_def)
qed

lemma keeps_insert_client [keeps_intros]: "keeps db_wf (insert_client c)"
  unfolding insert_client_def
proof (rule keeps_exec_check)
  fix d
  assume wf: "db_wf d"
    and ok: "\<not> list_ex (\<lambda>b. c_ID b = c_ID c \<or> c_Name b = c_Name c
       \<or> c_TokenHash b = c_TokenHash c) (d_clients d)"
  from ok have "c_ID c \<notin> c_ID ` set (d_clients d)" "c_Name c \<notin> c_Name ` set (d_clients d)"
    "c_TokenHash c \<notin> c_TokenHash ` set (d_clients d)"
    by (force simp: list_ex_iff)+
  with wf show "db_wf (d\<lparr>d_clients := d_clients d @ [c]\<rparr>)"
    by (simp add: db_wf_def clients_ok_def tunnels_ok_def codes_ok_def)
qed

lemma keeps_update_clients [keeps_intros]:
  assumes "\<And>c. c_ID (f c) = c_ID c" "\<And>c. c_Name (f c) = c_Name c"
    "\<And>c. c_TokenHash (f c) = c_TokenHash c"
  shows "keeps db_wf (update_clients cid f)"
  unfolding update_clients_def
proof (rule keeps_exec_always)
  fix d
  assume wf: "db_wf d"
  let ?cs = "upd_where (\<lambda>c. c_ID c = cid) f (d_clients d)"
  have "c_ID ` set ?cs = c_ID ` set (d_clients d)"
    by (rule image_key_upd) (rule assms(1))
  with wf show "db_wf (d\<lparr>d_clients := ?cs\<rparr>)"
    by (simp add: db_wf_def clients_ok_upd assms tunnels_ok_clients [of ?cs "d_clients d"]
          codes_ok_clients [of ?cs "d_clients d"])
qed

lemma keeps_delete_clients [keeps_intros]: "keeps db_wf (delete_clients p)"
  unfolding delete_clients_def cascade_clients_def Let_def
proof (rule keeps_exec_always)
  fix d
  assume wf: "db_wf d"
  let ?cs = "del_where p (d_clients d)"
  let ?gone = "map c_ID (filter p (d_clients d))"
  let ?ts = "del_where (\<lambda>t. List.member ?gone (r_client_id t)) (d_tunnels d)"
  let ?tg = "map r_id (filter (\<lambda>t. List.member ?gone (r_client_id t)) (d_tunnels d))"
  let ?ss = "del_where (\<lambda>s. List.member ?tg (s_tunnel_id s)) (d_samples d)"
  let ?m = "\<lambda>h. case d_codes d h of None \<Rightarrow> None
     | Some e \<Rightarrow> if List.member ?gone (e_client_id e) then None else Some e"
  have left: "i \<in> c_ID ` set ?cs" if "i \<in> c_ID ` set (d_clients d)" "\<not> List.member ?gone i" for i
    using that by (auto simp: set_del_where)
  have "clients_ok ?cs"
    using db_wfD(2) [OF wf] by (simp add: clients_ok_def distinct_map_del_where)
  moreover have "tunnels_ok ?cs ?ts"
    using db_wfD(3) [OF wf]
    by (rule tunnels_ok_del) (rule left, use db_wfD(3) [OF wf] in \<open>simp_all add: tunnels_ok_def\<close>)
  moreover have "samples_ok ?ts ?ss"
    unfolding samples_ok_def
  proof
    fix s
    assume s: "s \<in> set ?ss"
    with db_wfD(4) [OF wf] obtain t where t: "t \<in> set (d_tunnels d)" "s_tunnel_id s = r_id t"
      by (auto simp: samples_ok_def set_del_where)
    with s have "\<not> List.member ?gone (r_client_id t)" by (auto simp: set_del_where)
    with t show "s_tunnel_id s \<in> r_id ` set ?ts" by (simp add: set_del_where)
  qed
  moreover have "codes_ok ?cs ?m"
    unfolding codes_ok_def
  proof (intro allI impI)
    fix h e
    assume "?m h = Some e"
    then have "d_codes d h = Some e" "\<not> List.member ?gone (e_client_id e)"
      by (auto split: option.splits if_splits)
    with db_wfD(5) [OF wf] show "e_client_id e \<in> c_ID ` set ?cs"
      by (intro left) (auto simp: codes_ok_def)
  qed
  ultimately show "db_wf (d\<lparr>d_clients := ?cs, d_tunnels := ?ts, d_samples := ?ss, d_codes := ?m\<rparr>)"
    using wf by (simp add: db_wf_def)
qed

lemma keeps_insert_code [keeps_intros]: "keeps db_wf (insert_code h e)"
  unfolding insert_code_def
proof (rule keeps_exec_check)
  fix d
  assume wf: "db_wf d"
    and ok: "\<not> (d_codes d h \<noteq> None \<or> \<not> list_ex (\<lambda>c. c_ID c = e_client_id e) (d_clients d))"
  then have "e_client_id e \<in> c_ID ` set (d_clients d)" by (force simp: list_ex_iff)
  with wf show "db_wf (d\<lparr>d_codes := (d_codes d)(h \<mapsto> e)\<rparr>)"
    by (auto simp: db_wf_def codes_ok_def)
qed

lemma keeps_delete_code [keeps_intros]: "keeps db_wf (delete_code h)"
  unfolding delete_code_def
  by (rule keeps_exec_always) (auto simp: db_wf_def codes_ok_def)

lemma keeps_revoke [keeps_intros]: "keeps db_wf (revoke_token now h)"
  unfolding revoke_token_def by (rule keeps_exec_always) (simp add: db_wf_def)

lemma keeps_revoke_all [keeps_intros]: "keeps db_wf (revoke_all now hs)"
  by (induction hs) (auto intro!: keeps_intros)

lemma keeps_settings [keeps_intros]: "keeps db_wf (SetSetting k v)" "keeps db_wf (DeleteSetting k)"
  unfolding SetSetting_def DeleteSetting_def
  by (rule keeps_exec_always, simp add: db_wf_def)+

lemma keeps_insert_admin [keeps_intros]: "keeps db_wf (insert_admin a)"
  unfolding insert_admin_def
  by (rule keeps_exec_check) (auto simp: db_wf_def admins_ok_def list_ex_iff)

lemma keeps_update_admin [keeps_intros]: "keeps db_wf (UpdateAdminCredentials i u h m)"
  unfolding UpdateAdminCredentials_def
proof (rule keeps_exec_check)
  fix d
  assume wf: "db_wf d"
    and nc: "\<not> (list_ex (\<lambda>a. a_ID a = i) (d_admins d)
       \<and> list_ex (\<lambda>a. a_ID a \<noteq> i \<and> a_Username a = u) (d_admins d))"
  let ?f = "\<lambda>a. a\<lparr>a_Username := u, a_PasswordHash := h, a_MustChangePassword := m\<rparr>"
  let ?as = "upd_where (\<lambda>a. a_ID a = i) ?f (d_admins d)"
  have ok: "distinct (map a_ID (d_admins d))" "distinct (map a_Username (d_admins d))"
    using wf by (auto simp: db_wf_def admins_ok_def)
  have "distinct (map a_Username ?as)"
  proof (cases "\<exists>a \<in> set (d_admins d). a_ID a = i")
    case False
    then have "?as = d_admins d" by (intro upd_where_none) auto
    with ok show ?thesis by simp
  next
    case True
    with nc have "\<forall>a \<in> set (d_admins d). a_ID a \<noteq> i \<longrightarrow> a_Username a \<noteq> u"
      by (auto simp: list_ex_iff)
    with ok show ?thesis
      by (auto simp: upd_where_def distinct_map inj_on_def comp_def)
  qed
  with ok wf show "db_wf (d\<lparr>d_admins := ?as\<rparr>)"
    by (simp add: db_wf_def admins_ok_def map_key_upd_where)
qed

lemma keeps_api_keys [keeps_intros]:
  "keeps db_wf (insert_api_key k)" "keeps db_wf (UpdateAPIKeyLastUsed now kid)"
  "keeps db_wf (DeleteAPIKey kid)"
  unfolding insert_api_key_def UpdateAPIKeyLastUsed_def DeleteAPIKey_def
  by (rule keeps_exec_check keeps_exec_always,
      auto simp: db_wf_def keys_ok_def list_ex_iff map_key_upd_where distinct_map_del_where)+

section \<open>Methods\<close>

lemma keeps_query_total [keeps_intros]: "keeps I (query_client_total cid)"
  by (simp add: query_client_total_def keeps_query)

lemma keeps_reads [keeps_intros]:
  "keeps I HasAdminUser" "keeps I GetAdminUser" "keeps I (GetSetting k)"
  "keeps I (GetClientByTokenHash h)" "keeps I (GetClientByID i)" "keeps I ListClients"
  "keeps I (ListTunnelsByClient i)" "keeps I ListAllTunnels" "keeps I ListEnabledTunnels"
  "keeps I (GetTunnelByID i)" "keeps I (GetTunnelByHostname h)" "keeps I (HostnameTaken h i)"
  "keeps I (ListTrafficSamples i n)" "keeps I ListAPIKeys" "keeps I (GetAPIKeyByHash h)"
  by (simp_all add: keeps_query HasAdminUser_def GetAdminUser_def GetSetting_def
      GetClientByTokenHash_def GetClientByID_def ListClients_def ListTunnelsByClient_def
      ListAllTunnels_def ListEnabledTunnels_def GetTunnelByID_def GetTunnelByHostname_def
      HostnameTaken_def ListTrafficSamples_def ListAPIKeys_def GetAPIKeyByHash_def)

lemma keeps_admin_methods [keeps_intros]:
  "keeps db_wf (CreateAdminUser uuid u h)" "keeps db_wf (EnsureSetupCode rand)"
  "keeps db_wf (ClaimSetupCode code)"
  unfolding CreateAdminUser_def EnsureSetupCode_def ClaimSetupCode_def
  by (intro keeps_intros)+

lemma keeps_rotate [keeps_intros]: "keeps db_wf (RotateClientToken sha rand cid)"
  unfolding RotateClientToken_def
proof (intro keeps_intros keeps_exec_check)
  fix d hash
  assume wf: "db_wf d"
    and nc: "\<not> (list_ex (\<lambda>c. c_ID c = cid) (d_clients d)
       \<and> list_ex (\<lambda>c. c_ID c \<noteq> cid \<and> c_TokenHash c = hash) (d_clients d))"
  let ?f = "\<lambda>c. c\<lparr>c_TokenHash := hash\<rparr>"
  let ?cs = "upd_where (\<lambda>c. c_ID c = cid) ?f (d_clients d)"
  have ok: "distinct (map c_ID (d_clients d))" "distinct (map c_TokenHash (d_clients d))"
    using wf by (auto simp: db_wf_def clients_ok_def)
  have "distinct (map c_TokenHash ?cs)"
  proof (cases "\<exists>c \<in> set (d_clients d). c_ID c = cid")
    case False
    then have "?cs = d_clients d" by (intro upd_where_none) auto
    with ok show ?thesis by simp
  next
    case True
    with nc have "\<forall>c \<in> set (d_clients d). c_ID c \<noteq> cid \<longrightarrow> c_TokenHash c \<noteq> hash"
      by (auto simp: list_ex_iff)
    with ok show ?thesis
      by (auto simp: upd_where_def distinct_map inj_on_def comp_def)
  qed
  then have "clients_ok ?cs"
    using db_wfD(2) [OF wf] by (simp add: clients_ok_def map_key_upd_where)
  moreover have "c_ID ` set ?cs = c_ID ` set (d_clients d)"
    by (rule image_key_upd) simp
  ultimately show "db_wf (d\<lparr>d_clients := ?cs\<rparr>)"
    using wf by (simp add: db_wf_def tunnels_ok_clients [of ?cs "d_clients d"]
        codes_ok_clients [of ?cs "d_clients d"])
qed

lemma keeps_client_methods [keeps_intros]:
  "keeps db_wf (CreateClient sha rand uuid now name)"
  "keeps db_wf (UpdateClientTrafficLimit cid limit)" "keeps db_wf (UpdateClientLastSeen now cid)"
  "keeps db_wf (DeleteClient now cid)"
  unfolding CreateClient_def UpdateClientTrafficLimit_def UpdateClientLastSeen_def DeleteClient_def
  by (intro keeps_intros; simp)+

lemma keeps_factory_reset [keeps_intros]: "keeps db_wf (FactoryReset now)"
  unfolding FactoryReset_def
  by (intro keeps_intros keeps_exec_always) (auto simp: db_wf_def admins_ok_def)

lemma keeps_tunnel_methods [keeps_intros]:
  "keeps db_wf (CreateTunnel uuid now cid name lh lp pp proto)"
  "keeps db_wf (SetTunnelEnabled tid b)" "keeps db_wf (UpdateTunnelSettings tid limit host pxy)"
  unfolding CreateTunnel_def SetTunnelEnabled_def UpdateTunnelSettings_def Let_def
  by (intro keeps_intros; simp split: if_splits)+

lemma keeps_traffic [keeps_intros]: "keeps db_wf (AddTunnelTraffic now tid i u)"
  unfolding AddTunnelTraffic_def
  by (intro keeps_intros; simp)

lemma keeps_code_methods [keeps_intros]:
  "keeps db_wf (CreateEnrollmentCode sha rand now cid tok ttl)"
  "keeps db_wf (ExchangeEnrollmentCode sha now code)"
  unfolding CreateEnrollmentCode_def ExchangeEnrollmentCode_def
  by (intro keeps_intros)+

lemma keeps_create_api_key [keeps_intros]: "keeps db_wf (CreateAPIKey sha rand uuid now name)"
  unfolding CreateAPIKey_def by (intro keeps_intros)

lemma keeps_close [keeps_intros]: "keeps db_wf CloseDB"
  by (simp add: keeps_def CloseDB_def db_wf_def)

section \<open>Reachable databases\<close>

text \<open>Every state-changing method of \<open>DB\<close>, as a call with its arguments.\<close>

datatype dbcall =
    CallCreateAdminUser string string string
  | CallUpdateAdminCredentials string string string bool
  | CallEnsureSetupCode "byte list option"
  | CallClaimSetupCode string
  | CallCreateClient "byte list option" string int string
  | CallRotateClientToken "byte list option" string
  | CallUpdateClientTrafficLimit string "int option"
  | CallUpdateClientLastSeen int string
  | CallDeleteClient int string
  | CallFactoryReset int
  | CallCreateTunnel string int string string string int int string
  | CallDeleteTunnel string
  | CallSetTunnelEnabled string bool
  | CallUpdateTunnelSettings string "int option" string bool
  | CallAddTunnelTraffic int string int int
  | CallCreateEnrollmentCode "byte list option" int string string int
  | CallExchangeEnrollmentCode int string
  | CallCreateAPIKey "byte list option" string int string
  | CallUpdateAPIKeyLastUsed int string
  | CallDeleteAPIKey string
  | CallSetSetting string string
  | CallDeleteSetting string
  | CallClose

fun exec_call :: "(byte list \<Rightarrow> byte list) \<Rightarrow> dbcall \<Rightarrow> db \<Rightarrow> db" where
  "exec_call sha (CallCreateAdminUser i u h) d = snd (CreateAdminUser i u h d)"
| "exec_call sha (CallUpdateAdminCredentials i u h m) d = snd (UpdateAdminCredentials i u h m d)"
| "exec_call sha (CallEnsureSetupCode r) d = snd (EnsureSetupCode r d)"
| "exec_call sha (CallClaimSetupCode c) d = snd (ClaimSetupCode c d)"
| "exec_call sha (CallCreateClient r i now n) d = snd (CreateClient sha r i now n d)"
| "exec_call sha (CallRotateClientToken r i) d = snd (RotateClientToken sha r i d)"
| "exec_call sha (CallUpdateClientTrafficLimit i l) d = snd (UpdateClientTrafficLimit i l d)"
| "exec_call sha (CallUpdateClientLastSeen now i) d = snd (UpdateClientLastSeen now i d)"
| "exec_call sha (CallDeleteClient now i) d = snd (DeleteClient now i d)"
| "exec_call sha (CallFactoryReset now) d = snd (FactoryReset now d)"
| "exec_call sha (CallCreateTunnel i now c n h lp pp p) d = snd (CreateTunnel i now c n h lp pp p d)"
| "exec_call sha (CallDeleteTunnel i) d = snd (DeleteTunnel i d)"
| "exec_call sha (CallSetTunnelEnabled i b) d = snd (SetTunnelEnabled i b d)"
| "exec_call sha (CallUpdateTunnelSettings i l h p) d = snd (UpdateTunnelSettings i l h p d)"
| "exec_call sha (CallAddTunnelTraffic now i x y) d = snd (AddTunnelTraffic now i x y d)"
| "exec_call sha (CallCreateEnrollmentCode r now i t ttl) d =
     snd (CreateEnrollmentCode sha r now i t ttl d)"
| "exec_call sha (CallExchangeEnrollmentCode now c) d = snd (ExchangeEnrollmentCode sha now c d)"
| "exec_call sha (CallCreateAPIKey r i now n) d = snd (CreateAPIKey sha r i now n d)"
| "exec_call sha (CallUpdateAPIKeyLastUsed now i) d = snd (UpdateAPIKeyLastUsed now i d)"
| "exec_call sha (CallDeleteAPIKey i) d = snd (DeleteAPIKey i d)"
| "exec_call sha (CallSetSetting k v) d = snd (SetSetting k v d)"
| "exec_call sha (CallDeleteSetting k) d = snd (DeleteSetting k d)"
| "exec_call sha CallClose d = snd (CloseDB d)"

inductive db_reach :: "(byte list \<Rightarrow> byte list) \<Rightarrow> db \<Rightarrow> bool" for sha where
  fresh: "db_reach sha fresh_db"
| call: "db_reach sha d \<Longrightarrow> db_reach sha (exec_call sha c d)"

lemma exec_call_wf:
  assumes "db_wf d"
  shows "db_wf (exec_call sha c d)"
  by (cases c) (simp_all add: keepsD [where I = db_wf, OF _ assms] keeps_intros)

lemma db_reach_wf: "db_reach sha d \<Longrightarrow> db_wf d"
  by (induction rule: db_reach.induct) (simp_all add: db_wf_fresh exec_call_wf)


text \<open>A consistent database with one machine and two of its tunnels, for concrete runs.\<close>

definition example_tunnel :: "string \<Rightarrow> int \<Rightarrow> tunnel_row" where
  "example_tunnel tid port = \<lparr>r_id = tid, r_client_id = ''c1'', r_name = ''web'',
     r_local_host = ''127.0.0.1'', r_local_port = 80, r_public_port = Some port,
     r_protocol = ''tcp'', r_enabled = True, r_traffic_limit = Some 100,
     r_public_hostname = [], r_proxy_protocol = False, r_bytes_in = 0, r_bytes_out = 0,
     r_created_at = 1\<rparr>"

definition example_db :: db where
  "example_db = fresh_db\<lparr>
     d_clients := [\<lparr>c_ID = ''c1'', c_Name = ''nas'', c_TokenHash = ''h1'', c_CreatedAt = 1,
                    c_LastSeen = None, c_TrafficLimitBytes = Some 500\<rparr>],
     d_tunnels := [example_tunnel ''t1'' 8080, example_tunnel ''t2'' 8081]\<rparr>"

lemma example_db_wf: "db_wf example_db"
  by (simp add: example_db_def example_tunnel_def db_wf_def fresh_db_def admins_ok_def
      clients_ok_def tunnels_ok_def ports_ok_def samples_ok_def codes_ok_def keys_ok_def)

section \<open>Property\<close>

text \<open>
  C18. Consistency of the database. Whatever methods of \<open>DB\<close> are called on a fresh database, in
  whatever order and with whatever arguments, failing calls included, the keys of every table
  stay unique (machine names and token digests, tunnel identifiers, positive public ports) and
  every tunnel, sample and enrollment code refers to an existing row.
\<close>

theorem db_reachable_consistent:
  assumes "db_reach sha d"
  shows "db_wf d"
  using assms by (rule db_reach_wf)

theorem db_reachable_consistent_witness:
  "db_wf (exec_call (\<lambda>b. b) (CallCreateClient (Some [1]) ''c1'' 5 ''nas'') fresh_db)"
  by (rule db_reachable_consistent [where sha = "\<lambda>b. b"]) (intro db_reach.intros)

end
