(* ===== verification/Migration.thy ===== *)
theory Migration
imports DbInvariant "HOL-Library.AList"
begin

text \<open>
  Opening the database file (\<open>Open\<close>, \<open>migrateSchema\<close> of \<open>internal/db/db.go\<close>, \<open>schema.sql\<close>): the
  tables as SQLite holds them, with their columns, and the statements that create and alter them.
  Any statement may fail (\<open>ok n\<close> says whether the n-th one reaches SQLite's disk); a failed
  statement changes nothing, and a transaction that does not commit leaves the tables as they were
  when it began, here because \<open>Open\<close> closes the connection on every error.
\<close>

section \<open>Tables\<close>

datatype sqlval = SNull | SInt int | SText string

datatype coltype = TEXT | INTEGER

text \<open>
  \<open>col_unique\<close> is \<open>UNIQUE\<close> or \<open>PRIMARY KEY\<close>; \<open>col_ref\<close> is the table of a foreign key, which
  always refers to its \<open>id\<close> and cascades.
\<close>

record column =
  col_name :: string
  col_type :: coltype
  col_notnull :: bool
  col_dflt :: "sqlval option"
  col_unique :: bool
  col_ref :: "string option"

type_synonym row = "sqlval list"

record table =
  tb_cols :: "column list"
  tb_rows :: "row list"

text \<open>
  An index is a name and its table. \<open>sq_fk\<close> is the connection's \<open>foreign_keys\<close>; \<open>sq_n\<close> counts the
  statements sent.
\<close>

record sqlite =
  sq_tables :: "(string \<times> table) list"
  sq_indexes :: "(string \<times> string) list"
  sq_fk :: bool
  sq_n :: nat

abbreviation tab :: "sqlite \<Rightarrow> string \<Rightarrow> table option" where
  "tab s T \<equiv> map_of (sq_tables s) T"

definition put_table :: "string \<Rightarrow> table \<Rightarrow> sqlite \<Rightarrow> sqlite" where
  "put_table T tb s = s\<lparr>sq_tables := AList.update T tb (sq_tables s)\<rparr>"

definition names :: "column list \<Rightarrow> string list" where
  "names cs = map col_name cs"

definition cell :: "column list \<Rightarrow> row \<Rightarrow> string \<Rightarrow> sqlval option" where
  "cell cs r c = map_of (zip (names cs) r) c"

section \<open>The schema\<close>

definition text_col :: "string \<Rightarrow> column" where
  "text_col c = \<lparr>col_name = c, col_type = TEXT, col_notnull = True, col_dflt = None,
     col_unique = False, col_ref = None\<rparr>"

definition int_col :: "string \<Rightarrow> column" where
  "int_col c = \<lparr>col_name = c, col_type = INTEGER, col_notnull = True, col_dflt = None,
     col_unique = False, col_ref = None\<rparr>"

definition key_col :: "string \<Rightarrow> column" where
  "key_col c = (text_col c)\<lparr>col_notnull := False, col_unique := True\<rparr>"

definition ref_col :: "string \<Rightarrow> string \<Rightarrow> column" where
  "ref_col c T = (text_col c)\<lparr>col_ref := Some T\<rparr>"

definition with_default :: "sqlval \<Rightarrow> column \<Rightarrow> column" where
  "with_default v c = c\<lparr>col_dflt := Some v\<rparr>"

definition nullable :: "column \<Rightarrow> column" where
  "nullable c = c\<lparr>col_notnull := False\<rparr>"

definition unique :: "column \<Rightarrow> column" where
  "unique c = c\<lparr>col_unique := True\<rparr>"

datatype ddl = CreateTable string "column list" | CreateIndex string string

definition schemaSQL :: "ddl list" where
  "schemaSQL =
    [CreateTable ''admin_users''
       [key_col ''id'', unique (text_col ''username''), text_col ''password_hash'',
        with_default (SInt 1) (int_col ''must_change_password''), int_col ''created_at''],
     CreateTable ''clients''
       [key_col ''id'', unique (text_col ''name''), unique (text_col ''token_hash''),
        int_col ''created_at'', nullable (int_col ''last_seen'')],
     CreateTable ''tunnels''
       [key_col ''id'', ref_col ''client_id'' ''clients'', text_col ''name'', text_col ''local_host'',
        int_col ''local_port'', unique (nullable (int_col ''public_port'')),
        with_default (SText ''tcp'') (text_col ''protocol''),
        with_default (SInt 1) (int_col ''enabled''), nullable (int_col ''traffic_limit_bytes''),
        with_default (SInt 0) (int_col ''bytes_in_total''),
        with_default (SInt 0) (int_col ''bytes_out_total''), int_col ''created_at''],
     CreateIndex ''idx_tunnels_client_id'' ''tunnels'',
     CreateTable ''traffic_samples''
       [unique (nullable (int_col ''id'')), ref_col ''tunnel_id'' ''tunnels'', int_col ''ts'',
        int_col ''bytes_in'', int_col ''bytes_out''],
     CreateIndex ''idx_traffic_samples_tunnel_ts'' ''traffic_samples'',
     CreateTable ''server_settings'' [key_col ''key'', text_col ''value''],
     CreateTable ''revoked_tokens'' [key_col ''token_hash'', int_col ''revoked_at''],
     CreateTable ''api_keys''
       [key_col ''id'', text_col ''name'', unique (text_col ''token_hash''), int_col ''created_at'',
        nullable (int_col ''last_used'')],
     CreateTable ''enrollment_codes''
       [key_col ''code_hash'', ref_col ''client_id'' ''clients'', text_col ''token'',
        int_col ''created_at'', int_col ''expires_at'']]"

text \<open>The columns that \<open>migrateSchema\<close> adds, in its order, and the rebuilt table.\<close>

definition migrations :: "(string \<times> column) list" where
  "migrations =
    [(''tunnels'', nullable (int_col ''traffic_limit_bytes'')),
     (''tunnels'', with_default (SText []) (text_col ''public_hostname'')),
     (''tunnels'', with_default (SInt 0) (int_col ''proxy_protocol'')),
     (''clients'', nullable (int_col ''traffic_limit_bytes''))]"

definition tunnels_new :: "column list" where
  "tunnels_new =
    [key_col ''id'', ref_col ''client_id'' ''clients'', text_col ''name'', text_col ''local_host'',
     int_col ''local_port'', unique (nullable (int_col ''public_port'')),
     with_default (SText ''tcp'') (text_col ''protocol''),
     with_default (SInt 1) (int_col ''enabled''), nullable (int_col ''traffic_limit_bytes''),
     with_default (SInt 0) (int_col ''bytes_in_total''),
     with_default (SInt 0) (int_col ''bytes_out_total''), int_col ''created_at'',
     with_default (SText []) (text_col ''public_hostname''),
     with_default (SInt 0) (int_col ''proxy_protocol'')]"

text \<open>The columns named by \<open>INSERT INTO tunnels_new ... SELECT ... FROM tunnels\<close>.\<close>

definition copied :: "string list" where
  "copied = [''id'', ''client_id'', ''name'', ''local_host'', ''local_port'', ''public_port'', ''protocol'',
     ''enabled'', ''traffic_limit_bytes'', ''bytes_in_total'', ''bytes_out_total'', ''created_at'',
     ''public_hostname'', ''proxy_protocol'']"

section \<open>Statements\<close>

datatype sqlerr =
    IOErr
  | NoSuchTable
  | NoSuchColumn
  | TableExists
  | DuplicateColumn
  | DefaultMissing
  | NotNullFailed
  | UniqueFailed
  | ForeignKeyViolation

type_synonym 'a sqm = "(sqlite, sqlerr, 'a) sem"

definition stmt :: "(nat \<Rightarrow> bool) \<Rightarrow> (sqlite \<Rightarrow> sqlerr + 'a \<times> sqlite) \<Rightarrow> 'a sqm" where
  "stmt ok f s =
     (let s1 = s\<lparr>sq_n := sq_n s + 1\<rparr>
      in if \<not> ok (sq_n s) then (Inl IOErr, s1)
         else case f s1 of Inl e \<Rightarrow> (Inl e, s1) | Inr (x, s2) \<Rightarrow> (Inr x, s2))"

fun run_ddl :: "ddl \<Rightarrow> sqlite \<Rightarrow> sqlerr + unit \<times> sqlite" where
  "run_ddl (CreateTable T cs) s =
     (if tab s T \<noteq> None then Inr ((), s) else Inr ((), put_table T \<lparr>tb_cols = cs, tb_rows = []\<rparr> s))"
| "run_ddl (CreateIndex i T) s =
     (if list_ex (\<lambda>x. fst x = i) (sq_indexes s) then Inr ((), s)
      else if tab s T = None then Inl NoSuchTable
      else Inr ((), s\<lparr>sq_indexes := (i, T) # sq_indexes s\<rparr>))"

fun exec_all :: "(nat \<Rightarrow> bool) \<Rightarrow> ddl list \<Rightarrow> unit sqm" where
  "exec_all ok [] = retM ()"
| "exec_all ok (d # ds) = bindM (stmt ok (run_ddl d)) (\<lambda>_. exec_all ok ds)"

text \<open>\<open>PRAGMA table_info\<close>: no rows for a table that does not exist.\<close>

definition table_info :: "string \<Rightarrow> sqlite \<Rightarrow> column list" where
  "table_info T s = (case tab s T of None \<Rightarrow> [] | Some tb \<Rightarrow> tb_cols tb)"

definition hasColumn :: "(nat \<Rightarrow> bool) \<Rightarrow> string \<Rightarrow> string \<Rightarrow> bool sqm" where
  "hasColumn ok T c = stmt ok (\<lambda>s. Inr (list_ex (\<lambda>k. col_name k = c) (table_info T s), s))"

definition columnNotNull :: "(nat \<Rightarrow> bool) \<Rightarrow> string \<Rightarrow> string \<Rightarrow> bool sqm" where
  "columnNotNull ok T c = stmt ok (\<lambda>s. Inr
     (case find (\<lambda>k. col_name k = c) (table_info T s) of None \<Rightarrow> False | Some k \<Rightarrow> col_notnull k, s))"

definition dflt_of :: "column \<Rightarrow> sqlval" where
  "dflt_of c = (case col_dflt c of None \<Rightarrow> SNull | Some v \<Rightarrow> v)"

definition add_column :: "string \<Rightarrow> column \<Rightarrow> sqlite \<Rightarrow> sqlerr + unit \<times> sqlite" where
  "add_column T c s =
     (case tab s T of
        None \<Rightarrow> Inl NoSuchTable
      | Some tb \<Rightarrow>
          if List.member (names (tb_cols tb)) (col_name c) then Inl DuplicateColumn
          else if col_notnull c \<and> dflt_of c = SNull then Inl DefaultMissing
          else Inr ((), put_table T \<lparr>tb_cols = tb_cols tb @ [c],
                                     tb_rows = map (\<lambda>r. r @ [dflt_of c]) (tb_rows tb)\<rparr> s))"

text \<open>A row is checked against the constraints as it is inserted.\<close>

definition insert_row :: "column list \<Rightarrow> row \<Rightarrow> row list \<Rightarrow> sqlerr + row list" where
  "insert_row cs r rs =
     (if list_ex (\<lambda>c. col_notnull c \<and> cell cs r (col_name c) = Some SNull) cs then Inl NotNullFailed
      else if list_ex (\<lambda>c. col_unique c \<and> cell cs r (col_name c) \<noteq> Some SNull
             \<and> list_ex (\<lambda>r'. cell cs r' (col_name c) = cell cs r (col_name c)) rs) cs then Inl UniqueFailed
      else Inr (rs @ [r]))"

fun insert_rows :: "column list \<Rightarrow> row list \<Rightarrow> row list \<Rightarrow> sqlerr + row list" where
  "insert_rows cs [] rs = Inr rs"
| "insert_rows cs (r # rest) rs =
     (case insert_row cs r rs of Inl e \<Rightarrow> Inl e | Inr rs' \<Rightarrow> insert_rows cs rest rs')"

definition create_new :: "sqlite \<Rightarrow> sqlerr + unit \<times> sqlite" where
  "create_new s =
     (if tab s ''tunnels_new'' \<noteq> None then Inl TableExists
      else Inr ((), put_table ''tunnels_new'' \<lparr>tb_cols = tunnels_new, tb_rows = []\<rparr> s))"

definition copy_rows :: "sqlite \<Rightarrow> sqlerr + unit \<times> sqlite" where
  "copy_rows s =
     (case (tab s ''tunnels'', tab s ''tunnels_new'') of
        (Some old, Some new) \<Rightarrow>
          if \<not> list_all (List.member (names (tb_cols old))) copied then Inl NoSuchColumn
          else (case insert_rows (tb_cols new)
                       (map (\<lambda>r. map (\<lambda>c. the (cell (tb_cols old) r c)) copied) (tb_rows old)) (tb_rows new) of
                  Inl e \<Rightarrow> Inl e
                | Inr rs \<Rightarrow> Inr ((), put_table ''tunnels_new'' (new\<lparr>tb_rows := rs\<rparr>) s))
      | _ \<Rightarrow> Inl NoSuchTable)"

text \<open>
  \<open>DROP TABLE\<close> first deletes the rows, which cascades to the tables that refer to it unless
  foreign keys are off.
\<close>

definition refers_to :: "string \<Rightarrow> table \<Rightarrow> table \<Rightarrow> row \<Rightarrow> bool" where
  "refers_to T dropped tb r = list_ex (\<lambda>c. col_ref c = Some T \<and> cell (tb_cols tb) r (col_name c) \<noteq> Some SNull
     \<and> list_ex (\<lambda>r'. cell (tb_cols dropped) r' ''id'' = cell (tb_cols tb) r (col_name c)) (tb_rows dropped))
     (tb_cols tb)"

definition drop_table :: "string \<Rightarrow> sqlite \<Rightarrow> sqlerr + unit \<times> sqlite" where
  "drop_table T s =
     (case tab s T of
        None \<Rightarrow> Inl NoSuchTable
      | Some d \<Rightarrow> Inr ((), s\<lparr>sq_tables := AList.delete T
          (if sq_fk s then map (\<lambda>(X, tb). (X, tb\<lparr>tb_rows := filter (\<lambda>r. \<not> refers_to T d tb r) (tb_rows tb)\<rparr>))
                             (sq_tables s)
           else sq_tables s),
          sq_indexes := filter (\<lambda>x. snd x \<noteq> T) (sq_indexes s)\<rparr>))"

definition rename_table :: "string \<Rightarrow> string \<Rightarrow> sqlite \<Rightarrow> sqlerr + unit \<times> sqlite" where
  "rename_table A B s =
     (case tab s A of
        None \<Rightarrow> Inl NoSuchTable
      | Some tb \<Rightarrow> if tab s B \<noteq> None then Inl TableExists
          else Inr ((), s\<lparr>sq_tables := AList.update B tb (AList.delete A (sq_tables s)),
            sq_indexes := map (\<lambda>(i, T). (i, if T = A then B else T)) (sq_indexes s)\<rparr>))"

definition row_refs_ok :: "sqlite \<Rightarrow> table \<Rightarrow> row \<Rightarrow> bool" where
  "row_refs_ok s tb r = list_all (\<lambda>c. case col_ref c of
       None \<Rightarrow> True
     | Some T \<Rightarrow> cell (tb_cols tb) r (col_name c) = Some SNull
         \<or> (case tab s T of None \<Rightarrow> False
            | Some p \<Rightarrow> list_ex (\<lambda>r'. cell (tb_cols p) r' ''id'' = cell (tb_cols tb) r (col_name c)) (tb_rows p)))
     (tb_cols tb)"

definition foreign_key_check :: "sqlite \<Rightarrow> bool" where
  "foreign_key_check s = list_all (\<lambda>(T, _). case tab s T of
     None \<Rightarrow> True | Some tb \<Rightarrow> list_all (row_refs_ok s tb) (tb_rows tb)) (sq_tables s)"

section \<open>Migrations\<close>

definition set_fk :: "bool \<Rightarrow> sqlite \<Rightarrow> sqlerr + unit \<times> sqlite" where
  "set_fk b s = Inr ((), s\<lparr>sq_fk := b\<rparr>)"

text \<open>\<open>Begin\<close>, the body, \<open>Commit\<close>; anything that fails undoes what was done since \<open>Begin\<close>.\<close>

definition with_sqltx :: "(nat \<Rightarrow> bool) \<Rightarrow> unit sqm \<Rightarrow> unit sqm" where
  "with_sqltx ok body = bindM (stmt ok (\<lambda>s. Inr ((), s))) (\<lambda>_ s0.
     case bindM body (\<lambda>_. stmt ok (\<lambda>s. Inr ((), s))) s0 of
       (Inl e, s1) \<Rightarrow> (Inl e, s1\<lparr>sq_tables := sq_tables s0, sq_indexes := sq_indexes s0\<rparr>)
     | (Inr x, s1) \<Rightarrow> (Inr x, s1))"

definition rebuild_tunnels :: "(nat \<Rightarrow> bool) \<Rightarrow> unit sqm" where
  "rebuild_tunnels ok =
     bindM (stmt ok create_new) (\<lambda>_.
     bindM (stmt ok copy_rows) (\<lambda>_.
     bindM (stmt ok (drop_table ''tunnels'')) (\<lambda>_.
     bindM (stmt ok (rename_table ''tunnels_new'' ''tunnels'')) (\<lambda>_.
     bindM (stmt ok (run_ddl (CreateIndex ''idx_tunnels_client_id'' ''tunnels''))) (\<lambda>_.
     bindM (stmt ok (\<lambda>s. Inr (foreign_key_check s, s))) (\<lambda>fine.
     if fine then retM () else failM ForeignKeyViolation))))))"

text \<open>The deferred \<open>PRAGMA\<close> runs on every path, and its error is ignored.\<close>

definition deferred_fk_on :: "(nat \<Rightarrow> bool) \<Rightarrow> 'a sqm \<Rightarrow> 'a sqm" where
  "deferred_fk_on ok m s = (case m s of (r, s1) \<Rightarrow> (r, snd (stmt ok (set_fk True) s1)))"

definition migrateTunnelsPublicPortNullable :: "(nat \<Rightarrow> bool) \<Rightarrow> unit sqm" where
  "migrateTunnelsPublicPortNullable ok =
     bindM (columnNotNull ok ''tunnels'' ''public_port'') (\<lambda>notNull.
     if \<not> notNull then retM ()
     else bindM (stmt ok (set_fk False)) (\<lambda>_.
       deferred_fk_on ok (with_sqltx ok (rebuild_tunnels ok))))"

fun add_columns :: "(nat \<Rightarrow> bool) \<Rightarrow> (string \<times> column) list \<Rightarrow> unit sqm" where
  "add_columns ok [] = retM ()"
| "add_columns ok ((T, c) # ms) =
     bindM (hasColumn ok T (col_name c)) (\<lambda>has.
     if has then add_columns ok ms
     else bindM (stmt ok (add_column T c)) (\<lambda>_. add_columns ok ms))"

definition migrateSchema :: "(nat \<Rightarrow> bool) \<Rightarrow> unit sqm" where
  "migrateSchema ok = bindM (add_columns ok migrations) (\<lambda>_. migrateTunnelsPublicPortNullable ok)"

text \<open>
  \<open>Open\<close> on the file's content. (The DSN turns foreign keys on for the new connection.)
\<close>

definition OpenDB :: "(nat \<Rightarrow> bool) \<Rightarrow> unit sqm" where
  "OpenDB ok s = bindM (exec_all ok schemaSQL) (\<lambda>_. migrateSchema ok) (s\<lparr>sq_fk := True\<rparr>)"

end
