(* ===== verification/MigrationProps.thy ===== *)
theory MigrationProps
imports Migration
begin

text \<open>
  What opening a database does to its content. A file written by any version of the program is
  described by the shape of its tables; its content is the database of the model, with the default
  in every field whose column the file does not have yet. Triples over the statements show that no
  outcome changes the content, and that success leaves the current schema.
\<close>

section \<open>Files of any version\<close>

definition created :: "(string \<times> column list) list" where
  "created = List.map_filter (\<lambda>d. case d of CreateTable T cs \<Rightarrow> Some (T, cs) | _ \<Rightarrow> None) schemaSQL"

definition full_cols :: "string \<Rightarrow> column list" where
  "full_cols T = (case map_of created T of None \<Rightarrow> [] | Some cs \<Rightarrow> cs)
     @ map snd (filter (\<lambda>m. fst m = T) migrations)"

definition old_cols :: "string \<Rightarrow> column list" where
  "old_cols T = (if T = ''tunnels'' then [unique (int_col ''public_port'')] else [])"

text \<open>The columns of the first version, and any of the later ones, in any order.\<close>

definition shape :: "string \<Rightarrow> column list \<Rightarrow> bool" where
  "shape T cs \<longleftrightarrow> (case map_of created T of
       None \<Rightarrow> False
     | Some base \<Rightarrow> distinct (names cs) \<and> set cs \<subseteq> set (full_cols T @ old_cols T)
         \<and> set (filter (\<lambda>n. n \<noteq> ''traffic_limit_bytes'') (names base)) \<subseteq> set (names cs))"

fun typed :: "coltype \<Rightarrow> sqlval \<Rightarrow> bool" where
  "typed TEXT (SText _) = True"
| "typed INTEGER (SInt _) = True"
| "typed _ SNull = True"
| "typed _ _ = False"

text \<open>SQLite does not check that a text key is not NULL; the program never writes one that is.\<close>

definition value_ok :: "column \<Rightarrow> sqlval \<Rightarrow> bool" where
  "value_ok c v \<longleftrightarrow> typed (col_type c) v
     \<and> (col_notnull c \<or> col_unique c \<and> col_type c = TEXT \<longrightarrow> v \<noteq> SNull)"

definition column_ok :: "column list \<Rightarrow> row list \<Rightarrow> column \<Rightarrow> bool" where
  "column_ok cs rs c \<longleftrightarrow> list_all (\<lambda>r. case cell cs r (col_name c) of None \<Rightarrow> False | Some v \<Rightarrow> value_ok c v) rs
     \<and> (col_unique c \<longrightarrow> distinct (filter (\<lambda>v. v \<noteq> Some SNull) (map (\<lambda>r. cell cs r (col_name c)) rs)))"

definition table_ok :: "table \<Rightarrow> bool" where
  "table_ok tb \<longleftrightarrow> list_all (\<lambda>r. length r = length (tb_cols tb)) (tb_rows tb)
     \<and> list_all (column_ok (tb_cols tb) (tb_rows tb)) (tb_cols tb)"

definition tables_ok :: "sqlite \<Rightarrow> bool" where
  "tables_ok s \<longleftrightarrow> list_all (\<lambda>(T, _). case tab s T of
     None \<Rightarrow> True | Some tb \<Rightarrow> shape T (tb_cols tb) \<and> table_ok tb) (sq_tables s)"

section \<open>The content\<close>

definition field :: "column list \<Rightarrow> row \<Rightarrow> string \<Rightarrow> sqlval \<Rightarrow> sqlval" where
  "field cs r c d = (case cell cs r c of None \<Rightarrow> d | Some v \<Rightarrow> v)"

fun text_of :: "sqlval \<Rightarrow> string" where
  "text_of (SText t) = t"
| "text_of _ = []"

fun int_of :: "sqlval \<Rightarrow> int" where
  "int_of (SInt i) = i"
| "int_of _ = 0"

fun opt_int :: "sqlval \<Rightarrow> int option" where
  "opt_int (SInt i) = Some i"
| "opt_int _ = None"

definition rows_of :: "sqlite \<Rightarrow> string \<Rightarrow> (column list \<Rightarrow> row \<Rightarrow> 'a) \<Rightarrow> 'a list" where
  "rows_of s T f = (case tab s T of None \<Rightarrow> [] | Some tb \<Rightarrow> map (f (tb_cols tb)) (tb_rows tb))"

definition admin_of :: "column list \<Rightarrow> row \<Rightarrow> AdminUser" where
  "admin_of cs r = \<lparr>a_ID = text_of (field cs r ''id'' SNull), a_Username = text_of (field cs r ''username'' SNull),
     a_PasswordHash = text_of (field cs r ''password_hash'' SNull),
     a_MustChangePassword = (field cs r ''must_change_password'' SNull = SInt 1)\<rparr>"

definition client_of :: "column list \<Rightarrow> row \<Rightarrow> Client" where
  "client_of cs r = \<lparr>c_ID = text_of (field cs r ''id'' SNull), c_Name = text_of (field cs r ''name'' SNull),
     c_TokenHash = text_of (field cs r ''token_hash'' SNull), c_CreatedAt = int_of (field cs r ''created_at'' SNull),
     c_LastSeen = opt_int (field cs r ''last_seen'' SNull),
     c_TrafficLimitBytes = opt_int (field cs r ''traffic_limit_bytes'' SNull)\<rparr>"

definition tunnel_of :: "column list \<Rightarrow> row \<Rightarrow> tunnel_row" where
  "tunnel_of cs r = \<lparr>r_id = text_of (field cs r ''id'' SNull), r_client_id = text_of (field cs r ''client_id'' SNull),
     r_name = text_of (field cs r ''name'' SNull), r_local_host = text_of (field cs r ''local_host'' SNull),
     r_local_port = int_of (field cs r ''local_port'' SNull),
     r_public_port = opt_int (field cs r ''public_port'' SNull),
     r_protocol = text_of (field cs r ''protocol'' SNull), r_enabled = (field cs r ''enabled'' SNull = SInt 1),
     r_traffic_limit = opt_int (field cs r ''traffic_limit_bytes'' SNull),
     r_public_hostname = text_of (field cs r ''public_hostname'' (SText [])),
     r_proxy_protocol = (field cs r ''proxy_protocol'' (SInt 0) = SInt 1),
     r_bytes_in = int_of (field cs r ''bytes_in_total'' SNull),
     r_bytes_out = int_of (field cs r ''bytes_out_total'' SNull),
     r_created_at = int_of (field cs r ''created_at'' SNull)\<rparr>"

definition sample_of :: "column list \<Rightarrow> row \<Rightarrow> sample_row" where
  "sample_of cs r = \<lparr>s_tunnel_id = text_of (field cs r ''tunnel_id'' SNull), s_ts = int_of (field cs r ''ts'' SNull),
     s_bytes_in = int_of (field cs r ''bytes_in'' SNull), s_bytes_out = int_of (field cs r ''bytes_out'' SNull)\<rparr>"

definition key_of :: "column list \<Rightarrow> row \<Rightarrow> ApiKey" where
  "key_of cs r = \<lparr>k_ID = text_of (field cs r ''id'' SNull), k_Name = text_of (field cs r ''name'' SNull),
     k_TokenHash = text_of (field cs r ''token_hash'' SNull), k_CreatedAt = int_of (field cs r ''created_at'' SNull),
     k_LastUsed = opt_int (field cs r ''last_used'' SNull)\<rparr>"

definition code_of :: "column list \<Rightarrow> row \<Rightarrow> string \<times> enroll_row" where
  "code_of cs r = (text_of (field cs r ''code_hash'' SNull),
     \<lparr>e_client_id = text_of (field cs r ''client_id'' SNull), e_token = text_of (field cs r ''token'' SNull),
      e_created_at = int_of (field cs r ''created_at'' SNull), e_expires_at = int_of (field cs r ''expires_at'' SNull)\<rparr>)"

definition load_db :: "sqlite \<Rightarrow> db" where
  "load_db s = \<lparr>d_open = True, d_admins = rows_of s ''admin_users'' admin_of,
     d_clients = rows_of s ''clients'' client_of, d_tunnels = rows_of s ''tunnels'' tunnel_of,
     d_samples = rows_of s ''traffic_samples'' sample_of,
     d_settings = map_of (rows_of s ''server_settings''
       (\<lambda>cs r. (text_of (field cs r ''key'' SNull), text_of (field cs r ''value'' SNull)))),
     d_revoked = map_of (rows_of s ''revoked_tokens''
       (\<lambda>cs r. (text_of (field cs r ''token_hash'' SNull), int_of (field cs r ''revoked_at'' SNull)))),
     d_api_keys = rows_of s ''api_keys'' key_of,
     d_codes = map_of (rows_of s ''enrollment_codes'' code_of)\<rparr>"

text \<open>A file as some version of the program has left it, and one with the current schema.\<close>

definition historic :: "sqlite \<Rightarrow> bool" where
  "historic s \<longleftrightarrow> tables_ok s \<and> foreign_key_check s
     \<and> list_all (\<lambda>t. case r_public_port t of None \<Rightarrow> True | Some p \<Rightarrow> 0 < p) (d_tunnels (load_db s))"

definition current :: "sqlite \<Rightarrow> bool" where
  "current s \<longleftrightarrow> list_all (\<lambda>(T, _). case tab s T of
     None \<Rightarrow> False | Some tb \<Rightarrow> set (tb_cols tb) = set (full_cols T)) created"

section \<open>Tables by name\<close>

lemma all_tables: "list_all (\<lambda>(T, _). case tab s T of None \<Rightarrow> True | Some tb \<Rightarrow> P T tb) (sq_tables s)
   \<longleftrightarrow> (\<forall>T tb. tab s T = Some tb \<longrightarrow> P T tb)" (is "?l \<longleftrightarrow> ?r")
proof
  assume l: ?l
  show ?r
  proof (intro allI impI)
    fix T tb
    assume t: "tab s T = Some tb"
    then have "(T, tb) \<in> set (sq_tables s)" by (rule map_of_SomeD)
    with l t show "P T tb" by (auto simp: list_all_iff)
  qed
next
  assume ?r
  then show ?l by (auto simp: list_all_iff split: option.split)
qed

lemma tables_ok_iff: "tables_ok s \<longleftrightarrow> (\<forall>T tb. tab s T = Some tb \<longrightarrow> shape T (tb_cols tb) \<and> table_ok tb)"
  unfolding tables_ok_def all_tables ..

lemma tables_okD: "tables_ok s \<Longrightarrow> tab s T = Some tb \<Longrightarrow> shape T (tb_cols tb) \<and> table_ok tb"
  unfolding tables_ok_iff by blast

lemma tables_okI:
  "(\<And>T tb. tab s T = Some tb \<Longrightarrow> shape T (tb_cols tb) \<and> table_ok tb) \<Longrightarrow> tables_ok s"
  unfolding tables_ok_iff by blast

lemma foreign_keys_iff: "foreign_key_check s \<longleftrightarrow>
    (\<forall>T tb. tab s T = Some tb \<longrightarrow> (\<forall>r\<in>set (tb_rows tb). row_refs_ok s tb r))"
  unfolding foreign_key_check_def all_tables by (simp add: list_all_iff)

lemma tab_put [simp]: "map_of (sq_tables (put_table T tb s)) = (tab s)(T \<mapsto> tb)"
  by (simp add: put_table_def update_conv')

text \<open>Everything above depends on the tables only.\<close>

lemma row_refs_ok_cong:
  assumes "tab s = tab s'"
  shows "row_refs_ok s tb r = row_refs_ok s' tb r"
  unfolding row_refs_ok_def assms ..

lemma rows_of_cong: "tab s = tab s' \<Longrightarrow> rows_of s T f = rows_of s' T f"
  by (simp add: rows_of_def)

lemma load_db_cong: "tab s = tab s' \<Longrightarrow> load_db s = load_db s'"
  unfolding load_db_def by (simp add: rows_of_def)

lemma historic_cong:
  assumes "tab s = tab s'"
  shows "historic s = historic s'"
proof -
  have "tables_ok s = tables_ok s'" unfolding tables_ok_iff assms ..
  moreover have "foreign_key_check s = foreign_key_check s'"
    unfolding foreign_keys_iff assms row_refs_ok_cong [OF assms] ..
  ultimately show ?thesis by (simp add: historic_def load_db_cong [OF assms])
qed

lemma current_cong:
  assumes "tab s = tab s'"
  shows "current s = current s'"
  unfolding current_def assms ..

section \<open>Cells\<close>

lemma cell_in:
  assumes "length r = length cs" and "n \<in> set (names cs)"
  shows "cell cs r n = Some (the (cell cs r n))"
proof -
  have "n \<in> fst ` set (zip (names cs) r)"
    using assms by (metis length_map map_fst_zip names_def set_map)
  then show ?thesis unfolding cell_def by (metis map_of_eq_None_iff option.collapse)
qed

lemma cell_notin: "n \<notin> set (names cs) \<Longrightarrow> cell cs r n = None"
  unfolding cell_def map_of_eq_None_iff by (auto dest: set_zip_leftD)

lemma cell_add:
  assumes "length r = length cs" and "col_name c \<notin> set (names cs)"
  shows "cell (cs @ [c]) (r @ [v]) n = (if n = col_name c then Some v else cell cs r n)"
proof -
  have "zip (names (cs @ [c])) (r @ [v]) = zip (names cs) r @ [(col_name c, v)]"
    using assms(1) by (simp add: names_def)
  then have "cell (cs @ [c]) (r @ [v]) n = (map_of [(col_name c, v)] ++ map_of (zip (names cs) r)) n"
    unfolding cell_def by (simp only: map_of_append)
  also have "\<dots> = (if n = col_name c then Some v else cell cs r n)"
    using cell_notin [OF assms(2), of r] by (auto simp: cell_def map_add_def split: option.split)
  finally show ?thesis .
qed

lemma cell_map: "n \<in> set (names cs) \<Longrightarrow> cell cs (map f (names cs)) n = Some (f n)"
  by (simp add: cell_def map_of_zip_map)

lemma names_set: "n \<in> set (names cs) \<longleftrightarrow> (\<exists>c\<in>set cs. col_name c = n)"
  by (auto simp: names_def)

lemma table_okD:
  assumes "table_ok tb"
  shows "r \<in> set (tb_rows tb) \<Longrightarrow> length r = length (tb_cols tb)"
    and "c \<in> set (tb_cols tb) \<Longrightarrow> column_ok (tb_cols tb) (tb_rows tb) c"
  using assms by (auto simp: table_ok_def list_all_iff)

text \<open>What a migration adds to a table.\<close>

lemma migrated:
  assumes "(T, c) \<in> set migrations"
  shows "value_ok c (dflt_of c)" "\<not> col_unique c" "col_ref c = None" "\<not> (col_notnull c \<and> dflt_of c = SNull)"
    "c \<in> set (full_cols T)" "T = ''tunnels'' \<or> T = ''clients''"
proof -
  have "list_all (\<lambda>(T, c). value_ok c (dflt_of c) \<and> \<not> col_unique c \<and> col_ref c = None
      \<and> \<not> (col_notnull c \<and> dflt_of c = SNull) \<and> List.member (full_cols T) c
      \<and> (T = ''tunnels'' \<or> T = ''clients'')) migrations"
    by code_simp
  with assms show "value_ok c (dflt_of c)" "\<not> col_unique c" "col_ref c = None" "\<not> (col_notnull c \<and> dflt_of c = SNull)"
    "c \<in> set (full_cols T)" "T = ''tunnels'' \<or> T = ''clients''"
    by (auto simp: list_all_iff)
qed

section \<open>Replacing a table by a wider one\<close>

text \<open>
  The new table has the old columns, perhaps less constrained, with the same values, and columns
  of a migration with their default.
\<close>

definition widens :: "string \<Rightarrow> table \<Rightarrow> (row \<Rightarrow> row) \<Rightarrow> column list \<Rightarrow> bool" where
  "widens T tb g cs \<longleftrightarrow> shape T cs \<and> ''id'' \<in> set (names (tb_cols tb))
     \<and> (\<forall>r\<in>set (tb_rows tb). length (g r) = length cs
          \<and> (\<forall>n\<in>set (names (tb_cols tb)). cell cs (g r) n = cell (tb_cols tb) r n)
          \<and> (\<forall>c\<in>set cs. col_name c \<notin> set (names (tb_cols tb)) \<longrightarrow> cell cs (g r) (col_name c) = Some (dflt_of c)))
     \<and> (\<forall>c\<in>set cs. if col_name c \<in> set (names (tb_cols tb))
          then \<exists>c0\<in>set (tb_cols tb). col_name c0 = col_name c \<and> col_type c0 = col_type c
            \<and> col_unique c0 = col_unique c \<and> col_ref c0 = col_ref c \<and> (col_notnull c \<longrightarrow> col_notnull c0)
          else (T, c) \<in> set migrations)"

lemma widens_column_ok:
  assumes "table_ok tb" and "widens T tb g cs" and "c \<in> set cs"
  shows "column_ok cs (map g (tb_rows tb)) c"
proof (cases "col_name c \<in> set (names (tb_cols tb))")
  case True
  with assms(2,3) obtain c0 where c0: "c0 \<in> set (tb_cols tb)" "col_name c0 = col_name c" "col_type c0 = col_type c"
      "col_unique c0 = col_unique c" "col_notnull c \<longrightarrow> col_notnull c0"
    unfolding widens_def by (metis (no_types, lifting))
  have cells: "cell cs (g r) (col_name c) = cell (tb_cols tb) r (col_name c0)" if "r \<in> set (tb_rows tb)" for r
    using assms(2) True that c0(2) by (auto simp: widens_def)
  then have eq: "map (\<lambda>r. cell cs r (col_name c)) (map g (tb_rows tb)) = map (\<lambda>r. cell (tb_cols tb) r (col_name c0)) (tb_rows tb)"
    by simp
  have "value_ok c v" if "value_ok c0 v" for v using that c0(3-5) by (simp add: value_ok_def)
  then have "list_all (\<lambda>r. case cell cs r (col_name c) of None \<Rightarrow> False | Some v \<Rightarrow> value_ok c v) (map g (tb_rows tb))"
    using table_okD(2) [OF assms(1) c0(1)] cells
    by (auto simp: column_ok_def list_all_iff split: option.splits)
  moreover have "col_unique c \<longrightarrow> distinct (filter (\<lambda>v. v \<noteq> Some SNull) (map (\<lambda>r. cell cs r (col_name c)) (map g (tb_rows tb))))"
    unfolding eq using table_okD(2) [OF assms(1) c0(1)] c0(4) by (simp add: column_ok_def)
  ultimately show ?thesis by (simp only: column_ok_def)
next
  case False
  with assms(2,3) have m: "(T, c) \<in> set migrations" by (auto simp: widens_def)
  have "cell cs (g r) (col_name c) = Some (dflt_of c)" if "r \<in> set (tb_rows tb)" for r
    using assms(2,3) False that by (auto simp: widens_def)
  with migrated(1,2) [OF m] show ?thesis by (simp add: column_ok_def list_all_iff)
qed

lemma widens_table_ok:
  assumes "table_ok tb" and "widens T tb g cs"
  shows "table_ok \<lparr>tb_cols = cs, tb_rows = map g (tb_rows tb)\<rparr>"
  using widens_column_ok [OF assms] assms(2) by (simp add: table_ok_def list_all_iff widens_def)

lemma widens_field:
  assumes "widens T tb g cs" and "r \<in> set (tb_rows tb)"
    and "list_all (\<lambda>m. fst m = T \<and> col_name (snd m) = n \<longrightarrow> dflt_of (snd m) = d) migrations"
  shows "field cs (g r) n d = field (tb_cols tb) r n d"
proof (cases "n \<in> set (names (tb_cols tb))")
  case True
  with assms(1,2) show ?thesis by (simp add: widens_def field_def)
next
  case False
  note old = cell_notin [OF False]
  show ?thesis
  proof (cases "n \<in> set (names cs)")
    case True
    then obtain c where c: "c \<in> set cs" "col_name c = n" by (auto simp: names_set)
    with False assms(1,2) have "(T, c) \<in> set migrations" "cell cs (g r) n = Some (dflt_of c)"
      by (auto simp: widens_def)
    moreover from this(1) assms(3) c(2) have "dflt_of c = d" by (auto simp: list_all_iff)
    ultimately show ?thesis by (simp add: field_def old)
  next
    case False
    then show ?thesis by (simp add: field_def old cell_notin)
  qed
qed

lemma widens_load:
  assumes "widens T tb g cs" and "tab s T = Some tb" and "T = ''tunnels'' \<or> T = ''clients''"
    and "tab s' = (tab s)(T \<mapsto> \<lparr>tb_cols = cs, tb_rows = map g (tb_rows tb)\<rparr>)"
  shows "load_db s' = load_db s"
proof -
  have other: "rows_of s' X f = rows_of s X f" if "X \<noteq> T" for X and f :: "column list \<Rightarrow> row \<Rightarrow> 'a"
    unfolding rows_of_def assms(4) using that by simp
  have same: "rows_of s' T f = rows_of s T f"
    if "\<And>r. r \<in> set (tb_rows tb) \<Longrightarrow> f cs (g r) = f (tb_cols tb) r" for f :: "column list \<Rightarrow> row \<Rightarrow> 'a"
    unfolding rows_of_def assms(4) using that assms(2) by simp
  note fld = widens_field [OF assms(1)] and added = migrations_def dflt_of_def nullable_def with_default_def
    text_col_def int_col_def
  from assms(3) show ?thesis
  proof
    assume T: "T = ''tunnels''"
    have "rows_of s' T tunnel_of = rows_of s T tunnel_of"
      by (rule same) (auto simp: tunnel_of_def fld T added)
    with T show ?thesis by (simp add: load_db_def other)
  next
    assume T: "T = ''clients''"
    have "rows_of s' T client_of = rows_of s T client_of"
      by (rule same) (auto simp: client_of_def fld T added)
    with T show ?thesis by (simp add: load_db_def other)
  qed
qed

lemma refs_fine:
  "row_refs_ok s tb r \<longleftrightarrow> (\<forall>c\<in>set (tb_cols tb). \<forall>P. col_ref c = Some P \<longrightarrow>
     cell (tb_cols tb) r (col_name c) = Some SNull
     \<or> (\<exists>p. tab s P = Some p \<and> (\<exists>r'\<in>set (tb_rows p). cell (tb_cols p) r' ''id'' = cell (tb_cols tb) r (col_name c))))"
  by (auto simp: row_refs_ok_def list_all_iff list_ex_iff split: option.splits) force+

lemma widens_refs:
  assumes "widens T tb g cs" and "tab s T = Some tb" and "foreign_key_check s"
    and "tab s' = (tab s)(T \<mapsto> \<lparr>tb_cols = cs, tb_rows = map g (tb_rows tb)\<rparr>)"
  shows "foreign_key_check s'"
proof -
  let ?new = "\<lparr>tb_cols = cs, tb_rows = map g (tb_rows tb)\<rparr>"
  text \<open>A parent row that was there is still there.\<close>
  have parent: "\<exists>p. tab s' P = Some p \<and> (\<exists>r'\<in>set (tb_rows p). cell (tb_cols p) r' ''id'' = v)"
    if p: "tab s P = Some p" "r' \<in> set (tb_rows p)" "cell (tb_cols p) r' ''id'' = v" for P p r' v
  proof (cases "P = T")
    case True
    then have "cell cs (g r') ''id'' = v" "tab s' P = Some ?new"
      using p assms(1,2) by (auto simp: widens_def assms(4))
    then show ?thesis using p True assms(2) by auto
  next
    case False
    then show ?thesis using p by (auto simp: assms(4))
  qed
  have old: "row_refs_ok s tb' r" if "tab s X = Some tb'" "r \<in> set (tb_rows tb')" for X tb' r
    using assms(3) that by (auto simp: foreign_keys_iff)
  show ?thesis
    unfolding foreign_keys_iff
  proof (intro allI impI ballI)
    fix X tb' r
    assume X: "tab s' X = Some tb'" and r: "r \<in> set (tb_rows tb')"
    show "row_refs_ok s' tb' r"
    proof (cases "X = T")
      case False
      then have "row_refs_ok s tb' r" using X r old by (simp add: assms(4))
      then show ?thesis unfolding refs_fine using parent by metis
    next
      case True
      then have tb': "tb' = ?new" using X by (simp add: assms(4))
      then obtain r0 where r0: "r0 \<in> set (tb_rows tb)" "r = g r0" using r by auto
      show ?thesis
        unfolding refs_fine
      proof (intro ballI allI impI)
        fix c P
        assume c: "c \<in> set (tb_cols tb')" "col_ref c = Some P"
        then have "(T, c) \<notin> set migrations" using migrated(3) by auto
        with c(1) assms(1) obtain c0 where c0: "c0 \<in> set (tb_cols tb)" "col_name c0 = col_name c" "col_ref c0 = Some P"
          unfolding widens_def tb' using c(2) by (metis (no_types, lifting) table.select_convs(1))
        have "col_name c \<in> set (names (tb_cols tb))" using c0(1,2) by (auto simp: names_set)
        then have "cell cs (g r0) (col_name c) = cell (tb_cols tb) r0 (col_name c0)"
          using assms(1) r0(1) c0(2) by (simp add: widens_def)
        moreover have "cell (tb_cols tb) r0 (col_name c0) = Some SNull \<or> (\<exists>p. tab s P = Some p
            \<and> (\<exists>r'\<in>set (tb_rows p). cell (tb_cols p) r' ''id'' = cell (tb_cols tb) r0 (col_name c0)))"
          using old [OF assms(2) r0(1)] c0 unfolding refs_fine by blast
        ultimately show "cell (tb_cols tb') r (col_name c) = Some SNull \<or> (\<exists>p. tab s' P = Some p
            \<and> (\<exists>r'\<in>set (tb_rows p). cell (tb_cols p) r' ''id'' = cell (tb_cols tb') r (col_name c)))"
          using parent unfolding tb' r0(2) by (metis table.select_convs(1))
      qed
    qed
  qed
qed

lemma widens_historic:
  assumes "widens T tb g cs" and "tab s T = Some tb" and "T = ''tunnels'' \<or> T = ''clients''" and "historic s"
    and "tab s' = (tab s)(T \<mapsto> \<lparr>tb_cols = cs, tb_rows = map g (tb_rows tb)\<rparr>)"
  shows "historic s' \<and> load_db s' = load_db s"
proof -
  have "tables_ok s" using assms(4) by (simp add: historic_def)
  have "tables_ok s'"
  proof (rule tables_okI)
    fix X tb'
    assume X: "tab s' X = Some tb'"
    show "shape X (tb_cols tb') \<and> table_ok tb'"
    proof (cases "X = T")
      case True
      then have "tb' = \<lparr>tb_cols = cs, tb_rows = map g (tb_rows tb)\<rparr>" using X by (simp add: assms(5))
      then show ?thesis
        using widens_table_ok [of tb T g cs] assms(1) tables_okD [OF \<open>tables_ok s\<close> assms(2)] True by (simp add: widens_def)
    next
      case False
      then show ?thesis using X tables_okD [OF \<open>tables_ok s\<close>] by (simp add: assms(5))
    qed
  qed
  moreover note widens_load [OF assms(1,2,3,5)]
  moreover have "foreign_key_check s'"
    using widens_refs [OF assms(1,2) _ assms(5)] assms(4) by (simp add: historic_def)
  ultimately show ?thesis using assms(4) by (simp add: historic_def)
qed

section \<open>Triples\<close>

text \<open>
  From a state in \<open>P\<close>, the call ends in \<open>Q\<close> with its result, or in \<open>E\<close> because a statement failed.
\<close>

definition sql_triple :: "(nat \<Rightarrow> bool) \<Rightarrow> (sqlite \<Rightarrow> bool) \<Rightarrow> 'a sqm \<Rightarrow> ('a \<Rightarrow> sqlite \<Rightarrow> bool) \<Rightarrow> (sqlite \<Rightarrow> bool) \<Rightarrow> bool" where
  "sql_triple ok P m Q E \<longleftrightarrow> (\<forall>s. P s \<longrightarrow> (case m s of (Inl e, s') \<Rightarrow> E s' \<and> (\<exists>n. \<not> ok n) | (Inr x, s') \<Rightarrow> Q x s'))"

lemma sql_bind:
  assumes "sql_triple ok P m R E" and "\<And>x. sql_triple ok (R x) (f x) Q E"
  shows "sql_triple ok P (bindM m f) Q E"
  unfolding sql_triple_def
proof (intro allI impI)
  fix s
  assume "P s"
  show "case bindM m f s of (Inl e, s') \<Rightarrow> E s' \<and> (\<exists>n. \<not> ok n) | (Inr x, s') \<Rightarrow> Q x s'"
  proof (cases "m s")
    case (Pair r s1)
    then show ?thesis
      using assms(1) \<open>P s\<close> assms(2) by (cases r) (force simp: sql_triple_def bindM_def)+
  qed
qed

lemma sql_ret: "(\<And>s. P s \<Longrightarrow> Q x s) \<Longrightarrow> sql_triple ok P (retM x) Q E"
  by (simp add: sql_triple_def retM_def)

lemma sql_pre: "sql_triple ok P m Q E \<Longrightarrow> (\<And>s. P' s \<Longrightarrow> P s) \<Longrightarrow> sql_triple ok P' m Q E"
  by (simp add: sql_triple_def)

lemma sql_post:
  "sql_triple ok P m Q E \<Longrightarrow> (\<And>x s. Q x s \<Longrightarrow> Q' x s) \<Longrightarrow> (\<And>s. E s \<Longrightarrow> E' s) \<Longrightarrow> sql_triple ok P m Q' E'"
  unfolding sql_triple_def by (fastforce split: prod.splits sum.splits)

text \<open>A statement that succeeds whenever it is executed.\<close>

lemma sql_stmt:
  assumes "\<And>s. P s \<Longrightarrow> E (s\<lparr>sq_n := sq_n s + 1\<rparr>)"
    and "\<And>s. P s \<Longrightarrow> \<exists>x s2. f (s\<lparr>sq_n := sq_n s + 1\<rparr>) = Inr (x, s2) \<and> Q x s2"
  shows "sql_triple ok P (stmt ok f) Q E"
  unfolding sql_triple_def
proof (intro allI impI)
  fix s
  assume "P s"
  with assms(2) obtain x s2 where "f (s\<lparr>sq_n := sq_n s + 1\<rparr>) = Inr (x, s2)" "Q x s2" by blast
  with assms(1) [OF \<open>P s\<close>]
  show "case stmt ok f s of (Inl e, s') \<Rightarrow> E s' \<and> (\<exists>n. \<not> ok n) | (Inr x, s') \<Rightarrow> Q x s'"
    by (auto simp: stmt_def Let_def)
qed

text \<open>Invariants that only look at the tables survive the count and the flags.\<close>

definition content :: "db \<Rightarrow> sqlite \<Rightarrow> bool" where
  "content D s \<longleftrightarrow> historic s \<and> load_db s = D"

lemma content_cong: "tab s = tab s' \<Longrightarrow> content D s = content D s'"
  using historic_cong [of s s'] load_db_cong [of s s'] by (simp add: content_def)

lemma content_flags [simp]:
  "content D (s\<lparr>sq_n := n\<rparr>) = content D s" "content D (s\<lparr>sq_fk := b\<rparr>) = content D s"
  "content D (s\<lparr>sq_indexes := i\<rparr>) = content D s"
  by (rule content_cong, simp)+

section \<open>The schema file\<close>

lemma content_create:
  assumes "content D s" and "tab s T = None" and "(T, cs) \<in> set created"
  shows "content D (put_table T \<lparr>tb_cols = cs, tb_rows = []\<rparr> s)"
proof -
  let ?s' = "put_table T \<lparr>tb_cols = cs, tb_rows = []\<rparr> s"
  have "list_all (\<lambda>(T, cs). shape T cs) created" by code_simp
  with assms(3) have sh: "shape T cs" by (auto simp: list_all_iff)
  have wf: "tables_ok s" "foreign_key_check s" using assms(1) by (simp_all add: content_def historic_def)
  have tables: "tables_ok ?s'"
  proof (rule tables_okI)
    fix X tb
    assume "tab ?s' X = Some tb"
    then show "shape X (tb_cols tb) \<and> table_ok tb"
      using tables_okD [OF wf(1)] sh
      by (cases "X = T") (auto simp: table_ok_def column_ok_def list_all_iff)
  qed
  have "row_refs_ok ?s' tb r" if "row_refs_ok s tb r" for tb r
    using that assms(2) unfolding refs_fine by fastforce
  then have refs: "foreign_key_check ?s'"
    using wf(2) by (auto simp: foreign_keys_iff)
  have "rows_of ?s' X f = rows_of s X f" for X and f :: "column list \<Rightarrow> row \<Rightarrow> 'a"
    using assms(2) by (simp add: rows_of_def)
  then have "load_db ?s' = load_db s" by (simp add: load_db_def rows_of_def assms(2))
  with assms(1) tables refs show ?thesis by (auto simp: content_def historic_def)
qed

definition present :: "string list \<Rightarrow> sqlite \<Rightarrow> bool" where
  "present Ts s \<longleftrightarrow> (\<forall>T\<in>set Ts. tab s T \<noteq> None)"

fun table_names :: "ddl list \<Rightarrow> string list" where
  "table_names [] = []"
| "table_names (CreateTable T cs # ds) = T # table_names ds"
| "table_names (CreateIndex i T # ds) = table_names ds"

fun ddl_ok :: "string list \<Rightarrow> ddl list \<Rightarrow> bool" where
  "ddl_ok Ts [] \<longleftrightarrow> True"
| "ddl_ok Ts (CreateTable T cs # ds) \<longleftrightarrow> List.member created (T, cs) \<and> ddl_ok (T # Ts) ds"
| "ddl_ok Ts (CreateIndex i T # ds) \<longleftrightarrow> List.member Ts T \<and> ddl_ok Ts ds"

lemma schema_triple:
  "ddl_ok Ts ds \<Longrightarrow> sql_triple ok (\<lambda>s. content D s \<and> present Ts s) (exec_all ok ds)
     (\<lambda>_ s. content D s \<and> present (Ts @ table_names ds) s) (content D)"
proof (induction ds arbitrary: Ts)
  case Nil
  then show ?case by (auto intro: sql_ret)
next
  case (Cons d ds)
  show ?case
  proof (cases d)
    case (CreateTable T cs)
    have "sql_triple ok (\<lambda>s. content D s \<and> present Ts s) (stmt ok (run_ddl d)) (\<lambda>_ s. content D s \<and> present (T # Ts) s) (content D)"
      using Cons.prems CreateTable
      by (intro sql_stmt) (auto simp: present_def content_create)
    moreover have "sql_triple ok (\<lambda>s. content D s \<and> present (T # Ts) s) (exec_all ok ds)
        (\<lambda>_ s. content D s \<and> present (Ts @ table_names (d # ds)) s) (content D)"
      by (rule sql_post [OF Cons.IH]) (use Cons.prems CreateTable in \<open>auto simp: present_def\<close>)
    ultimately show ?thesis by (auto intro: sql_bind)
  next
    case (CreateIndex i T)
    have "sql_triple ok (\<lambda>s. content D s \<and> present Ts s) (stmt ok (run_ddl d)) (\<lambda>_ s. content D s \<and> present Ts s) (content D)"
      using Cons.prems CreateIndex
      by (intro sql_stmt) (auto simp: present_def)
    moreover have "sql_triple ok (\<lambda>s. content D s \<and> present Ts s) (exec_all ok ds)
        (\<lambda>_ s. content D s \<and> present (Ts @ table_names (d # ds)) s) (content D)"
      by (rule sql_post [OF Cons.IH]) (use Cons.prems CreateIndex in \<open>auto simp: present_def\<close>)
    ultimately show ?thesis by (auto intro: sql_bind)
  qed
qed

section \<open>The added columns\<close>

definition has_column :: "string \<times> column \<Rightarrow> sqlite \<Rightarrow> bool" where
  "has_column m s \<longleftrightarrow> (\<exists>tb. tab s (fst m) = Some tb \<and> col_name (snd m) \<in> set (names (tb_cols tb)))"

lemma shape_id:
  assumes "shape T cs" and "T = ''tunnels'' \<or> T = ''clients''"
  shows "''id'' \<in> set (names cs)"
proof -
  have "list_all (\<lambda>T. case map_of created T of None \<Rightarrow> False | Some base \<Rightarrow>
      List.member (filter (\<lambda>n. n \<noteq> ''traffic_limit_bytes'') (names base)) ''id'') [''tunnels'', ''clients'']"
    by code_simp
  with assms show ?thesis by (fastforce simp: shape_def split: option.splits)
qed

lemma widens_add:
  assumes "shape T (tb_cols tb)" and "table_ok tb" and "(T, c) \<in> set migrations"
    and "col_name c \<notin> set (names (tb_cols tb))"
  shows "widens T tb (\<lambda>r. r @ [dflt_of c]) (tb_cols tb @ [c])"
proof -
  let ?cs = "tb_cols tb @ [c]"
  have "shape T ?cs"
    using assms(1,4) migrated(5) [OF assms(3)] by (auto simp: shape_def names_def split: option.splits)
  moreover note shape_id [OF assms(1) migrated(6) [OF assms(3)]]
  moreover have "\<forall>r\<in>set (tb_rows tb). length (r @ [dflt_of c]) = length ?cs
      \<and> (\<forall>n\<in>set (names (tb_cols tb)). cell ?cs (r @ [dflt_of c]) n = cell (tb_cols tb) r n)
      \<and> (\<forall>k\<in>set ?cs. col_name k \<notin> set (names (tb_cols tb)) \<longrightarrow> cell ?cs (r @ [dflt_of c]) (col_name k) = Some (dflt_of k))"
  proof
    fix r
    assume "r \<in> set (tb_rows tb)"
    then have "length r = length (tb_cols tb)" by (rule table_okD(1) [OF assms(2)])
    note add = cell_add [OF this assms(4)]
    show "length (r @ [dflt_of c]) = length ?cs
      \<and> (\<forall>n\<in>set (names (tb_cols tb)). cell ?cs (r @ [dflt_of c]) n = cell (tb_cols tb) r n)
      \<and> (\<forall>k\<in>set ?cs. col_name k \<notin> set (names (tb_cols tb)) \<longrightarrow> cell ?cs (r @ [dflt_of c]) (col_name k) = Some (dflt_of k))"
      using \<open>length r = length (tb_cols tb)\<close> assms(4) by (auto simp: add names_set)
  qed
  moreover have "\<forall>k\<in>set ?cs. if col_name k \<in> set (names (tb_cols tb))
      then \<exists>c0\<in>set (tb_cols tb). col_name c0 = col_name k \<and> col_type c0 = col_type k
        \<and> col_unique c0 = col_unique k \<and> col_ref c0 = col_ref k \<and> (col_notnull k \<longrightarrow> col_notnull c0)
      else (T, k) \<in> set migrations"
    using assms(3,4) by (auto simp: names_set)
  ultimately show ?thesis unfolding widens_def by blast
qed

lemma content_add:
  assumes "content D s" and "tab s T = Some tb" and "(T, c) \<in> set migrations"
    and "col_name c \<notin> set (names (tb_cols tb))"
  shows "content D (put_table T \<lparr>tb_cols = tb_cols tb @ [c], tb_rows = map (\<lambda>r. r @ [dflt_of c]) (tb_rows tb)\<rparr> s)"
proof -
  have "historic s" using assms(1) by (simp add: content_def)
  then have "shape T (tb_cols tb)" "table_ok tb"
    using tables_okD [OF _ assms(2)] by (simp_all add: historic_def)
  from widens_historic [OF widens_add [OF this assms(3,4)] assms(2) migrated(6) [OF assms(3)] \<open>historic s\<close> tab_put] assms(1)
  show ?thesis by (simp add: content_def)
qed

lemma add_columns_triple:
  assumes "set ms \<subseteq> set migrations" and "''tunnels'' \<in> set Ts" and "''clients'' \<in> set Ts"
  shows "sql_triple ok (\<lambda>s. content D s \<and> present Ts s \<and> (\<forall>m\<in>M. has_column m s)) (add_columns ok ms)
     (\<lambda>_ s. content D s \<and> present Ts s \<and> (\<forall>m\<in>M \<union> set ms. has_column m s)) (content D)"
  using assms(1)
proof (induction ms arbitrary: M)
  case Nil
  then show ?case by (auto intro: sql_ret)
next
  case (Cons m ms)
  obtain T c where m: "m = (T, c)" by (cases m)
  let ?P = "\<lambda>s. content D s \<and> present Ts s \<and> (\<forall>m\<in>M. has_column m s)"
  let ?Q = "\<lambda>s. content D s \<and> present Ts s \<and> (\<forall>k\<in>insert m M. has_column k s)"
  have mig: "(T, c) \<in> set migrations" using Cons.prems by (simp add: m)
  then have T: "T \<in> set Ts" using migrated(6) [OF mig] assms(2,3) by auto
  have has: "sql_triple ok ?P (hasColumn ok T (col_name c)) (\<lambda>b s. ?P s \<and> (b \<longleftrightarrow> has_column m s)) (content D)"
    unfolding hasColumn_def
  proof (rule sql_stmt)
    fix s
    assume P: "?P s"
    then obtain tb where "tab s T = Some tb" using T by (auto simp: present_def)
    then have "list_ex (\<lambda>k. col_name k = col_name c) (table_info T (s\<lparr>sq_n := sq_n s + 1\<rparr>)) \<longleftrightarrow> has_column m s"
      by (auto simp: table_info_def list_ex_iff has_column_def m names_set)
    with P show "\<exists>x s2. Inr (list_ex (\<lambda>k. col_name k = col_name c) (table_info T (s\<lparr>sq_n := sq_n s + 1\<rparr>)), s\<lparr>sq_n := sq_n s + 1\<rparr>)
        = Inr (x, s2) \<and> ?P s2 \<and> x = has_column m s2"
      by (auto simp: present_def has_column_def)
  qed auto
  have add: "sql_triple ok (\<lambda>s. ?P s \<and> \<not> has_column m s) (stmt ok (add_column T c)) (\<lambda>_ s. ?Q s) (content D)"
  proof (rule sql_stmt)
    fix s
    assume P: "?P s \<and> \<not> has_column m s"
    then obtain tb where tb: "tab s T = Some tb" using T by (auto simp: present_def)
    with P have new: "col_name c \<notin> set (names (tb_cols tb))" by (simp add: has_column_def m)
    let ?s1 = "s\<lparr>sq_n := sq_n s + 1\<rparr>"
    let ?s2 = "put_table T \<lparr>tb_cols = tb_cols tb @ [c], tb_rows = map (\<lambda>r. r @ [dflt_of c]) (tb_rows tb)\<rparr> ?s1"
    have "add_column T c ?s1 = Inr ((), ?s2)"
      using tb new migrated(4) [OF mig] by (simp add: add_column_def)
    moreover have "content D ?s2" using P tb new mig by (intro content_add) simp_all
    moreover have "present Ts ?s2" using P by (auto simp: present_def)
    moreover have "has_column k ?s2" if "has_column k s" for k
      using that tb by (cases "fst k = T") (auto simp: has_column_def names_def)
    moreover have "has_column m ?s2" by (simp add: has_column_def m names_def)
    ultimately show "\<exists>x s2. add_column T c ?s1 = Inr (x, s2) \<and> ?Q s2" using P by blast
  qed auto
  have rest: "sql_triple ok ?Q (add_columns ok ms) (\<lambda>_ s. content D s \<and> present Ts s \<and> (\<forall>k\<in>M \<union> set (m # ms). has_column k s)) (content D)"
    by (rule sql_post [OF Cons.IH [of "insert m M"]]) (use Cons.prems in auto)
  show ?case
    unfolding m add_columns.simps(2) by (rule sql_bind [OF has])
      (use rest sql_bind [OF add rest] in \<open>auto simp: m intro: sql_pre\<close>)
qed

section \<open>The rebuilt table\<close>

lemma names_tunnels_new: "names tunnels_new = copied"
  by code_simp

lemma complete_names:
  assumes "shape ''tunnels'' (tb_cols tb)" and "tab s ''tunnels'' = Some tb"
    and "\<forall>m\<in>set migrations. has_column m s"
  shows "set (names (tb_cols tb)) = set copied"
proof
  have "list_all (\<lambda>c. List.member copied (col_name c)) (full_cols ''tunnels'' @ old_cols ''tunnels'')" by code_simp
  then have "col_name c \<in> set copied" if "c \<in> set (full_cols ''tunnels'' @ old_cols ''tunnels'')" for c
    using that by (auto simp: list_all_iff)
  moreover have "set (tb_cols tb) \<subseteq> set (full_cols ''tunnels'' @ old_cols ''tunnels'')"
    using assms(1) by (simp add: shape_def split: option.splits)
  ultimately show "set (names (tb_cols tb)) \<subseteq> set copied" by (auto simp: names_def)
  have "list_all (\<lambda>n. case map_of created ''tunnels'' of None \<Rightarrow> False | Some base \<Rightarrow>
      List.member (filter (\<lambda>n. n \<noteq> ''traffic_limit_bytes'') (names base)) n
      \<or> list_ex (\<lambda>m. fst m = ''tunnels'' \<and> col_name (snd m) = n) migrations) copied"
    by code_simp
  moreover have "n \<in> set (names (tb_cols tb))" if "m \<in> set migrations" "fst m = ''tunnels''" "col_name (snd m) = n" for m n
    using assms(2,3) that by (auto simp: has_column_def)
  ultimately show "set copied \<subseteq> set (names (tb_cols tb))"
    using assms(1) by (fastforce simp: shape_def list_all_iff list_ex_iff split: option.splits)
qed

definition rebuilt :: "table \<Rightarrow> row \<Rightarrow> row" where
  "rebuilt tb r = map (\<lambda>c. the (cell (tb_cols tb) r c)) copied"

lemma widens_rebuilt:
  assumes "shape ''tunnels'' (tb_cols tb)" and "table_ok tb" and "set (names (tb_cols tb)) = set copied"
  shows "widens ''tunnels'' tb (rebuilt tb) tunnels_new"
proof -
  have "shape ''tunnels'' tunnels_new" by code_simp
  moreover have "''id'' \<in> set (names (tb_cols tb))" by (simp add: assms(3) copied_def)
  moreover have "\<forall>r\<in>set (tb_rows tb). length (rebuilt tb r) = length tunnels_new
      \<and> (\<forall>n\<in>set (names (tb_cols tb)). cell tunnels_new (rebuilt tb r) n = cell (tb_cols tb) r n)
      \<and> (\<forall>c\<in>set tunnels_new. col_name c \<notin> set (names (tb_cols tb)) \<longrightarrow> cell tunnels_new (rebuilt tb r) (col_name c) = Some (dflt_of c))"
  proof
    fix r
    assume "r \<in> set (tb_rows tb)"
    then have len: "length r = length (tb_cols tb)" by (rule table_okD(1) [OF assms(2)])
    have "length (rebuilt tb r) = length tunnels_new" by (simp add: rebuilt_def copied_def tunnels_new_def)
    moreover have "cell tunnels_new (rebuilt tb r) n = cell (tb_cols tb) r n" if "n \<in> set (names (tb_cols tb))" for n
      using that cell_in [OF len that] unfolding rebuilt_def assms(3) names_tunnels_new [symmetric]
      by (simp add: cell_map)
    moreover have "col_name c \<in> set (names (tb_cols tb))" if "c \<in> set tunnels_new" for c
      using that by (auto simp: assms(3) names_set simp flip: names_tunnels_new)
    ultimately show "length (rebuilt tb r) = length tunnels_new
      \<and> (\<forall>n\<in>set (names (tb_cols tb)). cell tunnels_new (rebuilt tb r) n = cell (tb_cols tb) r n)
      \<and> (\<forall>c\<in>set tunnels_new. col_name c \<notin> set (names (tb_cols tb)) \<longrightarrow> cell tunnels_new (rebuilt tb r) (col_name c) = Some (dflt_of c))"
      by blast
  qed
  moreover have "\<forall>c\<in>set tunnels_new. if col_name c \<in> set (names (tb_cols tb))
      then \<exists>c0\<in>set (tb_cols tb). col_name c0 = col_name c \<and> col_type c0 = col_type c
        \<and> col_unique c0 = col_unique c \<and> col_ref c0 = col_ref c \<and> (col_notnull c \<longrightarrow> col_notnull c0)
      else (''tunnels'', c) \<in> set migrations"
  proof
    fix c
    assume c: "c \<in> set tunnels_new"
    then have named: "col_name c \<in> set (names (tb_cols tb))"
      by (auto simp: assms(3) names_set simp flip: names_tunnels_new)
    then obtain c0 where c0: "c0 \<in> set (tb_cols tb)" "col_name c0 = col_name c" by (auto simp: names_set)
    then have "c0 \<in> set (full_cols ''tunnels'' @ old_cols ''tunnels'')"
      using assms(1) by (auto simp: shape_def split: option.splits)
    moreover have "list_all (\<lambda>c. list_all (\<lambda>c0. col_name c0 = col_name c \<longrightarrow> col_type c0 = col_type c
        \<and> col_unique c0 = col_unique c \<and> col_ref c0 = col_ref c \<and> (col_notnull c \<longrightarrow> col_notnull c0))
        (full_cols ''tunnels'' @ old_cols ''tunnels'')) tunnels_new"
      by code_simp
    ultimately have "col_type c0 = col_type c \<and> col_unique c0 = col_unique c \<and> col_ref c0 = col_ref c
        \<and> (col_notnull c \<longrightarrow> col_notnull c0)"
      using c c0(2) unfolding list_all_iff by blast
    with named c0 show "if col_name c \<in> set (names (tb_cols tb))
      then \<exists>c0\<in>set (tb_cols tb). col_name c0 = col_name c \<and> col_type c0 = col_type c
        \<and> col_unique c0 = col_unique c \<and> col_ref c0 = col_ref c \<and> (col_notnull c \<longrightarrow> col_notnull c0)
      else (''tunnels'', c) \<in> set migrations" by auto
  qed
  ultimately show ?thesis unfolding widens_def by blast
qed

lemma insert_rows_ok:
  assumes "\<And>r c. r \<in> set rs \<Longrightarrow> c \<in> set cs \<Longrightarrow> col_notnull c \<Longrightarrow> cell cs r (col_name c) \<noteq> Some SNull"
    and "\<And>c. c \<in> set cs \<Longrightarrow> col_unique c
      \<Longrightarrow> distinct (filter (\<lambda>v. v \<noteq> Some SNull) (map (\<lambda>r. cell cs r (col_name c)) (acc @ rs)))"
  shows "insert_rows cs rs acc = Inr (acc @ rs)"
  using assms
proof (induction rs arbitrary: acc)
  case (Cons r rs)
  have "insert_row cs r acc = Inr (acc @ [r])"
  proof -
    have "\<not> (col_unique c \<and> cell cs r (col_name c) \<noteq> Some SNull
        \<and> (\<exists>r'\<in>set acc. cell cs r' (col_name c) = cell cs r (col_name c)))" if c: "c \<in> set cs" for c
    proof
      let ?f = "\<lambda>r. cell cs r (col_name c)" and ?P = "\<lambda>v. v \<noteq> Some SNull"
      assume h: "col_unique c \<and> ?P (?f r) \<and> (\<exists>r'\<in>set acc. ?f r' = ?f r)"
      then have "distinct (filter ?P (map ?f acc) @ ?f r # filter ?P (map ?f rs))"
        using Cons.prems(2) [OF c] by simp
      then have "?f r \<notin> set (filter ?P (map ?f acc))" by simp
      moreover obtain r' where "r' \<in> set acc" "?f r' = ?f r" using h by blast
      then have "?f r \<in> ?f ` set acc" by (metis imageI)
      then have "?f r \<in> set (filter ?P (map ?f acc))" using h by simp
      ultimately show False ..
    qed
    then show ?thesis using Cons.prems(1) by (auto simp: insert_row_def list_ex_iff)
  qed
  moreover have "insert_rows cs rs (acc @ [r]) = Inr ((acc @ [r]) @ rs)"
    using Cons.prems by (intro Cons.IH) auto
  ultimately show ?case by simp
qed simp

lemma copy_ok:
  assumes "table_ok \<lparr>tb_cols = cs, tb_rows = rs\<rparr>"
  shows "insert_rows cs rs [] = Inr rs"
proof -
  have col: "column_ok cs rs c" if "c \<in> set cs" for c using table_okD(2) [OF assms, of c] that by simp
  have "insert_rows cs rs [] = Inr ([] @ rs)"
  proof (rule insert_rows_ok)
    fix r c
    assume "r \<in> set rs" "c \<in> set cs" "col_notnull c"
    then show "cell cs r (col_name c) \<noteq> Some SNull"
      using col [of c] by (auto simp: column_ok_def list_all_iff value_ok_def split: option.splits)
  next
    fix c
    assume "c \<in> set cs" "col_unique c"
    then show "distinct (filter (\<lambda>v. v \<noteq> Some SNull) (map (\<lambda>r. cell cs r (col_name c)) ([] @ rs)))"
      using col [of c] by (simp add: column_ok_def)
  qed
  then show ?thesis by simp
qed

section \<open>The rebuild in its transaction\<close>

definition ready :: "db \<Rightarrow> sqlite \<Rightarrow> bool" where
  "ready D s \<longleftrightarrow> content D s \<and> (\<forall>m\<in>set migrations. has_column m s) \<and> \<not> sq_fk s"

lemma rebuild_triple:
  assumes "ready D s0" and "tab s0 ''tunnels'' = Some tb"
  shows "sql_triple ok (\<lambda>s. tab s = tab s0 \<and> \<not> sq_fk s) (rebuild_tunnels ok)
     (\<lambda>_ s. content D s \<and> tab s = (tab s0)(''tunnels'' \<mapsto> \<lparr>tb_cols = tunnels_new, tb_rows = map (rebuilt tb) (tb_rows tb)\<rparr>))
     (\<lambda>_. True)"
proof -
  let ?new = "\<lparr>tb_cols = tunnels_new, tb_rows = map (rebuilt tb) (tb_rows tb)\<rparr>"
  let ?final = "(tab s0)(''tunnels'' \<mapsto> ?new)"
  have h: "historic s0" and D: "load_db s0 = D" and cols: "\<forall>m\<in>set migrations. has_column m s0"
    using assms(1) by (auto simp: ready_def content_def)
  have tbs: "tables_ok s0" using h by (simp add: historic_def)
  note t = tables_okD [OF tbs assms(2)]
  note all = complete_names [OF conjunct1 [OF t] assms(2) cols]
  note w = widens_rebuilt [OF conjunct1 [OF t] conjunct2 [OF t] all]
  have none: "tab s0 ''tunnels_new'' = None"
  proof (cases "tab s0 ''tunnels_new''")
    case (Some x)
    have "map_of created ''tunnels_new'' = None" by code_simp
    with tables_okD [OF tbs Some] show ?thesis by (simp add: shape_def)
  qed
  have fits: "list_all (List.member (names (tb_cols tb))) copied" by (simp add: list_all_iff all)
  have copy: "insert_rows tunnels_new (map (\<lambda>r. map (\<lambda>c. the (cell (tb_cols tb) r c)) copied) (tb_rows tb)) [] = Inr (tb_rows ?new)"
    using copy_ok [OF widens_table_ok [OF conjunct2 [OF t] w]] by (simp add: rebuilt_def [abs_def])
  have reached: "content D s" if "tab s = ?final" for s
    using widens_historic [OF w assms(2) _ h that] D by (simp add: content_def)
  then have consistent: "foreign_key_check s" if "tab s = ?final" for s
    using that by (auto simp: content_def historic_def)
  show ?thesis
    unfolding rebuild_tunnels_def
  proof (intro sql_bind)
    show "sql_triple ok (\<lambda>s. tab s = tab s0 \<and> \<not> sq_fk s) (stmt ok create_new)
        (\<lambda>_ s. tab s = (tab s0)(''tunnels_new'' \<mapsto> \<lparr>tb_cols = tunnels_new, tb_rows = []\<rparr>) \<and> \<not> sq_fk s) (\<lambda>_. True)"
      by (rule sql_stmt) (auto simp: create_new_def none put_table_def update_conv')
    show "sql_triple ok (\<lambda>s. tab s = (tab s0)(''tunnels_new'' \<mapsto> \<lparr>tb_cols = tunnels_new, tb_rows = []\<rparr>) \<and> \<not> sq_fk s)
        (stmt ok copy_rows) (\<lambda>_ s. tab s = (tab s0)(''tunnels_new'' \<mapsto> ?new) \<and> \<not> sq_fk s) (\<lambda>_. True)"
      by (rule sql_stmt) (auto simp: copy_rows_def assms(2) fits copy put_table_def update_conv')
    show "sql_triple ok (\<lambda>s. tab s = (tab s0)(''tunnels_new'' \<mapsto> ?new) \<and> \<not> sq_fk s) (stmt ok (drop_table ''tunnels''))
        (\<lambda>_ s. tab s = (tab s0)(''tunnels_new'' \<mapsto> ?new, ''tunnels'' := None)) (\<lambda>_. True)"
      by (rule sql_stmt) (auto simp: drop_table_def assms(2) delete_conv')
    show "sql_triple ok (\<lambda>s. tab s = (tab s0)(''tunnels_new'' \<mapsto> ?new, ''tunnels'' := None))
        (stmt ok (rename_table ''tunnels_new'' ''tunnels'')) (\<lambda>_ s. tab s = ?final) (\<lambda>_. True)"
      by (rule sql_stmt) (auto simp: rename_table_def update_conv' delete_conv' none fun_eq_iff)
    show "sql_triple ok (\<lambda>s. tab s = ?final) (stmt ok (run_ddl (CreateIndex ''idx_tunnels_client_id'' ''tunnels'')))
        (\<lambda>_ s. tab s = ?final) (\<lambda>_. True)"
      by (rule sql_stmt) auto
    show "sql_triple ok (\<lambda>s. tab s = ?final) (stmt ok (\<lambda>s. Inr (foreign_key_check s, s)))
        (\<lambda>fine s. tab s = ?final \<and> fine) (\<lambda>_. True)"
      by (rule sql_stmt) (auto intro!: consistent)
    show "sql_triple ok (\<lambda>s. tab s = ?final \<and> fine) (if fine then retM () else failM ForeignKeyViolation)
        (\<lambda>_ s. content D s \<and> tab s = ?final) (\<lambda>_. True)" for fine
      using reached by (auto simp: sql_triple_def retM_def)
  qed
qed

lemma tx_triple:
  assumes "\<And>s0. P s0 \<Longrightarrow> sql_triple ok (\<lambda>s. tab s = tab s0 \<and> sq_fk s = sq_fk s0) body (\<lambda>_. Q) (\<lambda>_. True)"
    and "\<And>s s0. P s0 \<Longrightarrow> tab s = tab s0 \<Longrightarrow> E s" and "\<And>s s0. Q s0 \<Longrightarrow> tab s = tab s0 \<Longrightarrow> Q s"
  shows "sql_triple ok P (with_sqltx ok body) (\<lambda>_. Q) E"
proof -
  have body: "case bindM body (\<lambda>_. stmt ok (\<lambda>s. Inr ((), s))) s0 of
      (Inl e, s1) \<Rightarrow> (\<exists>n. \<not> ok n) | (Inr x, s1) \<Rightarrow> Q s1" if "P s" "tab s0 = tab s" "sq_fk s0 = sq_fk s" for s s0
  proof -
    have "sql_triple ok Q (stmt ok (\<lambda>s. Inr ((), s))) (\<lambda>_. Q) (\<lambda>_. True)"
      by (rule sql_stmt) (auto intro: assms(3))
    from sql_bind [OF assms(1) [OF that(1)] this] that show ?thesis
      unfolding sql_triple_def by (fastforce split: prod.splits sum.splits)
  qed
  show ?thesis
    unfolding sql_triple_def
  proof (intro allI impI)
    fix s
    assume P: "P s"
    let ?s0 = "s\<lparr>sq_n := sq_n s + 1\<rparr>"
    show "case with_sqltx ok body s of (Inl e, s') \<Rightarrow> E s' \<and> (\<exists>n. \<not> ok n) | (Inr x, s') \<Rightarrow> Q s'"
    proof (cases "ok (sq_n s)")
      case False
      then show ?thesis using assms(2) [OF P] by (auto simp: with_sqltx_def bindM_def stmt_def)
    next
      case True
      have run: "with_sqltx ok body s = (case bindM body (\<lambda>_. stmt ok (\<lambda>s. Inr ((), s))) ?s0 of
          (Inl e, s1) \<Rightarrow> (Inl e, s1\<lparr>sq_tables := sq_tables ?s0, sq_indexes := sq_indexes ?s0\<rparr>)
        | (Inr x, s1) \<Rightarrow> (Inr x, s1))"
      proof -
        have "stmt ok (\<lambda>s. Inr ((), s)) s = (Inr (), ?s0)" using True by (simp add: stmt_def)
        then show ?thesis by (simp only: with_sqltx_def bindM_Inr)
      qed
      have b: "case bindM body (\<lambda>_. stmt ok (\<lambda>s. Inr ((), s))) ?s0 of
          (Inl e, s1) \<Rightarrow> (\<exists>n. \<not> ok n) | (Inr x, s1) \<Rightarrow> Q s1" by (rule body [OF P]) simp_all
      show ?thesis
        unfolding run using b assms(2) [OF P]
        by (cases "bindM body (\<lambda>_. stmt ok (\<lambda>s. Inr ((), s))) ?s0"; cases "fst (bindM body (\<lambda>_. stmt ok (\<lambda>s. Inr ((), s))) ?s0)")
          simp_all
    qed
  qed
qed

lemma deferred_triple:
  assumes "sql_triple ok P m Q E" and "\<And>x s s0. Q x s0 \<Longrightarrow> tab s = tab s0 \<Longrightarrow> Q x s"
    and "\<And>s s0. E s0 \<Longrightarrow> tab s = tab s0 \<Longrightarrow> E s"
  shows "sql_triple ok P (deferred_fk_on ok m) Q E"
  unfolding sql_triple_def
proof (intro allI impI)
  fix s
  assume P: "P s"
  obtain r s1 where m: "m s = (r, s1)" by (cases "m s")
  have t: "tab (snd (stmt ok (set_fk True) s1)) = tab s1" by (simp add: stmt_def set_fk_def Let_def)
  show "case deferred_fk_on ok m s of (Inl e, s') \<Rightarrow> E s' \<and> (\<exists>n. \<not> ok n) | (Inr x, s') \<Rightarrow> Q x s'"
    using assms(1) P m assms(2,3) t unfolding sql_triple_def deferred_fk_on_def
    by (cases r) (fastforce split: prod.splits sum.splits)+
qed

definition pinned :: "string \<Rightarrow> column list \<Rightarrow> column \<Rightarrow> bool" where
  "pinned T base c \<longleftrightarrow> (List.member (filter (\<lambda>n. n \<noteq> ''traffic_limit_bytes'') (names base)) (col_name c)
      \<or> list_ex (\<lambda>m. fst m = T \<and> col_name (snd m) = col_name c) migrations)
    \<and> list_all (\<lambda>k. col_name k = col_name c \<longrightarrow> k = c \<or> T = ''tunnels'' \<and> col_name c = ''public_port'' \<and> col_notnull k)
        (full_cols T @ old_cols T)"

lemma current_rebuilt:
  assumes "content D s" and "present Ts s" and "set (map fst created) \<subseteq> set Ts"
    and "\<forall>m\<in>set migrations. has_column m s" and "tab s ''tunnels'' = Some tb"
    and "\<forall>c\<in>set (tb_cols tb). col_name c = ''public_port'' \<longrightarrow> \<not> col_notnull c"
  shows "current s"
  unfolding current_def list_all_iff
proof
  fix m
  assume "m \<in> set created"
  obtain T base where m: "m = (T, base)" by (cases m)
  have dist: "distinct (map fst created)" by code_simp
  with \<open>m \<in> set created\<close> have base: "map_of created T = Some base" by (simp add: m)
  have "T \<in> set Ts" using \<open>m \<in> set created\<close> assms(3) by (force simp: m)
  then obtain t where t: "tab s T = Some t" using assms(2) by (auto simp: present_def)
  have "tables_ok s" using assms(1) by (simp add: content_def historic_def)
  then have sh: "shape T (tb_cols t)" using tables_okD t by blast
  have full: "list_all (\<lambda>(T, base). list_all (pinned T base) (full_cols T)) created" by code_simp
  have old: "list_all (\<lambda>c. col_name c = ''public_port'' \<and> col_notnull c) (old_cols T)"
    by (simp add: old_cols_def unique_def int_col_def)
  have "set (tb_cols t) = set (full_cols T)"
  proof
    show "set (tb_cols t) \<subseteq> set (full_cols T)"
    proof
      fix c
      assume c: "c \<in> set (tb_cols t)"
      then have "c \<in> set (full_cols T) \<or> c \<in> set (old_cols T)" using sh base by (auto simp: shape_def)
      moreover have "c \<notin> set (old_cols T)"
      proof
        assume o: "c \<in> set (old_cols T)"
        then have "T = ''tunnels''" by (simp add: old_cols_def split: if_splits)
        with t assms(5,6) c have "col_name c = ''public_port'' \<longrightarrow> \<not> col_notnull c" by auto
        with o old show False by (auto simp: list_all_iff)
      qed
      ultimately show "c \<in> set (full_cols T)" by blast
    qed
    show "set (full_cols T) \<subseteq> set (tb_cols t)"
    proof
      fix c
      assume c: "c \<in> set (full_cols T)"
      with full \<open>m \<in> set created\<close> have "pinned T base c" by (auto simp: list_all_iff m)
      then have f: "col_name c \<in> set (filter (\<lambda>n. n \<noteq> ''traffic_limit_bytes'') (names base))
          \<or> (\<exists>m\<in>set migrations. fst m = T \<and> col_name (snd m) = col_name c)"
        "\<And>k. k \<in> set (full_cols T @ old_cols T) \<Longrightarrow> col_name k = col_name c \<Longrightarrow> k = c \<or> T = ''tunnels'' \<and> col_name c = ''public_port'' \<and> col_notnull k"
        unfolding pinned_def list_all_iff list_ex_iff by simp_all
      then have "col_name c \<in> set (names (tb_cols t))"
        using sh base assms(4) t by (auto simp: shape_def has_column_def)
      then obtain k where k: "k \<in> set (tb_cols t)" "col_name k = col_name c" by (auto simp: names_set)
      then have "k \<in> set (full_cols T @ old_cols T)" using sh base by (auto simp: shape_def)
      from f(2) [OF this k(2)] have "k = c" using k t assms(5,6) by auto
      with k show "c \<in> set (tb_cols t)" by simp
    qed
  qed
  with t show "case m of (T, _) \<Rightarrow> (case tab s T of None \<Rightarrow> False | Some tb \<Rightarrow> set (tb_cols tb) = set (full_cols T))"
    by (simp add: m)
qed

section \<open>Opening the file\<close>

lemma rebuild_or_current:
  assumes "set (map fst created) \<subseteq> set Ts" and "''tunnels'' \<in> set Ts"
  shows "sql_triple ok (\<lambda>s. content D s \<and> present Ts s \<and> (\<forall>m\<in>set migrations. has_column m s))
     (migrateTunnelsPublicPortNullable ok) (\<lambda>_ s. content D s \<and> current s) (content D)"
proof -
  let ?P = "\<lambda>s. content D s \<and> present Ts s \<and> (\<forall>m\<in>set migrations. has_column m s)"
  let ?ready = "\<lambda>s. ready D s \<and> present Ts s"
  let ?Q = "\<lambda>s. content D s \<and> current s"
  have found: "(case find (\<lambda>k. col_name k = n) cs of None \<Rightarrow> False | Some k \<Rightarrow> col_notnull k)
      \<longleftrightarrow> (\<exists>c\<in>set cs. col_name c = n \<and> col_notnull c)" if "distinct (names cs)" for cs n
    using that by (induction cs) (auto simp: names_def image_iff)
  have check: "sql_triple ok ?P (columnNotNull ok ''tunnels'' ''public_port'')
      (\<lambda>b s. ?P s \<and> (\<not> b \<longrightarrow> current s)) (content D)"
    unfolding columnNotNull_def
  proof (rule sql_stmt)
    fix s
    assume P: "?P s"
    then obtain tb where t: "tab s ''tunnels'' = Some tb" using assms(2) by (auto simp: present_def)
    have "shape ''tunnels'' (tb_cols tb)"
      using P tables_okD [OF _ t] by (simp add: content_def historic_def)
    then have d: "distinct (names (tb_cols tb))" by (simp add: shape_def split: option.splits)
    let ?b = "case find (\<lambda>k. col_name k = ''public_port'') (tb_cols tb) of None \<Rightarrow> False | Some k \<Rightarrow> col_notnull k"
    have "current s" if "\<not> ?b"
    proof (rule current_rebuilt [of D s Ts tb])
      show "\<forall>c\<in>set (tb_cols tb). col_name c = ''public_port'' \<longrightarrow> \<not> col_notnull c"
        using that found [OF d, of "''public_port''"] by blast
    qed (use P assms(1) t in simp_all)
    moreover have "tab (s\<lparr>sq_n := sq_n s + 1\<rparr>) = tab s" by simp
    ultimately show "\<exists>x s2. Inr (case find (\<lambda>k. col_name k = ''public_port'')
        (table_info ''tunnels'' (s\<lparr>sq_n := sq_n s + 1\<rparr>)) of None \<Rightarrow> False | Some k \<Rightarrow> col_notnull k,
        s\<lparr>sq_n := sq_n s + 1\<rparr>) = Inr (x, s2) \<and> ?P s2 \<and> (\<not> x \<longrightarrow> current s2)"
      using P t current_cong [of "s\<lparr>sq_n := sq_n s + 1\<rparr>" s]
      by (auto simp: table_info_def present_def has_column_def)
  qed auto
  have off: "sql_triple ok ?P (stmt ok (set_fk False)) (\<lambda>_. ?ready) (content D)"
    by (rule sql_stmt) (auto simp: set_fk_def ready_def present_def has_column_def)
  have tx: "sql_triple ok ?ready (with_sqltx ok (rebuild_tunnels ok)) (\<lambda>_. ?Q) (content D)"
  proof (rule tx_triple)
    fix s0
    assume r: "?ready s0"
    then obtain tb where t: "tab s0 ''tunnels'' = Some tb" using assms(2) by (auto simp: present_def)
    let ?new = "\<lparr>tb_cols = tunnels_new, tb_rows = map (rebuilt tb) (tb_rows tb)\<rparr>"
    have r': "ready D s0" using r by blast
    have cur: "current s" if s: "content D s" "tab s = (tab s0)(''tunnels'' \<mapsto> ?new)" for s
    proof -
      have "has_column m s" if "m \<in> set migrations" for m
      proof -
        have all: "list_all (\<lambda>m. fst m = ''tunnels'' \<longrightarrow> List.member (names tunnels_new) (col_name (snd m))) migrations"
          by code_simp
        have "has_column m s0" using r that by (simp add: ready_def)
        with s that all show ?thesis by (cases "fst m = ''tunnels''") (auto simp: has_column_def list_all_iff)
      qed
      moreover have "present Ts s" using r s by (auto simp: present_def)
      moreover have "list_all (\<lambda>c. \<not> (col_name c = ''public_port'' \<and> col_notnull c)) tunnels_new" by code_simp
      ultimately show ?thesis
        using s assms(1) by (intro current_rebuilt [of D s Ts ?new]) (auto simp: list_all_iff)
    qed
    have "sql_triple ok (\<lambda>s. tab s = tab s0 \<and> \<not> sq_fk s) (rebuild_tunnels ok) (\<lambda>_. ?Q) (\<lambda>_. True)"
      by (rule sql_post [OF rebuild_triple [OF r' t]]) (use cur in blast)+
    moreover have "\<not> sq_fk s0" using r by (simp add: ready_def)
    ultimately show "sql_triple ok (\<lambda>s. tab s = tab s0 \<and> sq_fk s = sq_fk s0) (rebuild_tunnels ok) (\<lambda>_. ?Q) (\<lambda>_. True)"
      by simp
  next
    fix s s0
    assume "?ready s0" "tab s = tab s0"
    then show "content D s" using content_cong [of s s0] by (simp add: ready_def)
  next
    fix s s0
    assume "?Q s0" "tab s = tab s0"
    then show "?Q s" using content_cong [of s s0] current_cong [of s s0] by simp
  qed
  have on: "sql_triple ok ?ready (deferred_fk_on ok (with_sqltx ok (rebuild_tunnels ok))) (\<lambda>_. ?Q) (content D)"
  proof (rule deferred_triple [OF tx])
    fix s s0 :: sqlite
    assume "tab s = tab s0"
    from content_cong [OF this] current_cong [OF this]
    show "?Q s0 \<Longrightarrow> ?Q s" "content D s0 \<Longrightarrow> content D s" by simp_all
  qed
  show ?thesis
    unfolding migrateTunnelsPublicPortNullable_def
  proof (rule sql_bind [OF check])
    fix b
    show "sql_triple ok (\<lambda>s. ?P s \<and> (\<not> b \<longrightarrow> current s)) (if \<not> b then retM ()
        else bindM (stmt ok (set_fk False)) (\<lambda>_. deferred_fk_on ok (with_sqltx ok (rebuild_tunnels ok))))
        (\<lambda>_. ?Q) (content D)"
      using sql_pre [OF sql_bind [OF off on]] by (cases b) (auto intro!: sql_ret)
  qed
qed

lemma OpenDB_triple: "sql_triple ok (content D) (OpenDB ok) (\<lambda>_ s. content D s \<and> current s) (content D)"
proof -
  let ?Ts = "table_names schemaSQL"
  have sub: "set (map fst created) \<subseteq> set ?Ts" by code_simp
  have here: "''tunnels'' \<in> set ?Ts" "''clients'' \<in> set ?Ts" by code_simp+
  have schema: "sql_triple ok (content D) (exec_all ok schemaSQL) (\<lambda>_ s. content D s \<and> present ?Ts s) (content D)"
  proof -
    have "ddl_ok [] schemaSQL" by code_simp
    from schema_triple [OF this, of ok D] show ?thesis by (simp add: present_def)
  qed
  have add: "sql_triple ok (\<lambda>s. content D s \<and> present ?Ts s) (add_columns ok migrations)
      (\<lambda>_ s. content D s \<and> present ?Ts s \<and> (\<forall>m\<in>set migrations. has_column m s)) (content D)"
    using add_columns_triple [OF subset_refl here, of ok D "{}"] by simp
  have "sql_triple ok (content D) (bindM (exec_all ok schemaSQL) (\<lambda>_. migrateSchema ok))
      (\<lambda>_ s. content D s \<and> current s) (content D)"
    unfolding migrateSchema_def
    by (intro sql_bind [OF schema] sql_bind [OF add] rebuild_or_current [OF sub here(1)])
  then show ?thesis by (simp add: sql_triple_def OpenDB_def)
qed

section \<open>The content is consistent\<close>

definition base_has :: "string \<Rightarrow> string \<Rightarrow> bool" where
  "base_has T n \<longleftrightarrow> (case map_of created T of None \<Rightarrow> False
     | Some base \<Rightarrow> List.member (filter (\<lambda>n. n \<noteq> ''traffic_limit_bytes'') (names base)) n)"

definition all_named :: "string \<Rightarrow> string \<Rightarrow> (column \<Rightarrow> bool) \<Rightarrow> bool" where
  "all_named T n p \<longleftrightarrow> base_has T n \<and> list_all (\<lambda>k. col_name k = n \<longrightarrow> p k) (full_cols T @ old_cols T)"

lemma named_column:
  assumes "shape T cs" and "all_named T n p"
  obtains c where "c \<in> set cs" "col_name c = n" "p c"
proof -
  have "n \<in> set (names cs)" and sub: "set cs \<subseteq> set (full_cols T @ old_cols T)"
    using assms by (auto simp: shape_def all_named_def base_has_def split: option.splits)
  then obtain c where c: "c \<in> set cs" "col_name c = n" by (auto simp: names_set)
  with sub assms(2) have "p c" by (auto simp: all_named_def list_all_iff)
  with c that show ?thesis by blast
qed

lemma field_cell: "cell cs r n = Some v \<Longrightarrow> field cs r n d = v"
  by (simp add: field_def)

abbreviation column_of :: "sqlite \<Rightarrow> string \<Rightarrow> string \<Rightarrow> string list" where
  "column_of s T n \<equiv> rows_of s T (\<lambda>cs r. text_of (field cs r n SNull))"

lemma key_distinct:
  assumes "tables_ok s" and "all_named T n (\<lambda>k. col_unique k \<and> col_type k = TEXT)"
  shows "distinct (column_of s T n)"
proof (cases "tab s T")
  case (Some tb)
  let ?cs = "tb_cols tb" and ?rs = "tb_rows tb"
  note t = tables_okD [OF assms(1) Some]
  obtain c where c: "c \<in> set ?cs" "col_name c = n" "col_unique c" "col_type c = TEXT"
    using named_column [OF conjunct1 [OF t] assms(2)] by metis
  then have "column_ok ?cs ?rs c" using table_okD(2) t by blast
  then have vals: "\<exists>x. cell ?cs r n = Some (SText x)" if "r \<in> set ?rs" for r
    using that c by (auto simp: column_ok_def list_all_iff value_ok_def split: option.splits elim!: typed.elims(2))
  then have "filter (\<lambda>v. v \<noteq> Some SNull) (map (\<lambda>r. cell ?cs r n) ?rs) = map (\<lambda>r. cell ?cs r n) ?rs"
    by (force simp: filter_id_conv)
  with \<open>column_ok ?cs ?rs c\<close> c have "distinct (map (\<lambda>r. cell ?cs r n) ?rs)" by (simp add: column_ok_def)
  then have "distinct ?rs" and inj: "inj_on (\<lambda>r. cell ?cs r n) (set ?rs)" by (simp_all add: distinct_map)
  moreover have "inj_on (\<lambda>r. text_of (field ?cs r n SNull)) (set ?rs)"
  proof (rule inj_onI)
    fix r r'
    assume r: "r \<in> set ?rs" "r' \<in> set ?rs" "text_of (field ?cs r n SNull) = text_of (field ?cs r' n SNull)"
    obtain x y where "cell ?cs r n = Some (SText x)" "cell ?cs r' n = Some (SText y)" using vals r(1,2) by metis
    with r have "cell ?cs r n = cell ?cs r' n" by (simp add: field_def)
    with inj_onD [OF inj] r(1,2) show "r = r'" by blast
  qed
  ultimately show ?thesis by (simp add: rows_of_def Some distinct_map)
qed (simp add: rows_of_def)

lemma refers:
  assumes "tables_ok s" and "foreign_key_check s"
    and "all_named T n (\<lambda>k. col_ref k = Some P \<and> col_notnull k)"
  shows "set (column_of s T n) \<subseteq> set (column_of s P ''id'')"
proof (cases "tab s T")
  case (Some tb)
  note t = tables_okD [OF assms(1) Some]
  obtain c where c: "c \<in> set (tb_cols tb)" "col_name c = n" "col_ref c = Some P" "col_notnull c"
    using named_column [OF conjunct1 [OF t] assms(3)] by metis
  have col: "column_ok (tb_cols tb) (tb_rows tb) c" using table_okD(2) t c(1) by blast
  show ?thesis
  proof
    fix x
    assume "x \<in> set (column_of s T n)"
    then obtain r where r: "r \<in> set (tb_rows tb)" "x = text_of (field (tb_cols tb) r n SNull)"
      by (auto simp: rows_of_def Some)
    have "row_refs_ok s tb r" using assms(2) Some r(1) by (auto simp: foreign_keys_iff)
    moreover have "cell (tb_cols tb) r n \<noteq> Some SNull"
      using col r(1) c by (auto simp: column_ok_def list_all_iff value_ok_def split: option.splits)
    ultimately obtain p r' where "tab s P = Some p" "r' \<in> set (tb_rows p)"
        "cell (tb_cols p) r' ''id'' = cell (tb_cols tb) r n"
      unfolding refs_fine using c by metis
    then show "x \<in> set (column_of s P ''id'')" by (auto simp: rows_of_def field_def r(2) intro!: image_eqI [of _ _ r'])
  qed
qed (simp add: rows_of_def)

lemma map_rows_of: "map g (rows_of s T f) = rows_of s T (\<lambda>cs r. g (f cs r))"
  by (auto simp: rows_of_def split: option.split)

text \<open>Two rows with one public port are the same row.\<close>

lemma ports_unique:
  assumes "tables_ok s"
    and "t \<in> set (rows_of s ''tunnels'' tunnel_of)" "u \<in> set (rows_of s ''tunnels'' tunnel_of)"
    and "r_public_port t = Some p" "r_public_port u = Some p"
  shows "t = u"
proof (cases "tab s ''tunnels''")
  case (Some tb)
  let ?c = "\<lambda>r. cell (tb_cols tb) r ''public_port''"
  note ok = tables_okD [OF assms(1) Some]
  have "all_named ''tunnels'' ''public_port'' col_unique" by code_simp
  then obtain c where c: "c \<in> set (tb_cols tb)" "col_name c = ''public_port''" "col_unique c"
    using named_column [OF conjunct1 [OF ok]] by blast
  then have d: "distinct (filter (\<lambda>v. v \<noteq> Some SNull) (map ?c (tb_rows tb)))"
    using table_okD(2) [OF conjunct2 [OF ok] c(1)] by (simp add: column_ok_def)
  have opt: "opt_int v = Some q \<longleftrightarrow> v = SInt q" for v q by (cases v) auto
  have port: "?c r = Some (SInt q)" if "opt_int (field (tb_cols tb) r ''public_port'' SNull) = Some q" for r q
    using that by (auto simp: opt field_def split: option.splits)
  obtain r r' where r: "r \<in> set (tb_rows tb)" "t = tunnel_of (tb_cols tb) r"
      "r' \<in> set (tb_rows tb)" "u = tunnel_of (tb_cols tb) r'"
    using assms(2,3) by (auto simp: rows_of_def Some)
  then have "?c r = Some (SInt p)" "?c r' = Some (SInt p)"
    using assms(4,5) port by (simp_all add: tunnel_of_def)
  note p = this
  have inj: "inj_on ?c {x \<in> set (tb_rows tb). ?c x \<noteq> Some SNull}"
    using d by (simp add: filter_map comp_def distinct_map)
  have "r = r'" by (rule inj_onD [OF inj]) (use p r(1,3) in simp_all)
  with r show ?thesis by simp
qed (use assms(2) in \<open>simp add: rows_of_def\<close>)

lemma historic_wf:
  assumes "historic s"
  shows "db_wf (load_db s)"
proof -
  have t: "tables_ok s" and fk: "foreign_key_check s"
    and pos: "\<And>r p. r \<in> set (d_tunnels (load_db s)) \<Longrightarrow> r_public_port r = Some p \<Longrightarrow> 0 < p"
    using assms by (auto simp: historic_def list_all_iff split: option.splits)
  have key: "distinct (column_of s T n)" if "all_named T n (\<lambda>k. col_unique k \<and> col_type k = TEXT)" for T n
    by (rule key_distinct [OF t that])
  have ref: "set (column_of s T n) \<subseteq> set (column_of s P ''id'')"
    if "all_named T n (\<lambda>k. col_ref k = Some P \<and> col_notnull k)" for T n P
    by (rule refers [OF t fk that])
  have keys: "all_named ''admin_users'' ''id'' (\<lambda>k. col_unique k \<and> col_type k = TEXT)"
    "all_named ''admin_users'' ''username'' (\<lambda>k. col_unique k \<and> col_type k = TEXT)"
    "all_named ''clients'' ''id'' (\<lambda>k. col_unique k \<and> col_type k = TEXT)"
    "all_named ''clients'' ''name'' (\<lambda>k. col_unique k \<and> col_type k = TEXT)"
    "all_named ''clients'' ''token_hash'' (\<lambda>k. col_unique k \<and> col_type k = TEXT)"
    "all_named ''tunnels'' ''id'' (\<lambda>k. col_unique k \<and> col_type k = TEXT)"
    "all_named ''api_keys'' ''id'' (\<lambda>k. col_unique k \<and> col_type k = TEXT)"
    "all_named ''api_keys'' ''token_hash'' (\<lambda>k. col_unique k \<and> col_type k = TEXT)"
    by code_simp+
  have refs: "all_named ''tunnels'' ''client_id'' (\<lambda>k. col_ref k = Some ''clients'' \<and> col_notnull k)"
    "all_named ''traffic_samples'' ''tunnel_id'' (\<lambda>k. col_ref k = Some ''tunnels'' \<and> col_notnull k)"
    "all_named ''enrollment_codes'' ''client_id'' (\<lambda>k. col_ref k = Some ''clients'' \<and> col_notnull k)"
    by code_simp+
  let ?d = "load_db s"
  have "admins_ok (d_admins ?d)"
    using key [OF keys(1)] key [OF keys(2)] by (simp add: admins_ok_def load_db_def map_rows_of admin_of_def)
  moreover have "clients_ok (d_clients ?d)"
    using key [OF keys(3)] key [OF keys(4)] key [OF keys(5)]
    by (simp add: clients_ok_def load_db_def map_rows_of client_of_def)
  moreover have "keys_ok (d_api_keys ?d)"
    using key [OF keys(7)] key [OF keys(8)] by (simp add: keys_ok_def load_db_def map_rows_of key_of_def)
  moreover have "ports_ok (d_tunnels ?d)"
  proof -
    have "t = u" if "t \<in> set (d_tunnels ?d)" "u \<in> set (d_tunnels ?d)" "r_public_port t = Some p" "r_public_port u = Some p" for t u p
      using ports_unique [OF t, of _ _ p] that by (simp add: load_db_def)
    then show ?thesis using pos unfolding ports_ok_def by blast
  qed
  moreover
  have maps: "map r_id (d_tunnels ?d) = column_of s ''tunnels'' ''id''"
    "map c_ID (d_clients ?d) = column_of s ''clients'' ''id''"
    "map r_client_id (d_tunnels ?d) = column_of s ''tunnels'' ''client_id''"
    "map s_tunnel_id (d_samples ?d) = column_of s ''traffic_samples'' ''tunnel_id''"
    "map (\<lambda>x. e_client_id (snd x)) (rows_of s ''enrollment_codes'' code_of) = column_of s ''enrollment_codes'' ''client_id''"
    by (simp_all add: load_db_def map_rows_of tunnel_of_def client_of_def sample_of_def code_of_def)
  have "set (map r_client_id (d_tunnels ?d)) \<subseteq> set (map c_ID (d_clients ?d))"
    "set (map s_tunnel_id (d_samples ?d)) \<subseteq> set (map r_id (d_tunnels ?d))"
    "distinct (map r_id (d_tunnels ?d))"
    unfolding maps by (fact ref [OF refs(1)], fact ref [OF refs(2)], fact key [OF keys(6)])
  moreover have "set (map (\<lambda>x. e_client_id (snd x)) (rows_of s ''enrollment_codes'' code_of)) \<subseteq> set (map c_ID (d_clients ?d))"
    unfolding maps by (fact ref [OF refs(3)])
  then have "codes_ok (d_clients ?d) (d_codes ?d)"
    by (force simp: codes_ok_def load_db_def dest: map_of_SomeD)
  ultimately show ?thesis by (auto simp: db_wf_def tunnels_ok_def samples_ok_def)
qed

section \<open>A current file is left alone\<close>

definition same_tables :: "sqlite \<Rightarrow> sqlite \<Rightarrow> bool" where
  "same_tables s0 s \<longleftrightarrow> sq_tables s = sq_tables s0"

lemma current_tables:
  assumes "current s0"
  shows "T \<in> set (map fst created) \<Longrightarrow> \<exists>tb. tab s0 T = Some tb \<and> set (tb_cols tb) = set (full_cols T)"
  using assms by (force simp: current_def list_all_iff split: option.splits)

lemma noop_exec:
  "(\<And>T cs. CreateTable T cs \<in> set ds \<Longrightarrow> tab s0 T \<noteq> None) \<Longrightarrow>
   (\<And>i T. CreateIndex i T \<in> set ds \<Longrightarrow> tab s0 T \<noteq> None) \<Longrightarrow>
   sql_triple ok (same_tables s0) (exec_all ok ds) (\<lambda>_. same_tables s0) (same_tables s0)"
proof (induction ds)
  case Nil
  then show ?case by (auto intro: sql_ret)
next
  case (Cons d ds)
  have "sql_triple ok (same_tables s0) (stmt ok (run_ddl d)) (\<lambda>_. same_tables s0) (same_tables s0)"
  proof (cases d)
    case (CreateTable T cs)
    with Cons.prems(1) [of T cs] show ?thesis by (intro sql_stmt) (auto simp: same_tables_def)
  next
    case (CreateIndex i T)
    with Cons.prems(2) [of i T] show ?thesis by (intro sql_stmt) (auto simp: same_tables_def)
  qed
  moreover have "sql_triple ok (same_tables s0) (exec_all ok ds) (\<lambda>_. same_tables s0) (same_tables s0)"
    by (rule Cons.IH) (rule Cons.prems(1), erule list.set_intros(2), rule Cons.prems(2), erule list.set_intros(2))
  ultimately show ?case by (auto intro: sql_bind)
qed

lemma noop_columns:
  "(\<And>T c. (T, c) \<in> set ms \<Longrightarrow> list_ex (\<lambda>k. col_name k = col_name c) (table_info T s0)) \<Longrightarrow>
   sql_triple ok (same_tables s0) (add_columns ok ms) (\<lambda>_. same_tables s0) (same_tables s0)"
proof (induction ms)
  case Nil
  then show ?case by (auto intro: sql_ret)
next
  case (Cons m ms)
  obtain T c where m: "m = (T, c)" by (cases m)
  have has: "sql_triple ok (same_tables s0) (hasColumn ok T (col_name c)) (\<lambda>b s. same_tables s0 s \<and> b) (same_tables s0)"
    unfolding hasColumn_def
    by (rule sql_stmt) (use Cons.prems in \<open>auto simp: same_tables_def table_info_def m\<close>)
  have rest: "sql_triple ok (same_tables s0) (add_columns ok ms) (\<lambda>_. same_tables s0) (same_tables s0)"
    using Cons by (intro Cons.IH) auto
  show ?case
    unfolding m add_columns.simps(2)
    by (rule sql_bind [OF has]) (use rest in \<open>simp add: sql_triple_def\<close>)
qed

lemma noop_open:
  assumes "current s0"
  shows "sql_triple ok (same_tables s0) (OpenDB ok) (\<lambda>_. same_tables s0) (same_tables s0)"
proof -
  note here = current_tables [OF assms]
  have ddl: "list_all (\<lambda>d. List.member (map fst created) (case d of CreateTable T cs \<Rightarrow> T | CreateIndex i T \<Rightarrow> T)) schemaSQL"
    by code_simp
  have schema: "sql_triple ok (same_tables s0) (exec_all ok schemaSQL) (\<lambda>_. same_tables s0) (same_tables s0)"
    by (rule noop_exec) (use ddl here in \<open>fastforce simp: list_all_iff\<close>)+
  have mig: "list_all (\<lambda>m. List.member (map fst created) (fst m) \<and> List.member (full_cols (fst m)) (snd m)) migrations"
    by code_simp
  have add: "sql_triple ok (same_tables s0) (add_columns ok migrations) (\<lambda>_. same_tables s0) (same_tables s0)"
  proof (rule noop_columns)
    fix T c
    assume "(T, c) \<in> set migrations"
    then have "T \<in> set (map fst created)" "c \<in> set (full_cols T)" using mig by (force simp: list_all_iff)+
    with here [of T] show "list_ex (\<lambda>k. col_name k = col_name c) (table_info T s0)"
      by (auto simp: table_info_def list_ex_iff)
  qed
  have "\<not> (case find (\<lambda>k. col_name k = ''public_port'') (table_info ''tunnels'' s0) of None \<Rightarrow> False | Some k \<Rightarrow> col_notnull k)"
  proof -
    have "list_all (\<lambda>c. \<not> (col_name c = ''public_port'' \<and> col_notnull c)) (full_cols ''tunnels'')"
      and "List.member (map fst created) ''tunnels''" by code_simp+
    with here [of "''tunnels''"] show ?thesis
      by (auto simp: table_info_def list_all_iff split: option.splits dest!: find_Some_in)
  qed
  then have nn: "sql_triple ok (same_tables s0) (columnNotNull ok ''tunnels'' ''public_port'')
      (\<lambda>b s. same_tables s0 s \<and> \<not> b) (same_tables s0)"
    unfolding columnNotNull_def
    by (intro sql_stmt) (auto simp: same_tables_def table_info_def)
  have "sql_triple ok (same_tables s0) (migrateTunnelsPublicPortNullable ok) (\<lambda>_. same_tables s0) (same_tables s0)"
    unfolding migrateTunnelsPublicPortNullable_def
    by (rule sql_bind [OF nn]) (simp add: sql_triple_def retM_def)
  then have "sql_triple ok (same_tables s0) (bindM (exec_all ok schemaSQL) (\<lambda>_. migrateSchema ok))
      (\<lambda>_. same_tables s0) (same_tables s0)"
    unfolding migrateSchema_def by (intro sql_bind [OF schema] sql_bind [OF add])
  then show ?thesis by (simp add: sql_triple_def OpenDB_def same_tables_def)
qed

section \<open>Foreign keys are on\<close>

lemma keeps_stmt:
  assumes "\<And>s. I (s\<lparr>sq_n := sq_n s + 1\<rparr>) \<longleftrightarrow> I s" and "\<And>s x s2. I s \<Longrightarrow> f s = Inr (x, s2) \<Longrightarrow> I s2"
  shows "keeps I (stmt ok f)"
  unfolding keeps_def stmt_def Let_def
  using assms(1) assms(2) by (auto split: sum.split prod.split)

lemma fk_ddl: "run_ddl d s = Inr (x, s2) \<Longrightarrow> sq_fk s2 = sq_fk s"
  by (cases "(d, s)" rule: run_ddl.cases) (auto simp: put_table_def split: if_splits)

lemma fk_add: "add_column T c s = Inr (x, s2) \<Longrightarrow> sq_fk s2 = sq_fk s"
  by (auto simp: add_column_def put_table_def split: option.splits if_splits)

lemma fk_exec: "keeps sq_fk (exec_all ok ds)"
  by (induction ds) (auto intro!: keeps_intros keeps_stmt dest: fk_ddl)

lemma fk_columns: "keeps sq_fk (add_columns ok ms)"
proof (induction ms)
  case (Cons m ms)
  obtain T c where m: "m = (T, c)" by (cases m)
  have "keeps sq_fk (hasColumn ok T (col_name c))" "keeps sq_fk (stmt ok (add_column T c))"
    unfolding hasColumn_def by (auto intro!: keeps_stmt dest: fk_add)
  with Cons.IH show ?case by (auto simp: m intro!: keeps_intros)
qed (simp add: keeps_ret)

lemma fk_rebuild:
  assumes "\<And>n. ok n"
  shows "keeps sq_fk (migrateTunnelsPublicPortNullable ok)"
proof -
  have "keeps sq_fk (columnNotNull ok ''tunnels'' ''public_port'')"
    unfolding columnNotNull_def by (auto intro!: keeps_stmt)
  moreover have "keeps sq_fk (bindM (stmt ok (set_fk False)) (\<lambda>_. deferred_fk_on ok (with_sqltx ok (rebuild_tunnels ok))))"
    using assms by (simp add: keeps_def bindM_def stmt_def set_fk_def deferred_fk_on_def split: prod.split sum.split)
  ultimately show ?thesis
    unfolding migrateTunnelsPublicPortNullable_def by (auto intro!: keeps_intros)
qed

lemma fk_open:
  assumes "\<And>n. ok n"
  shows "sq_fk (snd (OpenDB ok s))"
proof -
  have "keeps sq_fk (bindM (exec_all ok schemaSQL) (\<lambda>_. migrateSchema ok))"
    unfolding migrateSchema_def by (intro keeps_intros fk_exec fk_columns fk_rebuild assms)
  then show ?thesis by (simp add: OpenDB_def keeps_def)
qed

section \<open>Properties\<close>

text \<open>
  C17. An upgrade loses nothing, whatever happens. A file left by any version of the program (the
  tables of the first one, any of the later columns, the public port still mandatory or not) is
  opened: then, whichever of the statements fails, the file afterwards is again such a file with
  exactly the same content, new fields at their defaults, and the content satisfies the invariant
  of the data layer, so an interrupted upgrade can simply be tried again. When \<open>Open\<close> succeeds the
  schema is the current one; when no statement fails it does succeed, with foreign keys on. (With a
  failing statement it may succeed with foreign keys off: see \<open>open_without_foreign_keys\<close>.)
\<close>

theorem upgrade_preserves:
  assumes "historic s" and "OpenDB ok s = (r, s')"
  shows "historic s' \<and> load_db s' = load_db s \<and> db_wf (load_db s')
    \<and> (r = Inr () \<longrightarrow> current s') \<and> ((\<forall>n. ok n) \<longrightarrow> r = Inr () \<and> sq_fk s')"
proof -
  have c: "content (load_db s) s" using assms(1) by (simp add: content_def)
  then have post: "content (load_db s) s' \<and> (r = Inr () \<longrightarrow> current s') \<and> ((\<forall>n. ok n) \<longrightarrow> r = Inr ())"
    using OpenDB_triple [of ok "load_db s"] assms(2) unfolding sql_triple_def by (fastforce split: sum.splits)
  then have h: "historic s'" by (simp add: content_def)
  have "(\<forall>n. ok n) \<longrightarrow> sq_fk s'" using fk_open [of ok s] assms(2) by simp
  with post h historic_wf [OF h] show ?thesis by (simp add: content_def)
qed

text \<open>
  Every later start leaves the file alone: opening a file with the current schema changes no
  table, whichever statements fail, and succeeds if none does.
\<close>

theorem reopen_changes_nothing:
  assumes "current s" and "OpenDB ok s = (r, s')"
  shows "sq_tables s' = sq_tables s \<and> ((\<forall>n. ok n) \<longrightarrow> r = Inr ())"
  using noop_open [OF assms(1), of ok] assms(2) unfolding sql_triple_def same_tables_def
  by (fastforce split: sum.splits)

section \<open>An example\<close>

text \<open>The database of the repository's migration test, without two of the added columns.\<close>

definition ex_file :: sqlite where
  "ex_file = \<lparr>sq_tables =
     [(''clients'', \<lparr>tb_cols = [key_col ''id'', unique (text_col ''name''), unique (text_col ''token_hash''),
          int_col ''created_at'', nullable (int_col ''last_seen'')],
        tb_rows = [[SText ''c1'', SText ''test-client'', SText ''hash1'', SInt 1000, SNull]]\<rparr>),
      (''tunnels'', \<lparr>tb_cols = [key_col ''id'', ref_col ''client_id'' ''clients'', text_col ''name'',
          text_col ''local_host'', int_col ''local_port'', unique (int_col ''public_port''),
          with_default (SText ''tcp'') (text_col ''protocol''), with_default (SInt 1) (int_col ''enabled''),
          with_default (SInt 0) (int_col ''bytes_in_total''), with_default (SInt 0) (int_col ''bytes_out_total''),
          int_col ''created_at'', with_default (SText []) (text_col ''public_hostname'')],
        tb_rows = [[SText ''t1'', SText ''c1'', SText ''survival'', SText ''127.0.0.1'', SInt 25565, SInt 30001,
          SText ''tcp'', SInt 1, SInt 111, SInt 222, SInt 1000, SText ''mc.example'']]\<rparr>),
      (''traffic_samples'', \<lparr>tb_cols = [unique (nullable (int_col ''id'')), ref_col ''tunnel_id'' ''tunnels'',
          int_col ''ts'', int_col ''bytes_in'', int_col ''bytes_out''],
        tb_rows = [[SInt 1, SText ''t1'', SInt 1000, SInt 50, SInt 60]]\<rparr>)],
     sq_indexes = [], sq_fk = False, sq_n = 0\<rparr>"

lemma ex_file_historic: "historic ex_file"
  by code_simp

text \<open>
  The error of the last statement of the rebuild, the deferred \<open>PRAGMA\<close>, is ignored: if it fails \<open>Open\<close>
  succeeds, and the connection enforces no foreign keys.
\<close>

lemma open_without_foreign_keys:
  "let last = sq_n (snd (OpenDB (\<lambda>_. True) ex_file)) - 1; (r, s') = OpenDB (\<lambda>n. n \<noteq> last) ex_file
   in r = Inr () \<and> current s' \<and> \<not> sq_fk s'"
  by code_simp

lemma upgrade_preserves_witness:
  "current (snd (OpenDB (\<lambda>_. True) ex_file)) \<and> load_db (snd (OpenDB (\<lambda>_. True) ex_file)) = load_db ex_file
   \<and> map r_public_port (d_tunnels (load_db ex_file)) = [Some 30001] \<and> length (d_samples (load_db ex_file)) = 1"
proof -
  obtain r s' where run: "OpenDB (\<lambda>_. True) ex_file = (r, s')" by (cases "OpenDB (\<lambda>_. True) ex_file")
  have "map r_public_port (d_tunnels (load_db ex_file)) = [Some 30001] \<and> length (d_samples (load_db ex_file)) = 1"
    by code_simp
  with upgrade_preserves [OF ex_file_historic run] show ?thesis by (simp add: run)
qed

lemma reopen_changes_nothing_witness:
  "sq_tables (snd (OpenDB (\<lambda>_. True) (snd (OpenDB (\<lambda>_. True) ex_file)))) = sq_tables (snd (OpenDB (\<lambda>_. True) ex_file))"
proof -
  have "current (snd (OpenDB (\<lambda>_. True) ex_file))" by code_simp
  from reopen_changes_nothing [OF this prod.collapse [symmetric]] show ?thesis by blast
qed

end
