(* ===== verification/Readers.thy ===== *)
theory Readers
imports Prelude
begin

text \<open>
  Go's readers: \<open>io.ByteReader\<close> as the locale \<open>byte_source\<close> (what a routine that reads byte by
  byte relies on), \<open>io.ReadFull\<close>, a plain byte string, and a network connection that delivers
  its bytes in chunks, read through \<open>bufio.Reader\<close> over \<open>io.TeeReader\<close>. Both readers are
  interpretations of the locale: what is read does not depend on how the bytes arrive.
\<close>

section \<open>Readers\<close>

datatype ioerr = EOF | UnexpectedEOF | ReadDeadline | ConnReset

text \<open>\<open>io.ReadFull\<close>: \<open>EOF\<close> only when nothing was read, \<open>ErrUnexpectedEOF\<close> after a part.\<close>

fun ReadFull_loop ::
    "('s \<Rightarrow> (ioerr + byte) \<times> 's) \<Rightarrow> nat \<Rightarrow> byte list \<Rightarrow> 's \<Rightarrow> (ioerr + byte list) \<times> 's" where
  "ReadFull_loop ReadByte 0 acc s = (Inr acc, s)"
| "ReadFull_loop ReadByte (Suc n) acc s =
     (case ReadByte s of
        (Inl e, s') \<Rightarrow> (Inl (if e = EOF \<and> acc \<noteq> [] then UnexpectedEOF else e), s')
      | (Inr b, s') \<Rightarrow> ReadFull_loop ReadByte n (acc @ [b]) s')"

definition ReadFull :: "('s \<Rightarrow> (ioerr + byte) \<times> 's) \<Rightarrow> nat \<Rightarrow> 's \<Rightarrow> (ioerr + byte list) \<times> 's" where
  "ReadFull ReadByte n s = ReadFull_loop ReadByte n [] s"

definition stepM ::
    "('s \<Rightarrow> ('d + 'a) \<times> 's) \<Rightarrow> ('d \<Rightarrow> 'e) \<Rightarrow> ('a \<Rightarrow> 's \<Rightarrow> ('e + 'b) \<times> 's) \<Rightarrow> 's \<Rightarrow> ('e + 'b) \<times> 's"
where
  "stepM m wrap f s = (case m s of (Inl e, s') \<Rightarrow> (Inl (wrap e), s') | (Inr x, s') \<Rightarrow> f x s')"
section \<open>The contract of a byte source\<close>

text \<open>A byte string with the error its end reports: the plainest \<open>io.ByteReader\<close>.\<close>

fun str_ReadByte :: "byte list \<times> ioerr \<Rightarrow> (ioerr + byte) \<times> byte list \<times> ioerr" where
  "str_ReadByte ([], e) = (Inl e, ([], e))"
| "str_ReadByte (b # bs, e) = (Inr b, (bs, e))"

locale byte_source =
  fixes ReadByte :: "'s \<Rightarrow> (ioerr + byte) \<times> 's"
    and pending :: "'s \<Rightarrow> byte list"
    and fin :: "'s \<Rightarrow> ioerr"
  assumes ReadByte_end: "pending s = [] \<Longrightarrow> \<exists>s'. ReadByte s = (Inl (fin s), s')
        \<and> pending s' = [] \<and> fin s' = fin s"
    and ReadByte_byte: "pending s = b # bs \<Longrightarrow> \<exists>s'. ReadByte s = (Inr b, s')
        \<and> pending s' = bs \<and> fin s' = fin s"
begin

text \<open>A routine on this source mirrors one on the byte string still to come.\<close>

definition mirrors :: "('s \<Rightarrow> 'r \<times> 's) \<Rightarrow> (byte list \<times> ioerr \<Rightarrow> 'r \<times> byte list \<times> ioerr) \<Rightarrow> bool" where
  "mirrors m l \<longleftrightarrow> (\<forall>s. \<exists>r s'. m s = (r, s') \<and> l (pending s, fin s) = (r, (pending s', fin s')))"

lemma mirrorsE:
  assumes "mirrors m l"
  obtains r s' where "m s = (r, s')" and "l (pending s, fin s) = (r, (pending s', fin s'))"
  using assms unfolding mirrors_def by blast

lemma mirrors_ReadByte: "mirrors ReadByte str_ReadByte"
  unfolding mirrors_def
proof
  fix s
  show "\<exists>r s'. ReadByte s = (r, s') \<and> str_ReadByte (pending s, fin s) = (r, (pending s', fin s'))"
  proof (cases "pending s")
    case Nil
    with ReadByte_end [OF Nil] show ?thesis by auto
  next
    case (Cons b bs)
    with ReadByte_byte [OF Cons] show ?thesis by auto
  qed
qed

lemma mirrors_ret: "mirrors (retM x) (retM x)"
  by (simp add: mirrors_def retM_def)

lemma mirrors_fail: "mirrors (failM x) (failM x)"
  by (simp add: mirrors_def failM_def)

lemma mirrors_if: "mirrors a a' \<Longrightarrow> mirrors b b' \<Longrightarrow> mirrors (if c then a else b) (if c then a' else b')"
  by simp

lemma mirrors_step:
  assumes "mirrors m l" and "\<And>x. mirrors (f x) (g x)"
  shows "mirrors (stepM m w f) (stepM l w g)"
  unfolding mirrors_def
proof
  fix s
  obtain r s' where m: "m s = (r, s')" "l (pending s, fin s) = (r, (pending s', fin s'))"
    using assms(1) by (rule mirrorsE)
  show "\<exists>r s'. stepM m w f s = (r, s') \<and> stepM l w g (pending s, fin s) = (r, (pending s', fin s'))"
  proof (cases r)
    case (Inl e)
    with m show ?thesis by (simp add: stepM_def)
  next
    case (Inr x)
    obtain r2 s2 where "f x s' = (r2, s2)" "g x (pending s', fin s') = (r2, (pending s2, fin s2))"
      using assms(2) by (rule mirrorsE)
    with m Inr show ?thesis by (simp add: stepM_def)
  qed
qed

lemma mirrors_ReadFull: "mirrors (ReadFull ReadByte n) (ReadFull str_ReadByte n)"
proof -
  have "\<exists>r s'. ReadFull_loop ReadByte n acc s = (r, s')
      \<and> ReadFull_loop str_ReadByte n acc (pending s, fin s) = (r, (pending s', fin s'))" for acc s
  proof (induction n arbitrary: acc s)
    case (Suc n)
    obtain r s' where "ReadByte s = (r, s')"
      "str_ReadByte (pending s, fin s) = (r, (pending s', fin s'))"
      using mirrors_ReadByte by (rule mirrorsE)
    with Suc [of "acc @ [projr r]" s'] show ?case by (cases r) auto
  qed simp
  then show ?thesis by (simp add: mirrors_def ReadFull_def)
qed
end

text \<open>Both sources: the byte string itself, and, below, the buffered connection.\<close>

interpretation str: byte_source str_ReadByte fst snd
proof unfold_locales
  fix s :: "byte list \<times> ioerr"
  show "\<exists>s'. str_ReadByte s = (Inl (snd s), s') \<and> fst s' = [] \<and> snd s' = snd s" if "fst s = []"
    using that by (cases s) simp
  show "\<exists>s'. str_ReadByte s = (Inr b, s') \<and> fst s' = bs \<and> snd s' = snd s" if "fst s = b # bs" for b bs
    using that by (cases s) simp
qed

section \<open>The buffered, teed connection\<close>

text \<open>
  A connection delivers the chunks its successive \<open>Read\<close> calls return (a \<open>Read\<close> with room left
  never returns nothing, so empty chunks are passed over), then its final error. \<open>bufio.Reader\<close>
  asks for at most 4096 bytes at a time; the tee appends what is read to \<open>raw\<close>.
\<close>

record mcconn =
  chunks :: "byte list list"
  conn_end :: ioerr

definition bufSize :: nat where
  "bufSize = 4096"

fun conn_Read :: "nat \<Rightarrow> byte list list \<Rightarrow> byte list \<times> byte list list" where
  "conn_Read n [] = ([], [])"
| "conn_Read n (c # cs) =
     (if c = [] then conn_Read n cs
      else if length c \<le> n then (c, cs) else (take n c, drop n c # cs))"

record peeker =
  buf :: "byte list"
  raw :: "byte list"
  conn :: mcconn

definition bufio_ReadByte :: "peeker \<Rightarrow> (ioerr + byte) \<times> peeker" where
  "bufio_ReadByte s =
     (case buf s of
        b # bs \<Rightarrow> (Inr b, s\<lparr>buf := bs\<rparr>)
      | [] \<Rightarrow>
          (case conn_Read bufSize (chunks (conn s)) of
             ([], cs) \<Rightarrow> (Inl (conn_end (conn s)), s\<lparr>conn := (conn s)\<lparr>chunks := cs\<rparr>\<rparr>)
           | (b # bs, cs) \<Rightarrow> (Inr b, s\<lparr>buf := bs, raw := raw s @ b # bs,
                                       conn := (conn s)\<lparr>chunks := cs\<rparr>\<rparr>)))"

lemma conn_Read_stream: "conn_Read n cs = (r, cs') \<Longrightarrow> concat cs = r @ concat cs'"
  by (induction n cs arbitrary: r cs' rule: conn_Read.induct) (auto split: if_splits)

lemma conn_Read_empty: "conn_Read n cs = ([], cs') \<Longrightarrow> 0 < n \<Longrightarrow> concat cs' = [] \<and> concat cs = []"
proof (induction cs)
  case (Cons c cs)
  show ?case
  proof (cases "c = []")
    case True
    with Cons show ?thesis by simp
  next
    case False
    with Cons.prems show ?thesis by (simp split: if_splits)
  qed
qed simp

definition peek_pending :: "peeker \<Rightarrow> byte list" where
  "peek_pending s = buf s @ concat (chunks (conn s))"

definition peek_end :: "peeker \<Rightarrow> ioerr" where
  "peek_end s = conn_end (conn s)"

interpretation bufio: byte_source bufio_ReadByte peek_pending peek_end
proof unfold_locales
  fix s
  show "\<exists>s'. bufio_ReadByte s = (Inl (peek_end s), s') \<and> peek_pending s' = []
      \<and> peek_end s' = peek_end s"
    if "peek_pending s = []"
  proof (cases "conn_Read bufSize (chunks (conn s))")
    case (Pair r cs)
    with that conn_Read_stream [OF Pair] show ?thesis
      by (simp add: bufio_ReadByte_def peek_pending_def peek_end_def)
  qed
  show "\<exists>s'. bufio_ReadByte s = (Inr b, s') \<and> peek_pending s' = bs \<and> peek_end s' = peek_end s"
    if "peek_pending s = b # bs" for b bs
  proof (cases "buf s")
    case (Cons x xs)
    with that show ?thesis by (simp add: bufio_ReadByte_def peek_pending_def peek_end_def)
  next
    case Nil
    obtain r cs where rd: "conn_Read bufSize (chunks (conn s)) = (r, cs)"
      by (cases "conn_Read bufSize (chunks (conn s))")
    show ?thesis
    proof (cases r)
      case Nil
      with rd \<open>buf s = []\<close> that conn_Read_empty [of bufSize "chunks (conn s)" cs] show ?thesis
        by (simp add: peek_pending_def bufSize_def)
    next
      case (Cons x xs)
      with rd \<open>buf s = []\<close> that conn_Read_stream [OF rd] show ?thesis
        by (simp add: bufio_ReadByte_def peek_pending_def peek_end_def)
    qed
  qed
qed


definition stream :: "mcconn \<Rightarrow> byte list" where
  "stream c = concat (chunks c)"

text \<open>What the reader has taken from the connection is kept: nothing is lost for a replay.\<close>

definition whole_is :: "byte list \<Rightarrow> ioerr \<Rightarrow> peeker \<Rightarrow> bool" where
  "whole_is w e s \<longleftrightarrow> raw s @ concat (chunks (conn s)) = w \<and> conn_end (conn s) = e"

lemma keeps_stepM [keeps_intros]:
  assumes "keeps I m" and "\<And>x. keeps I (f x)"
  shows "keeps I (stepM m w f)"
proof (rule keepsI)
  fix s
  assume "I s"
  then have "I (snd (m s))" using assms(1) by (rule keepsD [rotated])
  then show "I (snd (stepM m w f s))"
    using assms(2) by (auto simp: stepM_def keeps_def split: prod.splits sum.splits)
qed
lemma keeps_ReadFull [keeps_intros]:
  assumes "keeps I R"
  shows "keeps I (ReadFull R n)"
proof -
  have "I s \<Longrightarrow> I (snd (ReadFull_loop R n acc s))" for acc s
  proof (induction n arbitrary: acc s)
    case (Suc n)
    with assms have "I (snd (R s))" by (simp add: keeps_def)
    with Suc.IH show ?case by (auto split: prod.splits sum.splits)
  qed simp
  then show ?thesis by (simp add: keeps_def ReadFull_def)
qed

lemma keeps_bufio: "keeps (whole_is w e) bufio_ReadByte"
proof (rule keepsI)
  fix s
  assume "whole_is w e s"
  then show "whole_is w e (snd (bufio_ReadByte s))"
    by (auto simp: bufio_ReadByte_def whole_is_def split: list.splits prod.splits
        dest!: conn_Read_stream)
qed
lemma ReadFull_str:
  "n \<le> length bs \<Longrightarrow> ReadFull str_ReadByte n (bs, e) = (Inr (take n bs), (drop n bs, e))"
proof -
  have "n \<le> length bs \<Longrightarrow> ReadFull_loop str_ReadByte n acc (bs, e)
      = (Inr (acc @ take n bs), (drop n bs, e))" for acc
  proof (induction n arbitrary: acc bs)
    case (Suc n)
    then obtain b bs' where "bs = b # bs'" by (cases bs) auto
    with Suc show ?case by simp
  qed simp
  from this [of "[]"] show "n \<le> length bs \<Longrightarrow> ?thesis" by (simp add: ReadFull_def)
qed
end
