(* ===== verification/Protocol.thy ===== *)
theory Protocol
imports Readers
begin

unbundle bit_operations_syntax

text \<open>
  The control-plane messages and the length-prefixed framing
  (\<open>internal/protocol/protocol.go\<close>). The JSON codec is the pair of arguments \<open>marshal\<close> and
  \<open>unmarshal\<close>; the frame theorems hold for the encoded bytes, whatever the codec.
\<close>

section \<open>Messages\<close>

record AuthRequest =
  rq_Token :: string
  rq_ClientVersion :: string

record AuthResponse =
  rs_OK :: bool
  rs_Error :: string
  rs_ClientID :: string
  rs_Name :: string
  rs_Uninstall :: bool

record TunnelSpec =
  sp_ID :: string
  sp_Name :: string
  sp_LocalHost :: string
  sp_LocalPort :: int
  sp_PublicPort :: int
  sp_Protocol :: string
  sp_ProxyProtocol :: bool

record TunnelConfigPush =
  tp_Tunnels :: "TunnelSpec list"
  tp_Uninstall :: bool

record StreamHeader =
  sh_TunnelID :: string
  sh_RemoteAddr :: string

record UDPPacket =
  up_SourceAddr :: string
  up_Data :: "byte list"

record Device =
  dv_IP :: string
  dv_MAC :: string
  dv_Hostname :: string

section \<open>Frames\<close>

definition maxFrameSize :: nat where
  "maxFrameSize = 2 ^ 20"

datatype frame_err =
    FrameTooLarge nat
  | FrameLengthErr ioerr
  | FrameBodyErr ioerr
  | UnmarshalErr

definition PutUint32 :: "32 word \<Rightarrow> byte list" where
  "PutUint32 n = [ucast (drop_bit 24 n), ucast (drop_bit 16 n), ucast (drop_bit 8 n), ucast n]"

definition Uint32 :: "byte list \<Rightarrow> 32 word" where
  "Uint32 b = ucast (b ! 3) OR push_bit 8 (ucast (b ! 2)) OR push_bit 16 (ucast (b ! 1))
     OR push_bit 24 (ucast (b ! 0))"

text \<open>What \<open>WriteFrame\<close> writes: the length in four bytes, then the encoded message.\<close>

definition WriteFrame :: "('m \<Rightarrow> byte list) \<Rightarrow> 'm \<Rightarrow> frame_err + byte list" where
  "WriteFrame marshal v =
     (let data = marshal v
      in if length data > maxFrameSize then Inl (FrameTooLarge (length data))
         else Inr (PutUint32 (word_of_nat (length data)) @ data))"

definition ReadFrame ::
    "('s \<Rightarrow> (ioerr + byte) \<times> 's) \<Rightarrow> (byte list \<Rightarrow> 'm option) \<Rightarrow> 's \<Rightarrow> (frame_err + 'm) \<times> 's" where
  "ReadFrame ReadByte unmarshal =
     stepM (ReadFull ReadByte 4) FrameLengthErr (\<lambda>lenBuf.
       let n = unat (Uint32 lenBuf)
       in if n > maxFrameSize then failM (FrameTooLarge n)
          else stepM (ReadFull ReadByte n) FrameBodyErr (\<lambda>buf.
            case unmarshal buf of None \<Rightarrow> failM UnmarshalErr | Some v \<Rightarrow> retM v))"

lemma bit_byte_at:
  "bit (push_bit k (ucast (ucast (drop_bit k n) :: byte)) :: 32 word) i
     \<longleftrightarrow> i < 32 \<and> k \<le> i \<and> i < k + 8 \<and> bit n i"
  by (cases "k \<le> i") (auto simp: bit_simps)

lemma Uint32_PutUint32: "Uint32 (PutUint32 n) = n"
proof (rule bit_word_eqI)
  fix i
  assume i: "i < LENGTH(32)"
  have "bit (Uint32 (PutUint32 n)) i \<longleftrightarrow>
      i < 8 \<and> bit n i \<or> (8 \<le> i \<and> i < 16 \<and> bit n i) \<or> (16 \<le> i \<and> i < 24 \<and> bit n i)
      \<or> (24 \<le> i \<and> i < 32 \<and> bit n i)"
    using i bit_byte_at [of 0 n i] bit_byte_at [of 8 n i] bit_byte_at [of 16 n i]
      bit_byte_at [of 24 n i]
    by (simp add: Uint32_def PutUint32_def bit_or_iff)
  with i show "bit (Uint32 (PutUint32 n)) i = bit n i" by auto
qed

lemma length_PutUint32 [simp]: "length (PutUint32 n) = 4"
  by (simp add: PutUint32_def)

context byte_source
begin

lemma mirrors_ReadFrame: "mirrors (ReadFrame ReadByte un) (ReadFrame str_ReadByte un)"
proof -
  have "mirrors (case un b of None \<Rightarrow> failM UnmarshalErr | Some v \<Rightarrow> retM v)
      (case un b of None \<Rightarrow> failM UnmarshalErr | Some v \<Rightarrow> retM v)" for b
    by (cases "un b") (simp_all add: mirrors_fail mirrors_ret)
  then show ?thesis
    unfolding ReadFrame_def Let_def
    by (intro mirrors_step mirrors_ReadFull mirrors_if mirrors_fail)
qed

end

lemma ReadFrame_str:
  assumes "WriteFrame marshal v = Inr frame"
  shows "ReadFrame str_ReadByte un (frame @ rest, e)
    = (case un (marshal v) of None \<Rightarrow> Inl UnmarshalErr | Some m \<Rightarrow> Inr m, (rest, e))"
proof -
  from assms have len: "length (marshal v) \<le> maxFrameSize"
    and fr: "frame = PutUint32 (word_of_nat (length (marshal v))) @ marshal v"
    by (auto simp: WriteFrame_def Let_def split: if_splits)
  from len have n: "unat (word_of_nat (length (marshal v)) :: 32 word) = length (marshal v)"
    by (simp add: unat_of_nat maxFrameSize_def)
  have "ReadFull str_ReadByte 4 (frame @ rest, e)
      = (Inr (PutUint32 (word_of_nat (length (marshal v)))), (marshal v @ rest, e))"
    by (subst ReadFull_str) (simp_all add: fr)
  moreover have "ReadFull str_ReadByte (length (marshal v)) (marshal v @ rest, e)
      = (Inr (marshal v), (rest, e))"
    by (subst ReadFull_str) simp_all
  ultimately show ?thesis
    using len n
    by (simp add: ReadFrame_def stepM_def Uint32_PutUint32 Let_def failM_def retM_def
        split: option.split)
qed

section \<open>Properties\<close>

text \<open>
  Framing. A frame that was written is read back as the decoding of exactly its encoded
  bytes, and the reader is left at the first byte after it, so frames on a stream do not run
  into each other, however the connection splits them; no frame above 1 MiB is ever written.
\<close>

theorem frame_round_trip:
  assumes "WriteFrame marshal v = Inr frame" and "peek_pending s = frame @ rest"
  shows "\<exists>s'. ReadFrame bufio_ReadByte un s
       = (case un (marshal v) of None \<Rightarrow> Inl UnmarshalErr | Some m \<Rightarrow> Inr m, s')
     \<and> peek_pending s' = rest \<and> length frame \<le> 4 + maxFrameSize"
proof -
  obtain r s' where r: "ReadFrame bufio_ReadByte un s = (r, s')"
    "ReadFrame str_ReadByte un (peek_pending s, peek_end s) = (r, (peek_pending s', peek_end s'))"
    using bufio.mirrors_ReadFrame by (rule bufio.mirrorsE)
  then show ?thesis
    using ReadFrame_str [OF assms(1), of un rest "peek_end s"] assms
    by (auto simp: WriteFrame_def Let_def split: if_splits)
qed

theorem frame_round_trip_witness:
  "\<exists>s'. ReadFrame bufio_ReadByte Some \<lparr>buf = [0], raw = [0], conn = \<lparr>chunks = [[0, 0], [2, 7], [8, 9]],
       conn_end = EOF\<rparr>\<rparr> = (Inr [7, 8], s') \<and> peek_pending s' = [9]"
  using frame_round_trip [of "\<lambda>b. b" "[7, 8]" "[0, 0, 0, 2, 7, 8]" "\<lparr>buf = [0], raw = [0],
      conn = \<lparr>chunks = [[0, 0], [2, 7], [8, 9]], conn_end = EOF\<rparr>\<rparr>" "[9]" Some]
  by (auto simp: WriteFrame_def PutUint32_def maxFrameSize_def peek_pending_def)

end
