(* ===== verification/VarInt.thy ===== *)
theory VarInt
imports Readers
begin

unbundle bit_operations_syntax

text \<open>
  Minecraft VarInts: \<open>readVarInt\<close> of \<open>internal/tunnel/mcrouter.go\<close> on 32-bit words, over any
  byte source, and the encoder of its test file, with the round trip between them.
\<close>

datatype vierr = VIRead ioerr | VITooBig

text \<open>
  \<open>readVarInt\<close> over any \<open>io.ByteReader\<close>: \<open>value\<close> and \<open>position\<close> are the loop's variables, the
  shift is on 32 bits, and the loop stops at the fifth byte at the latest.
\<close>

function readVarInt_loop ::
    "('s \<Rightarrow> (ioerr + byte) \<times> 's) \<Rightarrow> 32 word \<Rightarrow> nat \<Rightarrow> 's \<Rightarrow> (vierr + 32 word) \<times> 's" where
  "readVarInt_loop ReadByte val position s =
     (case ReadByte s of
        (Inl e, s') \<Rightarrow> (Inl (VIRead e), s')
      | (Inr b, s') \<Rightarrow>
          (let val' = val OR push_bit position (ucast (b AND 0x7F))
           in if b AND 0x80 = 0 then (Inr val', s')
              else if position + 7 \<ge> 32 then (Inl VITooBig, s')
              else readVarInt_loop ReadByte val' (position + 7) s'))"
  by pat_completeness auto
termination
  by (relation "measure (\<lambda>(_, _, p, _). 32 - p)") auto

declare readVarInt_loop.simps [simp del]

definition readVarInt :: "('s \<Rightarrow> (ioerr + byte) \<times> 's) \<Rightarrow> 's \<Rightarrow> (vierr + 32 word) \<times> 's" where
  "readVarInt ReadByte s = readVarInt_loop ReadByte 0 0 s"
context byte_source
begin

lemma mirrors_readVarInt_loop:
  "\<exists>r s'. readVarInt_loop ReadByte v p s = (r, s')
     \<and> readVarInt_loop str_ReadByte v p (pending s, fin s) = (r, (pending s', fin s'))"
proof (induction "32 - p" arbitrary: v p s rule: less_induct)
  case less
  obtain r s' where rb: "ReadByte s = (r, s')"
    "str_ReadByte (pending s, fin s) = (r, (pending s', fin s'))"
    using mirrors_ReadByte by (rule mirrorsE)
  show ?case
  proof (cases r)
    case (Inl e)
    with rb show ?thesis by (simp add: readVarInt_loop.simps [of _ _ p])
  next
    case (Inr b)
    let ?v = "v OR push_bit p (ucast (b AND 0x7F))"
    show ?thesis
    proof (cases "b AND 0x80 = 0 \<or> p + 7 \<ge> 32")
      case True
      with rb Inr show ?thesis by (auto simp: readVarInt_loop.simps [of _ _ p] Let_def)
    next
      case False
      then have "p < 25" by simp
      then have "32 - (p + 7) < 32 - p" by arith
      from less [OF this, of ?v s'] False rb Inr show ?thesis
        by (auto simp: readVarInt_loop.simps [of _ _ p] Let_def)
    qed
  qed
qed

lemma mirrors_readVarInt: "mirrors (readVarInt ReadByte) (readVarInt str_ReadByte)"
  by (simp add: mirrors_def readVarInt_def mirrors_readVarInt_loop)
end

lemma keeps_readVarInt [keeps_intros]:
  assumes "keeps I R"
  shows "keeps I (readVarInt R)"
proof -
  have "I s \<Longrightarrow> I (snd (readVarInt_loop R v p s))" for v p s
  proof (induction "32 - p" arbitrary: v p s rule: less_induct)
    case less
    obtain r s' where r: "R s = (r, s')" by (cases "R s")
    with less.prems assms have s': "I s'" by (auto simp: keeps_def dest: spec [of _ s])
    show ?case
    proof (cases r)
      case (Inl e)
      with r s' show ?thesis by (simp add: readVarInt_loop.simps [of _ _ p])
    next
      case (Inr b)
      show ?thesis
      proof (cases "p + 7 \<ge> 32")
        case True
        with r s' Inr show ?thesis by (simp add: readVarInt_loop.simps [of _ _ p] Let_def)
      next
        case False
        then have "32 - (p + 7) < 32 - p" by arith
        from less.hyps [OF this s'] r s' Inr show ?thesis
          by (simp add: readVarInt_loop.simps [of _ _ p] Let_def)
      qed
    qed
  qed
  then show ?thesis by (simp add: keeps_def readVarInt_def)
qed
section \<open>What a client sends\<close>

function encodeVarInt :: "32 word \<Rightarrow> byte list" where
  "encodeVarInt uv =
     (let b = ucast (uv AND 0x7F);
          uv' = drop_bit 7 uv
      in if uv' \<noteq> 0 then (b OR 0x80) # encodeVarInt uv' else [b])"
  by pat_completeness auto
termination
proof (relation "measure unat", goal_cases)
  case (2 uv b uv')
  have "unat (drop_bit 7 uv) = unat uv div 128" by (simp only: unat_drop_bit_eq) (simp add: drop_bit_eq_div)
  moreover from 2 have "unat (drop_bit 7 uv) \<noteq> 0" by (simp add: unat_eq_0)
  ultimately show ?case using 2 by simp
qed simp

declare encodeVarInt.simps [simp del]

lemma mask7: "(0x7F :: 'a::len word) = mask 7"
  by (simp add: mask_eq_exp_minus_1)

lemma low_bits: "ucast ((ucast (u AND 0x7F) :: byte) AND 0x7F) = (u :: 32 word) AND 0x7F"
  unfolding mask7 by (rule bit_eqI) (auto simp: bit_simps)

lemma low_bits_cont: "ucast (((ucast (u AND 0x7F) :: byte) OR 0x80) AND 0x7F) = (u :: 32 word) AND 0x7F"
proof -
  have "(0x80 :: byte) AND 0x7F = 0" by simp
  then have "((ucast (u AND 0x7F) :: byte) OR 0x80) AND 0x7F = (ucast (u AND 0x7F) :: byte) AND 0x7F"
    by (simp add: bit.conj_disj_distrib2)
  then show ?thesis by (simp only: low_bits)
qed

lemma cont_bit: "((ucast ((u :: 32 word) AND 0x7F) :: byte) OR 0x80) AND 0x80 = 0x80"
  by (simp add: bit.conj_disj_distrib2)

lemma stop_bit: "(ucast ((u :: 32 word) AND 0x7F) :: byte) AND 0x80 = 0"
proof -
  have "(ucast (u AND 0x7F) :: byte) = ucast u AND 0x7F"
    unfolding mask7 by (rule bit_eqI) (auto simp: bit_simps)
  moreover have "(0x7F :: byte) AND 0x80 = 0" by simp
  ultimately show ?thesis by (simp add: and.assoc del: and_numerals)
qed

lemma push_split: "push_bit p (u :: 32 word) = push_bit p (u AND 0x7F) OR push_bit (p + 7) (drop_bit 7 u)"
  unfolding mask7
proof (rule bit_eqI)
  fix n
  show "bit (push_bit p u) n = bit (push_bit p (u AND mask 7) OR push_bit (p + 7) (drop_bit 7 u)) n"
  proof (cases "n < p + 7")
    case False
    then have "7 + (n - (p + 7)) = n - p" by arith
    with False show ?thesis by (auto simp: bit_simps)
  qed (auto simp: bit_simps)
qed

text \<open>Reading back: the bits still to come fit in the bits still free.\<close>

lemma drop_small: "unat (u :: 32 word) < 2 ^ n \<Longrightarrow> unat (drop_bit 7 u) < 2 ^ (n - 7)"
proof -
  assume "unat u < 2 ^ n"
  moreover have "unat (drop_bit 7 u) = unat u div 128"
    by (simp only: unat_drop_bit_eq) (simp add: drop_bit_eq_div)
  moreover have "(2 :: nat) ^ n \<le> 2 ^ (n - 7) * 128"
  proof -
    have "(2 :: nat) ^ n \<le> 2 ^ (n - 7 + 7)" by (rule power_increasing) auto
    then show ?thesis by (simp only: power_add) simp
  qed
  ultimately show ?thesis by (simp add: div_less_iff_less_mult)
qed

lemma readVarInt_loop_encode:
  "p < 32 \<Longrightarrow> unat u < 2 ^ (32 - p) \<Longrightarrow>
   readVarInt_loop str_ReadByte v p (encodeVarInt u @ rest, e) = (Inr (v OR push_bit p u), (rest, e))"
proof (induction u arbitrary: v p rule: encodeVarInt.induct)
  case (1 u)
  let ?d = "drop_bit 7 u"
  show ?case
  proof (cases "?d = 0")
    case True
    have "push_bit p u = push_bit p (u AND 0x7F)"
      by (subst push_split) (simp add: True)
    with True show ?thesis
      by (simp add: encodeVarInt.simps [of u] readVarInt_loop.simps [of _ _ p] Let_def stop_bit low_bits)
  next
    case False
    have small: "unat ?d < 2 ^ (32 - p - 7)" by (rule drop_small) (rule "1.prems"(2))
    have "p + 7 < 32"
    proof (rule ccontr)
      assume "\<not> p + 7 < 32"
      with small False show False by (simp add: unat_eq_0)
    qed
    with small "1.IH" [OF refl refl False, of "p + 7" "v OR push_bit p (u AND 0x7F)"] False
    show ?thesis
      by (simp add: encodeVarInt.simps [of u] readVarInt_loop.simps [of _ _ p] Let_def cont_bit
          low_bits_cont or.assoc push_split [of p u, symmetric] del: push_bit_and)
  qed
qed

lemma readVarInt_encode:
  "readVarInt str_ReadByte (encodeVarInt u @ rest, e) = (Inr u, (rest, e))"
  using readVarInt_loop_encode [of 0 u 0 rest e] unsigned_less [of u]
  by (simp add: readVarInt_def)

lemma length_encodeVarInt_aux: "unat u < 2 ^ (7 * Suc n) \<Longrightarrow> length (encodeVarInt u) \<le> Suc n"
proof (induction n arbitrary: u)
  case 0
  then have "drop_bit 7 u = 0"
    using drop_small [of u 7] by (simp add: unat_eq_0)
  then show ?case by (simp add: encodeVarInt.simps [of u] Let_def)
next
  case (Suc n)
  have "unat (drop_bit 7 u) < 2 ^ (7 * Suc n)"
    using drop_small [OF Suc.prems] by simp
  from Suc.IH [OF this] show ?case by (simp add: encodeVarInt.simps [of u] Let_def)
qed

lemma length_encodeVarInt: "length (encodeVarInt u) \<le> 5"
proof -
  have "unat u < 2 ^ 32" using unsigned_less [of u] by simp
  also have "(2 :: nat) ^ 32 \<le> 2 ^ (7 * Suc 4)" by (rule power_increasing) simp_all
  finally show ?thesis using length_encodeVarInt_aux [of u 4] by simp
qed
end
