(* ===== verification/DbTraffic.thy ===== *)
theory DbTraffic
imports DbInvariant
begin

text \<open>
  Traffic accounting and traffic limits (\<open>AddTunnelTraffic\<close>): what a successful call does to
  the whole database, row by row, and that a failed call does nothing.
\<close>

section \<open>Byte totals\<close>

definition tunnel_bytes :: "db \<Rightarrow> string \<Rightarrow> (int \<times> int) option" where
  "tunnel_bytes d tid =
     map_option (\<lambda>t. (r_bytes_in t, r_bytes_out t)) (find (\<lambda>t. r_id t = tid) (d_tunnels d))"

definition limit_reached :: "int option \<Rightarrow> int \<Rightarrow> bool" where
  "limit_reached limit tot \<longleftrightarrow> (case limit of None \<Rightarrow> False | Some l \<Rightarrow> l \<le> tot)"

text \<open>What the call is meant to do to one row, given whether each limit has been reached.\<close>

definition add_row :: "string \<Rightarrow> int \<Rightarrow> int \<Rightarrow> tunnel_row \<Rightarrow> tunnel_row" where
  "add_row tid i u t = (if r_id t = tid
     then t\<lparr>r_bytes_in := r_bytes_in t + i, r_bytes_out := r_bytes_out t + u\<rparr> else t)"

definition stop_row :: "string \<Rightarrow> bool \<Rightarrow> string \<Rightarrow> bool \<Rightarrow> tunnel_row \<Rightarrow> tunnel_row" where
  "stop_row tid over_t cid over_c t =
     (if (r_id t = tid \<and> over_t) \<or> (r_client_id t = cid \<and> over_c)
      then t\<lparr>r_enabled := False\<rparr> else t)"

lemma find_map_key:
  assumes "\<And>t. k (f t) = k t"
  shows "find (\<lambda>t. k t = x) (map f ts) = map_option f (find (\<lambda>t. k t = x) ts)"
  by (induction ts) (auto simp: assms)

lemma add_row_simps [simp]:
  "r_id (add_row tid i u t) = r_id t" "r_client_id (add_row tid i u t) = r_client_id t"
  "r_enabled (add_row tid i u t) = r_enabled t"
  "r_traffic_limit (add_row tid i u t) = r_traffic_limit t"
  by (simp_all add: add_row_def)

lemma stop_row_simps [simp]:
  "r_id (stop_row tid a cid b t) = r_id t" "r_client_id (stop_row tid a cid b t) = r_client_id t"
  "r_bytes_in (stop_row tid a cid b t) = r_bytes_in t"
  "r_bytes_out (stop_row tid a cid b t) = r_bytes_out t"
  "r_enabled (stop_row tid a cid b t) \<longleftrightarrow>
     r_enabled t \<and> \<not> (r_id t = tid \<and> a) \<and> \<not> (r_client_id t = cid \<and> b)"
  by (auto simp: stop_row_def)

lemma add_bytes_ok:
  assumes "d_open d" and "distinct (map r_id (d_tunnels d))"
    and "find (\<lambda>t. r_id t = tid) (d_tunnels d) = Some t"
    and "in_int64 (r_bytes_in t + i)" and "in_int64 (r_bytes_out t + u)"
  shows "\<exists>n. add_bytes tid i u d = (Inr n, d\<lparr>d_tunnels := map (add_row tid i u) (d_tunnels d)\<rparr>)"
proof -
  have "s = t" if "s \<in> set (d_tunnels d)" "r_id s = tid" for s
    using assms(2,3) that by (auto dest!: find_Some_in intro: key_unique)
  then have "\<not> list_ex (\<lambda>s. r_id s = tid \<and> \<not> (in_int64 (r_bytes_in s + i)
      \<and> in_int64 (r_bytes_out s + u))) (d_tunnels d)"
    using assms(4,5) by (auto simp: list_ex_iff)
  with assms(1) show ?thesis
    by (simp add: add_bytes_def execM_def upd_where_def add_row_def [abs_def])
qed

lemma upd_enabled_map:
  "upd_where p (\<lambda>t. t\<lparr>r_enabled := False\<rparr>) ts
     = map (\<lambda>t. if p t then t\<lparr>r_enabled := False\<rparr> else t) ts"
  by (simp add: upd_where_def)

lemma own_limit_step:
  assumes "d_open d"
  shows "\<exists>n. (case lim of None \<Rightarrow> retM 0
      | Some l \<Rightarrow> if w \<ge> l then update_tunnels (\<lambda>u. r_id u = tid) (\<lambda>u. u\<lparr>r_enabled := False\<rparr>)
                  else retM 0) d
    = (Inr n, d\<lparr>d_tunnels := map (stop_row tid (limit_reached lim w) cid False) (d_tunnels d)\<rparr>)"
proof -
  have "map (stop_row tid False cid False) ts = ts" for ts
    by (simp add: stop_row_def [abs_def])
  moreover have "map (stop_row tid True cid False) ts
      = upd_where (\<lambda>u. r_id u = tid) (\<lambda>u. u\<lparr>r_enabled := False\<rparr>) ts" for ts
    by (simp add: stop_row_def [abs_def] upd_where_def)
  ultimately show ?thesis
    using assms
    by (cases lim) (auto simp: limit_reached_def retM_def update_tunnels_def execM_def)
qed

lemma client_total_stop [simp]:
  "client_total cid (map (stop_row tid a cid' b) ts) = client_total cid ts"
  by (induction ts) (simp_all add: client_total_def)

lemma client_limit_step:
  assumes op: "d_open d" and ts: "d_tunnels d = map (stop_row tid a cid False) ts"
    and sum: "lim \<noteq> None \<Longrightarrow> in_int64 (client_total cid ts)"
  shows "\<exists>n. (case lim of None \<Rightarrow> retM 0
      | Some l \<Rightarrow> bindM (query_client_total cid) (\<lambda>clientTotal.
          if clientTotal \<ge> l
          then update_tunnels (\<lambda>u. r_client_id u = cid) (\<lambda>u. u\<lparr>r_enabled := False\<rparr>)
          else retM 0)) d
    = (Inr n, d\<lparr>d_tunnels := map (stop_row tid a cid (limit_reached lim (client_total cid ts))) ts\<rparr>)"
proof -
  have q: "query_client_total cid d = (Inr (client_total cid ts), d)" if "lim \<noteq> None"
    using that op sum by (simp add: query_client_total_def queryM_def ts)
  have "upd_where (\<lambda>u. r_client_id u = cid) (\<lambda>u. u\<lparr>r_enabled := False\<rparr>) (d_tunnels d)
      = map (stop_row tid a cid True) ts"
    by (simp add: ts upd_where_def stop_row_def)
  moreover have "d\<lparr>d_tunnels := map (stop_row tid a cid False) ts\<rparr> = d"
    by (simp flip: ts)
  ultimately show ?thesis
    using op by (cases lim) (auto simp: limit_reached_def retM_def bindM_def q [simplified]
        update_tunnels_def execM_def)
qed

lemma client_limit_overflow:
  assumes "d_open d" and "d_tunnels d = map (stop_row tid a cid False) ts"
    and "\<not> in_int64 (client_total cid ts)"
  shows "bindM (query_client_total cid) f d = (Inl IntegerOverflow, d)"
  using assms by (simp add: query_client_total_def queryM_def bindM_def)

definition client_limit_stmt :: "string \<Rightarrow> int option \<Rightarrow> nat dbm" where
  "client_limit_stmt cid lim = (case lim of None \<Rightarrow> retM 0
     | Some l \<Rightarrow> bindM (query_client_total cid) (\<lambda>clientTotal.
         if clientTotal \<ge> l
         then update_tunnels (\<lambda>u. r_client_id u = cid) (\<lambda>u. u\<lparr>r_enabled := False\<rparr>)
         else retM 0))"

text \<open>Once the tunnel is found and its totals fit, everything up to the machine's limit runs.\<close>

lemma AddTunnelTraffic_steps:
  fixes d :: db
  assumes wf: "db_wf d" and op: "d_open d"
    and t: "find (\<lambda>t. r_id t = tid) (d_tunnels d) = Some t"
    and c: "find (\<lambda>c. c_ID c = r_client_id t) (d_clients d) = Some c"
    and fits: "in_int64 (r_bytes_in t + i)" "in_int64 (r_bytes_out t + u)"
  shows "AddTunnelTraffic now tid i u d = with_tx
    (\<lambda>_. bindM (client_limit_stmt (r_client_id t) (c_TrafficLimitBytes c)) (\<lambda>_. retM ())
      (d\<lparr>d_samples := d_samples d @ [\<lparr>s_tunnel_id = tid, s_ts = now, s_bytes_in = i,
                                      s_bytes_out = u\<rparr>],
         d_tunnels := map (stop_row tid
           (limit_reached (r_traffic_limit t) (wrap64 (r_bytes_in t + i + (r_bytes_out t + u))))
           (r_client_id t) False) (map (add_row tid i u) (d_tunnels d))\<rparr>)) d"
proof -
  let ?ts1 = "map (add_row tid i u) (d_tunnels d)"
  let ?t1 = "add_row tid i u t"
  let ?d1 = "d\<lparr>d_tunnels := ?ts1\<rparr>"
  let ?s = "\<lparr>s_tunnel_id = tid, s_ts = now, s_bytes_in = i, s_bytes_out = u\<rparr>"
  let ?d2 = "d\<lparr>d_tunnels := ?ts1, d_samples := d_samples d @ [?s]\<rparr>"
  let ?w = "wrap64 (r_bytes_in t + i + (r_bytes_out t + u))"
  let ?over = "limit_reached (r_traffic_limit t) ?w"
  let ?d3 = "?d2\<lparr>d_tunnels := map (stop_row tid ?over (r_client_id t) False) ?ts1\<rparr>"
  have tid: "r_id t = tid" "t \<in> set (d_tunnels d)" using t by (auto dest: find_Some_in)
  obtain n where 1: "add_bytes tid i u d = (Inr n, ?d1)"
    using add_bytes_ok [OF op tunnels_ok_ids [OF db_wfD(3) [OF wf]] t fits] by blast
  have 2: "insert_sample ?s ?d1 = (Inr 1, ?d2)"
    using op tid by (auto simp: insert_sample_def execM_def list_ex_iff)
  have f: "find (\<lambda>t. r_id t = tid) ?ts1 = Some ?t1"
    by (simp add: find_map_key t)
  have t1: "r_bytes_in ?t1 + r_bytes_out ?t1 = r_bytes_in t + i + (r_bytes_out t + u)"
    using tid by (simp add: add_row_def)
  have "\<exists>n. (case r_traffic_limit ?t1 of None \<Rightarrow> retM 0
      | Some limit \<Rightarrow> if wrap64 (r_bytes_in ?t1 + r_bytes_out ?t1) \<ge> limit
          then update_tunnels (\<lambda>u. r_id u = tid) (\<lambda>u. u\<lparr>r_enabled := False\<rparr>) else retM 0) ?d2
      = (Inr n, ?d3)"
    unfolding t1 add_row_simps using own_limit_step [where d = ?d2 and lim = "r_traffic_limit t"
        and w = ?w and tid = tid and cid = "r_client_id t"] op by simp
  then obtain n3 where 3: "(case r_traffic_limit ?t1 of None \<Rightarrow> retM 0
      | Some limit \<Rightarrow> if wrap64 (r_bytes_in ?t1 + r_bytes_out ?t1) \<ge> limit
          then update_tunnels (\<lambda>u. r_id u = tid) (\<lambda>u. u\<lparr>r_enabled := False\<rparr>) else retM 0) ?d2
      = (Inr n3, ?d3)" by blast
  have q1: "queryM (\<lambda>d. row_or_err (find (\<lambda>t. r_id t = tid) (d_tunnels d))) ?d2 = (Inr ?t1, ?d2)"
    using op f by (simp add: queryM_def row_or_err_def)
  have q2: "queryM (\<lambda>d. row_or_err (map_option c_TrafficLimitBytes
      (find (\<lambda>c. c_ID c = r_client_id ?t1) (d_clients d)))) ?d3 = (Inr (c_TrafficLimitBytes c), ?d3)"
    using op c by (simp add: queryM_def row_or_err_def)
  show ?thesis
    unfolding AddTunnelTraffic_def client_limit_stmt_def
    by (rule with_tx_cong, (rule bindM_step, rule 1 2 q1 3 q2)+, unfold add_row_simps, simp)
qed

text \<open>
  The whole method as one function of the database: which calls fail, with which error and no
  change at all, and what the others do.
\<close>

definition traffic_effect :: "int \<Rightarrow> string \<Rightarrow> int \<Rightarrow> int \<Rightarrow> tunnel_row \<Rightarrow> Client \<Rightarrow> db \<Rightarrow> db" where
  "traffic_effect now tid i u t c d =
     d\<lparr>d_samples := d_samples d @ [\<lparr>s_tunnel_id = tid, s_ts = now, s_bytes_in = i,
                                  s_bytes_out = u\<rparr>],
       d_tunnels := map (stop_row tid
         (limit_reached (r_traffic_limit t) (wrap64 (r_bytes_in t + i + (r_bytes_out t + u))))
         (r_client_id t)
         (limit_reached (c_TrafficLimitBytes c)
            (client_total (r_client_id t) (map (add_row tid i u) (d_tunnels d)))))
       (map (add_row tid i u) (d_tunnels d))\<rparr>"

definition traffic_spec :: "int \<Rightarrow> string \<Rightarrow> int \<Rightarrow> int \<Rightarrow> db \<Rightarrow> (dberr + unit) \<times> db" where
  "traffic_spec now tid i u d =
     (if \<not> d_open d then (Inl DBClosed, d)
      else case find (\<lambda>t. r_id t = tid) (d_tunnels d) of
        None \<Rightarrow> (Inl ConstraintFailed, d)
      | Some t \<Rightarrow>
          (case find (\<lambda>c. c_ID c = r_client_id t) (d_clients d) of
             None \<Rightarrow> (Inl ErrNoRows, d)
           | Some c \<Rightarrow>
               if \<not> in_int64 (r_bytes_in t + i) \<or> \<not> in_int64 (r_bytes_out t + u)
                  \<or> (c_TrafficLimitBytes c \<noteq> None
                     \<and> \<not> in_int64 (client_total (r_client_id t)
                               (map (add_row tid i u) (d_tunnels d))))
               then (Inl IntegerOverflow, d)
               else (Inr (), traffic_effect now tid i u t c d)))"

lemma find_client_of_tunnel:
  assumes "db_wf d" and "find (\<lambda>t. r_id t = tid) (d_tunnels d) = Some t"
  obtains c where "find (\<lambda>c. c_ID c = r_client_id t) (d_clients d) = Some c"
proof -
  from assms have "r_client_id t \<in> c_ID ` set (d_clients d)"
    by (auto simp: db_wf_def tunnels_ok_def dest: find_Some_in)
  then have "find (\<lambda>c. c_ID c = r_client_id t) (d_clients d) \<noteq> None"
    by (auto simp: find_None_all)
  then show ?thesis using that by blast
qed

lemma AddTunnelTraffic_found:
  assumes wf: "db_wf d" and op: "d_open d"
    and t: "find (\<lambda>t. r_id t = tid) (d_tunnels d) = Some t"
    and c: "find (\<lambda>c. c_ID c = r_client_id t) (d_clients d) = Some c"
    and fits: "in_int64 (r_bytes_in t + i)" "in_int64 (r_bytes_out t + u)"
  shows "AddTunnelTraffic now tid i u d = traffic_spec now tid i u d"
proof -
  let ?ts1 = "map (add_row tid i u) (d_tunnels d)"
  let ?total = "client_total (r_client_id t) ?ts1"
  let ?over = "limit_reached (r_traffic_limit t) (wrap64 (r_bytes_in t + i + (r_bytes_out t + u)))"
  let ?d3 = "d\<lparr>d_samples := d_samples d @ [\<lparr>s_tunnel_id = tid, s_ts = now, s_bytes_in = i,
                                  s_bytes_out = u\<rparr>],
     d_tunnels := map (stop_row tid ?over (r_client_id t) False) ?ts1\<rparr>"
  note steps = AddTunnelTraffic_steps [OF wf op t c fits]
  show ?thesis
  proof (cases "c_TrafficLimitBytes c \<noteq> None \<and> \<not> in_int64 ?total")
    case True
    then have "client_limit_stmt (r_client_id t) (c_TrafficLimitBytes c) ?d3
        = (Inl IntegerOverflow, ?d3)"
      unfolding client_limit_stmt_def
      by (auto intro!: client_limit_overflow [where ts = ?ts1 and tid = tid and a = ?over] simp: op)
    then have "AddTunnelTraffic now tid i u d = (Inl IntegerOverflow, d)"
      by (simp add: steps with_tx_def op bindM_def)
    with True op t c show ?thesis by (simp add: traffic_spec_def)
  next
    case False
    then obtain n where "client_limit_stmt (r_client_id t) (c_TrafficLimitBytes c) ?d3
        = (Inr n, traffic_effect now tid i u t c d)"
      using client_limit_step [where d = ?d3 and tid = tid and a = ?over and cid = "r_client_id t"
        and ts = ?ts1 and lim = "c_TrafficLimitBytes c"] op
      by (auto simp: client_limit_stmt_def traffic_effect_def simp del: not_None_eq)
    then have "AddTunnelTraffic now tid i u d = (Inr (), traffic_effect now tid i u t c d)"
      by (simp add: steps with_tx_def op bindM_def retM_def)
    with False op t c fits show ?thesis by (simp add: traffic_spec_def)
  qed
qed

lemma AddTunnelTraffic_refines_spec:
  assumes wf: "db_wf d"
  shows "AddTunnelTraffic now tid i u d = traffic_spec now tid i u d"
proof (cases "d_open d")
  case False
  then show ?thesis by (simp add: AddTunnelTraffic_def traffic_spec_def with_tx_def)
next
  case op: True
  show ?thesis
  proof (cases "find (\<lambda>t. r_id t = tid) (d_tunnels d)")
    case None
    then have no: "\<forall>t \<in> set (d_tunnels d). r_id t \<noteq> tid" by (simp add: find_None_all)
    then have "add_bytes tid i u d = (Inr 0, d)"
      using op by (simp add: add_bytes_def execM_def list_ex_iff count_where_0 upd_where_none)
    moreover have "insert_sample \<lparr>s_tunnel_id = tid, s_ts = now, s_bytes_in = i,
        s_bytes_out = u\<rparr> d = (Inl ConstraintFailed, d)"
      using op no by (auto simp: insert_sample_def execM_def list_ex_iff)
    ultimately show ?thesis
      using op None by (simp add: AddTunnelTraffic_def traffic_spec_def with_tx_def bindM_def)
  next
    case (Some t)
    with wf obtain c where c: "find (\<lambda>c. c_ID c = r_client_id t) (d_clients d) = Some c"
      by (rule find_client_of_tunnel)
    have t: "t \<in> set (d_tunnels d)" "r_id t = tid" using Some by (auto dest: find_Some_in)
    show ?thesis
    proof (cases "in_int64 (r_bytes_in t + i) \<and> in_int64 (r_bytes_out t + u)")
      case False
      with t have "list_ex (\<lambda>t. r_id t = tid \<and> \<not> (in_int64 (r_bytes_in t + i)
          \<and> in_int64 (r_bytes_out t + u))) (d_tunnels d)"
        by (auto simp: list_ex_iff)
      then have "add_bytes tid i u d = (Inl IntegerOverflow, d)"
        using op by (simp add: add_bytes_def execM_def)
      with False op Some c show ?thesis
        by (auto simp: AddTunnelTraffic_def traffic_spec_def with_tx_def bindM_def)
    next
      case True
      then show ?thesis
        by (intro AddTunnelTraffic_found [OF wf op Some c]) auto
    qed
  qed
qed


lemma traffic_success:
  assumes "db_wf d" and "AddTunnelTraffic now tid i u d = (Inr (), d')"
  obtains t c where "find (\<lambda>t. r_id t = tid) (d_tunnels d) = Some t"
    and "find (\<lambda>c. c_ID c = r_client_id t) (d_clients d) = Some c"
    and "in_int64 (r_bytes_in t + i)" "in_int64 (r_bytes_out t + u)"
    and "c_TrafficLimitBytes c \<noteq> None \<Longrightarrow>
      in_int64 (client_total (r_client_id t) (map (add_row tid i u) (d_tunnels d)))"
    and "d' = traffic_effect now tid i u t c d"
  using assms unfolding AddTunnelTraffic_refines_spec [OF assms(1)] traffic_spec_def
  by (fastforce split: if_splits option.splits)

lemma find_traffic_effect:
  "find (\<lambda>t. r_id t = x) (d_tunnels (traffic_effect now tid i u t c d))
   = map_option (\<lambda>r. stop_row tid
         (limit_reached (r_traffic_limit t) (wrap64 (r_bytes_in t + i + (r_bytes_out t + u))))
         (r_client_id t)
         (limit_reached (c_TrafficLimitBytes c)
            (client_total (r_client_id t) (map (add_row tid i u) (d_tunnels d))))
         (add_row tid i u r)) (find (\<lambda>t. r_id t = x) (d_tunnels d))"
  by (simp add: traffic_effect_def find_map_key option.map_comp comp_def)

section \<open>The ledger: totals are the sums of the samples\<close>

definition samples_of :: "string \<Rightarrow> sample_row list \<Rightarrow> sample_row list" where
  "samples_of tid ss = filter (\<lambda>s. s_tunnel_id s = tid) ss"

definition ledger_ok :: "db \<Rightarrow> bool" where
  "ledger_ok d \<longleftrightarrow> (\<forall>t \<in> set (d_tunnels d).
     r_bytes_in t = sum_list (map s_bytes_in (samples_of (r_id t) (d_samples d)))
     \<and> r_bytes_out t = sum_list (map s_bytes_out (samples_of (r_id t) (d_samples d))))"

text \<open>Most calls leave both tables alone; what is left is inserting, deleting and accounting.\<close>

definition traffic_is :: "tunnel_row list \<Rightarrow> sample_row list \<Rightarrow> db \<Rightarrow> bool" where
  "traffic_is ts ss d \<longleftrightarrow> d_tunnels d = ts \<and> d_samples d = ss"

lemma keeps_traffic_is [keeps_intros]:
  "keeps (traffic_is ts ss) (insert_admin a)"
  "keeps (traffic_is ts ss) (UpdateAdminCredentials i n h m)"
  "keeps (traffic_is ts ss) (SetSetting k v)" "keeps (traffic_is ts ss) (DeleteSetting k)"
  "keeps (traffic_is ts ss) (insert_client c)" "keeps (traffic_is ts ss) (update_clients cid f)"
  "keeps (traffic_is ts ss) (revoke_token now h)"
  "keeps (traffic_is ts ss) (insert_code h e)" "keeps (traffic_is ts ss) (delete_code h)"
  "keeps (traffic_is ts ss) (insert_api_key ak)"
  "keeps (traffic_is ts ss) (UpdateAPIKeyLastUsed now kid)"
  "keeps (traffic_is ts ss) (DeleteAPIKey kid)" "keeps (traffic_is ts ss) CloseDB"
  by (auto simp: keeps_def traffic_is_def execM_def CloseDB_def insert_admin_def
      UpdateAdminCredentials_def SetSetting_def DeleteSetting_def insert_client_def
      update_clients_def revoke_token_def insert_code_def delete_code_def insert_api_key_def
      UpdateAPIKeyLastUsed_def DeleteAPIKey_def)

lemma keeps_traffic_is_rotate [keeps_intros]: "keeps (traffic_is ts ss) (RotateClientToken sha r cid)"
  unfolding RotateClientToken_def
  by (intro keeps_intros keeps_exec_check) (simp add: traffic_is_def)

lemma keeps_traffic_is_methods [keeps_intros]:
  "keeps (traffic_is ts ss) (CreateAdminUser uuid n h)"
  "keeps (traffic_is ts ss) (EnsureSetupCode r)" "keeps (traffic_is ts ss) (ClaimSetupCode code)"
  "keeps (traffic_is ts ss) (CreateClient sha r uuid now n)"
  "keeps (traffic_is ts ss) (UpdateClientTrafficLimit cid limit)"
  "keeps (traffic_is ts ss) (UpdateClientLastSeen now cid)"
  "keeps (traffic_is ts ss) (CreateEnrollmentCode sha r now cid tok ttl)"
  "keeps (traffic_is ts ss) (ExchangeEnrollmentCode sha now code)"
  "keeps (traffic_is ts ss) (CreateAPIKey sha r uuid now n)"
  unfolding CreateAdminUser_def EnsureSetupCode_def ClaimSetupCode_def CreateClient_def
    UpdateClientTrafficLimit_def UpdateClientLastSeen_def CreateEnrollmentCode_def
    ExchangeEnrollmentCode_def CreateAPIKey_def Let_def
  by (intro keeps_intros)+

lemma ledger_frame:
  assumes "keeps (traffic_is (d_tunnels d) (d_samples d)) m"
  shows "ledger_ok (snd (m d)) \<longleftrightarrow> ledger_ok d"
  using keepsD [OF assms, of d] by (simp add: traffic_is_def ledger_ok_def)


lemma ledger_update_tunnels:
  assumes "\<And>t. r_id (f t) = r_id t" "\<And>t. r_bytes_in (f t) = r_bytes_in t"
    "\<And>t. r_bytes_out (f t) = r_bytes_out t"
  shows "keeps ledger_ok (update_tunnels p f)"
  unfolding update_tunnels_def
  by (rule keeps_exec_always) (auto simp: ledger_ok_def set_upd_where assms)

lemma samples_of_del:
  assumes "\<And>s. s \<in> set ss \<Longrightarrow> s_tunnel_id s = x \<Longrightarrow> \<not> p s"
  shows "samples_of x (del_where p ss) = samples_of x ss"
  using assms by (auto simp: samples_of_def del_where_def intro!: filter_cong)

lemma ledger_DeleteTunnel: "keeps ledger_ok (DeleteTunnel tid)"
  unfolding DeleteTunnel_def
  by (rule keeps_exec_always) (auto simp: ledger_ok_def set_del_where samples_of_del)

lemma ledger_insert_tunnel:
  assumes "db_wf d" "ledger_ok d" and "r_bytes_in t = 0" "r_bytes_out t = 0"
  shows "ledger_ok (snd (insert_tunnel t d))"
proof (cases "insert_tunnel t d")
  case (Pair r d')
  show ?thesis
  proof (cases "d' = d")
    case False
    with Pair have d': "d' = d\<lparr>d_tunnels := d_tunnels d @ [t]\<rparr>"
      and new: "\<forall>b \<in> set (d_tunnels d). r_id b \<noteq> r_id t"
      by (auto simp: insert_tunnel_def execM_def list_ex_iff split: if_splits)
    from new db_wfD(4) [OF assms(1)] have "samples_of (r_id t) (d_samples d) = []"
      by (auto simp: samples_of_def filter_empty_conv samples_ok_def)
    with assms show ?thesis by (auto simp: Pair d' ledger_ok_def)
  qed (simp add: Pair assms)
qed

lemma ledger_delete_clients:
  assumes "db_wf d" "ledger_ok d"
  shows "ledger_ok (snd (delete_clients p d))"
proof -
  let ?gone = "map c_ID (filter p (d_clients d))"
  let ?tg = "map r_id (filter (\<lambda>t. List.member ?gone (r_client_id t)) (d_tunnels d))"
  have "samples_of (r_id t) (del_where (\<lambda>s. List.member ?tg (s_tunnel_id s)) (d_samples d))
      = samples_of (r_id t) (d_samples d)"
    if t: "t \<in> set (d_tunnels d)" "\<not> List.member ?gone (r_client_id t)" for t
  proof (rule samples_of_del)
    have "r_id t \<notin> set ?tg"
      using t key_unique [OF tunnels_ok_ids [OF db_wfD(3) [OF assms(1)]]] by fastforce
    then show "\<And>s. s_tunnel_id s = r_id t \<Longrightarrow> \<not> List.member ?tg (s_tunnel_id s)"
      by simp
  qed
  with assms(2) show ?thesis
    by (auto simp: delete_clients_def cascade_clients_def execM_def Let_def ledger_ok_def set_del_where)
qed

lemma ledger_traffic_effect:
  assumes "ledger_ok d"
  shows "ledger_ok (traffic_effect now tid i u t c d)"
  unfolding ledger_ok_def
proof
  fix x
  assume "x \<in> set (d_tunnels (traffic_effect now tid i u t c d))"
  then obtain r a cid b where r: "r \<in> set (d_tunnels d)"
    and x: "x = stop_row tid a cid b (add_row tid i u r)"
    by (auto simp: traffic_effect_def)
  have s: "samples_of y (d_samples (traffic_effect now tid i u t c d)) = samples_of y (d_samples d)
      @ (if y = tid then [\<lparr>s_tunnel_id = tid, s_ts = now, s_bytes_in = i, s_bytes_out = u\<rparr>] else [])"
    for y
    by (simp add: traffic_effect_def samples_of_def)
  have "r_bytes_in r = sum_list (map s_bytes_in (samples_of (r_id r) (d_samples d)))"
    "r_bytes_out r = sum_list (map s_bytes_out (samples_of (r_id r) (d_samples d)))"
    using assms r by (simp_all add: ledger_ok_def)
  then show "r_bytes_in x = sum_list (map s_bytes_in (samples_of (r_id x)
        (d_samples (traffic_effect now tid i u t c d))))
    \<and> r_bytes_out x = sum_list (map s_bytes_out (samples_of (r_id x)
        (d_samples (traffic_effect now tid i u t c d))))"
    by (simp add: s x add_row_def)
qed


definition ledgered :: "db \<Rightarrow> bool" where
  "ledgered d \<longleftrightarrow> db_wf d \<and> ledger_ok d"

lemma keeps_ledgered:
  "keeps db_wf m \<Longrightarrow> (\<And>d. db_wf d \<Longrightarrow> ledger_ok d \<Longrightarrow> ledger_ok (snd (m d))) \<Longrightarrow> keeps ledgered m"
  by (simp add: keeps_def ledgered_def)

lemma keeps_ledgered_frame:
  "keeps db_wf m \<Longrightarrow> (\<And>ts ss. keeps (traffic_is ts ss) m) \<Longrightarrow> keeps ledgered m"
  by (rule keeps_ledgered) (simp_all add: ledger_frame)

lemma ledgered_statements [keeps_intros]:
  "keeps ledgered (delete_clients p)" "keeps ledgered (revoke_token now h)"
  "keeps ledgered (execM (\<lambda>d. Inr (length (d_admins d), d\<lparr>d_admins := []\<rparr>)))"
  "keeps ledgered (execM (\<lambda>d. Inr (0, d\<lparr>d_settings := Map.empty\<rparr>)))"
  "keeps ledgered (DeleteTunnel tid)"
proof -
  show "keeps ledgered (delete_clients p)"
    by (rule keeps_ledgered) (simp_all add: keeps_intros ledger_delete_clients)
  show "keeps ledgered (revoke_token now h)"
    by (rule keeps_ledgered_frame) (simp_all add: keeps_intros)
  show "keeps ledgered (execM (\<lambda>d. Inr (length (d_admins d), d\<lparr>d_admins := []\<rparr>)))"
    "keeps ledgered (execM (\<lambda>d. Inr (0, d\<lparr>d_settings := Map.empty\<rparr>)))"
    by (rule keeps_exec_always, simp add: ledgered_def db_wf_def ledger_ok_def admins_ok_def)+
  show "keeps ledgered (DeleteTunnel tid)"
    by (rule keeps_ledgered) (simp_all add: keeps_intros keepsD [OF ledger_DeleteTunnel])
qed

lemma ledgered_revoke_all [keeps_intros]: "keeps ledgered (revoke_all now hs)"
  by (induction hs) (auto intro!: keeps_intros)

lemma ledgered_deletes [keeps_intros]:
  "keeps ledgered (DeleteClient now cid)" "keeps ledgered (FactoryReset now)"
  unfolding DeleteClient_def FactoryReset_def
  by (intro keeps_intros)+

lemma ledgered_tunnel_updates [keeps_intros]:
  "keeps ledgered (SetTunnelEnabled tid b)" "keeps ledgered (UpdateTunnelSettings tid limit host pxy)"
proof -
  have u: "keeps ledgered (update_tunnels p f)"
    if "\<And>t. r_id (f t) = r_id t" "\<And>t. r_bytes_in (f t) = r_bytes_in t"
      "\<And>t. r_bytes_out (f t) = r_bytes_out t" "\<And>t. r_public_port (f t) = r_public_port t"
      "\<And>t. r_client_id (f t) = r_client_id t" for p f
    by (rule keeps_ledgered) (simp_all add: keeps_update_tunnels that
        keepsD [OF ledger_update_tunnels])
  show "keeps ledgered (SetTunnelEnabled tid b)"
    unfolding SetTunnelEnabled_def by (rule u) simp_all
  show "keeps ledgered (UpdateTunnelSettings tid limit host pxy)"
    unfolding UpdateTunnelSettings_def by (intro keeps_bind keeps_requireRow u) simp_all
qed

lemma ledgered_CreateTunnel [keeps_intros]:
  "keeps ledgered (CreateTunnel uuid now cid n lh lp pp proto)"
  unfolding CreateTunnel_def Let_def
  by (intro keeps_bind keeps_ret keeps_ledgered keeps_insert_tunnel ledger_insert_tunnel)
     (auto split: if_splits)

lemma ledgered_AddTunnelTraffic [keeps_intros]: "keeps ledgered (AddTunnelTraffic now tid i u)"
proof (rule keeps_ledgered)
  fix d
  assume wf: "db_wf d" and ok: "ledger_ok d"
  show "ledger_ok (snd (AddTunnelTraffic now tid i u d))"
    unfolding AddTunnelTraffic_refines_spec [OF wf]
    using ok by (auto simp: traffic_spec_def ledger_traffic_effect split: option.splits)
qed (rule keeps_traffic)

lemma exec_call_ledgered:
  assumes "ledgered d"
  shows "ledgered (exec_call sha c d)"
  by (cases c) (simp_all add: keepsD [where I = ledgered, OF _ assms] keeps_intros
      keepsD [OF keeps_ledgered_frame, OF _ _ assms])

lemma db_reach_ledgered: "db_reach sha d \<Longrightarrow> ledgered d"
proof (induction rule: db_reach.induct)
  case fresh
  show ?case by (simp add: ledgered_def db_wf_fresh) (simp add: ledger_ok_def fresh_db_def)
qed (rule exec_call_ledgered)


section \<open>A concrete run\<close>

definition example_after :: db where
  "example_after = example_db\<lparr>
     d_samples := [\<lparr>s_tunnel_id = ''t1'', s_ts = 7, s_bytes_in = 60, s_bytes_out = 50\<rparr>],
     d_tunnels := [(example_tunnel ''t1'' 8080)\<lparr>r_bytes_in := 60, r_bytes_out := 50,
                     r_enabled := False\<rparr>, example_tunnel ''t2'' 8081]\<rparr>"

lemma example_spec: "traffic_spec 7 ''t1'' 60 50 example_db = (Inr (), example_after)"
  by (simp add: traffic_spec_def traffic_effect_def example_after_def example_db_def
      example_tunnel_def fresh_db_def in_int64_def add_row_def stop_row_def limit_reached_def
      client_total_def wrap64_def)

lemma example_run: "AddTunnelTraffic 7 ''t1'' 60 50 example_db = (Inr (), example_after)"
  by (simp add: AddTunnelTraffic_refines_spec example_db_wf example_spec)

section \<open>Properties\<close>

text \<open>
  C22. Traffic accounting, all branches. On a consistent database \<open>AddTunnelTraffic\<close> is the
  function \<open>traffic_spec\<close>: an unknown tunnel or a sum that leaves the 64-bit range is an error
  that changes nothing; otherwise the totals of this tunnel alone grow by the deltas, a sample
  is appended, and exactly the tunnels that hit their own limit or their machine's are disabled.
\<close>

theorem AddTunnelTraffic_refines:
  assumes "db_wf d"
  shows "AddTunnelTraffic now tid i u d = traffic_spec now tid i u d"
  using assms by (rule AddTunnelTraffic_refines_spec)

theorem AddTunnelTraffic_refines_witness:
  "AddTunnelTraffic 7 ''t1'' 60 50 example_db = (Inr (), example_after)"
  using AddTunnelTraffic_refines [OF example_db_wf, of 7 "''t1''" 60 50]
  by (simp add: example_spec)

text \<open>
  Limits are enforced and accounting never switches anything on. After a successful call no
  tunnel is enabled that was not enabled before; if the tunnel's own limit is reached by its new
  total it is disabled, and if the machine's limit is reached by the sum over its tunnels then
  every tunnel of that machine is disabled.
\<close>

theorem traffic_limits_enforced:
  assumes "db_wf d" and "AddTunnelTraffic now tid i u d = (Inr (), d')"
    and "find (\<lambda>t. r_id t = tid) (d_tunnels d') = Some t'"
    and "find (\<lambda>c. c_ID c = r_client_id t') (d_clients d') = Some c"
  shows "(r_enabled t' \<longrightarrow> \<not> limit_reached (r_traffic_limit t')
           (wrap64 (r_bytes_in t' + r_bytes_out t')))
    \<and> (limit_reached (c_TrafficLimitBytes c) (client_total (r_client_id t') (d_tunnels d'))
         \<longrightarrow> (\<forall>s \<in> set (d_tunnels d'). r_client_id s = r_client_id t' \<longrightarrow> \<not> r_enabled s))
    \<and> (\<forall>s' \<in> set (d_tunnels d'). r_enabled s' \<longrightarrow>
           (\<exists>s \<in> set (d_tunnels d). r_id s = r_id s' \<and> r_enabled s))"
proof (intro conjI)
  obtain t c0 where t: "find (\<lambda>t. r_id t = tid) (d_tunnels d) = Some t"
    and c0: "find (\<lambda>c. c_ID c = r_client_id t) (d_clients d) = Some c0"
    and d': "d' = traffic_effect now tid i u t c0 d"
    using assms(1,2) by (rule traffic_success)
  have tid: "r_id t = tid" using find_Some_in [OF t] by simp
  have t': "t' = stop_row tid
         (limit_reached (r_traffic_limit t) (wrap64 (r_bytes_in t + i + (r_bytes_out t + u))))
         (r_client_id t)
         (limit_reached (c_TrafficLimitBytes c0)
            (client_total (r_client_id t) (map (add_row tid i u) (d_tunnels d))))
         (add_row tid i u t)"
    using assms(3) t by (simp add: d' find_traffic_effect)
  have c: "c = c0" using assms(4) c0 by (simp add: d' t' traffic_effect_def)
  have lim: "r_traffic_limit t' = r_traffic_limit t" "r_client_id t' = r_client_id t"
    by (simp_all add: t' stop_row_def)
  have tot: "r_bytes_in t' + r_bytes_out t' = r_bytes_in t + i + (r_bytes_out t + u)"
    using tid by (simp add: t' add_row_def)
  show "r_enabled t' \<longrightarrow> \<not> limit_reached (r_traffic_limit t')
      (wrap64 (r_bytes_in t' + r_bytes_out t'))"
    unfolding lim tot using tid by (simp add: t')
  show "limit_reached (c_TrafficLimitBytes c) (client_total (r_client_id t') (d_tunnels d'))
      \<longrightarrow> (\<forall>s \<in> set (d_tunnels d'). r_client_id s = r_client_id t' \<longrightarrow> \<not> r_enabled s)"
    unfolding lim c by (auto simp: d' traffic_effect_def simp del: map_map)
  show "\<forall>s' \<in> set (d_tunnels d'). r_enabled s' \<longrightarrow>
      (\<exists>s \<in> set (d_tunnels d). r_id s = r_id s' \<and> r_enabled s)"
    by (auto simp: d' traffic_effect_def)
qed

theorem traffic_limits_enforced_witness:
  "limit_reached (Some 100) (wrap64 (60 + 50))
   \<and> map r_enabled (d_tunnels example_after) = [False, True]"
proof -
  let ?t' = "(example_tunnel ''t1'' 8080)\<lparr>r_bytes_in := 60, r_bytes_out := 50, r_enabled := False\<rparr>"
  have f: "find (\<lambda>t. r_id t = ''t1'') (d_tunnels example_after) = Some ?t'"
    "find (\<lambda>c. c_ID c = r_client_id ?t') (d_clients example_after) = Some (hd (d_clients example_db))"
    by (simp_all add: example_after_def example_db_def example_tunnel_def fresh_db_def)
  have "r_enabled ?t' \<longrightarrow> \<not> limit_reached (r_traffic_limit ?t') (wrap64 (r_bytes_in ?t' + r_bytes_out ?t'))"
    using traffic_limits_enforced [OF example_db_wf example_run f] by blast
  moreover have "limit_reached (Some 100) (wrap64 (60 + 50))"
    by (simp add: limit_reached_def wrap64_def)
  ultimately show ?thesis by (simp add: example_after_def example_tunnel_def)
qed

text \<open>
  C35. The ledger. In every reachable database the totals of each tunnel are the sums of the
  traffic samples recorded for it: no call loses or double-counts bytes, and recreating or
  deleting tunnels and machines leaves no stray samples in another tunnel's account.
\<close>

theorem traffic_ledger:
  assumes "db_reach sha d" and "t \<in> set (d_tunnels d)"
  shows "r_bytes_in t = sum_list (map s_bytes_in (samples_of (r_id t) (d_samples d)))
    \<and> r_bytes_out t = sum_list (map s_bytes_out (samples_of (r_id t) (d_samples d)))"
  using db_reach_ledgered [OF assms(1)] assms(2) by (simp add: ledgered_def ledger_ok_def)


theorem traffic_ledger_witness:
  "(60 :: int) = sum_list (map s_bytes_in (samples_of ''t1'' (d_samples
     (exec_call id (CallAddTunnelTraffic 7 ''t1'' 60 50)
     (exec_call id (CallCreateTunnel ''t1'' 2 ''c1'' ''web'' ''127.0.0.1'' 80 8080 ''tcp'')
     (exec_call id (CallCreateClient (Some [1]) ''c1'' 1 ''nas'') fresh_db))))))"
proof -
  let ?d = "exec_call id (CallAddTunnelTraffic 7 ''t1'' 60 50)
     (exec_call id (CallCreateTunnel ''t1'' 2 ''c1'' ''web'' ''127.0.0.1'' 80 8080 ''tcp'')
     (exec_call id (CallCreateClient (Some [1]) ''c1'' 1 ''nas'') fresh_db))"
  let ?d2 = "exec_call id (CallCreateTunnel ''t1'' 2 ''c1'' ''web'' ''127.0.0.1'' 80 8080 ''tcp'')
     (exec_call id (CallCreateClient (Some [1]) ''c1'' 1 ''nas'') fresh_db)"
  have r: "db_reach id ?d2" by (intro db_reach.intros)
  then have reach: "db_reach id ?d" by (rule db_reach.call)
  let ?row = "(example_tunnel ''t1'' 8080)\<lparr>r_traffic_limit := None, r_created_at := 2\<rparr>"
  have "d_tunnels ?d2 = [?row]" "d_open ?d2" "length (d_clients ?d2) = 1"
     "c_ID (hd (d_clients ?d2)) = ''c1''" "c_TrafficLimitBytes (hd (d_clients ?d2)) = None"
    by (simp_all add: CreateClient_def CreateTunnel_def tokM_def liftM_def bindM_def
        GenerateToken_def insert_client_def insert_tunnel_def execM_def fresh_db_def retM_def
        example_tunnel_def Let_def)
  then have "snd (AddTunnelTraffic 7 ''t1'' 60 50 ?d2) = snd (traffic_spec 7 ''t1'' 60 50 ?d2)
      \<and> r_bytes_in (hd (d_tunnels (snd (traffic_spec 7 ''t1'' 60 50 ?d2)))) = 60
      \<and> r_id (hd (d_tunnels (snd (traffic_spec 7 ''t1'' 60 50 ?d2)))) = ''t1''
      \<and> d_tunnels (snd (traffic_spec 7 ''t1'' 60 50 ?d2)) \<noteq> []"
    using AddTunnelTraffic_refines_spec [OF db_reach_wf [OF r], of 7 "''t1''" 60 50]
    by (cases "d_clients ?d2") (auto simp: traffic_spec_def traffic_effect_def
        example_tunnel_def in_int64_def add_row_def stop_row_def limit_reached_def
        simp del: exec_call.simps)
  then have "hd (d_tunnels ?d) \<in> set (d_tunnels ?d)" "r_bytes_in (hd (d_tunnels ?d)) = 60"
    "r_id (hd (d_tunnels ?d)) = ''t1''" by simp_all
  then show ?thesis
    using traffic_ledger [OF reach, of "hd (d_tunnels ?d)"] by (simp del: exec_call.simps)
qed

end
