(* ===== verification/DbCredentials.thy ===== *)
theory DbCredentials
imports DbTraffic
begin

text \<open>
  Credentials: client tokens and API keys share one contract (a table looked up by digest),
  stated as a locale and interpreted on both tables; enrollment codes and the setup code are
  single-use; deleting a machine and resetting the server revoke what was issued.
\<close>

section \<open>The contract of a credential table\<close>

datatype 'i cred_op = Issue 'i | Withdraw string

locale credential_table =
  fixes inv :: "db \<Rightarrow> bool"
    and issue :: "'i \<Rightarrow> db \<Rightarrow> (dberr + 'a) \<times> db"
    and lookup :: "string \<Rightarrow> db \<Rightarrow> (dberr + 'i) \<times> db"
    and withdraw :: "string \<Rightarrow> db \<Rightarrow> (dberr + 'b) \<times> db"
    and digest :: "'i \<Rightarrow> string"
    and ident :: "'i \<Rightarrow> string"
  assumes inv_issue: "inv d \<Longrightarrow> inv (snd (issue k d))"
    and inv_withdraw: "inv d \<Longrightarrow> inv (snd (withdraw i d))"
    and lookup_issue: "issue k d = (Inr x, d') \<Longrightarrow>
          fst (lookup h d') = (if h = digest k then Inr k else fst (lookup h d))"
    and issue_taken: "inv d \<Longrightarrow> fst (lookup h d) = Inr j \<Longrightarrow> digest k = h \<or> ident k = ident j \<Longrightarrow>
          \<exists>e. issue k d = (Inl e, d)"
    and issue_fails: "issue k d = (Inl e, d') \<Longrightarrow> d' = d"
    and lookup_withdraw: "inv d \<Longrightarrow> withdraw i d = (Inr y, d') \<Longrightarrow>
          fst (lookup h d') = (case fst (lookup h d) of
              Inl e \<Rightarrow> Inl e
            | Inr k \<Rightarrow> if ident k = i then Inl ErrNoRows else Inr k)"
    and withdraw_fails: "withdraw i d = (Inl e, d') \<Longrightarrow> d' = d"
    and lookup_digest: "fst (lookup h d) = Inr k \<Longrightarrow> digest k = h"
begin

fun step :: "'i cred_op \<Rightarrow> db \<Rightarrow> db" where
  "step (Issue k) d = snd (issue k d)"
| "step (Withdraw i) d = snd (withdraw i d)"

definition run :: "'i cred_op list \<Rightarrow> db \<Rightarrow> db" where
  "run cs d = fold step cs d"

lemma run_simps [simp]: "run [] d = d" "run (c # cs) d = run cs (step c d)"
  by (simp_all add: run_def)

lemma inv_step: "inv d \<Longrightarrow> inv (step c d)"
  by (cases c) (auto intro: inv_issue inv_withdraw)

lemma step_lookup_kept:
  assumes "inv d" and "fst (lookup h d) = Inr k" and "c \<noteq> Withdraw (ident k)"
  shows "fst (lookup h (step c d)) = Inr k"
proof (cases c)
  case (Issue j)
  show ?thesis
  proof (cases "issue j d")
    case (Pair r d')
    with Issue assms show ?thesis
      using issue_taken [OF assms(1,2), of j] lookup_issue [of j d _ d' h] issue_fails [of j d _ d']
      by (cases r) auto
  qed
next
  case (Withdraw i)
  show ?thesis
  proof (cases "withdraw i d")
    case (Pair r d')
    with Withdraw assms show ?thesis
      using lookup_withdraw [OF assms(1), of i _ d' h] withdraw_fails [of i d _ d']
      by (cases r) auto
  qed
qed

text \<open>A credential keeps working, unchanged, until it is withdrawn.\<close>

lemma valid_until_withdrawn:
  "inv d \<Longrightarrow> fst (lookup h d) = Inr k \<Longrightarrow> Withdraw (ident k) \<notin> set cs \<Longrightarrow>
     fst (lookup h (run cs d)) = Inr k"
proof (induction cs arbitrary: d)
  case (Cons c cs)
  then have "c \<noteq> Withdraw (ident k)" "Withdraw (ident k) \<notin> set cs" by auto
  with Cons show ?case by (simp add: step_lookup_kept inv_step)
qed simp

text \<open>A digest is accepted only if it was accepted before or its credential was issued since.\<close>

lemma accepted_was_issued:
  "inv d \<Longrightarrow> fst (lookup h (run cs d)) = Inr k \<Longrightarrow> fst (lookup h d) = Inr k \<or> Issue k \<in> set cs"
proof (induction cs arbitrary: d)
  case (Cons c cs)
  then have "fst (lookup h (step c d)) = Inr k \<or> Issue k \<in> set cs"
    by (simp add: inv_step)
  moreover have "fst (lookup h d) = Inr k \<or> c = Issue k" if "fst (lookup h (step c d)) = Inr k"
  proof (cases c)
    case (Issue j)
    with that Cons.prems(1) show ?thesis
      using lookup_issue [of j d _ _ h] issue_fails [of j d]
      by (cases "issue j d"; cases "fst (issue j d)") (auto split: if_splits)
  next
    case (Withdraw i)
    with that Cons.prems(1) show ?thesis
      using lookup_withdraw [of d i _ _ h] withdraw_fails [of i d]
      by (cases "withdraw i d"; cases "fst (withdraw i d)") (auto split: if_splits sum.splits)
  qed
  ultimately show ?case by auto
qed simp

text \<open>Once withdrawn, a credential is refused until its digest is issued again.\<close>

lemma refused_after_withdrawal:
  assumes "inv d" and "withdraw i d = (Inr y, d')" and "fst (lookup h d) = Inr k" and "ident k = i"
    and "\<And>j. Issue j \<in> set cs \<Longrightarrow> digest j \<noteq> h"
  shows "\<nexists>j. fst (lookup h (run cs d')) = Inr j"
proof
  assume "\<exists>j. fst (lookup h (run cs d')) = Inr j"
  then obtain j where j: "fst (lookup h (run cs d')) = Inr j" by blast
  have "inv d'" using inv_withdraw [OF assms(1), of i] assms(2) by simp
  then have "fst (lookup h d') = Inr j \<or> Issue j \<in> set cs"
    using j by (rule accepted_was_issued)
  moreover have "fst (lookup h d') = Inl ErrNoRows"
    using lookup_withdraw [OF assms(1,2), of h] assms(3,4) by simp
  moreover have "digest j = h" using j by (rule lookup_digest)
  ultimately show False using assms(5) by auto
qed

end

section \<open>Both tables of credentials\<close>

lemma find_del_where_key:
  assumes "distinct (map k rs)"
  shows "find (\<lambda>r. k r = x) (del_where p rs)
     = (case find (\<lambda>r. k r = x) rs of None \<Rightarrow> None | Some r \<Rightarrow> if p r then None else Some r)"
  using assms
proof (induction rs)
  case (Cons r rs)
  then have "find (\<lambda>s. k s = k r) rs = None"
    by (simp add: find_None_all) (metis imageI)
  with Cons show ?case by (auto simp: del_where_def)
qed (simp add: del_where_def)

lemma find_snoc_key:
  "k r \<notin> k ` set rs \<Longrightarrow>
   find (\<lambda>r. k r = x) (rs @ [r]) = (if x = k r then Some r else find (\<lambda>r. k r = x) rs)"
  by (induction rs) auto


text \<open>API keys: \<open>insert_api_key\<close>, \<open>GetAPIKeyByHash\<close> and \<open>DeleteAPIKey\<close> keep the contract.\<close>

interpretation api_keys: credential_table db_wf insert_api_key GetAPIKeyByHash DeleteAPIKey
    k_TokenHash k_ID
proof unfold_locales
  show "db_wf d \<Longrightarrow> db_wf (snd (insert_api_key k d))" for d k
    by (rule keepsD [OF keeps_api_keys(1)])
  show "db_wf d \<Longrightarrow> db_wf (snd (DeleteAPIKey i d))" for d i
    by (rule keepsD [OF keeps_api_keys(3)])
  show "fst (GetAPIKeyByHash h d') = (if h = k_TokenHash k then Inr k else fst (GetAPIKeyByHash h d))"
    if "insert_api_key k d = (Inr x, d')" for k d x d' h
  proof -
    from that have "d_open d" "d' = d\<lparr>d_api_keys := d_api_keys d @ [k]\<rparr>"
      "k_TokenHash k \<notin> k_TokenHash ` set (d_api_keys d)"
      by (force simp: insert_api_key_def execM_def list_ex_iff split: if_splits)+
    then show ?thesis by (simp add: GetAPIKeyByHash_def queryM_def find_snoc_key row_or_err_def)
  qed
  show "\<exists>e. insert_api_key k d = (Inl e, d)"
    if "fst (GetAPIKeyByHash h d) = Inr j" "k_TokenHash k = h \<or> k_ID k = k_ID j" for d h j k
    using that by (auto simp: GetAPIKeyByHash_def queryM_def row_or_err_def insert_api_key_def
        execM_def list_ex_iff split: if_splits option.splits dest!: find_Some_in)
  show "insert_api_key k d = (Inl e, d') \<Longrightarrow> d' = d" for k d e d'
    by (auto simp: insert_api_key_def execM_def split: if_splits)
  show "DeleteAPIKey i d = (Inl e, d') \<Longrightarrow> d' = d" for i d e d'
    by (auto simp: DeleteAPIKey_def execM_def split: if_splits)
  show "fst (GetAPIKeyByHash h d) = Inr k \<Longrightarrow> k_TokenHash k = h" for h d k
    by (auto simp: GetAPIKeyByHash_def queryM_def row_or_err_def split: if_splits option.splits
        dest!: find_Some_in)
  show "fst (GetAPIKeyByHash h d') = (case fst (GetAPIKeyByHash h d) of Inl e \<Rightarrow> Inl e
      | Inr k \<Rightarrow> if k_ID k = i then Inl ErrNoRows else Inr k)"
    if "db_wf d" "DeleteAPIKey i d = (Inr y, d')" for d i y d' h
    using that db_wfD(6) [OF that(1)]
    by (auto simp: DeleteAPIKey_def execM_def GetAPIKeyByHash_def queryM_def row_or_err_def
        keys_ok_def find_del_where_key split: if_splits option.splits)
qed

lemma cascade_clients_simps [simp]:
  "d_open (cascade_clients p d) = d_open d"
  "d_clients (cascade_clients p d) = del_where p (d_clients d)"
  "d_revoked (cascade_clients p d) = d_revoked d"
  "d_api_keys (cascade_clients p d) = d_api_keys d"
  "d_settings (cascade_clients p d) = d_settings d" "d_admins (cascade_clients p d) = d_admins d"
  by (simp_all add: cascade_clients_def Let_def)

lemma DeleteClient_eq:
  "DeleteClient now cid d =
     (if \<not> d_open d then (Inl DBClosed, d)
      else case find (\<lambda>c. c_ID c = cid) (d_clients d) of
        None \<Rightarrow> (Inl ErrNoRows, d)
      | Some c \<Rightarrow> (Inr (), (cascade_clients (\<lambda>c. c_ID c = cid) d)
          \<lparr>d_revoked := (d_revoked d)(c_TokenHash c \<mapsto> now)\<rparr>))"
proof (cases "d_open d")
  case True
  then show ?thesis
    by (cases "find (\<lambda>c. c_ID c = cid) (d_clients d)")
       (simp_all add: DeleteClient_def with_tx_def bindM_def queryM_def row_or_err_def delete_clients_def
          revoke_token_def execM_def retM_def)
qed (simp add: DeleteClient_def with_tx_def)

lemma DeleteClient_InrE:
  assumes "DeleteClient now cid d = (Inr u, d')"
  obtains c where "d_open d" "c \<in> set (d_clients d)" "c_ID c = cid"
    "find (\<lambda>c. c_ID c = cid) (d_clients d) = Some c"
    "d' = (cascade_clients (\<lambda>c. c_ID c = cid) d)
      \<lparr>d_revoked := (d_revoked d)(c_TokenHash c \<mapsto> now)\<rparr>"
proof (cases "find (\<lambda>c. c_ID c = cid) (d_clients d)")
  case (Some c)
  with assms show ?thesis
    using that [of c] find_Some_in [OF Some] by (simp add: DeleteClient_eq split: if_splits)
qed (use assms in \<open>simp add: DeleteClient_eq split: if_splits\<close>)

lemma GetClientByTokenHash_row:
  "fst (GetClientByTokenHash h d) = Inr k \<Longrightarrow> k \<in> set (d_clients d) \<and> c_TokenHash k = h"
  by (auto simp: GetClientByTokenHash_def queryM_def row_or_err_def
      split: if_splits option.splits dest!: find_Some_in)

text \<open>Machines: \<open>insert_client\<close>, \<open>GetClientByTokenHash\<close> and \<open>DeleteClient\<close>.\<close>

interpretation machines: credential_table db_wf insert_client GetClientByTokenHash
    "DeleteClient now" c_TokenHash c_ID for now
proof unfold_locales
  show "db_wf d \<Longrightarrow> db_wf (snd (insert_client k d))" for d k
    by (rule keepsD [OF keeps_insert_client])
  show "db_wf d \<Longrightarrow> db_wf (snd (DeleteClient now i d))" for d i
    by (rule keepsD [OF keeps_client_methods(4)])
  show "fst (GetClientByTokenHash h d')
      = (if h = c_TokenHash k then Inr k else fst (GetClientByTokenHash h d))"
    if "insert_client k d = (Inr x, d')" for k d x d' h
  proof -
    from that have "d_open d" "d' = d\<lparr>d_clients := d_clients d @ [k]\<rparr>"
      "c_TokenHash k \<notin> c_TokenHash ` set (d_clients d)"
      by (force simp: insert_client_def execM_def list_ex_iff split: if_splits)+
    then show ?thesis
      by (simp add: GetClientByTokenHash_def queryM_def find_snoc_key row_or_err_def)
  qed
  show "\<exists>e. insert_client k d = (Inl e, d)"
    if "fst (GetClientByTokenHash h d) = Inr j" "c_TokenHash k = h \<or> c_ID k = c_ID j" for d h j k
    using that by (auto simp: GetClientByTokenHash_def queryM_def row_or_err_def insert_client_def
        execM_def list_ex_iff split: if_splits option.splits dest!: find_Some_in)
  show "insert_client k d = (Inl e, d') \<Longrightarrow> d' = d" for k d e d'
    by (auto simp: insert_client_def execM_def split: if_splits)
  show "DeleteClient now i d = (Inl e, d') \<Longrightarrow> d' = d" for i d e d'
    unfolding DeleteClient_def by (rule with_tx_rollback)
  show "fst (GetClientByTokenHash h d) = Inr k \<Longrightarrow> c_TokenHash k = h" for h d k
    by (simp add: GetClientByTokenHash_row)
  show "fst (GetClientByTokenHash h d') = (case fst (GetClientByTokenHash h d) of Inl e \<Rightarrow> Inl e
      | Inr k \<Rightarrow> if c_ID k = i then Inl ErrNoRows else Inr k)"
    if "db_wf d" "DeleteClient now i d = (Inr y, d')" for d i y d' h
    using that(2)
  proof (rule DeleteClient_InrE)
    fix c
    assume "d_open d" and "d' = (cascade_clients (\<lambda>c. c_ID c = i) d)
      \<lparr>d_revoked := (d_revoked d)(c_TokenHash c \<mapsto> now)\<rparr>"
    then show ?thesis
      using db_wfD(2) [OF that(1)]
      by (auto simp: GetClientByTokenHash_def queryM_def row_or_err_def clients_ok_def
          find_del_where_key split: option.splits)
  qed
qed


section \<open>Factory reset\<close>

lemma revoke_all_eq:
  "d_open d \<Longrightarrow> revoke_all now hs d =
     (Inr (), d\<lparr>d_revoked := (\<lambda>h. if h \<in> set hs then Some now else d_revoked d h)\<rparr>)"
proof (induction hs arbitrary: d)
  case (Cons h hs)
  then show ?case
    by (simp add: bindM_def revoke_token_def execM_def) (rule arg_cong [where f = "\<lambda>f. d\<lparr>d_revoked := f\<rparr>"], auto)
qed (simp add: retM_def)

lemma cascade_all:
  assumes "db_wf d"
  shows "cascade_clients (\<lambda>_. True) d = d\<lparr>d_clients := [], d_tunnels := [], d_samples := [],
     d_codes := Map.empty\<rparr>"
proof -
  have t: "r_client_id t \<in> c_ID ` set (d_clients d)" if "t \<in> set (d_tunnels d)" for t
    using db_wfD(3) [OF assms] that by (simp add: tunnels_ok_def)
  have s: "s_tunnel_id s \<in> r_id ` set (d_tunnels d)" if "s \<in> set (d_samples d)" for s
    using db_wfD(4) [OF assms] that by (simp add: samples_ok_def)
  have e: "e_client_id e \<in> c_ID ` set (d_clients d)" if "d_codes d h = Some e" for h e
    using db_wfD(5) [OF assms] that by (auto simp: codes_ok_def)
  have "{x \<in> set (d_tunnels d). r_client_id x \<in> c_ID ` set (d_clients d)} = set (d_tunnels d)"
    using t by auto
  moreover have "(\<lambda>h. case d_codes d h of None \<Rightarrow> None | Some e \<Rightarrow>
      if List.member (map c_ID (d_clients d)) (e_client_id e) then None else Some e) = Map.empty"
    using e by (auto simp: fun_eq_iff split: option.splits)
  ultimately show ?thesis
    using t s by (simp add: cascade_clients_def Let_def del_where_def filter_empty_conv)
qed

text \<open>What is left of a consistent database after the reset: the API keys, and the revocations.\<close>

lemma FactoryReset_eq:
  assumes "db_wf d" and "d_open d"
  shows "FactoryReset now d = (Inr (), fresh_db\<lparr>d_api_keys := d_api_keys d,
     d_revoked := (\<lambda>h. if h \<in> c_TokenHash ` set (d_clients d) then Some now else d_revoked d h)\<rparr>)"
proof -
  let ?r = "\<lambda>h. if h \<in> c_TokenHash ` set (d_clients d) then Some now else d_revoked d h"
  have "revoke_all now (map c_TokenHash (d_clients d)) d = (Inr (), d\<lparr>d_revoked := ?r\<rparr>)"
    using assms(2) by (simp add: revoke_all_eq)
  moreover have "cascade_clients (\<lambda>_. True) (d\<lparr>d_revoked := ?r\<rparr>) = d\<lparr>d_revoked := ?r,
      d_clients := [], d_tunnels := [], d_samples := [], d_codes := Map.empty\<rparr>"
    using assms(1) by (simp add: cascade_all db_wf_def)
  ultimately show ?thesis
    using assms(2)
    by (cases d) (simp add: FactoryReset_def with_tx_def bindM_def queryM_def execM_def
        delete_clients_def retM_def fresh_db_def)
qed

section \<open>Enrollment codes are single-use\<close>

lemma Exchange_eq:
  "d_open d \<Longrightarrow> ExchangeEnrollmentCode sha now code d =
     (case d_codes d (HashToken sha code) of
        None \<Rightarrow> (Inl InvalidEnrollmentCode, d)
      | Some e \<Rightarrow> if e_expires_at e < now then (Inl EnrollmentCodeExpired, d)
          else (case find (\<lambda>c. c_ID c = e_client_id e) (d_clients d) of
                  None \<Rightarrow> Inl ErrNoRows | Some c \<Rightarrow> Inr (c, e_token e),
                d\<lparr>d_codes := (d_codes d)(HashToken sha code := None)\<rparr>))"
  by (simp add: ExchangeEnrollmentCode_def with_tx_def bindM_def queryM_def failM_def
      delete_code_def execM_def retM_def GetClientByID_def row_or_err_def Let_def
      split: option.split)

lemma Exchange_closed: "\<not> d_open d \<Longrightarrow> ExchangeEnrollmentCode sha now code d = (Inl DBClosed, d)"
  by (simp add: ExchangeEnrollmentCode_def with_tx_def bindM_def Let_def)

text \<open>A call other than issuing a code never makes a spent code valid again.\<close>

definition no_code :: "string \<Rightarrow> db \<Rightarrow> bool" where
  "no_code h d \<longleftrightarrow> d_codes d h = None"

lemma keeps_no_code [keeps_intros]:
  "keeps (no_code x) (insert_admin a)" "keeps (no_code x) (UpdateAdminCredentials i n h m)"
  "keeps (no_code x) (SetSetting k v)" "keeps (no_code x) (DeleteSetting k)"
  "keeps (no_code x) (insert_client c)" "keeps (no_code x) (update_clients cid f)"
  "keeps (no_code x) (revoke_token now h)" "keeps (no_code x) (delete_clients p)"
  "keeps (no_code x) (delete_code h)" "keeps (no_code x) (insert_api_key ak)"
  "keeps (no_code x) (UpdateAPIKeyLastUsed now kid)" "keeps (no_code x) (DeleteAPIKey kid)"
  "keeps (no_code x) (insert_tunnel t)" "keeps (no_code x) (update_tunnels q g)"
  "keeps (no_code x) (add_bytes tid b o')" "keeps (no_code x) (insert_sample s)"
  "keeps (no_code x) (DeleteTunnel tid)" "keeps (no_code x) CloseDB"
  by (simp_all add: keeps_def no_code_def execM_def CloseDB_def insert_admin_def
      UpdateAdminCredentials_def SetSetting_def DeleteSetting_def insert_client_def
      update_clients_def revoke_token_def delete_clients_def cascade_clients_def Let_def
      delete_code_def insert_api_key_def UpdateAPIKeyLastUsed_def DeleteAPIKey_def
      insert_tunnel_def update_tunnels_def add_bytes_def insert_sample_def DeleteTunnel_def)

lemma keeps_no_code_rotate [keeps_intros]: "keeps (no_code x) (RotateClientToken sha r cid)"
  unfolding RotateClientToken_def
  by (intro keeps_intros keeps_exec_check) (simp add: no_code_def)

lemma keeps_no_code_revoke_all [keeps_intros]: "keeps (no_code x) (revoke_all now hs)"
  by (induction hs) (auto intro!: keeps_intros)

lemma keeps_no_code_reset [keeps_intros]: "keeps (no_code x) (FactoryReset now)"
  unfolding FactoryReset_def
  by (intro keeps_intros keeps_exec_always) (simp_all add: no_code_def)

lemma keeps_no_code_methods [keeps_intros]:
  "keeps (no_code x) (CreateAdminUser uuid n h)" "keeps (no_code x) (EnsureSetupCode r)"
  "keeps (no_code x) (ClaimSetupCode code)" "keeps (no_code x) (CreateClient sha r uuid now n)"
  "keeps (no_code x) (UpdateClientTrafficLimit cid limit)"
  "keeps (no_code x) (UpdateClientLastSeen now cid)" "keeps (no_code x) (DeleteClient now cid)"
  "keeps (no_code x) (CreateTunnel uuid now cid n lh lp pp proto)"
  "keeps (no_code x) (SetTunnelEnabled tid b)"
  "keeps (no_code x) (UpdateTunnelSettings tid limit host pxy)"
  "keeps (no_code x) (AddTunnelTraffic now tid bi bo)"
  "keeps (no_code x) (ExchangeEnrollmentCode sha now code)"
  "keeps (no_code x) (CreateAPIKey sha r uuid now n)"
  unfolding CreateAdminUser_def EnsureSetupCode_def ClaimSetupCode_def CreateClient_def
    UpdateClientTrafficLimit_def UpdateClientLastSeen_def DeleteClient_def CreateTunnel_def
    SetTunnelEnabled_def UpdateTunnelSettings_def AddTunnelTraffic_def
    ExchangeEnrollmentCode_def CreateAPIKey_def Let_def
  by (intro keeps_intros)+

fun issues_code :: "dbcall \<Rightarrow> bool" where
  "issues_code (CallCreateEnrollmentCode r now i t ttl) = True"
| "issues_code _ = False"

lemma exec_call_no_code:
  assumes "no_code x d" and "\<not> issues_code c"
  shows "no_code x (exec_call sha c d)"
  using assms(2)
  by (cases c) (simp_all add: keepsD [where I = "no_code x", OF _ assms(1)] keeps_intros)

definition exec_calls :: "(byte list \<Rightarrow> byte list) \<Rightarrow> dbcall list \<Rightarrow> db \<Rightarrow> db" where
  "exec_calls sha cs d = fold (exec_call sha) cs d"

lemma exec_calls_no_code:
  "no_code x d \<Longrightarrow> list_all (\<lambda>c. \<not> issues_code c) cs \<Longrightarrow> no_code x (exec_calls sha cs d)"
  unfolding exec_calls_def
  by (induction cs arbitrary: d) (simp_all add: exec_call_no_code)

lemma Exchange_no_code:
  "no_code (HashToken sha code) d \<Longrightarrow>
     fst (ExchangeEnrollmentCode sha now code d) \<in> {Inl DBClosed, Inl InvalidEnrollmentCode}"
  by (cases "d_open d") (simp_all add: Exchange_eq Exchange_closed no_code_def)

lemma Exchange_spends:
  assumes "ExchangeEnrollmentCode sha now code d = (Inr x, d')"
  shows "no_code (HashToken sha code) d'"
  using assms
  by (cases "d_open d") (auto simp: Exchange_eq Exchange_closed no_code_def
      split: option.splits if_splits)


section \<open>Issuing\<close>

text \<open>Both issuing methods draw a secret and its digest, build the row and insert it.\<close>

lemma issue_InrE:
  fixes mk :: "string \<Rightarrow> 'a" and tok :: string
  assumes "bindM (tokM g) (\<lambda>(t, h). bindM (ins (mk h)) (\<lambda>_. retM (mk h, t))) d
      = (Inr (x, tok), d')"
  obtains n h where "g = Inr (tok, h)" "x = mk h" "ins x d = (Inr n, d')"
proof -
  from assms obtain p d1 where p: "tokM g d = (Inr p, d1)"
    and rest: "(case p of (t, h) \<Rightarrow> bindM (ins (mk h)) (\<lambda>_. retM (mk h, t))) d1
      = (Inr (x, tok), d')"
    by (rule bindM_InrE)
  obtain t h where th: "p = (t, h)" by (cases p)
  from p th have g: "g = Inr (t, h)" and d1: "d1 = d"
    by (auto simp: tokM_def liftM_def map_sum_def split: sum.splits)
  from rest th have "bindM (ins (mk h)) (\<lambda>_. retM (mk h, t)) d1 = (Inr (x, tok), d')" by simp
  then obtain n d2 where n: "ins (mk h) d1 = (Inr n, d2)"
    and ret: "(retM (mk h, t) :: ('a \<times> string) dbm) d2 = (Inr (x, tok), d')"
    by (rule bindM_InrE)
  from retM_InrE [OF ret] have "x = mk h" "tok = t" "d' = d2" by auto
  with g n d1 show ?thesis by (intro that) simp_all
qed

lemma CreateClient_InrE:
  assumes "CreateClient sha r uuid now name d = (Inr (c, token), d')"
  obtains n where "insert_client c d = (Inr n, d')" "c_TokenHash c = HashToken sha token"
    "c_ID c = uuid" "c_Name c = name" "\<not> HasPrefix token ''ptly_api_''"
  using assms unfolding CreateClient_def Let_def
  by (rule issue_InrE) (auto intro: that simp: GenerateToken_hash GenerateToken_not_api)

lemma CreateAPIKey_InrE:
  assumes "CreateAPIKey sha r uuid now name d = (Inr (k, key), d')"
  obtains n where "insert_api_key k d = (Inr n, d')" "k_TokenHash k = HashToken sha key"
    "k_ID k = uuid" "HasPrefix key ''ptly_api_''"
  using assms unfolding CreateAPIKey_def Let_def
  by (rule issue_InrE) (auto intro: that simp: GenerateAPIKey_hash GenerateAPIKey_prefix)

lemma CreateEnrollmentCode_InrE:
  assumes "CreateEnrollmentCode sha r now cid token ttl d = (Inr code, d')"
  shows "d_open d" and "d' = d\<lparr>d_codes := (d_codes d)(HashToken sha code \<mapsto>
      \<lparr>e_client_id = cid, e_token = token, e_created_at = now, e_expires_at = now + ttl\<rparr>)\<rparr>"
  using assms
  by (auto simp: CreateEnrollmentCode_def tokM_def liftM_def insert_code_def execM_def retM_def
      elim!: bindM_InrE split: if_splits sum.splits)

lemma insert_client_finds:
  assumes "insert_client c d = (Inr n, d')"
  shows "d_open d'" and "find (\<lambda>b. c_ID b = c_ID c) (d_clients d') = Some c"
proof -
  from assms have *: "d_open d" "d' = d\<lparr>d_clients := d_clients d @ [c]\<rparr>"
    "c_ID c \<notin> c_ID ` set (d_clients d)"
    by (force simp: insert_client_def execM_def list_ex_iff split: if_splits)+
  then show "d_open d'" "find (\<lambda>b. c_ID b = c_ID c) (d_clients d') = Some c"
    by (simp_all add: find_snoc_key)
qed

lemma RotateClientToken_InrE:
  assumes "RotateClientToken sha r cid d = (Inr t, d')"
  shows "d_open d" and "d' = d\<lparr>d_clients := upd_where (\<lambda>c. c_ID c = cid)
      (\<lambda>c. c\<lparr>c_TokenHash := HashToken sha t\<rparr>) (d_clients d)\<rparr>"
proof -
  from assms obtain p d1 where p: "tokM (GenerateToken sha r) d = (Inr p, d1)"
    and rest: "(case p of (token, hash) \<Rightarrow> bindM (execM (\<lambda>d.
         if list_ex (\<lambda>c. c_ID c = cid) (d_clients d)
            \<and> list_ex (\<lambda>c. c_ID c \<noteq> cid \<and> c_TokenHash c = hash) (d_clients d)
         then Inl ConstraintFailed
         else Inr (count_where (\<lambda>c. c_ID c = cid) (d_clients d),
                   d\<lparr>d_clients := upd_where (\<lambda>c. c_ID c = cid)
                      (\<lambda>c. c\<lparr>c_TokenHash := hash\<rparr>) (d_clients d)\<rparr>))) (\<lambda>n.
     bindM (requireRow n) (\<lambda>_. retM token))) d1 = (Inr t, d')"
    unfolding RotateClientToken_def by (rule bindM_InrE)
  obtain u h where th: "p = (u, h)" by (cases p)
  from p th have g: "GenerateToken sha r = Inr (u, h)" and d1: "d1 = d"
    by (auto simp: tokM_def liftM_def map_sum_def split: sum.splits)
  from GenerateToken_hash [OF g] rest th d1
  show "d_open d" "d' = d\<lparr>d_clients := upd_where (\<lambda>c. c_ID c = cid)
      (\<lambda>c. c\<lparr>c_TokenHash := HashToken sha t\<rparr>) (d_clients d)\<rparr>"
    by (auto simp: bindM_def execM_def requireRow_def retM_def failM_def
        split: if_splits)
qed

fun key_step :: "ApiKey cred_op \<Rightarrow> db \<Rightarrow> db" where
  "key_step (Issue k) d = snd (insert_api_key k d)"
| "key_step (Withdraw i) d = snd (DeleteAPIKey i d)"

fun machine_step :: "int \<Rightarrow> Client cred_op \<Rightarrow> db \<Rightarrow> db" where
  "machine_step now (Issue c) d = snd (insert_client c d)"
| "machine_step now (Withdraw i) d = snd (DeleteClient now i d)"

lemma key_run: "fold key_step ops d = api_keys.run ops d"
proof (induction ops arbitrary: d)
  case (Cons c ops)
  then show ?case by (cases c) simp_all
qed simp

lemma machine_run: "fold (machine_step now) ops d = machines.run now ops d"
proof (induction ops arbitrary: d)
  case (Cons c ops)
  then show ?case by (cases c) simp_all
qed simp

section \<open>The setup code\<close>

lemma Claim_eq:
  "d_open d \<Longrightarrow> ClaimSetupCode code d =
     (case d_settings d setupCodeSettingKey of
        None \<Rightarrow> (Inl InvalidSetupCode, d)
      | Some stored \<Rightarrow> if code = [] \<or> stored \<noteq> code then (Inl InvalidSetupCode, d)
          else (Inr (), d\<lparr>d_settings := (d_settings d)(setupCodeSettingKey := None)\<rparr>))"
  by (simp add: ClaimSetupCode_def bindM_def GetSetting_def queryM_def failM_def retM_def
      DeleteSetting_def execM_def split: option.split)

lemma Ensure_InrE:
  assumes "EnsureSetupCode rand d = (Inr (code, hasAdmin), d1)"
  shows "d_open d" and "d_open d1" and "d_admins d1 = d_admins d"
    and "hasAdmin \<longleftrightarrow> d_admins d \<noteq> []" and "hasAdmin \<Longrightarrow> d1 = d"
    and "\<not> hasAdmin \<Longrightarrow> d_settings d1 setupCodeSettingKey = Some code"
proof -
  have op: "d_open d"
    using assms by (cases "d_open d") (auto simp: EnsureSetupCode_def bindM_def HasAdminUser_def queryM_def)
  show "d_open d" by (rule op)
  show "d_open d1" "d_admins d1 = d_admins d" "hasAdmin \<longleftrightarrow> d_admins d \<noteq> []"
    "hasAdmin \<Longrightarrow> d1 = d" "\<not> hasAdmin \<Longrightarrow> d_settings d1 setupCodeSettingKey = Some code"
    using assms op
    by (auto simp: EnsureSetupCode_def bindM_def HasAdminUser_def GetSetting_def queryM_def
        retM_def tokM_def liftM_def SetSetting_def execM_def
        split: if_splits option.splits sum.splits prod.splits)
qed

lemma Ensure_again:
  assumes "EnsureSetupCode rand d = (Inr (code, False), d1)"
  shows "EnsureSetupCode rand' d1 = (Inr (code, False), d1)"
  using Ensure_InrE [OF assms]
  by (simp add: EnsureSetupCode_def bindM_def HasAdminUser_def GetSetting_def queryM_def retM_def)

section \<open>Concrete runs\<close>

definition ex_client :: Client where
  "ex_client = \<lparr>c_ID = ''c2'', c_Name = ''box'', c_TokenHash = HashToken id ''ptly_01'',
     c_CreatedAt = 5, c_LastSeen = None, c_TrafficLimitBytes = None\<rparr>"

definition ex_created :: db where
  "ex_created = fresh_db\<lparr>d_clients := [ex_client]\<rparr>"

definition ex_coded :: db where
  "ex_coded = ex_created\<lparr>d_codes := [HashToken id ''BC'' \<mapsto> \<lparr>e_client_id = ''c2'',
     e_token = ''ptly_01'', e_created_at = 6, e_expires_at = 6 + 600\<rparr>]\<rparr>"

lemma ex_token: "GenerateToken id (Some [1]) = Inr (''ptly_01'', HashToken id ''ptly_01'')"
  by (simp add: GenerateToken_def HashToken_def hex_digit_def char_of_def bit_0 Let_def)

lemma ex_create: "CreateClient id (Some [1]) ''c2'' 5 ''box'' fresh_db = (Inr (ex_client, ''ptly_01''), ex_created)"
  by (simp add: CreateClient_def Let_def ex_token tokM_def liftM_def bindM_def insert_client_def execM_def
     fresh_db_def retM_def ex_client_def ex_created_def)

lemma ex_code: "CreateEnrollmentCode id (Some [1, 2]) 6 (c_ID ex_client) ''ptly_01'' 600 ex_created = (Inr ''BC'', ex_coded)"
  by (simp add: CreateEnrollmentCode_def randomCode_def code_char_def enrollCodeAlphabet_def tokM_def liftM_def bindM_def insert_code_def execM_def
     fresh_db_def retM_def ex_client_def ex_created_def ex_coded_def)

lemma HashToken_id_eq [simp]: "HashToken id s = HashToken id t \<longleftrightarrow> s = t"
  by (simp add: HashToken_def hex_encode_inject) (metis string_of_bytes_of)

definition ex_spent :: db where
  "ex_spent = ex_coded\<lparr>d_codes := Map.empty\<rparr>"

lemma ex_exchange: "ExchangeEnrollmentCode id 100 ''BC'' ex_coded = (Inr (ex_client, ''ptly_01''), ex_spent)"
  by (simp add: Exchange_eq ex_spent_def ex_coded_def ex_created_def fresh_db_def ex_client_def)

lemma ex_rotate: "RotateClientToken id (Some [2]) (c_ID ex_client) ex_coded = (Inr ''ptly_02'',
   ex_coded\<lparr>d_clients := [ex_client\<lparr>c_TokenHash := HashToken id ''ptly_02''\<rparr>]\<rparr>)"
proof -
  have "GenerateToken id (Some [2]) = Inr (''ptly_02'', HashToken id ''ptly_02'')"
    by (simp add: GenerateToken_def HashToken_def hex_digit_def char_of_def bit_0 Let_def)
  then show ?thesis
    by (simp add: RotateClientToken_def tokM_def liftM_def bindM_def execM_def requireRow_def retM_def
      ex_coded_def ex_created_def fresh_db_def ex_client_def count_where_def upd_where_def)
qed

definition ex_key :: ApiKey where
  "ex_key = \<lparr>k_ID = ''k1'', k_Name = ''ci'', k_TokenHash = HashToken id ''ptly_api_01'',
     k_CreatedAt = 5, k_LastUsed = None\<rparr>"

lemma ex_create_key: "CreateAPIKey id (Some [1]) ''k1'' 5 ''ci'' fresh_db
    = (Inr (ex_key, ''ptly_api_01''), fresh_db\<lparr>d_api_keys := [ex_key]\<rparr>)"
proof -
  have "GenerateAPIKey id (Some [1]) = Inr (''ptly_api_01'', HashToken id ''ptly_api_01'')"
    by (simp add: GenerateAPIKey_def HashToken_def hex_digit_def char_of_def bit_0 Let_def)
  then show ?thesis
    by (simp add: CreateAPIKey_def Let_def tokM_def liftM_def bindM_def insert_api_key_def execM_def retM_def
        fresh_db_def ex_key_def)
qed

text \<open>A fresh machine's code is exchanged for the machine and its token, and the token is known.\<close>

lemma issued_exchange:
  assumes "CreateClient sha r uuid now name d = (Inr (c, token), d1)"
    and "CreateEnrollmentCode sha r2 now2 (c_ID c) token ttl d1 = (Inr code, d2)"
  shows "ExchangeEnrollmentCode sha now3 code d2 = (if now3 \<le> now2 + ttl
      then (Inr (c, token), d2\<lparr>d_codes := (d_codes d2)(HashToken sha code := None)\<rparr>)
      else (Inl EnrollmentCodeExpired, d2))"
    and "d_open d2" "find (\<lambda>b. c_TokenHash b = HashToken sha token) (d_clients d2) = Some c"
    and "c_Name c = name"
proof -
  obtain n where n: "insert_client c d = (Inr n, d1)" "c_TokenHash c = HashToken sha token"
    and name: "c_Name c = name"
    using assms(1) by (rule CreateClient_InrE)
  note d1 = insert_client_finds [OF n(1)]
  note d2 = CreateEnrollmentCode_InrE [OF assms(2)]
  have "fst (GetClientByTokenHash (HashToken sha token) d1) = Inr c"
    using machines.lookup_issue [OF n(1)] n(2) by simp
  then have "find (\<lambda>b. c_TokenHash b = HashToken sha token) (d_clients d1) = Some c"
    by (auto simp: GetClientByTokenHash_def queryM_def row_or_err_def split: if_splits option.splits)
  with d1 d2 name show "ExchangeEnrollmentCode sha now3 code d2 = (if now3 \<le> now2 + ttl
      then (Inr (c, token), d2\<lparr>d_codes := (d_codes d2)(HashToken sha code := None)\<rparr>)
      else (Inl EnrollmentCodeExpired, d2))" "d_open d2"
    "find (\<lambda>b. c_TokenHash b = HashToken sha token) (d_clients d2) = Some c" "c_Name c = name"
    by (simp_all add: Exchange_eq)
qed

section \<open>Properties\<close>

text \<open>
  Enrolling a machine. Right after a machine is created and a one-time code issued for it,
  exchanging the code within its lifetime returns exactly that machine and its token, and the
  digest of that token authenticates the machine; after the lifetime the exchange fails and
  changes nothing.
\<close>

theorem enrollment_round_trip:
  assumes "CreateClient sha r uuid now name d = (Inr (c, token), d1)"
    and "CreateEnrollmentCode sha r2 now2 (c_ID c) token ttl d1 = (Inr code, d2)"
  shows "if now3 \<le> now2 + ttl
    then \<exists>d3. ExchangeEnrollmentCode sha now3 code d2 = (Inr (c, token), d3)
         \<and> GetClientByTokenHash (HashToken sha token) d3 = (Inr c, d3)
         \<and> fst (ExchangeEnrollmentCode sha now4 code d3) = Inl InvalidEnrollmentCode
    else ExchangeEnrollmentCode sha now3 code d2 = (Inl EnrollmentCodeExpired, d2)"
  using issued_exchange [OF assms]
  by (simp add: Exchange_eq GetClientByTokenHash_def queryM_def row_or_err_def)

theorem enrollment_round_trip_witness:
  "\<exists>d3. ExchangeEnrollmentCode id 100 ''BC'' ex_coded = (Inr (ex_client, ''ptly_01''), d3)"
  using enrollment_round_trip [OF ex_create ex_code, of 100 0] by auto

text \<open>
  A code is spent once. After an exchange that returned a token, the same code is refused as
  invalid after any sequence of database calls that does not issue a new code, at any time.
\<close>

theorem enrollment_single_use:
  assumes "ExchangeEnrollmentCode sha now code d = (Inr x, d')"
    and "list_all (\<lambda>c. \<not> issues_code c) cs"
  shows "fst (ExchangeEnrollmentCode sha now' code (exec_calls sha cs d'))
    \<in> {Inl DBClosed, Inl InvalidEnrollmentCode}"
  by (rule Exchange_no_code, rule exec_calls_no_code, rule Exchange_spends [OF assms(1)],
      rule assms(2))

theorem enrollment_single_use_witness:
  "fst (ExchangeEnrollmentCode id 101 ''BC'' (exec_calls id [CallDeleteAPIKey ''k''] ex_spent))
    \<in> {Inl DBClosed, Inl InvalidEnrollmentCode}"
  by (rule enrollment_single_use [OF ex_exchange]) simp

text \<open>
  The life of an API key. A key that was created is accepted, with its row, after any
  creations and deletions of keys that do not delete it; once deleted, it is refused whatever
  keys with other digests are created or deleted afterwards.
\<close>

theorem api_key_lifecycle:
  assumes "db_wf d" and "CreateAPIKey sha r uuid now name d = (Inr (k, key), d1)"
    and "Withdraw (k_ID k) \<notin> set ops"
    and "DeleteAPIKey (k_ID k) (fold key_step ops d1) = (Inr n, d3)"
    and "\<And>j. Issue j \<in> set ops' \<Longrightarrow> k_TokenHash j \<noteq> HashToken sha key"
  shows "fst (GetAPIKeyByHash (HashToken sha key) (fold key_step ops d1)) = Inr k
    \<and> (\<nexists>j. fst (GetAPIKeyByHash (HashToken sha key) (fold key_step ops' d3)) = Inr j)"
proof -
  obtain m where m: "insert_api_key k d = (Inr m, d1)" "k_TokenHash k = HashToken sha key"
    using assms(2) by (rule CreateAPIKey_InrE)
  have wf1: "db_wf d1" using api_keys.inv_issue [OF assms(1), of k] m(1) by simp
  have "fst (GetAPIKeyByHash (HashToken sha key) d1) = Inr k"
    using api_keys.lookup_issue [OF m(1)] m(2) by simp
  then have acc: "fst (GetAPIKeyByHash (HashToken sha key) (fold key_step ops d1)) = Inr k"
    unfolding key_run by (rule api_keys.valid_until_withdrawn [OF wf1 _ assms(3)])
  have "db_wf (fold key_step ops d1)"
    unfolding key_run using wf1
    by (induction ops arbitrary: d1) (simp_all add: api_keys.inv_step)
  then have "\<nexists>j. fst (GetAPIKeyByHash (HashToken sha key) (fold key_step ops' d3)) = Inr j"
    unfolding key_run [of ops']
    by (rule api_keys.refused_after_withdrawal [OF _ assms(4) acc refl assms(5)])
  with acc show ?thesis by simp
qed


theorem api_key_lifecycle_witness:
  "fst (GetAPIKeyByHash (HashToken id ''ptly_api_01'') (fold key_step [Withdraw ''k2''] (fresh_db\<lparr>d_api_keys := [ex_key]\<rparr>))) = Inr ex_key
   \<and> (\<nexists>j. fst (GetAPIKeyByHash (HashToken id ''ptly_api_01'') (fold key_step [Withdraw ''k3''] fresh_db)) = Inr j)"
  by (rule api_key_lifecycle [OF db_wf_fresh ex_create_key, where n = 1])
     (simp_all add: ex_key_def DeleteAPIKey_def execM_def fresh_db_def count_where_def del_where_def)

text \<open>
  Deleting a machine. A successful \<open>DeleteClient\<close> removes the machine and all its tunnels,
  records its token digest as revoked, and the digest stays refused through any creations of
  other machines and deletions.
\<close>

theorem delete_client_revokes:
  assumes "db_wf d" and "DeleteClient now cid d = (Inr u, d')"
    and "fst (GetClientByTokenHash h d) = Inr c" and "c_ID c = cid"
    and "\<And>j. Issue j \<in> set ops \<Longrightarrow> c_TokenHash j \<noteq> h"
  shows "IsTokenRevoked h d' \<and> (\<forall>t \<in> set (d_tunnels d'). r_client_id t \<noteq> cid)
    \<and> (\<nexists>j. fst (GetClientByTokenHash h (fold (machine_step now') ops d')) = Inr j)"
proof -
  have c: "c \<in> set (d_clients d)" "c_TokenHash c = h"
    using GetClientByTokenHash_row [OF assms(3)] by simp_all
  obtain b where b: "d_open d" "b \<in> set (d_clients d)" "c_ID b = cid"
    and d': "d' = (cascade_clients (\<lambda>c. c_ID c = cid) d)
      \<lparr>d_revoked := (d_revoked d)(c_TokenHash b \<mapsto> now)\<rparr>"
    using assms(2) by (rule DeleteClient_InrE)
  have "b = c"
    using b c assms(4) key_unique [OF clients_ok_ids [OF db_wfD(2) [OF assms(1)]]] by metis
  then have rev: "IsTokenRevoked h d'"
    using b(1) c(2) by (simp add: IsTokenRevoked_def d')
  have "\<forall>t \<in> set (d_tunnels d'). r_client_id t \<noteq> cid"
    using b by (force simp: d' cascade_clients_def Let_def set_del_where)
  moreover have "\<nexists>j. fst (GetClientByTokenHash h (fold (machine_step now') ops d')) = Inr j"
    unfolding machine_run
  proof
    assume "\<exists>j. fst (GetClientByTokenHash h (machines.run now' ops d')) = Inr j"
    then obtain j where j: "fst (GetClientByTokenHash h (machines.run now' ops d')) = Inr j" ..
    have "db_wf d'" using machines.inv_withdraw [OF assms(1), of now cid] assms(2) by simp
    then have "fst (GetClientByTokenHash h d') = Inr j \<or> Issue j \<in> set ops"
      using j by (rule machines.accepted_was_issued)
    moreover have "fst (GetClientByTokenHash h d') = Inl ErrNoRows"
      using machines.lookup_withdraw [OF assms(1,2), of h] assms(3,4) by simp
    ultimately show False using assms(5) machines.lookup_digest [OF j] by auto
  qed
  ultimately show ?thesis using rev by simp
qed

theorem delete_client_revokes_witness:
  "IsTokenRevoked ''h1'' (snd (DeleteClient 9 ''c1'' example_db))
   \<and> (\<nexists>j. fst (GetClientByTokenHash ''h1'' (fold (machine_step 10) [Withdraw ''c5'']
        (snd (DeleteClient 9 ''c1'' example_db)))) = Inr j)"
proof -
  have "DeleteClient 9 ''c1'' example_db = (Inr (), snd (DeleteClient 9 ''c1'' example_db))"
    by (simp add: DeleteClient_eq example_db_def fresh_db_def)
  moreover have "fst (GetClientByTokenHash ''h1'' example_db) = Inr (hd (d_clients example_db))"
    "c_ID (hd (d_clients example_db)) = ''c1''"
    by (simp_all add: GetClientByTokenHash_def queryM_def row_or_err_def example_db_def fresh_db_def)
  ultimately show ?thesis
    using delete_client_revokes [OF example_db_wf, of 9 "''c1''" "()" _ "''h1''"
        "hd (d_clients example_db)" "[Withdraw ''c5'']" 10] by simp
qed

text \<open>
  Factory reset. On a consistent, open database the reset always succeeds; afterwards no
  admin, machine, tunnel, sample, setting or enrollment code is left and the token of every
  machine that existed is revoked, but every API key is accepted exactly as before.
\<close>

theorem factory_reset_state:
  assumes "db_wf d" and "d_open d"
  shows "\<exists>d'. FactoryReset now d = (Inr (), d')
    \<and> d_admins d' = [] \<and> d_clients d' = [] \<and> d_tunnels d' = [] \<and> d_samples d' = []
    \<and> d_settings d' = Map.empty \<and> d_codes d' = Map.empty
    \<and> (\<forall>c \<in> set (d_clients d). IsTokenRevoked (c_TokenHash c) d')
    \<and> (\<forall>h. fst (GetAPIKeyByHash h d') = fst (GetAPIKeyByHash h d))"
  using assms by (simp add: FactoryReset_eq fresh_db_def IsTokenRevoked_def GetAPIKeyByHash_def
      queryM_def)

theorem factory_reset_state_witness:
  "\<exists>d'. FactoryReset 9 example_db = (Inr (), d') \<and> d_tunnels d' = [] \<and> IsTokenRevoked ''h1'' d'"
  using factory_reset_state [OF example_db_wf, of 9]
  by (auto simp: example_db_def fresh_db_def)

text \<open>
  The setup code. \<open>EnsureSetupCode\<close> hands out a code exactly while no admin exists, and the
  same one when asked again; that code can be claimed once, after which no code at all is
  accepted until a new one is generated.
\<close>

theorem setup_code_once:
  assumes "EnsureSetupCode rand d = (Inr (code, hasAdmin), d1)" and "code \<noteq> []"
  shows "hasAdmin = (d_admins d \<noteq> [])
    \<and> (\<not> hasAdmin \<longrightarrow> EnsureSetupCode rand' d1 = (Inr (code, False), d1)
        \<and> (\<exists>d2. ClaimSetupCode code d1 = (Inr (), d2)
             \<and> (\<forall>x. ClaimSetupCode x d2 = (Inl InvalidSetupCode, d2)))
        \<and> (\<forall>x. x \<noteq> code \<longrightarrow> ClaimSetupCode x d1 = (Inl InvalidSetupCode, d1)))"
  using Ensure_InrE [OF assms(1)] assms Ensure_again [of rand d code d1 rand']
  by (cases hasAdmin) (simp_all add: Claim_eq)

theorem setup_code_once_witness:
  "\<exists>d2. ClaimSetupCode ''BC'' (fresh_db\<lparr>d_settings := [setupCodeSettingKey \<mapsto> ''BC'']\<rparr>) = (Inr (), d2)
     \<and> (\<forall>x. ClaimSetupCode x d2 = (Inl InvalidSetupCode, d2))"
proof -
  have "EnsureSetupCode (Some [1, 2]) fresh_db = (Inr (''BC'', False), fresh_db\<lparr>d_settings := [setupCodeSettingKey \<mapsto> ''BC'']\<rparr>)"
    by (simp add: EnsureSetupCode_def bindM_def HasAdminUser_def GetSetting_def queryM_def
        retM_def tokM_def liftM_def SetSetting_def execM_def fresh_db_def randomCode_def code_char_def enrollCodeAlphabet_def)
  from setup_code_once [OF this] show ?thesis by simp
qed

text \<open>
  Re-issuing an install command. An enrollment code issued before the machine's token is
  rotated is not withdrawn by the rotation: it is still exchanged, for the old token, which no
  longer authenticates the machine.
\<close>

theorem rotated_token_enrollment:
  assumes "CreateClient sha r uuid now name d = (Inr (c, token), d1)" and "db_wf d"
    and "CreateEnrollmentCode sha r2 now2 (c_ID c) token ttl d1 = (Inr code, d2)"
    and "RotateClientToken sha r3 (c_ID c) d2 = (Inr token', d3)"
    and "HashToken sha token' \<noteq> HashToken sha token" and "now3 \<le> now2 + ttl"
  shows "(\<exists>c' d4. ExchangeEnrollmentCode sha now3 code d3 = (Inr (c', token), d4) \<and> c_ID c' = c_ID c)
    \<and> GetClientByTokenHash (HashToken sha token) d3 = (Inl ErrNoRows, d3)
    \<and> GetClientByTokenHash (HashToken sha token') d3
        = (Inr (c\<lparr>c_TokenHash := HashToken sha token'\<rparr>), d3)"
proof -
  obtain n where n: "insert_client c d = (Inr n, d1)" "c_TokenHash c = HashToken sha token"
    using assms(1) by (rule CreateClient_InrE)
  note d2 = CreateEnrollmentCode_InrE [OF assms(3)]
  note d3 = RotateClientToken_InrE [OF assms(4)]
  let ?f = "\<lambda>c. c\<lparr>c_TokenHash := HashToken sha token'\<rparr>"
  let ?cs = "d_clients d1"
  have wf1: "db_wf d1" using keepsD [OF keeps_insert_client assms(2), of c] n(1) by simp
  then have "db_wf d2"
    using keepsD [OF keeps_code_methods(1) wf1, of sha r2 now2 "c_ID c" token ttl] assms(3) by simp
  then have wf3: "db_wf d3"
    using keepsD [OF keeps_rotate, of d2 sha r3 "c_ID c"] assms(4) by simp
  have cs: "d_clients d3 = upd_where (\<lambda>b. c_ID b = c_ID c) ?f ?cs" and op: "d_open d3"
    using d2 d3 by simp_all
  note f = insert_client_finds(2) [OF n(1)]
  then have c: "c \<in> set ?cs" by (simp add: find_Some_in)
  have f3: "find (\<lambda>b. c_ID b = c_ID c) (d_clients d3) = Some (?f c)"
    unfolding cs by (subst find_upd_where_same) (simp_all add: f)
  have "c_TokenHash b \<noteq> HashToken sha token" if b: "b \<in> set (d_clients d3)" for b
  proof (cases "c_ID b = c_ID c")
    case True
    then show ?thesis using b assms(5) by (auto simp: cs set_upd_where)
  next
    case False
    then have "b \<in> set ?cs" "b \<noteq> c" using b by (auto simp: cs set_upd_where)
    with c show ?thesis
      using db_wfD(2) [OF wf1] key_unique [of c_TokenHash ?cs b c] n(2)
      by (auto simp: clients_ok_def)
  qed
  then have "find (\<lambda>b. c_TokenHash b = HashToken sha token) (d_clients d3) = None"
    by (simp add: find_None_all)
  moreover have "find (\<lambda>b. c_TokenHash b = c_TokenHash (?f c)) (d_clients d3) = Some (?f c)"
    using db_wfD(2) [OF wf3] find_Some_in [OF f3]
    by (intro find_by_key) (auto simp: clients_ok_def)
  moreover have "d_codes d3 (HashToken sha code) = Some \<lparr>e_client_id = c_ID c, e_token = token,
      e_created_at = now2, e_expires_at = now2 + ttl\<rparr>"
    using d2 d3 by simp
  ultimately show ?thesis
    using op f3 assms(6)
    by (simp add: Exchange_eq GetClientByTokenHash_def queryM_def row_or_err_def)
qed

theorem rotated_token_enrollment_witness:
  "\<exists>c' d4. ExchangeEnrollmentCode id 100 ''BC'' (ex_coded\<lparr>d_clients :=
       [ex_client\<lparr>c_TokenHash := HashToken id ''ptly_02''\<rparr>]\<rparr>) = (Inr (c', ''ptly_01''), d4)"
  using rotated_token_enrollment [OF ex_create db_wf_fresh ex_code ex_rotate, of 100] by auto

end
