(* ===== verification/McRouter.thy ===== *)
theory McRouter
imports VarInt DbCredentials
begin

unbundle bit_operations_syntax

text \<open>
  The Minecraft hostname router (\<open>internal/tunnel/mcrouter.go\<close>): the handshake packet, the peek
  through the buffered and teed connection, the replay reader, and the routing decision.
\<close>

section \<open>The handshake\<close>

datatype hserr =
    PacketLengthErr vierr
  | ImplausibleLength int
  | PacketIDErr vierr
  | NotHandshake int
  | ProtocolVersionErr vierr
  | AddrLengthErr vierr
  | ImplausibleAddrLen int
  | AddressErr ioerr
  | EmptyAddress

definition mcMaxPacketLen :: int where
  "mcMaxPacketLen = 2048"

definition mcMaxAddressLen :: int where
  "mcMaxAddressLen = 255"
definition readHandshakeAddress :: "('s \<Rightarrow> (ioerr + byte) \<times> 's) \<Rightarrow> 's \<Rightarrow> (hserr + byte list) \<times> 's" where
  "readHandshakeAddress ReadByte =
     stepM (readVarInt ReadByte) PacketLengthErr (\<lambda>length.
       if sint length \<le> 0 \<or> mcMaxPacketLen < sint length
       then failM (ImplausibleLength (sint length))
       else stepM (readVarInt ReadByte) PacketIDErr (\<lambda>packetID.
         if packetID \<noteq> 0 then failM (NotHandshake (sint packetID))
         else stepM (readVarInt ReadByte) ProtocolVersionErr (\<lambda>_.
           stepM (readVarInt ReadByte) AddrLengthErr (\<lambda>addrLen.
             if sint addrLen < 0 \<or> mcMaxAddressLen < sint addrLen
             then failM (ImplausibleAddrLen (sint addrLen))
             else stepM (ReadFull ReadByte (nat (sint addrLen))) AddressErr retM))))"
text \<open>The parser sees only the bytes: any two sources with the same bytes to come agree.\<close>

context byte_source
begin

lemma mirrors_readHandshakeAddress:
  "mirrors (readHandshakeAddress ReadByte) (readHandshakeAddress str_ReadByte)"
  unfolding readHandshakeAddress_def
  by (intro mirrors_step mirrors_readVarInt mirrors_ReadFull mirrors_ret mirrors_fail mirrors_if)
end

section \<open>The peek and the routing decision\<close>

text \<open>The address up to the first NUL, one trailing dot removed, in lower case.\<close>

definition handshake_hostname :: "(string \<Rightarrow> string) \<Rightarrow> byte list \<Rightarrow> string" where
  "handshake_hostname ul addrBytes =
     (let addr = string_of addrBytes;
          addr' = takeWhile (\<lambda>c. c \<noteq> CHR 0x00) addr
      in ToLower ul (TrimSuffix addr' ''.''))"

text \<open>\<open>io.MultiReader(raw, conn)\<close>: the bytes read while peeking, then the connection.\<close>

definition peekMinecraftHostname ::
    "(string \<Rightarrow> string) \<Rightarrow> mcconn \<Rightarrow> hserr + string \<times> mcconn" where
  "peekMinecraftHostname ul c =
     (case readHandshakeAddress bufio_ReadByte \<lparr>buf = [], raw = [], conn = c\<rparr> of
        (Inl e, s) \<Rightarrow> Inl e
      | (Inr addrBytes, s) \<Rightarrow>
          (let addr = handshake_hostname ul addrBytes
           in if addr = [] then Inl EmptyAddress
              else Inr (addr, \<lparr>chunks = raw s # chunks (conn s), conn_end = conn_end (conn s)\<rparr>)))"

datatype mc_outcome = McDropped | McProxied Tunnel mcconn

definition handleMinecraftConn :: "(string \<Rightarrow> string) \<Rightarrow> mcconn \<Rightarrow> db \<Rightarrow> mc_outcome" where
  "handleMinecraftConn ul c d =
     (case peekMinecraftHostname ul c of
        Inl e \<Rightarrow> McDropped
      | Inr (hostname, replay) \<Rightarrow>
          (case fst (GetTunnelByHostname hostname d) of
             Inl e \<Rightarrow> McDropped
           | Inr t \<Rightarrow>
               if t_Protocol t \<noteq> [] \<and> t_Protocol t \<noteq> ''tcp'' then McDropped
               else McProxied t replay))"
lemma keeps_readHandshakeAddress: "keeps I R \<Longrightarrow> keeps I (readHandshakeAddress R)"
  unfolding readHandshakeAddress_def by (intro keeps_intros)

text \<open>The peek as a function of the byte stream alone.\<close>

lemma peek_stream:
  "case fst (readHandshakeAddress str_ReadByte (stream c, conn_end c)) of
     Inl e \<Rightarrow> peekMinecraftHostname ul c = Inl e
   | Inr a \<Rightarrow> if handshake_hostname ul a = [] then peekMinecraftHostname ul c = Inl EmptyAddress
       else \<exists>rep. peekMinecraftHostname ul c = Inr (handshake_hostname ul a, rep)
              \<and> stream rep = stream c \<and> conn_end rep = conn_end c"
proof -
  let ?s = "\<lparr>buf = [], raw = [], conn = c\<rparr>"
  obtain r s' where r: "readHandshakeAddress bufio_ReadByte ?s = (r, s')"
    "readHandshakeAddress str_ReadByte (peek_pending ?s, peek_end ?s) = (r, (peek_pending s', peek_end s'))"
    using bufio.mirrors_readHandshakeAddress by (rule bufio.mirrorsE)
  have "whole_is (stream c) (conn_end c) ?s" by (simp add: whole_is_def stream_def)
  with keepsD [OF keeps_readHandshakeAddress [OF keeps_bufio]]
  have "whole_is (stream c) (conn_end c) s'" using r(1) by (metis snd_conv)
  with r show ?thesis
    by (auto simp: peekMinecraftHostname_def peek_pending_def peek_end_def stream_def whole_is_def
        Let_def split: sum.splits)
qed

definition buildHandshake :: "32 word \<Rightarrow> byte list \<Rightarrow> 16 word \<Rightarrow> 32 word \<Rightarrow> byte list" where
  "buildHandshake protocolVersion address port nextState =
     (let body = encodeVarInt 0 @ encodeVarInt protocolVersion
            @ encodeVarInt (word_of_nat (length address)) @ address
            @ [ucast (drop_bit 8 port), ucast port] @ encodeVarInt nextState
      in encodeVarInt (word_of_nat (length body)) @ body)"
lemma sint_small: "n < 2 ^ 31 \<Longrightarrow> sint (word_of_nat n :: 32 word) = int n"
  by (simp add: signed_of_nat signed_take_bit_int_eq_self)

lemma readHandshakeAddress_build:
  assumes "length addr \<le> 255"
  shows "readHandshakeAddress str_ReadByte (buildHandshake pv addr port ns @ extra, e)
    = (Inr addr, ([ucast (drop_bit 8 port), ucast port] @ encodeVarInt ns @ extra, e))"
proof -
  let ?body = "encodeVarInt 0 @ encodeVarInt pv @ encodeVarInt (word_of_nat (length addr)) @ addr
            @ [ucast (drop_bit 8 port), ucast port] @ encodeVarInt ns"
  have L: "length ?body \<le> 2048"
    using length_encodeVarInt [of 0] length_encodeVarInt [of pv] length_encodeVarInt [of ns]
      length_encodeVarInt [of "word_of_nat (length addr)"] assms by simp
  then have len: "sint (word_of_nat (length ?body) :: 32 word) = int (length ?body)"
    by (intro sint_small) simp
  have le: "int (length ?body) \<le> 2048" using L by linarith
  have gt: "0 < int (length ?body)" by simp
  have al: "sint (word_of_nat (length addr) :: 32 word) = int (length addr)"
    using assms by (intro sint_small) simp
  show ?thesis
    unfolding readHandshakeAddress_def buildHandshake_def Let_def append.assoc stepM_def
    using len le gt al assms
    by (simp add: readVarInt_encode [of _ "_ @ _"] mcMaxPacketLen_def mcMaxAddressLen_def ReadFull_str
        retM_def readVarInt_encode del: append.simps(2))
qed


text \<open>The spellings of a host name that a client may send, and what the router makes of them.\<close>

lemma handshake_hostname_spelling:
  assumes "is_ascii h" and "CHR 0x00 \<notin> set h" and "\<not> HasSuffix h ''.''"
    and "dot = [] \<or> dot = ''.''" and "tail = [] \<or> hd tail = CHR 0x00"
  shows "handshake_hostname ul (bytes_of (h @ dot @ tail)) = map lower_char h"
proof -
  have "takeWhile (\<lambda>c. c \<noteq> CHR 0x00) tail = []" using assms(5) by (cases tail) auto
  moreover have "\<forall>c \<in> set (h @ dot). c \<noteq> CHR 0x00" using assms(2,4) by auto
  ultimately have tw: "takeWhile (\<lambda>c. c \<noteq> CHR 0x00) (h @ dot @ tail) = h @ dot"
    using takeWhile_append2 [of "h @ dot" "\<lambda>c. c \<noteq> CHR 0x00" tail] by simp
  have "TrimSuffix (h @ dot) ''.'' = h"
    using assms(3,4) by (auto simp: TrimSuffix_def HasSuffix_def)
  with tw assms(1) show ?thesis by (simp add: handshake_hostname_def Let_def ToLower_def)
qed

lemma TunnelByHostname_Inr:
  assumes "fst (GetTunnelByHostname h d) = Inr t"
  shows "t_Enabled t" and "t_PublicHostname t = h"
  using assms
  by (auto simp: GetTunnelByHostname_def queryM_def row_or_err_def scanTunnel_def
      split: if_splits option.splits dest!: find_Some_in)

lemma route_handshake:
  assumes "stream c = buildHandshake pv (bytes_of (h @ dot @ tail)) port ns @ extra"
    and "length (h @ dot @ tail) \<le> 255"
    and "is_ascii h" and "CHR 0x00 \<notin> set h" and "\<not> HasSuffix h ''.''" and "h \<noteq> []"
    and "dot = [] \<or> dot = ''.''" and "tail = [] \<or> hd tail = CHR 0x00"
    and "d_open d" and "find (\<lambda>t. r_public_hostname t = map lower_char h \<and> r_enabled t)
                          (d_tunnels d) = Some t"
    and "r_protocol t \<in> {[], ''tcp''}"
  shows "\<exists>rep. handleMinecraftConn ul c d = McProxied (scanTunnel t) rep \<and> stream rep = stream c"
proof -
  have "fst (readHandshakeAddress str_ReadByte (stream c, conn_end c)) = Inr (bytes_of (h @ dot @ tail))"
    using readHandshakeAddress_build [of "bytes_of (h @ dot @ tail)" pv port ns extra "conn_end c"]
      assms(2) by (simp add: assms(1) del: append.assoc)
  then obtain rep where "peekMinecraftHostname ul c = Inr (map lower_char h, rep)"
    "stream rep = stream c"
    using peek_stream [of ul c] handshake_hostname_spelling [OF assms(3,4,5,7,8)] assms(6)
    by auto
  then show ?thesis
    using assms(9,10,11)
    by (auto simp: handleMinecraftConn_def GetTunnelByHostname_def queryM_def row_or_err_def
        scanTunnel_def)
qed

text \<open>A concrete connection: the packet split after its second byte, data pipelined behind it.\<close>

definition example_conn :: mcconn where
  "example_conn =
     (let pkt = buildHandshake 770 (bytes_of (''Play.Example'' @ ''.'' @ [])) 25565 2
      in \<lparr>chunks = [take 2 pkt, drop 2 pkt @ [5, 0]], conn_end = EOF\<rparr>)"

definition example_mc_tunnel :: tunnel_row where
  "example_mc_tunnel = (example_tunnel ''t3'' 8080)\<lparr>r_public_port := None,
     r_public_hostname := ''play.example''\<rparr>"

definition example_mc_db :: db where
  "example_mc_db = example_db\<lparr>d_tunnels := [example_mc_tunnel]\<rparr>"

lemma example_stream:
  "stream example_conn
     = buildHandshake 770 (bytes_of (''Play.Example'' @ ''.'' @ [])) 25565 2 @ [5, 0]"
proof -
  have "concat [take 2 xs, drop 2 xs @ ys] = xs @ ys" for xs ys :: "byte list"
    by (simp flip: append.assoc)
  then show ?thesis by (simp only: stream_def example_conn_def Let_def mcconn.simps)
qed

lemma example_lower: "map lower_char ''Play.Example'' = ''play.example''"
  by (simp add: lower_char_def char_of_def bit_0)

lemma example_hyps:
  "length (''Play.Example'' @ ''.'' @ []) \<le> 255" "is_ascii ''Play.Example''"
  "CHR 0x00 \<notin> set ''Play.Example''" "\<not> HasSuffix ''Play.Example'' ''.''" "''Play.Example'' \<noteq> []"
  "''.'' = [] \<or> ''.'' = ''.''" "[] = [] \<or> hd [] = CHR 0x00" "d_open example_mc_db"
  "find (\<lambda>t. r_public_hostname t = map lower_char ''Play.Example'' \<and> r_enabled t)
     (d_tunnels example_mc_db) = Some example_mc_tunnel"
  "r_protocol example_mc_tunnel \<in> {[], ''tcp''}"
  unfolding example_lower
  by (simp_all add: is_ascii_def HasSuffix_def example_mc_db_def example_mc_tunnel_def
      example_tunnel_def example_db_def fresh_db_def)

lemma example_routed:
  "\<exists>rep. handleMinecraftConn id example_conn example_mc_db = McProxied (scanTunnel example_mc_tunnel) rep
     \<and> stream rep = stream example_conn"
  by (rule route_handshake [OF example_stream example_hyps])
section \<open>Properties\<close>

text \<open>
  VarInt round trip through the buffered connection. For each of the 2^32 values, reading a
  VarInt from a connection whose bytes start with its encoding gives the value and leaves
  exactly the bytes after it, however the bytes are split into chunks.
\<close>

theorem varint_round_trip:
  assumes "peek_pending s = encodeVarInt v @ rest"
  shows "\<exists>s'. readVarInt bufio_ReadByte s = (Inr v, s') \<and> peek_pending s' = rest
    \<and> length (encodeVarInt v) \<le> 5"
proof -
  obtain r s' where r: "readVarInt bufio_ReadByte s = (r, s')"
    "readVarInt str_ReadByte (peek_pending s, peek_end s) = (r, (peek_pending s', peek_end s'))"
    using bufio.mirrors_readVarInt by (rule bufio.mirrorsE)
  then show ?thesis
    using readVarInt_encode [of v rest "peek_end s"] length_encodeVarInt [of v] by (simp add: assms)
qed

theorem varint_round_trip_witness:
  "\<exists>s'. readVarInt bufio_ReadByte \<lparr>buf = [], raw = [], conn = \<lparr>chunks = [[0xAC], [], [0x02, 0x07]],
       conn_end = EOF\<rparr>\<rparr> = (Inr 300, s') \<and> peek_pending s' = [0x07]"
proof -
  have "encodeVarInt 300 = [0xAC, 0x02]"
    by (simp add: encodeVarInt.simps Let_def)
  then show ?thesis
    using varint_round_trip [of "\<lparr>buf = [], raw = [], conn = \<lparr>chunks = [[0xAC], [], [0x02, 0x07]],
       conn_end = EOF\<rparr>\<rparr>" 300 "[0x07]"]
    by (auto simp: peek_pending_def)
qed

text \<open>
  The peek is transparent. The host name depends only on the bytes sent, not on how they
  arrive; and when it is found, the replay reader delivers the whole original stream, handshake
  and read-ahead included, and ends the way the connection ends.
\<close>

theorem peek_transparent:
  assumes "stream c' = stream c" and "conn_end c' = conn_end c"
  shows "map_sum id fst (peekMinecraftHostname ul c') = map_sum id fst (peekMinecraftHostname ul c)
    \<and> (\<forall>h rep. peekMinecraftHostname ul c = Inr (h, rep) \<longrightarrow>
         h \<noteq> [] \<and> stream rep = stream c \<and> conn_end rep = conn_end c)"
  using peek_stream [of ul c'] peek_stream [of ul c] assms
  by (auto split: sum.splits if_splits)

theorem peek_transparent_witness:
  "map_sum id fst (peekMinecraftHostname id \<lparr>chunks = [[1], [2, 3]], conn_end = EOF\<rparr>)
   = map_sum id fst (peekMinecraftHostname id \<lparr>chunks = [[1, 2], [], [3]], conn_end = EOF\<rparr>)"
  using peek_transparent [of "\<lparr>chunks = [[1], [2, 3]], conn_end = EOF\<rparr>"
      "\<lparr>chunks = [[1, 2], [], [3]], conn_end = EOF\<rparr>" id]
  by (simp add: stream_def)

text \<open>
  C24. Routing is sound. A connection is handed on only to a tunnel that is enabled, is a TCP
  tunnel, and carries the non-empty host name of a handshake at the start of the stream; the
  tunnel then receives that stream from its first byte.
\<close>

theorem mc_routing_sound:
  assumes "handleMinecraftConn ul c d = McProxied t rep"
  shows "t_Enabled t \<and> t_Protocol t \<in> {[], ''tcp''} \<and> t_PublicHostname t \<noteq> []
    \<and> stream rep = stream c
    \<and> (\<exists>a rest. readHandshakeAddress str_ReadByte (stream c, conn_end c) = (Inr a, rest)
         \<and> handshake_hostname ul a = t_PublicHostname t)"
proof -
  obtain h where h: "peekMinecraftHostname ul c = Inr (h, rep)"
    and t: "fst (GetTunnelByHostname h d) = Inr t" "t_Protocol t \<in> {[], ''tcp''}"
    using assms by (auto simp: handleMinecraftConn_def split: sum.splits if_splits)
  obtain r rest where r: "readHandshakeAddress str_ReadByte (stream c, conn_end c) = (r, rest)"
    by (cases "readHandshakeAddress str_ReadByte (stream c, conn_end c)")
  show ?thesis
    using peek_stream [of ul c] h t r TunnelByHostname_Inr [OF t(1)]
    by (auto split: sum.splits if_splits)
qed

theorem mc_routing_sound_witness:
  "\<exists>rep. handleMinecraftConn id example_conn example_mc_db
       = McProxied (scanTunnel example_mc_tunnel) rep
     \<and> t_Enabled (scanTunnel example_mc_tunnel) \<and> stream rep = stream example_conn"
proof -
  obtain rep where "handleMinecraftConn id example_conn example_mc_db
      = McProxied (scanTunnel example_mc_tunnel) rep"
    using example_routed by blast
  with mc_routing_sound [OF this] show ?thesis by blast
qed

text \<open>
  C23. Routing is complete. A player's handshake naming a tunnel's host name, in any letter case,
  with or without a trailing dot, with or without the NUL-separated data that Forge appends, and
  however the packet is split, reaches the enabled TCP tunnel saved under that name.
\<close>

theorem mc_routing_complete:
  assumes "stream c = buildHandshake pv (bytes_of (h @ dot @ tail)) port ns @ extra"
    and "length (h @ dot @ tail) \<le> 255"
    and "is_ascii h" and "CHR 0x00 \<notin> set h" and "\<not> HasSuffix h ''.''" and "h \<noteq> []"
    and "dot = [] \<or> dot = ''.''" and "tail = [] \<or> hd tail = CHR 0x00"
    and "d_open d" and "find (\<lambda>t. r_public_hostname t = map lower_char h \<and> r_enabled t)
                          (d_tunnels d) = Some t"
    and "r_protocol t \<in> {[], ''tcp''}"
  shows "\<exists>rep. handleMinecraftConn ul c d = McProxied (scanTunnel t) rep \<and> stream rep = stream c"
  by (rule route_handshake [OF assms])

theorem mc_routing_complete_witness:
  "\<exists>rep. handleMinecraftConn id example_conn example_mc_db = McProxied (scanTunnel example_mc_tunnel) rep
     \<and> stream rep = stream example_conn"
  by (rule mc_routing_complete [OF example_stream example_hyps])

end
