(* ===== verification/TunnelSessions.thy ===== *)
theory TunnelSessions
imports Protocol McRouter
begin

text \<open>
  Client sessions of the tunnel server (\<open>internal/tunnel/server.go\<close>): authentication, the map of
  active sessions and its replacement on reconnect, pushed tunnel configurations with their
  change fingerprint, uninstall pushes and device reports. A \<open>*clientSession\<close> is an index into
  the list of session objects, so that the pointer comparison on disconnect is the code's.
  Whether a frame could be written, and each decoded message, is an argument of the step.
\<close>

section \<open>State\<close>

text \<open>\<open>cs_control\<close> and \<open>cs_streams\<close> hold the frames written so far, the oldest first.\<close>

record clientSession =
  cs_clientID :: string
  cs_name :: string
  cs_closed :: bool
  cs_control :: "TunnelConfigPush list"
  cs_streams :: "StreamHeader list"
  cs_lastPushed :: string

text \<open>
  \<open>ts_listeners\<close> maps a tunnel id to the tunnel its listener was started for (an association
  list, so that ports in use can be looked up); \<open>ts_flushed\<close> is the flush loop's local map (zero
  where absent); \<open>ts_reconcile\<close> is the tunnel list a reconciliation in flight has read.
\<close>

record tserver =
  ts_db :: db
  ts_heap :: "clientSession list"
  ts_sessions :: "string \<rightharpoonup> nat"
  ts_listeners :: "(string \<times> Tunnel) list"
  ts_live :: "string \<rightharpoonup> int \<times> int"
  ts_flushed :: "string \<Rightarrow> int \<times> int"
  ts_devices :: "string \<rightharpoonup> Device list"
  ts_shutdown :: bool
  ts_control_up :: bool
  ts_mc_up :: bool
  ts_active :: nat
  ts_reconcile :: "Tunnel list option"

definition NewServer :: "db \<Rightarrow> tserver" where
  "NewServer d = \<lparr>ts_db = d, ts_heap = [], ts_sessions = Map.empty, ts_listeners = [],
     ts_live = Map.empty, ts_flushed = (\<lambda>_. (0, 0)), ts_devices = Map.empty,
     ts_shutdown = False, ts_control_up = False, ts_mc_up = False, ts_active = 0,
     ts_reconcile = None\<rparr>"

section \<open>Authentication\<close>

definition auth_response ::
    "(byte list \<Rightarrow> byte list) \<Rightarrow> string \<Rightarrow> db \<Rightarrow> AuthResponse \<times> Client option" where
  "auth_response sha256 token d =
     (let tokenHash = HashToken sha256 token
      in case fst (GetClientByTokenHash tokenHash d) of
           Inr client \<Rightarrow>
             (\<lparr>rs_OK = True, rs_Error = [], rs_ClientID = c_ID client, rs_Name = c_Name client,
               rs_Uninstall = False\<rparr>, Some client)
         | Inl _ \<Rightarrow>
             if IsTokenRevoked tokenHash d
             then (\<lparr>rs_OK = False, rs_Error = ''this machine was removed in the Portly UI'',
                    rs_ClientID = [], rs_Name = [], rs_Uninstall = True\<rparr>, None)
             else (\<lparr>rs_OK = False, rs_Error = ''invalid token'', rs_ClientID = [], rs_Name = [],
                    rs_Uninstall = False\<rparr>, None))"

section \<open>Sessions\<close>

definition close_session :: "nat \<Rightarrow> tserver \<Rightarrow> tserver" where
  "close_session i s = (if i < length (ts_heap s)
     then s\<lparr>ts_heap := (ts_heap s)[i := (ts_heap s ! i)\<lparr>cs_closed := True\<rparr>]\<rparr> else s)"

text \<open>The locked section: a session the machine still has is closed and replaced.\<close>

definition register_session :: "Client \<Rightarrow> tserver \<Rightarrow> nat \<times> tserver" where
  "register_session client s =
     (let cs = \<lparr>cs_clientID = c_ID client, cs_name = c_Name client, cs_closed = False,
                cs_control = [], cs_streams = [], cs_lastPushed = []\<rparr>;
          s1 = (case ts_sessions s (c_ID client) of
                  Some old \<Rightarrow> close_session old s | None \<Rightarrow> s);
          i = length (ts_heap s1)
      in (i, s1\<lparr>ts_heap := ts_heap s1 @ [cs],
                ts_sessions := (ts_sessions s1)(c_ID client \<mapsto> i)\<rparr>))"

text \<open>\<open>if s.sessions[client.ID] == cs\<close>: only the session that is still registered unregisters.\<close>

definition unregister_session :: "nat \<Rightarrow> tserver \<Rightarrow> tserver" where
  "unregister_session i s =
     (let cid = cs_clientID (ts_heap s ! i)
      in if ts_sessions s cid = Some i then s\<lparr>ts_sessions := (ts_sessions s)(cid := None)\<rparr> else s)"

section \<open>Pushed configuration\<close>

definition spec_of :: "Tunnel \<Rightarrow> TunnelSpec" where
  "spec_of t = \<lparr>sp_ID = t_ID t, sp_Name = t_Name t, sp_LocalHost = t_LocalHost t,
     sp_LocalPort = t_LocalPort t, sp_PublicPort = t_PublicPort t, sp_Protocol = t_Protocol t,
     sp_ProxyProtocol = t_ProxyProtocol t\<rparr>"

definition fmt_bool :: "bool \<Rightarrow> string" where
  "fmt_bool b = (if b then ''true'' else ''false'')"

text \<open>\<open>fmt.Sprintf("%s:%s:%d:%s:%t;", ...)\<close>\<close>

definition fingerprint1 :: "Tunnel \<Rightarrow> string" where
  "fingerprint1 t = t_ID t @ '':'' @ t_LocalHost t @ '':'' @ dec_int (t_LocalPort t) @ '':''
     @ t_Protocol t @ '':'' @ fmt_bool (t_ProxyProtocol t) @ '';''"

definition fingerprint :: "Tunnel list \<Rightarrow> string" where
  "fingerprint tunnels = concat (map fingerprint1 (filter t_Enabled tunnels))"

definition pushTunnelConfig :: "int \<Rightarrow> bool \<Rightarrow> nat \<Rightarrow> tserver \<Rightarrow> tserver" where
  "pushTunnelConfig now wok i s =
     (let cs = ts_heap s ! i;
          d1 = snd (UpdateClientLastSeen now (cs_clientID cs) (ts_db s));
          s1 = s\<lparr>ts_db := d1\<rparr>
      in case fst (ListTunnelsByClient (cs_clientID cs) d1) of
           Inl _ \<Rightarrow> s1
         | Inr tunnels \<Rightarrow>
             (let specs = map spec_of (filter t_Enabled tunnels);
                  fp = fingerprint tunnels
              in if fp = cs_lastPushed cs then s1
                 else if \<not> wok \<or> cs_closed cs then s1
                 else s1\<lparr>ts_heap := (ts_heap s1)[i := cs\<lparr>
                        cs_control := cs_control cs @ [\<lparr>tp_Tunnels = specs, tp_Uninstall = False\<rparr>],
                        cs_lastPushed := fp\<rparr>]\<rparr>))"

text \<open>One call per registered session, in the order the map iteration happened to take.\<close>

definition reconcileClientConfigs :: "int \<Rightarrow> (nat \<Rightarrow> bool) \<Rightarrow> nat list \<Rightarrow> tserver \<Rightarrow> tserver" where
  "reconcileClientConfigs now wok order s = fold (\<lambda>i. pushTunnelConfig now (wok i) i) order s"

definition PushUninstall :: "bool \<Rightarrow> string \<Rightarrow> tserver \<Rightarrow> bool \<times> tserver" where
  "PushUninstall wok clientID s =
     (case ts_sessions s clientID of
        None \<Rightarrow> (False, s)
      | Some i \<Rightarrow>
          (let cs = ts_heap s ! i
           in if \<not> wok \<or> cs_closed cs then (False, s)
              else (True, s\<lparr>ts_heap := (ts_heap s)[i := cs\<lparr>
                cs_control := cs_control cs @ [\<lparr>tp_Tunnels = [], tp_Uninstall = True\<rparr>]\<rparr>]\<rparr>)))"

text \<open>
  \<open>handleConn\<close> up to the point where it waits for the session to end: \<open>None\<close> for a request that
  could not be read; the four flags say whether the response, the yamux session, the control
  stream and the first push went through.
\<close>

definition handleConn ::
    "(byte list \<Rightarrow> byte list) \<Rightarrow> int \<Rightarrow> AuthRequest option \<Rightarrow> bool \<Rightarrow> bool \<Rightarrow> bool \<Rightarrow> bool \<Rightarrow>
     tserver \<Rightarrow> (AuthResponse option \<times> nat option) \<times> tserver" where
  "handleConn sha256 now req rok yok cok wok s =
     (case req of
        None \<Rightarrow> ((None, None), s)
      | Some rq \<Rightarrow>
          (case auth_response sha256 (rq_Token rq) (ts_db s) of
             (resp, None) \<Rightarrow> ((Some resp, None), s)
           | (resp, Some client) \<Rightarrow>
               if \<not> rok \<or> \<not> yok \<or> \<not> cok then ((Some resp, None), s)
               else (case register_session client s of
                  (i, s1) \<Rightarrow>
                    (let s2 = s1\<lparr>ts_db := snd (UpdateClientLastSeen now (c_ID client) (ts_db s1))\<rparr>
                     in ((Some resp, Some i), pushTunnelConfig now wok i s2)))))"

section \<open>Devices and status\<close>

definition acceptDeviceReport :: "string \<Rightarrow> Device list \<Rightarrow> tserver \<Rightarrow> tserver" where
  "acceptDeviceReport clientID devices s =
     s\<lparr>ts_devices := (ts_devices s)(clientID \<mapsto> devices)\<rparr>"

definition DiscoveredDevices :: "string \<Rightarrow> tserver \<Rightarrow> Device list" where
  "DiscoveredDevices clientID s = (case ts_devices s clientID of None \<Rightarrow> [] | Some ds \<Rightarrow> ds)"

definition ConnectedClientIDs :: "tserver \<Rightarrow> string \<Rightarrow> bool" where
  "ConnectedClientIDs s cid \<longleftrightarrow> ts_sessions s cid \<noteq> None"


section \<open>The fingerprint\<close>

lemma split_at_sep:
  assumes "a @ c # x = b @ c # y" and "c \<notin> set a" and "c \<notin> set b"
  shows "a = b \<and> x = y"
proof -
  have "takeWhile (\<lambda>z. z \<noteq> c) (a @ c # x) = a" "takeWhile (\<lambda>z. z \<noteq> c) (b @ c # y) = b"
    using assms(2,3) by (auto simp: takeWhile_append)
  with assms(1) show ?thesis by simp
qed

lemma split_at_last_sep:
  assumes "x @ c # a = y @ c # b" and "c \<notin> set a" and "c \<notin> set b"
  shows "x = y \<and> a = b"
proof -
  from assms(1) have "rev a @ c # rev x = rev b @ c # rev y"
    by (metis append.assoc append_Cons append_Nil rev.simps(2) rev_append)
  with assms(2,3) show ?thesis using split_at_sep [of "rev a" c "rev x" "rev b" "rev y"] by simp
qed

text \<open>The fingerprint reads only fields that are copied to the pushed spec.\<close>

definition spec_fingerprint :: "TunnelSpec \<Rightarrow> string" where
  "spec_fingerprint sp = sp_ID sp @ '':'' @ sp_LocalHost sp @ '':'' @ dec_int (sp_LocalPort sp)
     @ '':'' @ sp_Protocol sp @ '':'' @ fmt_bool (sp_ProxyProtocol sp) @ '';''"

lemma spec_fingerprint_of [simp]: "spec_fingerprint (spec_of t) = fingerprint1 t"
  by (simp add: spec_fingerprint_def spec_of_def fingerprint1_def)

text \<open>What identifies a pushed tunnel on the client, and the fields that keep the separators unambiguous.\<close>

definition routing_fields :: "TunnelSpec \<Rightarrow> string \<times> string \<times> int \<times> string \<times> bool" where
  "routing_fields t = (sp_ID t, sp_LocalHost t, sp_LocalPort t, sp_Protocol t, sp_ProxyProtocol t)"

definition plain_spec :: "TunnelSpec \<Rightarrow> bool" where
  "plain_spec t \<longleftrightarrow> CHR '':'' \<notin> set (sp_ID t) \<and> CHR '';'' \<notin> set (sp_ID t)
     \<and> CHR '';'' \<notin> set (sp_LocalHost t) \<and> CHR '':'' \<notin> set (sp_Protocol t)
     \<and> CHR '';'' \<notin> set (sp_Protocol t)"

lemma dec_int_chars: "c \<in> set (dec_int x) \<Longrightarrow> is_digit c \<or> c = CHR ''-''"
  using dec_nat_digits by (auto simp: dec_int_def list_all_iff split: if_splits)

lemma dec_int_no_sep: "CHR '':'' \<notin> set (dec_int x)" "CHR '';'' \<notin> set (dec_int x)"
  using dec_int_chars [of "CHR '':''" x] dec_int_chars [of "CHR '';''" x]
  by (auto simp: is_digit_def)

lemma fmt_bool_no_sep: "CHR '':'' \<notin> set (fmt_bool b)" "CHR '';'' \<notin> set (fmt_bool b)"
  by (simp_all add: fmt_bool_def)

lemma fmt_bool_inject: "fmt_bool a = fmt_bool b \<Longrightarrow> a = b"
  by (simp add: fmt_bool_def split: if_splits)

lemma spec_fingerprint_fields:
  assumes "plain_spec t" and "plain_spec u" and "spec_fingerprint t = spec_fingerprint u"
  shows "routing_fields t = routing_fields u"
proof -
  define a where "a = sp_LocalHost t @ '':'' @ dec_int (sp_LocalPort t) @ '':'' @ sp_Protocol t"
  define b where "b = sp_LocalHost u @ '':'' @ dec_int (sp_LocalPort u) @ '':'' @ sp_Protocol u"
  from assms(3) have 1: "sp_ID t @ CHR '':'' # (a @ CHR '':'' # fmt_bool (sp_ProxyProtocol t))
      = sp_ID u @ CHR '':'' # (b @ CHR '':'' # fmt_bool (sp_ProxyProtocol u))"
    by (simp add: spec_fingerprint_def a_def b_def)
  then have id: "sp_ID t = sp_ID u"
    and 2: "a @ CHR '':'' # fmt_bool (sp_ProxyProtocol t) = b @ CHR '':'' # fmt_bool (sp_ProxyProtocol u)"
    using assms(1,2) split_at_sep [OF 1] by (auto simp: plain_spec_def)
  from split_at_last_sep [OF 2 fmt_bool_no_sep(1) fmt_bool_no_sep(1)]
  have ab: "a = b" and bool: "sp_ProxyProtocol t = sp_ProxyProtocol u"
    using fmt_bool_inject by auto
  from ab have 3: "(sp_LocalHost t @ '':'' @ dec_int (sp_LocalPort t)) @ CHR '':'' # sp_Protocol t
      = (sp_LocalHost u @ '':'' @ dec_int (sp_LocalPort u)) @ CHR '':'' # sp_Protocol u"
    by (simp add: a_def b_def)
  then have proto: "sp_Protocol t = sp_Protocol u"
    and 4: "sp_LocalHost t @ CHR '':'' # dec_int (sp_LocalPort t)
      = sp_LocalHost u @ CHR '':'' # dec_int (sp_LocalPort u)"
    using assms(1,2) split_at_last_sep [OF 3] by (auto simp: plain_spec_def)
  from split_at_last_sep [OF 4 dec_int_no_sep(1) dec_int_no_sep(1)]
  show ?thesis using id proto bool dec_int_inject by (auto simp: routing_fields_def)
qed

lemma spec_fingerprint_end:
  assumes "plain_spec t"
  obtains w where "spec_fingerprint t = w @ CHR '';'' # []" and "CHR '';'' \<notin> set w"
proof
  show "spec_fingerprint t = (sp_ID t @ '':'' @ sp_LocalHost t @ '':'' @ dec_int (sp_LocalPort t) @ '':''
     @ sp_Protocol t @ '':'' @ fmt_bool (sp_ProxyProtocol t)) @ CHR '';'' # []"
    by (simp add: spec_fingerprint_def)
  show "CHR '';'' \<notin> set (sp_ID t @ '':'' @ sp_LocalHost t @ '':'' @ dec_int (sp_LocalPort t) @ '':''
     @ sp_Protocol t @ '':'' @ fmt_bool (sp_ProxyProtocol t))"
    using assms by (simp add: plain_spec_def dec_int_no_sep fmt_bool_no_sep)
qed

lemma fingerprints_fields:
  "list_all plain_spec ts \<Longrightarrow> list_all plain_spec us \<Longrightarrow>
   concat (map spec_fingerprint ts) = concat (map spec_fingerprint us) \<Longrightarrow>
   map routing_fields ts = map routing_fields us"
proof (induction ts arbitrary: us)
  case Nil
  then show ?case by (cases us) (auto simp: spec_fingerprint_def)
next
  case (Cons t ts)
  then obtain u us' where us: "us = u # us'" by (cases us) (auto simp: spec_fingerprint_def)
  from Cons.prems us have pt: "plain_spec t" "plain_spec u" by auto
  obtain v where v: "spec_fingerprint t = v @ CHR '';'' # []" "CHR '';'' \<notin> set v"
    using pt(1) by (rule spec_fingerprint_end)
  obtain w where w: "spec_fingerprint u = w @ CHR '';'' # []" "CHR '';'' \<notin> set w"
    using pt(2) by (rule spec_fingerprint_end)
  from Cons.prems us v w have "v @ CHR '';'' # concat (map spec_fingerprint ts)
      = w @ CHR '';'' # concat (map spec_fingerprint us')" by simp
  with v(2) w(2) have "v = w" "concat (map spec_fingerprint ts) = concat (map spec_fingerprint us')"
    using split_at_sep by metis+
  with Cons us v w show ?case using spec_fingerprint_fields [OF pt] by simp
qed

section \<open>What a client knows\<close>

text \<open>
  \<open>readControlStream\<close> replaces the client's targets by the last configuration it read (keyed by
  tunnel id); the field order and values are those of the specs.
\<close>

definition last_config :: "TunnelConfigPush list \<Rightarrow> TunnelSpec list option" where
  "last_config frames =
     (let fs = filter (\<lambda>f. \<not> tp_Uninstall f) frames
      in if fs = [] then None else Some (tp_Tunnels (last fs)))"

definition pushed_ok :: "clientSession \<Rightarrow> bool" where
  "pushed_ok cs \<longleftrightarrow> cs_lastPushed cs = (case last_config (cs_control cs) of
     None \<Rightarrow> [] | Some specs \<Rightarrow> concat (map spec_fingerprint specs))"

lemma last_config_snoc [simp]:
  "last_config (fs @ [f]) = (if tp_Uninstall f then last_config fs else Some (tp_Tunnels f))"
  by (simp add: last_config_def)

lemma last_config_Nil [simp]: "last_config [] = None"
  by (simp add: last_config_def)

section \<open>The session invariant\<close>

text \<open>
  Every registered session belongs to the machine it is registered for; every session that is
  still open is the registered one, so a machine has at most one; and \<open>lastPushed\<close> describes
  the last configuration on the control stream.
\<close>

definition sessions_ok :: "tserver \<Rightarrow> bool" where
  "sessions_ok s \<longleftrightarrow>
     (\<forall>cid i. ts_sessions s cid = Some i \<longrightarrow> i < length (ts_heap s) \<and> cs_clientID (ts_heap s ! i) = cid)
     \<and> (\<forall>i < length (ts_heap s). \<not> cs_closed (ts_heap s ! i)
          \<longrightarrow> ts_sessions s (cs_clientID (ts_heap s ! i)) = Some i)
     \<and> (\<forall>i < length (ts_heap s). pushed_ok (ts_heap s ! i))"

lemma sessions_okD:
  assumes "sessions_ok s"
  shows "ts_sessions s cid = Some i \<Longrightarrow> i < length (ts_heap s) \<and> cs_clientID (ts_heap s ! i) = cid"
    and "i < length (ts_heap s) \<Longrightarrow> \<not> cs_closed (ts_heap s ! i) \<Longrightarrow>
          ts_sessions s (cs_clientID (ts_heap s ! i)) = Some i"
    and "i < length (ts_heap s) \<Longrightarrow> pushed_ok (ts_heap s ! i)"
  using assms by (auto simp: sessions_ok_def)

text \<open>Changing one session object, without its machine and without reopening it.\<close>

lemma sessions_ok_update:
  assumes ok: "sessions_ok s" and i: "i < length (ts_heap s)"
    and "cs_clientID cs = cs_clientID (ts_heap s ! i)"
    and "cs_closed (ts_heap s ! i) \<Longrightarrow> cs_closed cs" and "pushed_ok cs"
    and heap: "ts_heap s' = (ts_heap s)[i := cs]" and sess: "ts_sessions s' = ts_sessions s"
  shows "sessions_ok s'"
proof -
  have at: "ts_heap s' ! j = (if j = i then cs else ts_heap s ! j)" if "j < length (ts_heap s)" for j
    using that i by (simp add: heap nth_list_update)
  show ?thesis
    unfolding sessions_ok_def
  proof (intro conjI allI impI)
    fix cid j
    assume "ts_sessions s' cid = Some j"
    then have j: "j < length (ts_heap s)" "cs_clientID (ts_heap s ! j) = cid"
      using sessions_okD(1) [OF ok, of cid j] by (simp_all add: sess)
    then show "j < length (ts_heap s')" by (simp add: heap)
    from j assms(3) show "cs_clientID (ts_heap s' ! j) = cid" by (auto simp: at)
  next
    fix j
    assume "j < length (ts_heap s')"
    then have j: "j < length (ts_heap s)" by (simp add: heap)
    then show "pushed_ok (ts_heap s' ! j)" using sessions_okD(3) [OF ok] assms(5) by (simp add: at)
    assume "\<not> cs_closed (ts_heap s' ! j)"
    then have "\<not> cs_closed (ts_heap s ! j)" "cs_clientID (ts_heap s' ! j) = cs_clientID (ts_heap s ! j)"
      using j assms(3,4) by (auto simp: at split: if_splits)
    then show "ts_sessions s' (cs_clientID (ts_heap s' ! j)) = Some j"
      using sessions_okD(2) [OF ok j] by (simp add: sess)
  qed
qed

lemma sessions_ok_frame:
  "ts_heap s' = ts_heap s \<Longrightarrow> ts_sessions s' = ts_sessions s \<Longrightarrow> sessions_ok s' = sessions_ok s"
  by (simp add: sessions_ok_def)

lemma pushed_ok_frame:
  "cs_control cs' = cs_control cs \<Longrightarrow> cs_lastPushed cs' = cs_lastPushed cs \<Longrightarrow>
   pushed_ok cs' = pushed_ok cs"
  by (simp add: pushed_ok_def)

lemma close_session_ok:
  assumes "sessions_ok s"
  shows "sessions_ok (close_session i s)"
proof (cases "i < length (ts_heap s)")
  case True
  let ?cs = "(ts_heap s ! i)\<lparr>cs_closed := True\<rparr>"
  have "pushed_ok ?cs"
    using sessions_okD(3) [OF assms True] by (simp add: pushed_ok_def)
  then show ?thesis
    using True by (intro sessions_ok_update [OF assms, of i ?cs]) (simp_all add: close_session_def)
qed (simp add: close_session_def assms)

lemma close_session_simps [simp]:
  "ts_sessions (close_session i s) = ts_sessions s" "ts_db (close_session i s) = ts_db s"
  "length (ts_heap (close_session i s)) = length (ts_heap s)"
  "cs_clientID (ts_heap (close_session i s) ! j) = cs_clientID (ts_heap s ! j)"
  "i < length (ts_heap s) \<Longrightarrow> cs_closed (ts_heap (close_session i s) ! i)"
  by (auto simp: close_session_def nth_list_update)

lemma register_session_ok:
  assumes ok: "sessions_ok s" and reg: "register_session c s = (i, s')"
  shows "sessions_ok s'" and "ts_sessions s' (c_ID c) = Some i" and "i < length (ts_heap s')"
    and "\<not> cs_closed (ts_heap s' ! i)" and "cs_control (ts_heap s' ! i) = []"
    and "cs_clientID (ts_heap s' ! i) = c_ID c" and "ts_db s' = ts_db s"
proof -
  define s1 where "s1 = (case ts_sessions s (c_ID c) of Some old \<Rightarrow> close_session old s | None \<Rightarrow> s)"
  define cs where "cs = \<lparr>cs_clientID = c_ID c, cs_name = c_Name c, cs_closed = False,
                cs_control = [], cs_streams = [], cs_lastPushed = []\<rparr>"
  from reg have i: "i = length (ts_heap s1)"
    and s': "s' = s1\<lparr>ts_heap := ts_heap s1 @ [cs], ts_sessions := (ts_sessions s1)(c_ID c \<mapsto> i)\<rparr>"
    by (auto simp: register_session_def s1_def cs_def Let_def)
  have ok1: "sessions_ok s1"
    using ok by (auto simp: s1_def close_session_ok split: option.split)
  have db: "ts_db s1 = ts_db s" by (simp add: s1_def split: option.split)
  have closed: "cs_closed (ts_heap s1 ! j)"
    if "j < length (ts_heap s1)" "cs_clientID (ts_heap s1 ! j) = c_ID c" for j
  proof (rule ccontr)
    assume "\<not> cs_closed (ts_heap s1 ! j)"
    then have j: "ts_sessions s1 (c_ID c) = Some j" using sessions_okD(2) [OF ok1 that(1)] that(2) by simp
    moreover have "ts_sessions s1 = ts_sessions s" by (simp add: s1_def split: option.split)
    ultimately have "s1 = close_session j s" by (simp add: s1_def)
    with that(1) \<open>\<not> cs_closed (ts_heap s1 ! j)\<close> show False by simp
  qed
  show "sessions_ok s'"
    unfolding sessions_ok_def
  proof (intro conjI allI impI)
    fix cid j
    assume "ts_sessions s' cid = Some j"
    then show "j < length (ts_heap s')" "cs_clientID (ts_heap s' ! j) = cid"
      using sessions_okD(1) [OF ok1, of cid j] i
      by (auto simp: s' cs_def nth_append split: if_splits)
  next
    fix j
    assume j: "j < length (ts_heap s')"
    show "pushed_ok (ts_heap s' ! j)"
      using j sessions_okD(3) [OF ok1, of j] by (auto simp: s' nth_append cs_def pushed_ok_def)
    assume "\<not> cs_closed (ts_heap s' ! j)"
    then show "ts_sessions s' (cs_clientID (ts_heap s' ! j)) = Some j"
      using j sessions_okD(2) [OF ok1, of j] closed [of j] i
      by (auto simp: s' nth_append cs_def split: if_splits)
  qed
  show "ts_sessions s' (c_ID c) = Some i" "i < length (ts_heap s')" "\<not> cs_closed (ts_heap s' ! i)"
    "cs_control (ts_heap s' ! i) = []" "cs_clientID (ts_heap s' ! i) = c_ID c" "ts_db s' = ts_db s"
    by (simp_all add: s' i cs_def db)
qed

lemma unregister_session_ok:
  assumes ok: "sessions_ok s" and "i < length (ts_heap s)" and "cs_closed (ts_heap s ! i)"
  shows "sessions_ok (unregister_session i s)"
  unfolding unregister_session_def Let_def
proof (split if_split, intro conjI impI)
  let ?cid = "cs_clientID (ts_heap s ! i)"
  assume reg: "ts_sessions s ?cid = Some i"
  show "sessions_ok (s\<lparr>ts_sessions := (ts_sessions s)(?cid := None)\<rparr>)"
    unfolding sessions_ok_def
  proof (intro conjI allI impI)
    fix j
    assume j: "j < length (ts_heap (s\<lparr>ts_sessions := (ts_sessions s)(?cid := None)\<rparr>))"
      and open_j: "\<not> cs_closed (ts_heap (s\<lparr>ts_sessions := (ts_sessions s)(?cid := None)\<rparr>) ! j)"
    then have *: "ts_sessions s (cs_clientID (ts_heap s ! j)) = Some j"
      using sessions_okD(2) [OF ok, of j] by simp
    have "cs_clientID (ts_heap s ! j) \<noteq> ?cid"
    proof
      assume "cs_clientID (ts_heap s ! j) = ?cid"
      with * reg have "j = i" by (metis option.inject)
      with assms(3) open_j show False by simp
    qed
    with * show "ts_sessions (s\<lparr>ts_sessions := (ts_sessions s)(?cid := None)\<rparr>)
        (cs_clientID (ts_heap (s\<lparr>ts_sessions := (ts_sessions s)(?cid := None)\<rparr>) ! j)) = Some j"
      by simp
  next
    fix cid j
    assume "ts_sessions (s\<lparr>ts_sessions := (ts_sessions s)(?cid := None)\<rparr>) cid = Some j"
    then have "ts_sessions s cid = Some j" by (simp split: if_splits)
    from sessions_okD(1) [OF ok this]
    show "j < length (ts_heap (s\<lparr>ts_sessions := (ts_sessions s)(?cid := None)\<rparr>))"
      "cs_clientID (ts_heap (s\<lparr>ts_sessions := (ts_sessions s)(?cid := None)\<rparr>) ! j) = cid"
      by simp_all
  next
    fix j
    assume "j < length (ts_heap (s\<lparr>ts_sessions := (ts_sessions s)(?cid := None)\<rparr>))"
    then show "pushed_ok (ts_heap (s\<lparr>ts_sessions := (ts_sessions s)(?cid := None)\<rparr>) ! j)"
      using sessions_okD(3) [OF ok] by simp
  qed
qed (rule ok)



lemma UpdateClientLastSeen_tunnels [simp]:
  "d_tunnels (snd (UpdateClientLastSeen now cid d)) = d_tunnels d"
  "d_open (snd (UpdateClientLastSeen now cid d)) = d_open d"
  by (simp_all add: UpdateClientLastSeen_def update_clients_def execM_def)

lemma pushTunnelConfig_ok:
  assumes ok: "sessions_ok s" and i: "i < length (ts_heap s)"
  shows "sessions_ok (pushTunnelConfig now wok i s)"
proof -
  let ?cs = "ts_heap s ! i"
  let ?d1 = "snd (UpdateClientLastSeen now (cs_clientID ?cs) (ts_db s))"
  have ok1: "sessions_ok (s\<lparr>ts_db := ?d1\<rparr>)" using ok sessions_ok_frame [of "s\<lparr>ts_db := ?d1\<rparr>" s] by simp
  show ?thesis
  proof (cases "fst (ListTunnelsByClient (cs_clientID ?cs) ?d1)")
    case (Inl e)
    with ok1 show ?thesis by (simp add: pushTunnelConfig_def)
  next
    case (Inr tunnels)
    let ?new = "?cs\<lparr>cs_control := cs_control ?cs @ [\<lparr>tp_Tunnels = map spec_of (filter t_Enabled tunnels),
        tp_Uninstall = False\<rparr>], cs_lastPushed := fingerprint tunnels\<rparr>"
    have "pushed_ok ?new"
      by (simp add: pushed_ok_def fingerprint_def comp_def)
    then have "sessions_ok (s\<lparr>ts_db := ?d1, ts_heap := (ts_heap s)[i := ?new]\<rparr>)"
      using i by (intro sessions_ok_update [OF ok, of i ?new]) simp_all
    with Inr ok1 show ?thesis by (simp add: pushTunnelConfig_def Let_def)
  qed
qed

lemma pushTunnelConfig_length [simp]:
  "length (ts_heap (pushTunnelConfig now wok i s)) = length (ts_heap s)"
  by (simp add: pushTunnelConfig_def Let_def split: sum.split)

lemma reconcileClientConfigs_ok:
  "sessions_ok s \<Longrightarrow> \<forall>i \<in> set order. i < length (ts_heap s) \<Longrightarrow>
   sessions_ok (reconcileClientConfigs now wok order s)"
  unfolding reconcileClientConfigs_def
  by (induction order arbitrary: s) (simp_all add: pushTunnelConfig_ok)

lemma PushUninstall_ok:
  assumes ok: "sessions_ok s"
  shows "sessions_ok (snd (PushUninstall wok cid s))"
proof (cases "ts_sessions s cid")
  case (Some i)
  let ?cs = "ts_heap s ! i"
  let ?new = "?cs\<lparr>cs_control := cs_control ?cs @ [\<lparr>tp_Tunnels = [], tp_Uninstall = True\<rparr>]\<rparr>"
  have i: "i < length (ts_heap s)" using sessions_okD(1) [OF ok Some] by simp
  then have "pushed_ok ?new" using sessions_okD(3) [OF ok i] by (simp add: pushed_ok_def)
  then have "sessions_ok (s\<lparr>ts_heap := (ts_heap s)[i := ?new]\<rparr>)"
    using i by (intro sessions_ok_update [OF ok, of i ?new]) simp_all
  with Some ok show ?thesis by (simp add: PushUninstall_def Let_def)
qed (simp add: PushUninstall_def ok)

lemma handleConn_ok:
  assumes ok: "sessions_ok s"
  shows "sessions_ok (snd (handleConn sha now req rok yok cok wok s))"
proof (cases "\<exists>rq resp c. req = Some rq \<and> auth_response sha (rq_Token rq) (ts_db s) = (resp, Some c)
    \<and> rok \<and> yok \<and> cok")
  case True
  then obtain rq resp c where h: "req = Some rq"
    "auth_response sha (rq_Token rq) (ts_db s) = (resp, Some c)" "rok" "yok" "cok" by blast
  obtain i s1 where reg: "register_session c s = (i, s1)" by (cases "register_session c s")
  let ?s2 = "s1\<lparr>ts_db := snd (UpdateClientLastSeen now (c_ID c) (ts_db s1))\<rparr>"
  have "sessions_ok ?s2"
    using register_session_ok(1) [OF ok reg] sessions_ok_frame [of ?s2 s1] by simp
  then have "sessions_ok (pushTunnelConfig now wok i ?s2)"
    using register_session_ok(3) [OF ok reg] by (intro pushTunnelConfig_ok) simp_all
  with h reg show ?thesis by (simp add: handleConn_def Let_def)
next
  case False
  then have "snd (handleConn sha now req rok yok cok wok s) = s"
    by (auto simp: handleConn_def split: option.splits prod.splits)
  with ok show ?thesis by simp
qed

lemma NewServer_ok: "sessions_ok (NewServer d)"
  by (simp add: sessions_ok_def NewServer_def)

section \<open>A concrete session\<close>

definition example_client :: Client where
  "example_client = hd (d_clients example_db)"

definition example_server :: tserver where
  "example_server = snd (register_session example_client (NewServer example_db))"

lemma example_server_ok: "sessions_ok example_server"
  unfolding example_server_def by (rule register_session_ok(1) [OF NewServer_ok]) (rule surjective_pairing)

lemma example_server_session:
  "ts_heap example_server = [\<lparr>cs_clientID = ''c1'', cs_name = ''nas'', cs_closed = False,
     cs_control = [], cs_streams = [], cs_lastPushed = []\<rparr>]" "ts_db example_server = example_db"
  by (simp_all add: example_server_def register_session_def NewServer_def example_client_def
      example_db_def fresh_db_def)

lemma example_tunnels: "ListTunnelsByClient ''c1'' example_db
   = (Inr (map scanTunnel [example_tunnel ''t1'' 8080, example_tunnel ''t2'' 8081]), example_db)"
  by (simp add: ListTunnelsByClient_def queryM_def example_db_def fresh_db_def example_tunnel_def)

section \<open>A push brings the stream up to date\<close>

lemma push_in_sync:
  assumes "sessions_ok s" and "i < length (ts_heap s)" and "\<not> cs_closed (ts_heap s ! i)"
    and "ListTunnelsByClient (cs_clientID (ts_heap s ! i)) (ts_db s) = (Inr tunnels, ts_db s)"
    and "list_all plain_spec (map spec_of tunnels)"
    and "\<And>specs. last_config (cs_control (ts_heap s ! i)) = Some specs \<Longrightarrow> list_all plain_spec specs"
  shows "case last_config (cs_control (ts_heap (pushTunnelConfig now True i s) ! i)) of
      None \<Rightarrow> filter t_Enabled tunnels = []
    | Some specs \<Rightarrow> map routing_fields specs
        = map routing_fields (map spec_of (filter t_Enabled tunnels))"
proof -
  let ?cs = "ts_heap s ! i"
  let ?d1 = "snd (UpdateClientLastSeen now (cs_clientID ?cs) (ts_db s))"
  let ?s' = "pushTunnelConfig now True i s"
  have l: "fst (ListTunnelsByClient (cs_clientID ?cs) ?d1) = Inr tunnels"
    using assms(4) by (simp add: ListTunnelsByClient_def queryM_def split: if_splits)
  have plain: "list_all plain_spec (map spec_of (filter t_Enabled tunnels))"
    using assms(5) by (auto simp: list_all_iff)
  show ?thesis
  proof (cases "fingerprint tunnels = cs_lastPushed ?cs")
    case False
    then have "cs_control (ts_heap ?s' ! i) = cs_control ?cs
        @ [\<lparr>tp_Tunnels = map spec_of (filter t_Enabled tunnels), tp_Uninstall = False\<rparr>]"
      using l assms(2,3) by (simp add: pushTunnelConfig_def Let_def)
    then show ?thesis by simp
  next
    case True
    then have c: "cs_control (ts_heap ?s' ! i) = cs_control ?cs"
      using l assms(2) by (simp add: pushTunnelConfig_def Let_def)
    have p: "cs_lastPushed ?cs = (case last_config (cs_control ?cs) of
        None \<Rightarrow> [] | Some specs \<Rightarrow> concat (map spec_fingerprint specs))"
      using sessions_okD(3) [OF assms(1,2)] by (simp add: pushed_ok_def)
    have fp: "fingerprint tunnels = concat (map spec_fingerprint (map spec_of (filter t_Enabled tunnels)))"
      by (simp add: fingerprint_def comp_def)
    show ?thesis
    proof (cases "last_config (cs_control ?cs)")
      case None
      with p True fp have "concat (map spec_fingerprint (map spec_of (filter t_Enabled tunnels))) = []"
        by simp
      then have "filter t_Enabled tunnels = []"
        by (cases "filter t_Enabled tunnels") (simp_all add: fingerprint1_def)
      with c None show ?thesis by simp
    next
      case (Some specs)
      with p True fp have "concat (map spec_fingerprint specs)
          = concat (map spec_fingerprint (map spec_of (filter t_Enabled tunnels)))" by simp
      with fingerprints_fields [OF assms(6) [OF Some] plain] show ?thesis
        by (simp add: c Some)
    qed
  qed
qed

section \<open>Properties\<close>

text \<open>
  Authentication. A connection is accepted exactly when the digest of its token belongs to a
  machine that exists, and then it is answered with that machine's identity; a refused one is
  told to uninstall exactly when its token was revoked.
\<close>

theorem authentication_decision:
  assumes "auth_response sha token d = (resp, client)"
  shows "rs_OK resp = (client \<noteq> None)
    \<and> (\<forall>c. client = Some c \<longleftrightarrow> GetClientByTokenHash (HashToken sha token) d = (Inr c, d))
    \<and> (\<forall>c. client = Some c \<longrightarrow> rs_ClientID resp = c_ID c \<and> c_TokenHash c = HashToken sha token
          \<and> c \<in> set (d_clients d))
    \<and> rs_Uninstall resp = (client = None \<and> IsTokenRevoked (HashToken sha token) d)"
proof (cases "fst (GetClientByTokenHash (HashToken sha token) d)")
  case (Inl e)
  then have "GetClientByTokenHash (HashToken sha token) d = (Inl e, d)"
    by (simp add: GetClientByTokenHash_def queryM_def split: if_splits)
  with Inl assms show ?thesis by (auto simp: auth_response_def Let_def split: if_splits)
next
  case (Inr c)
  then have "GetClientByTokenHash (HashToken sha token) d = (Inr c, d)"
    by (simp add: GetClientByTokenHash_def queryM_def split: if_splits)
  with Inr GetClientByTokenHash_row [OF Inr] assms show ?thesis
    by (auto simp: auth_response_def Let_def)
qed

theorem authentication_decision_witness:
  "rs_Uninstall (fst (auth_response id ''x''
      (example_db\<lparr>d_revoked := [HashToken id ''x'' \<mapsto> 5], d_clients := []\<rparr>)))"
proof -
  let ?d = "example_db\<lparr>d_revoked := [HashToken id ''x'' \<mapsto> 5], d_clients := []\<rparr>"
  have "auth_response id ''x'' ?d = (fst (auth_response id ''x'' ?d), None)"
    by (simp add: auth_response_def GetClientByTokenHash_def queryM_def row_or_err_def
        example_db_def fresh_db_def IsTokenRevoked_def Let_def)
  from authentication_decision [OF this] show ?thesis
    by (simp add: IsTokenRevoked_def example_db_def fresh_db_def)
qed

text \<open>
  Configuration pushes. After \<open>pushTunnelConfig\<close> has run on an open session whose writes go
  through, the last configuration on the control stream lists, in order, exactly the machine's
  enabled tunnels with their targets as the database has them; only when nothing was ever pushed
  on this session and the machine has no enabled tunnel is there no configuration at all.
\<close>

theorem push_synchronises:
  assumes "sessions_ok s" and "i < length (ts_heap s)" and "\<not> cs_closed (ts_heap s ! i)"
    and "ListTunnelsByClient (cs_clientID (ts_heap s ! i)) (ts_db s) = (Inr tunnels, ts_db s)"
    and "list_all plain_spec (map spec_of tunnels)"
    and "\<And>specs. last_config (cs_control (ts_heap s ! i)) = Some specs \<Longrightarrow> list_all plain_spec specs"
  shows "case last_config (cs_control (ts_heap (pushTunnelConfig now True i s) ! i)) of
      None \<Rightarrow> filter t_Enabled tunnels = []
    | Some specs \<Rightarrow> map routing_fields specs
        = map routing_fields (map spec_of (filter t_Enabled tunnels))"
  using assms by (rule push_in_sync)

theorem push_synchronises_witness:
  "\<exists>specs. last_config (cs_control (ts_heap (pushTunnelConfig 9 True 0 example_server) ! 0)) = Some specs
     \<and> map sp_ID specs = [''t1'', ''t2'']"
proof -
  have "case last_config (cs_control (ts_heap (pushTunnelConfig 9 True 0 example_server) ! 0)) of
      None \<Rightarrow> filter t_Enabled (map scanTunnel [example_tunnel ''t1'' 8080, example_tunnel ''t2'' 8081]) = []
    | Some specs \<Rightarrow> map routing_fields specs = map routing_fields (map spec_of
        (filter t_Enabled (map scanTunnel [example_tunnel ''t1'' 8080, example_tunnel ''t2'' 8081])))"
    using example_tunnels
    by (intro push_synchronises [OF example_server_ok])
       (simp_all add: example_server_session plain_spec_def spec_of_def scanTunnel_def example_tunnel_def)
  then show ?thesis
    by (auto simp: scanTunnel_def example_tunnel_def spec_of_def routing_fields_def
        split: option.splits)
qed

end
