(* ===== verification/TunnelListeners.thy ===== *)
theory TunnelListeners
imports TunnelSessions
begin

text \<open>
  Public listeners of the tunnel server (\<open>internal/tunnel/server.go\<close>): reconciliation of the
  running listeners with the database, in its two phases (read, then apply under the lock), the
  port probe, and \<open>Shutdown\<close>. Which ports the operating system would give out is the argument
  \<open>os\<close>; a port one of the server's own listeners holds is never free. The order in which a Go
  map is iterated is an argument, and the theorems hold for every order.
\<close>

section \<open>Operations\<close>

type_synonym osports = "bool \<Rightarrow> int \<Rightarrow> bool"

definition is_udp :: "Tunnel \<Rightarrow> bool" where
  "is_udp t \<longleftrightarrow> t_Protocol t = ''udp''"

definition listen :: "osports \<Rightarrow> bool \<Rightarrow> int \<Rightarrow> (string \<times> Tunnel) list \<Rightarrow> bool" where
  "listen os udp port ls \<longleftrightarrow> os udp port
     \<and> \<not> list_ex (\<lambda>(_, t). is_udp t = udp \<and> t_PublicPort t = port) ls"

definition startTunnelListener :: "osports \<Rightarrow> Tunnel \<Rightarrow> (string \<times> Tunnel) list \<Rightarrow> bool" where
  "startTunnelListener os t ls = listen os (is_udp t) (t_PublicPort t) ls"

definition ProbePublicPort :: "osports \<Rightarrow> string \<Rightarrow> int \<Rightarrow> tserver \<Rightarrow> bool" where
  "ProbePublicPort os proto port s = listen os (proto = ''udp'') port (ts_listeners s)"

text \<open>\<open>wanted[t.ID] = t\<close> for each tunnel in turn: the last one of an id stays.\<close>

definition wanted :: "Tunnel list \<Rightarrow> string \<rightharpoonup> Tunnel" where
  "wanted tunnels = map_of (rev (map (\<lambda>t. (t_ID t, t)) tunnels))"

definition stop_unwanted :: "(string \<rightharpoonup> Tunnel) \<Rightarrow> (string \<times> Tunnel) list \<Rightarrow> (string \<times> Tunnel) list" where
  "stop_unwanted w ls = filter (\<lambda>(i, _). w i \<noteq> None) ls"

definition start_one ::
    "osports \<Rightarrow> (string \<rightharpoonup> Tunnel) \<Rightarrow> string \<Rightarrow> (string \<times> Tunnel) list \<Rightarrow> (string \<times> Tunnel) list" where
  "start_one os w i ls =
     (case w i of
        None \<Rightarrow> ls
      | Some t \<Rightarrow>
          if map_of ls i \<noteq> None then ls
          else if t_PublicPort t = 0 then ls
          else if \<not> startTunnelListener os t ls then ls
          else ls @ [(i, t)])"

text \<open>The shutdown check and the database read, before the lock is taken.\<close>

definition reconcile_begin :: "tserver \<Rightarrow> tserver" where
  "reconcile_begin s =
     (if ts_shutdown s then s
      else case fst (ListEnabledTunnels (ts_db s)) of
             Inl _ \<Rightarrow> s
           | Inr tunnels \<Rightarrow> s\<lparr>ts_reconcile := Some tunnels\<rparr>)"

text \<open>The section under \<open>listenersMu\<close>: stop what is no longer wanted, start what is missing.\<close>

definition reconcile_apply :: "osports \<Rightarrow> string list \<Rightarrow> tserver \<Rightarrow> tserver" where
  "reconcile_apply os order s =
     (case ts_reconcile s of
        None \<Rightarrow> s
      | Some tunnels \<Rightarrow>
          (let w = wanted tunnels
           in s\<lparr>ts_listeners := fold (start_one os w) order (stop_unwanted w (ts_listeners s)),
                ts_reconcile := None\<rparr>))"

definition reconcileListeners :: "osports \<Rightarrow> string list \<Rightarrow> tserver \<Rightarrow> tserver" where
  "reconcileListeners os order s = reconcile_apply os order (reconcile_begin s)"

definition RunControl :: "tserver \<Rightarrow> tserver" where
  "RunControl s = s\<lparr>ts_control_up := True\<rparr>"

definition RunMinecraftRouter :: "tserver \<Rightarrow> tserver" where
  "RunMinecraftRouter s = s\<lparr>ts_mc_up := True\<rparr>"

text \<open>\<open>Shutdown\<close> up to its wait, and what it waits for.\<close>

definition Shutdown :: "tserver \<Rightarrow> tserver" where
  "Shutdown s = s\<lparr>ts_shutdown := True, ts_control_up := False, ts_mc_up := False,
     ts_listeners := []\<rparr>"

definition shutdown_drained :: "tserver \<Rightarrow> bool" where
  "shutdown_drained s \<longleftrightarrow> ts_active s = 0"

section \<open>The listener invariant\<close>

definition port_key :: "string \<times> Tunnel \<Rightarrow> bool \<times> int" where
  "port_key x = (is_udp (snd x), t_PublicPort (snd x))"

definition listeners_ok :: "(string \<times> Tunnel) list \<Rightarrow> bool" where
  "listeners_ok ls \<longleftrightarrow> distinct (map fst ls) \<and> distinct (map port_key ls)
     \<and> (\<forall>(i, t) \<in> set ls. t_ID t = i \<and> t_PublicPort t \<noteq> 0)"

lemma listen_free: "listen os udp port ls \<Longrightarrow> (udp, port) \<notin> port_key ` set ls"
  by (auto simp: listen_def port_key_def list_ex_iff)

lemma listen_iff: "listen os udp port ls \<longleftrightarrow> os udp port \<and> (udp, port) \<notin> port_key ` set ls"
  by (force simp: listen_def port_key_def list_ex_iff)

lemma wanted_Some: "wanted ts i = Some t \<Longrightarrow> t \<in> set ts \<and> t_ID t = i"
  by (auto simp: wanted_def dest!: map_of_SomeD)

lemma wanted_None: "wanted ts i = None \<longleftrightarrow> i \<notin> t_ID ` set ts"
  by (simp add: wanted_def map_of_eq_None_iff image_image)

lemma start_one_cases:
  obtains (same) "start_one os w i ls = ls"
  | (new) t where "w i = Some t" "i \<notin> fst ` set ls" "t_PublicPort t \<noteq> 0"
      "os (is_udp t) (t_PublicPort t)" "port_key (i, t) \<notin> port_key ` set ls"
      "start_one os w i ls = ls @ [(i, t)]"
proof (cases "start_one os w i ls = ls")
  case False
  then obtain t where t: "w i = Some t" "map_of ls i = None" "t_PublicPort t \<noteq> 0"
    "listen os (is_udp t) (t_PublicPort t) ls" "start_one os w i ls = ls @ [(i, t)]"
    by (auto simp: start_one_def startTunnelListener_def split: option.splits if_splits)
  then show ?thesis
    by (intro new [of t]) (auto simp: listen_iff map_of_eq_None_iff port_key_def)
qed

lemma start_one_ok:
  assumes "listeners_ok ls" and "\<And>t. w i = Some t \<Longrightarrow> t_ID t = i"
  shows "listeners_ok (start_one os w i ls)"
proof (cases rule: start_one_cases [of os w i ls])
  case (new t)
  with assms show ?thesis
    by (auto simp: listeners_ok_def distinct_map_snoc simp del: map_append)
qed (simp add: assms)

lemma stop_unwanted_ok: "listeners_ok ls \<Longrightarrow> listeners_ok (stop_unwanted w ls)"
  by (auto simp: listeners_ok_def stop_unwanted_def distinct_map_filter)

lemma start_all_ok:
  assumes "listeners_ok ls" and "\<And>i t. w i = Some t \<Longrightarrow> t_ID t = i"
  shows "listeners_ok (fold (start_one os w) order ls)"
  using assms(1)
proof (induction order arbitrary: ls)
  case (Cons i order)
  have "listeners_ok (start_one os w i ls)"
    by (rule start_one_ok [OF Cons.prems]) (rule assms(2))
  with Cons show ?case by simp
qed simp

lemma reconcile_apply_ok:
  "listeners_ok (ts_listeners s) \<Longrightarrow> listeners_ok (ts_listeners (reconcile_apply os order s))"
  by (auto simp: reconcile_apply_def Let_def wanted_Some intro!: start_all_ok stop_unwanted_ok
      split: option.split)

lemma start_one_keeps: "set ls \<subseteq> set (start_one os w i ls)"
  by (auto simp: start_one_def split: option.split)

lemma start_all_keeps: "set ls \<subseteq> set (fold (start_one os w) order ls)"
proof (induction order arbitrary: ls)
  case (Cons i order)
  then show ?case using start_one_keeps [of ls os w i] by force
qed simp

lemma start_all_new:
  "(i, t) \<in> set (fold (start_one os w) order ls) \<Longrightarrow> (i, t) \<in> set ls
     \<or> (i \<in> set order \<and> w i = Some t \<and> t_PublicPort t \<noteq> 0 \<and> os (is_udp t) (t_PublicPort t))"
proof (induction order arbitrary: ls)
  case (Cons j order)
  from Cons.IH [of "start_one os w j ls"] Cons.prems show ?case
    by (auto simp: start_one_def startTunnelListener_def listen_def split: option.splits if_splits)
qed simp

lemma start_all_started:
  assumes "i \<in> set order" and "w i = Some t" and "t_PublicPort t \<noteq> 0"
  shows "i \<in> fst ` set (fold (start_one os w) order ls)
    \<or> \<not> os (is_udp t) (t_PublicPort t)
    \<or> (is_udp t, t_PublicPort t) \<in> port_key ` set (fold (start_one os w) order ls)"
  using assms(1)
proof (induction order arbitrary: ls)
  case (Cons j order)
  show ?case
  proof (cases "i \<in> set order")
    case True
    with Cons.IH show ?thesis by simp
  next
    case False
    with Cons.prems have "j = i" by simp
    have "i \<in> fst ` set (start_one os w i ls) \<or> \<not> os (is_udp t) (t_PublicPort t)
        \<or> (is_udp t, t_PublicPort t) \<in> port_key ` set ls"
      using assms(2,3) map_of_eq_None_iff [of ls i]
      by (auto simp: start_one_def startTunnelListener_def listen_iff)
    moreover have "set (start_one os w i ls) \<subseteq> set (fold (start_one os w) (j # order) ls)"
      using start_all_keeps [of "start_one os w i ls" os w order] \<open>j = i\<close> by simp
    moreover have "set ls \<subseteq> set (start_one os w i ls)" by (rule start_one_keeps)
    ultimately show ?thesis by blast
  qed
qed simp


lemma stop_unwanted_iff: "(i, t) \<in> set (stop_unwanted w ls) \<longleftrightarrow> (i, t) \<in> set ls \<and> w i \<noteq> None"
  by (auto simp: stop_unwanted_def)

lemma ListEnabledTunnels_Inr:
  assumes "d_open d"
  obtains tunnels where "ListEnabledTunnels d = (Inr tunnels, d)"
    and "set tunnels = scanTunnel ` {r \<in> set (d_tunnels d). r_enabled r}"
  using assms by (auto simp: ListEnabledTunnels_def queryM_def)

lemma reconcile_shut_down: "ts_shutdown s \<Longrightarrow> reconcile_begin s = s"
  by (simp add: reconcile_begin_def)

section \<open>Properties\<close>


text \<open>
  Shutdown and reconciliation race. A reconciliation that starts after \<open>Shutdown\<close> opens
  nothing; but one that has passed its shutdown check before \<open>Shutdown\<close> runs re-opens a listener
  after it, for any enabled tunnel whose port the system gives out.
\<close>

theorem shutdown_reconcile_race:
  assumes "\<not> ts_shutdown s" and "ListEnabledTunnels (ts_db s) = (Inr [t], ts_db s)"
    and "t_PublicPort t \<noteq> 0" and "os (is_udp t) (t_PublicPort t)"
  shows "ts_shutdown (reconcile_apply os [t_ID t] (Shutdown (reconcile_begin s)))
    \<and> ts_listeners (reconcile_apply os [t_ID t] (Shutdown (reconcile_begin s))) = [(t_ID t, t)]
    \<and> (ts_reconcile s = None \<longrightarrow> ts_listeners (reconcileListeners os order (Shutdown s)) = [])"
  using assms by (simp add: Shutdown_def reconcile_begin_def reconcile_apply_def Let_def
      reconcileListeners_def wanted_def stop_unwanted_def start_one_def startTunnelListener_def
      listen_def)

section \<open>Witnesses\<close>


theorem shutdown_reconcile_race_witness:
  "\<exists>s :: tserver. ts_shutdown s \<and> map fst (ts_listeners s) = [''t1'']"
proof -
  let ?t = "scanTunnel (example_tunnel ''t1'' 8080)"
  let ?s = "NewServer (example_db\<lparr>d_tunnels := [example_tunnel ''t1'' 8080]\<rparr>)"
  have "ListEnabledTunnels (ts_db ?s) = (Inr [?t], ts_db ?s)"
    by (simp add: ListEnabledTunnels_def queryM_def example_db_def fresh_db_def
        example_tunnel_def NewServer_def)
  from shutdown_reconcile_race [OF _ this, of "\<lambda>_ _. True" "[]"]
  have "ts_shutdown (reconcile_apply (\<lambda>_ _. True) [t_ID ?t] (Shutdown (reconcile_begin ?s)))"
    "ts_listeners (reconcile_apply (\<lambda>_ _. True) [t_ID ?t] (Shutdown (reconcile_begin ?s)))
      = [(t_ID ?t, ?t)]"
    by (simp_all add: NewServer_def scanTunnel_def example_tunnel_def)
  then show ?thesis
    by (intro exI [of _ "reconcile_apply (\<lambda>_ _. True) [t_ID ?t] (Shutdown (reconcile_begin ?s))"])
       (simp add: scanTunnel_def example_tunnel_def)
qed

end
