(* ===== verification/TunnelTraffic.thy ===== *)
theory TunnelTraffic
imports TunnelListeners
begin

text \<open>
  Proxied connections and traffic counters (\<open>internal/tunnel/server.go\<close>): \<open>proxyConn\<close>, the live
  counters, and the flush loop that moves what they have counted into the database. The flush
  loop relies on its store through the locale \<open>traffic_store\<close>, interpreted on
  \<open>AddTunnelTraffic\<close>: whatever fails, no byte is booked twice or lost.
\<close>

section \<open>Counters and proxied connections\<close>

definition getLiveCounter :: "string \<Rightarrow> tserver \<Rightarrow> tserver" where
  "getLiveCounter tid s =
     (case ts_live s tid of None \<Rightarrow> s\<lparr>ts_live := (ts_live s)(tid \<mapsto> (0, 0))\<rparr> | Some _ \<Rightarrow> s)"

definition LiveBytesSnapshot :: "tserver \<Rightarrow> string \<rightharpoonup> int \<times> int" where
  "LiveBytesSnapshot s = ts_live s"

text \<open>\<open>countingReader.Read\<close>: \<open>n > 0\<close> bytes of one direction of one connection.\<close>

definition count_bytes :: "string \<Rightarrow> nat \<Rightarrow> nat \<Rightarrow> tserver \<Rightarrow> tserver" where
  "count_bytes tid n m s =
     (case ts_live s tid of
        None \<Rightarrow> s
      | Some (i, u) \<Rightarrow> s\<lparr>ts_live := (ts_live s)(tid \<mapsto> (i + int n, u + int m))\<rparr>)"

text \<open>
  \<open>proxyConn\<close> up to the pipe: the machine's session, a stream on it, the header frame. The
  result says whether the connection is being proxied; if not it is dropped, and the wait group
  is back where it was.
\<close>

definition proxyConn :: "bool \<Rightarrow> bool \<Rightarrow> Tunnel \<Rightarrow> string \<Rightarrow> tserver \<Rightarrow> bool \<times> tserver" where
  "proxyConn ook wok t remote s =
     (case ts_sessions s (t_ClientID t) of
        None \<Rightarrow> (False, s)
      | Some i \<Rightarrow>
          (let cs = ts_heap s ! i
           in if \<not> ook \<or> cs_closed cs then (False, s)
              else if \<not> wok then (False, s)
              else (True, getLiveCounter (t_ID t)
                (s\<lparr>ts_active := ts_active s + 1,
                   ts_heap := (ts_heap s)[i := cs\<lparr>cs_streams := cs_streams cs
                     @ [\<lparr>sh_TunnelID = t_ID t, sh_RemoteAddr = remote\<rparr>]\<rparr>]\<rparr>))))"

definition proxy_end :: "tserver \<Rightarrow> tserver" where
  "proxy_end s = s\<lparr>ts_active := ts_active s - 1\<rparr>"

section \<open>The flush loop\<close>

text \<open>One iteration of the inner loop: \<open>cur\<close> is the snapshot's value for the tunnel.\<close>

definition flush_one :: "int \<Rightarrow> string \<Rightarrow> int \<times> int \<Rightarrow> tserver \<Rightarrow> tserver" where
  "flush_one now tid cur s =
     (let prev = ts_flushed s tid;
          deltaIn = fst cur - fst prev;
          deltaOut = snd cur - snd prev
      in if deltaIn \<le> 0 \<and> deltaOut \<le> 0 then s
         else (case AddTunnelTraffic now tid deltaIn deltaOut (ts_db s) of
                 (Inl _, d') \<Rightarrow> s\<lparr>ts_db := d'\<rparr>
               | (Inr _, d') \<Rightarrow> s\<lparr>ts_db := d', ts_flushed := (ts_flushed s)(tid := cur)\<rparr>))"

text \<open>One tick: every tunnel of the snapshot, in the order the map iteration took.\<close>

definition flush_tick :: "int \<Rightarrow> string list \<Rightarrow> tserver \<Rightarrow> tserver" where
  "flush_tick now order s =
     (let snap = LiveBytesSnapshot s
      in fold (\<lambda>tid s. case snap tid of None \<Rightarrow> s | Some cur \<Rightarrow> flush_one now tid cur s) order s)"

section \<open>The contract of a traffic store\<close>

text \<open>\<open>account s x\<close> is what the store has booked for \<open>x\<close>, if it knows \<open>x\<close> at all.\<close>

locale traffic_store =
  fixes inv :: "'s \<Rightarrow> bool"
    and add :: "string \<Rightarrow> int \<Rightarrow> int \<Rightarrow> 's \<Rightarrow> ('e + 'u) \<times> 's"
    and account :: "'s \<Rightarrow> string \<Rightarrow> (int \<times> int) option"
  assumes inv_add: "inv s \<Longrightarrow> inv (snd (add x i u s))"
    and add_fails: "inv s \<Longrightarrow> add x i u s = (Inl e, s') \<Longrightarrow> s' = s"
    and add_books: "inv s \<Longrightarrow> add x i u s = (Inr r, s') \<Longrightarrow>
          \<exists>a b. account s x = Some (a, b) \<and> account s' x = Some (a + i, b + u)"
    and add_other: "inv s \<Longrightarrow> add x i u s = (Inr r, s') \<Longrightarrow> y \<noteq> x \<Longrightarrow> account s' y = account s y"
begin

definition flush1 :: "string \<Rightarrow> int \<times> int \<Rightarrow> (string \<Rightarrow> int \<times> int) \<times> 's \<Rightarrow> (string \<Rightarrow> int \<times> int) \<times> 's" where
  "flush1 x cur st =
     (let prev = fst st x; i = fst cur - fst prev; u = snd cur - snd prev
      in if i \<le> 0 \<and> u \<le> 0 then st
         else (case add x i u (snd st) of
                 (Inl _, s') \<Rightarrow> (fst st, s')
               | (Inr _, s') \<Rightarrow> ((fst st)(x := cur), s')))"

definition flush :: "(string \<rightharpoonup> int \<times> int) \<Rightarrow> string list \<Rightarrow> (string \<Rightarrow> int \<times> int) \<times> 's
    \<Rightarrow> (string \<Rightarrow> int \<times> int) \<times> 's" where
  "flush snap order st = fold (\<lambda>x st. case snap x of None \<Rightarrow> st | Some cur \<Rightarrow> flush1 x cur st) order st"

text \<open>The booked total minus what the loop believes it has flushed never changes.\<close>

definition balanced :: "(string \<Rightarrow> int \<times> int) \<times> 's \<Rightarrow> (string \<Rightarrow> int \<times> int) \<times> 's \<Rightarrow> string \<Rightarrow> bool" where
  "balanced st st' y \<longleftrightarrow> (case account (snd st) y of
     None \<Rightarrow> account (snd st') y = None \<and> fst st' y = fst st y
   | Some (a, b) \<Rightarrow> \<exists>a' b'. account (snd st') y = Some (a', b')
       \<and> a' - fst (fst st' y) = a - fst (fst st y) \<and> b' - snd (fst st' y) = b - snd (fst st y))"

lemma balanced_refl: "balanced st st y"
  by (simp add: balanced_def split: option.split prod.split)

lemma balanced_trans: "balanced st st1 y \<Longrightarrow> balanced st1 st2 y \<Longrightarrow> balanced st st2 y"
  by (auto simp: balanced_def split: option.splits prod.splits)

lemma flush1_props:
  assumes "inv (snd st)"
  shows "inv (snd (flush1 x cur st))" and "balanced st (flush1 x cur st) y"
    and "fst (flush1 x cur st) y \<in> {fst st y, if y = x then cur else fst st y}"
proof -
  obtain fl s where st: "st = (fl, s)" by (cases st)
  let ?i = "fst cur - fst (fl x)" and ?u = "snd cur - snd (fl x)"
  have inv: "inv s" using assms st by simp
  show "inv (snd (flush1 x cur st))"
    using inv_add [OF inv, of x ?i ?u] inv
    by (auto simp: st flush1_def Let_def split: prod.split sum.split)
  show "fst (flush1 x cur st) y \<in> {fst st y, if y = x then cur else fst st y}"
    by (auto simp: st flush1_def Let_def split: prod.split sum.split)
  show "balanced st (flush1 x cur st) y"
  proof (cases "?i \<le> 0 \<and> ?u \<le> 0")
    case True
    then have "flush1 x cur st = st" by (simp add: st flush1_def)
    then show ?thesis by (simp add: balanced_refl)
  next
    case False
    obtain r s' where add: "add x ?i ?u s = (r, s')" by (cases "add x ?i ?u s")
    show ?thesis
    proof (cases r)
      case (Inl e)
      with False add add_fails [OF inv] have "flush1 x cur st = st"
        by (auto simp: st flush1_def Let_def)
      then show ?thesis by (simp add: balanced_refl)
    next
      case (Inr v)
      with False add have f: "flush1 x cur st = (fl(x := cur), s')"
        by (auto simp: st flush1_def Let_def)
      show ?thesis
        unfolding f using add_books [OF inv add [unfolded Inr]] add_other [OF inv add [unfolded Inr], of y]
        by (cases "y = x") (auto simp: st balanced_def split: option.split)
    qed
  qed
qed

lemma flush_inv: "inv (snd st) \<Longrightarrow> inv (snd (flush snap order st))"
  unfolding flush_def
  by (induction order arbitrary: st) (auto simp: flush1_props split: option.split)

lemma flush_balanced: "inv (snd st) \<Longrightarrow> balanced st (flush snap order st) y"
proof (induction order arbitrary: st)
  case Nil
  then show ?case by (simp add: flush_def balanced_refl)
next
  case (Cons x order)
  let ?st1 = "case snap x of None \<Rightarrow> st | Some cur \<Rightarrow> flush1 x cur st"
  have "inv (snd ?st1)" "balanced st ?st1 y"
    using Cons.prems flush1_props by (auto simp: balanced_refl split: option.split)
  with Cons.IH [of ?st1] show ?case
    by (auto simp: flush_def intro: balanced_trans)
qed

text \<open>Afterwards every tunnel's mark is either where it was or at the snapshot's value.\<close>

lemma flush_mark:
  "inv (snd st) \<Longrightarrow> fst (flush snap order st) y \<in> {fst st y} \<union> set_option (snap y)"
proof (induction order arbitrary: st)
  case (Cons x order)
  let ?st1 = "case snap x of None \<Rightarrow> st | Some cur \<Rightarrow> flush1 x cur st"
  have "inv (snd ?st1)"
    using Cons.prems flush1_props by (auto split: option.split)
  from Cons.IH [OF this] have "fst (flush snap order ?st1) y \<in> {fst ?st1 y} \<union> set_option (snap y)" .
  moreover have "fst ?st1 y \<in> {fst st y} \<union> set_option (snap y)"
    using flush1_props(3) [OF Cons.prems, of x "the (snap x)" y] by (auto split: option.splits if_splits)
  moreover have "flush snap (x # order) st = flush snap order ?st1" by (simp add: flush_def)
  ultimately show ?case by auto
qed (simp add: flush_def)

end

section \<open>The database is a traffic store\<close>

lemma tunnel_bytes_effect:
  assumes "db_wf d" and "AddTunnelTraffic now x i u d = (Inr r, d')"
  shows "\<exists>a b. tunnel_bytes d x = Some (a, b) \<and> tunnel_bytes d' x = Some (a + i, b + u)"
    and "y \<noteq> x \<Longrightarrow> tunnel_bytes d' y = tunnel_bytes d y"
proof -
  obtain t c where t: "find (\<lambda>t. r_id t = x) (d_tunnels d) = Some t"
    and d': "d' = traffic_effect now x i u t c d"
    using assms by (cases r) (auto elim!: traffic_success)
  have "r_id t = x" using find_Some_in [OF t] by simp
  with t show "\<exists>a b. tunnel_bytes d x = Some (a, b) \<and> tunnel_bytes d' x = Some (a + i, b + u)"
    by (simp add: tunnel_bytes_def d' find_traffic_effect add_row_def)
  assume "y \<noteq> x"
  then show "tunnel_bytes d' y = tunnel_bytes d y"
    by (auto simp: tunnel_bytes_def d' find_traffic_effect add_row_def option.map_comp comp_def
        intro!: option.map_cong dest!: find_Some_in split: if_splits)
qed

interpretation db_traffic: traffic_store db_wf "AddTunnelTraffic now" tunnel_bytes for now
proof unfold_locales
  show "db_wf d \<Longrightarrow> db_wf (snd (AddTunnelTraffic now x i u d))" for d x i u
    by (rule keepsD [OF keeps_traffic])
  show "AddTunnelTraffic now x i u d = (Inl e, d') \<Longrightarrow> d' = d" for x i u d e d'
    unfolding AddTunnelTraffic_def by (rule with_tx_rollback)
qed (use tunnel_bytes_effect in blast)+

lemma flush_one_store:
  "(ts_flushed (flush_one now x cur s), ts_db (flush_one now x cur s))
     = db_traffic.flush1 now x cur (ts_flushed s, ts_db s)"
  by (simp add: flush_one_def db_traffic.flush1_def Let_def split: prod.split sum.split)

lemma flush_tick_store:
  "(ts_flushed (flush_tick now order s), ts_db (flush_tick now order s))
     = db_traffic.flush now (ts_live s) order (ts_flushed s, ts_db s)"
proof -
  have "(ts_flushed s', ts_db s') = db_traffic.flush now snap order (ts_flushed s, ts_db s)"
    if "s' = fold (\<lambda>tid s. case snap tid of None \<Rightarrow> s | Some cur \<Rightarrow> flush_one now tid cur s) order s"
    for snap s'
    using that
  proof (induction order arbitrary: s)
    case (Cons x order)
    then show ?case
      by (cases "snap x") (simp_all add: db_traffic.flush_def flush_one_store)
  qed (simp add: db_traffic.flush_def)
  then show ?thesis by (simp add: flush_tick_def LiveBytesSnapshot_def Let_def)
qed


lemma flush_one_live [simp]:
  "ts_live (flush_one now x cur s) = ts_live s" "ts_heap (flush_one now x cur s) = ts_heap s"
  "ts_sessions (flush_one now x cur s) = ts_sessions s"
  "ts_listeners (flush_one now x cur s) = ts_listeners s"
  by (simp_all add: flush_one_def Let_def split: prod.split sum.split)

lemma flush_tick_live [simp]:
  "ts_live (flush_tick now order s) = ts_live s" "ts_heap (flush_tick now order s) = ts_heap s"
  "ts_sessions (flush_tick now order s) = ts_sessions s"
  "ts_listeners (flush_tick now order s) = ts_listeners s"
proof -
  let ?step = "\<lambda>snap tid s. case snap tid of None \<Rightarrow> s | Some cur \<Rightarrow> flush_one now tid cur s"
  have "ts_live (fold (?step snap) order s) = ts_live s
      \<and> ts_heap (fold (?step snap) order s) = ts_heap s
      \<and> ts_sessions (fold (?step snap) order s) = ts_sessions s
      \<and> ts_listeners (fold (?step snap) order s) = ts_listeners s" for snap
  proof (induction order arbitrary: s)
    case (Cons x order)
    then show ?case by (cases "snap x") simp_all
  qed simp
  from this [of "ts_live s"]
  show "ts_live (flush_tick now order s) = ts_live s"
    "ts_heap (flush_tick now order s) = ts_heap s"
    "ts_sessions (flush_tick now order s) = ts_sessions s"
    "ts_listeners (flush_tick now order s) = ts_listeners s"
    by (simp_all add: flush_tick_def LiveBytesSnapshot_def Let_def)
qed

lemma flush_tick_facts:
  assumes "db_wf (ts_db s)"
  shows "db_wf (ts_db (flush_tick now order s))"
    and "db_traffic.balanced (ts_flushed s, ts_db s)
      (ts_flushed (flush_tick now order s), ts_db (flush_tick now order s)) x"
    and "ts_flushed (flush_tick now order s) x \<in> {ts_flushed s x} \<union> set_option (ts_live s x)"
proof -
  have wf: "db_wf (snd (ts_flushed s, ts_db s))" using assms by simp
  note store = flush_tick_store [of now order s, symmetric]
  show "db_wf (ts_db (flush_tick now order s))"
    using db_traffic.flush_inv [OF wf, of now "ts_live s" order] by (simp add: store)
  show "db_traffic.balanced (ts_flushed s, ts_db s)
      (ts_flushed (flush_tick now order s), ts_db (flush_tick now order s)) x"
    using db_traffic.flush_balanced [OF wf, of now "ts_live s" order x] by (simp add: store)
  show "ts_flushed (flush_tick now order s) x \<in> {ts_flushed s x} \<union> set_option (ts_live s x)"
    using db_traffic.flush_mark [OF wf, of now "ts_live s" order x] by (simp add: store)
qed

section \<open>Properties\<close>

text \<open>
  C21. Flushing loses and invents nothing. In a tick over any tunnels in any order, with any of
  the database calls failing, the database's total for each tunnel moves by exactly what its
  flush mark moves, the mark is either unchanged or at the live counter's value, and the live
  counters are untouched: what was refused is booked by a later tick.
\<close>

theorem flush_conserves:
  assumes "db_wf (ts_db s)" and "tunnel_bytes (ts_db s) x = Some (a, b)"
    and "s' = flush_tick now order s"
  shows "(\<exists>a' b'. tunnel_bytes (ts_db s') x = Some (a', b')
        \<and> a' - a = fst (ts_flushed s' x) - fst (ts_flushed s x)
        \<and> b' - b = snd (ts_flushed s' x) - snd (ts_flushed s x))
    \<and> (ts_flushed s' x = ts_flushed s x \<or> Some (ts_flushed s' x) = ts_live s x)
    \<and> ts_live s' = ts_live s"
  using flush_tick_facts(2,3) [OF assms(1), of now order x] assms(2)
  by (auto simp: db_traffic.balanced_def assms(3))

text \<open>
  Flushing makes progress. For a tunnel that exists, on a machine without a traffic limit,
  whose totals fit into 64 bits, one flush books exactly the bytes counted since the last
  one and moves the mark to the live value.
\<close>

theorem flush_progress:
  assumes "db_wf (ts_db s)" and "d_open (ts_db s)"
    and "find (\<lambda>t. r_id t = x) (d_tunnels (ts_db s)) = Some t"
    and "find (\<lambda>c. c_ID c = r_client_id t) (d_clients (ts_db s)) = Some c"
    and "c_TrafficLimitBytes c = None"
    and "fst (ts_flushed s x) < i \<or> snd (ts_flushed s x) < u"
    and "in_int64 (r_bytes_in t + (i - fst (ts_flushed s x)))"
    and "in_int64 (r_bytes_out t + (u - snd (ts_flushed s x)))"
  shows "tunnel_bytes (ts_db (flush_one now x (i, u) s)) x
      = Some (r_bytes_in t + (i - fst (ts_flushed s x)), r_bytes_out t + (u - snd (ts_flushed s x)))
    \<and> ts_flushed (flush_one now x (i, u) s) x = (i, u)"
proof -
  let ?di = "i - fst (ts_flushed s x)" and ?du = "u - snd (ts_flushed s x)"
  have "AddTunnelTraffic now x ?di ?du (ts_db s)
      = (Inr (), traffic_effect now x ?di ?du t c (ts_db s))"
    using assms(2-5,7,8) by (simp add: AddTunnelTraffic_refines_spec [OF assms(1)] traffic_spec_def)
  moreover from this have "tunnel_bytes (traffic_effect now x ?di ?du t c (ts_db s)) x
      = Some (r_bytes_in t + ?di, r_bytes_out t + ?du)"
    using tunnel_bytes_effect(1) [OF assms(1), of now x ?di ?du] assms(3)
    by (auto simp: tunnel_bytes_def)
  ultimately show ?thesis using assms(6) by (auto simp: flush_one_def Let_def)
qed

section \<open>Witnesses\<close>

theorem flush_conserves_witness:
  "\<exists>a' b'. tunnel_bytes (ts_db (flush_tick 9 [''t1'']
       (example_server\<lparr>ts_live := [''t1'' \<mapsto> (60, 50)]\<rparr>))) ''t1'' = Some (a', b')"
  using flush_conserves [of "example_server\<lparr>ts_live := [''t1'' \<mapsto> (60, 50)]\<rparr>" "''t1''" 0 0 _ 9 "[''t1'']",
      OF _ _ refl] example_db_wf
  by (auto simp: example_server_session tunnel_bytes_def example_db_def fresh_db_def example_tunnel_def)

theorem flush_progress_witness:
  "ts_flushed (flush_one 9 ''t1'' (60, 50) (NewServer (example_db\<lparr>d_clients :=
      [example_client\<lparr>c_TrafficLimitBytes := None\<rparr>]\<rparr>))) ''t1'' = (60, 50)"
proof -
  let ?d = "example_db\<lparr>d_clients := [example_client\<lparr>c_TrafficLimitBytes := None\<rparr>]\<rparr>"
  have "db_wf ?d"
    using example_db_wf by (simp add: db_wf_def clients_ok_def tunnels_ok_def codes_ok_def
        example_db_def example_client_def fresh_db_def)
  then show ?thesis
    using flush_progress [of "NewServer ?d" "''t1''" "example_tunnel ''t1'' 8080"
      "example_client\<lparr>c_TrafficLimitBytes := None\<rparr>" 60 50 9]
    by (simp add: NewServer_def example_client_def example_db_def fresh_db_def example_tunnel_def
        in_int64_def)
qed

end
