(* ===== verification/TunnelServer.thy ===== *)
theory TunnelServer
imports TunnelTraffic
begin

text \<open>
  The tunnel server as a transition system: its goroutines (connection handlers, the
  reconciliation and flush loops, accept loops, proxied connections, \<open>Shutdown\<close>) and the API's
  database calls interleave, one locked section or call per step. The invariant of every
  component holds in every reachable state.
\<close>

section \<open>Steps\<close>

text \<open>
  \<open>handleConn\<close> is taken apart into its locked sections: the machine may have been deleted since
  it was authenticated, so \<open>register\<close> takes any machine; writes may fail at any time; a Go map
  is iterated in any order.
\<close>

inductive goroutine :: "tserver \<Rightarrow> tserver \<Rightarrow> bool" where
  register: "goroutine s (snd (register_session c s))"
| push: "i < length (ts_heap s) \<Longrightarrow> goroutine s (pushTunnelConfig now wok i s)"
| close: "goroutine s (close_session i s)"
| unregister: "i < length (ts_heap s) \<Longrightarrow> cs_closed (ts_heap s ! i) \<Longrightarrow>
    goroutine s (unregister_session i s)"
| uninstall: "goroutine s (snd (PushUninstall wok cid s))"
| devices: "goroutine s (acceptDeviceReport cid ds s)"
| run: "goroutine s (RunControl s)"
| run_mc: "goroutine s (RunMinecraftRouter s)"
| reconcile_read: "goroutine s (reconcile_begin s)"
| reconcile_write: "goroutine s (reconcile_apply os order s)"
| shutdown: "goroutine s (Shutdown s)"
| proxy: "goroutine s (snd (proxyConn ook wok t remote s))"
| counter: "goroutine s (getLiveCounter x s)"
| bytes: "goroutine s (count_bytes x n m s)"
| proxy_done: "0 < ts_active s \<Longrightarrow> goroutine s (proxy_end s)"
| flush: "goroutine s (flush_tick now order s)"

inductive tstep :: "(byte list \<Rightarrow> byte list) \<Rightarrow> tserver \<Rightarrow> tserver \<Rightarrow> bool" for sha where
  server: "goroutine s s' \<Longrightarrow> tstep sha s s'"
| database: "tstep sha s (s\<lparr>ts_db := exec_call sha c (ts_db s)\<rparr>)"

inductive ts_reach :: "(byte list \<Rightarrow> byte list) \<Rightarrow> tserver \<Rightarrow> bool" for sha where
  start: "db_reach sha d \<Longrightarrow> ts_reach sha (NewServer d)"
| step: "ts_reach sha s \<Longrightarrow> tstep sha s s' \<Longrightarrow> ts_reach sha s'"

inductive_cases tstepE: "tstep sha s s'"

section \<open>Invariants\<close>

text \<open>The flush marks never run ahead of the live counters.\<close>

definition mark_ok :: "(int \<times> int) option \<Rightarrow> int \<times> int \<Rightarrow> bool" where
  "mark_ok live mark \<longleftrightarrow> (case live of
     None \<Rightarrow> mark = (0, 0)
   | Some (i, u) \<Rightarrow> 0 \<le> fst mark \<and> fst mark \<le> i \<and> 0 \<le> snd mark \<and> snd mark \<le> u)"

definition counters_ok :: "tserver \<Rightarrow> bool" where
  "counters_ok s \<longleftrightarrow> (\<forall>x. mark_ok (ts_live s x) (ts_flushed s x))"

definition server_ok :: "tserver \<Rightarrow> bool" where
  "server_ok s \<longleftrightarrow> sessions_ok s \<and> listeners_ok (ts_listeners s) \<and> counters_ok s
     \<and> db_wf (ts_db s)"

lemma counters_ok_frame:
  assumes "counters_ok s" and "ts_live s' = ts_live s" and "ts_flushed s' = ts_flushed s"
  shows "counters_ok s'"
  using assms by (simp add: counters_ok_def)

lemma mark_ok_new: "mark_ok None m \<Longrightarrow> mark_ok (Some (0, 0)) m"
  by (simp add: mark_ok_def)

lemma mark_ok_more: "mark_ok (Some (i, u)) m \<Longrightarrow> mark_ok (Some (i + int n, u + int k)) m"
  by (auto simp: mark_ok_def)

lemma mark_ok_flushed: "mark_ok l m \<Longrightarrow> m' \<in> {m} \<union> set_option l \<Longrightarrow> mark_ok l m'"
  by (cases l) (auto simp: mark_ok_def)

lemma counters_ok_counter:
  assumes "counters_ok s"
  shows "counters_ok (getLiveCounter x s)"
proof (cases "ts_live s x")
  case None
  with assms have "mark_ok (Some (0, 0)) (ts_flushed s x)"
    unfolding counters_ok_def by (metis mark_ok_new)
  with assms None show ?thesis by (simp add: getLiveCounter_def counters_ok_def)
qed (simp add: getLiveCounter_def assms)

lemma counters_ok_bytes:
  assumes "counters_ok s"
  shows "counters_ok (count_bytes x n m s)"
proof (cases "ts_live s x")
  case (Some iu)
  obtain i u where iu: "iu = (i, u)" by (cases iu)
  with assms Some have "mark_ok (Some (i + int n, u + int m)) (ts_flushed s x)"
    unfolding counters_ok_def by (metis mark_ok_more)
  with assms Some iu show ?thesis by (simp add: count_bytes_def counters_ok_def)
qed (simp add: count_bytes_def assms)

lemma counters_ok_flush:
  assumes "counters_ok s" and "db_wf (ts_db s)"
  shows "counters_ok (flush_tick now order s)"
  using assms(1) mark_ok_flushed [OF _ flush_tick_facts(3) [OF assms(2)]]
  by (simp add: counters_ok_def)

text \<open>Which parts of the state each operation leaves alone.\<close>

lemma frame_sessions [simp]:
  "ts_live (snd (register_session c s)) = ts_live s"
  "ts_flushed (snd (register_session c s)) = ts_flushed s"
  "ts_listeners (snd (register_session c s)) = ts_listeners s"
  "ts_db (snd (register_session c s)) = ts_db s"
  "ts_live (close_session i s) = ts_live s" "ts_flushed (close_session i s) = ts_flushed s"
  "ts_listeners (close_session i s) = ts_listeners s"
  "ts_live (unregister_session i s) = ts_live s"
  "ts_flushed (unregister_session i s) = ts_flushed s"
  "ts_listeners (unregister_session i s) = ts_listeners s"
  "ts_db (unregister_session i s) = ts_db s"
  "ts_live (snd (PushUninstall wok cid s)) = ts_live s"
  "ts_flushed (snd (PushUninstall wok cid s)) = ts_flushed s"
  "ts_listeners (snd (PushUninstall wok cid s)) = ts_listeners s"
  "ts_db (snd (PushUninstall wok cid s)) = ts_db s"
  by (simp_all add: register_session_def close_session_def unregister_session_def
      PushUninstall_def Let_def split: option.split)

lemma frame_push [simp]:
  "ts_live (pushTunnelConfig now wok i s) = ts_live s"
  "ts_flushed (pushTunnelConfig now wok i s) = ts_flushed s"
  "ts_listeners (pushTunnelConfig now wok i s) = ts_listeners s"
  "ts_db (pushTunnelConfig now wok i s)
     = snd (UpdateClientLastSeen now (cs_clientID (ts_heap s ! i)) (ts_db s))"
  by (simp_all add: pushTunnelConfig_def Let_def split: sum.split)

lemma frame_reconcile [simp]:
  "ts_heap (reconcile_begin s) = ts_heap s" "ts_sessions (reconcile_begin s) = ts_sessions s"
  "ts_live (reconcile_begin s) = ts_live s" "ts_flushed (reconcile_begin s) = ts_flushed s"
  "ts_listeners (reconcile_begin s) = ts_listeners s" "ts_db (reconcile_begin s) = ts_db s"
  "ts_heap (reconcile_apply os order s) = ts_heap s"
  "ts_sessions (reconcile_apply os order s) = ts_sessions s"
  "ts_live (reconcile_apply os order s) = ts_live s"
  "ts_flushed (reconcile_apply os order s) = ts_flushed s"
  "ts_db (reconcile_apply os order s) = ts_db s"
  by (simp_all add: reconcile_begin_def reconcile_apply_def Let_def split: sum.split option.split)

lemma frame_counter [simp]:
  "ts_heap (getLiveCounter x s) = ts_heap s" "ts_sessions (getLiveCounter x s) = ts_sessions s"
  "ts_listeners (getLiveCounter x s) = ts_listeners s" "ts_db (getLiveCounter x s) = ts_db s"
  "ts_heap (count_bytes x n m s) = ts_heap s" "ts_sessions (count_bytes x n m s) = ts_sessions s"
  "ts_listeners (count_bytes x n m s) = ts_listeners s" "ts_db (count_bytes x n m s) = ts_db s"
  by (simp_all add: getLiveCounter_def count_bytes_def split: option.split)

lemma sessions_ok_same:
  "sessions_ok s \<Longrightarrow> ts_heap s' = ts_heap s \<Longrightarrow> ts_sessions s' = ts_sessions s \<Longrightarrow> sessions_ok s'"
  by (simp add: sessions_ok_def)

lemma server_ok_intro:
  assumes "server_ok s" and "sessions_ok s'" and "listeners_ok (ts_listeners s')"
    and "ts_live s' = ts_live s" "ts_flushed s' = ts_flushed s" and "db_wf (ts_db s')"
  shows "server_ok s'"
  using assms counters_ok_frame [of s s'] by (simp add: server_ok_def)

lemma server_okD:
  assumes "server_ok s"
  shows "sessions_ok s" "listeners_ok (ts_listeners s)" "counters_ok s" "db_wf (ts_db s)"
  using assms by (simp_all add: server_ok_def)

lemma proxyConn_ok:
  assumes "server_ok s"
  shows "server_ok (snd (proxyConn ook wok t remote s))"
proof (cases "fst (proxyConn ook wok t remote s)")
  case False
  then have "snd (proxyConn ook wok t remote s) = s"
    by (auto simp: proxyConn_def Let_def split: option.splits if_splits)
  with assms show ?thesis by simp
next
  case True
  then obtain i where i: "ts_sessions s (t_ClientID t) = Some i"
    by (auto simp: proxyConn_def split: option.splits)
  let ?new = "(ts_heap s ! i)\<lparr>cs_streams := cs_streams (ts_heap s ! i)
      @ [\<lparr>sh_TunnelID = t_ID t, sh_RemoteAddr = remote\<rparr>]\<rparr>"
  let ?s1 = "s\<lparr>ts_active := ts_active s + 1, ts_heap := (ts_heap s)[i := ?new]\<rparr>"
  note ok = server_okD [OF assms]
  have len: "i < length (ts_heap s)" using sessions_okD(1) [OF ok(1) i] by simp
  have "pushed_ok ?new" using sessions_okD(3) [OF ok(1) len] by (simp add: pushed_ok_def)
  then have "sessions_ok ?s1"
    using len by (intro sessions_ok_update [OF ok(1), of i ?new]) simp_all
  then have "sessions_ok (getLiveCounter (t_ID t) ?s1)"
    by (rule sessions_ok_same) simp_all
  moreover have "counters_ok (getLiveCounter (t_ID t) ?s1)"
    by (rule counters_ok_counter, rule counters_ok_frame [OF ok(3)]) simp_all
  moreover have "snd (proxyConn ook wok t remote s) = getLiveCounter (t_ID t) ?s1"
    using True i by (auto simp: proxyConn_def Let_def split: if_splits)
  ultimately show ?thesis using ok by (simp add: server_ok_def)
qed

lemma goroutine_ok:
  assumes "goroutine s s'" and "server_ok s"
  shows "server_ok s'"
  using assms(1)
proof cases
  case (register c)
  have "sessions_ok (snd (register_session c s))"
    by (rule register_session_ok(1) [OF server_okD(1) [OF assms(2)]]) (rule surjective_pairing)
  with register server_okD [OF assms(2)] show ?thesis
    by (intro server_ok_intro [OF assms(2)]) auto
next
  case (push i now wok)
  with server_okD [OF assms(2)] show ?thesis
    by (intro server_ok_intro [OF assms(2)])
       (auto simp: pushTunnelConfig_ok intro: keepsD [OF keeps_client_methods(3)])
next
  case (close i)
  with server_okD [OF assms(2)] show ?thesis
    by (intro server_ok_intro [OF assms(2)]) (auto simp: close_session_ok)
next
  case (unregister i)
  with server_okD [OF assms(2)] show ?thesis
    by (intro server_ok_intro [OF assms(2)]) (auto simp: unregister_session_ok)
next
  case (uninstall wok cid)
  with server_okD [OF assms(2)] show ?thesis
    by (intro server_ok_intro [OF assms(2)]) (auto simp: PushUninstall_ok)
next
  case (devices cid ds)
  with server_okD [OF assms(2)] show ?thesis
    by (intro server_ok_intro [OF assms(2)])
       (auto simp: acceptDeviceReport_def intro: sessions_ok_same)
next
  case run
  with server_okD [OF assms(2)] show ?thesis
    by (intro server_ok_intro [OF assms(2)]) (auto simp: RunControl_def intro: sessions_ok_same)
next
  case run_mc
  with server_okD [OF assms(2)] show ?thesis
    by (intro server_ok_intro [OF assms(2)])
       (auto simp: RunMinecraftRouter_def intro: sessions_ok_same)
next
  case reconcile_read
  with server_okD [OF assms(2)] show ?thesis
    by (intro server_ok_intro [OF assms(2)]) (auto intro: sessions_ok_same)
next
  case (reconcile_write os order)
  with server_okD [OF assms(2)] show ?thesis
    by (intro server_ok_intro [OF assms(2)]) (auto intro: sessions_ok_same reconcile_apply_ok)
next
  case shutdown
  with server_okD [OF assms(2)] show ?thesis
    by (intro server_ok_intro [OF assms(2)])
       (auto simp: Shutdown_def listeners_ok_def intro: sessions_ok_same)
next
  case (proxy ook wok t remote)
  with assms(2) show ?thesis by (simp add: proxyConn_ok)
next
  case (counter x)
  with server_okD [OF assms(2)] show ?thesis
    by (auto simp: server_ok_def counters_ok_counter intro: sessions_ok_same)
next
  case (bytes x n m)
  with server_okD [OF assms(2)] show ?thesis
    by (auto simp: server_ok_def counters_ok_bytes intro: sessions_ok_same)
next
  case proxy_done
  with server_okD [OF assms(2)] show ?thesis
    by (intro server_ok_intro [OF assms(2)]) (auto simp: proxy_end_def intro: sessions_ok_same)
next
  case (flush now order)
  with server_okD [OF assms(2)] show ?thesis
    by (auto simp: server_ok_def counters_ok_flush flush_tick_facts(1) intro: sessions_ok_same)
qed

lemma tstep_ok:
  assumes "tstep sha s s'" and "server_ok s"
  shows "server_ok s'"
  using assms(1)
proof cases
  case server
  then show ?thesis using assms(2) by (rule goroutine_ok)
next
  case (database c)
  with server_okD [OF assms(2)] show ?thesis
    by (intro server_ok_intro [OF assms(2)]) (auto simp: exec_call_wf intro: sessions_ok_same)
qed

lemma ts_reach_ok: "ts_reach sha s \<Longrightarrow> server_ok s"
proof (induction rule: ts_reach.induct)
  case (start d)
  then have "db_wf d" by (rule db_reach_wf)
  then show ?case
    using NewServer_ok [of d] by (simp add: server_ok_def NewServer_def listeners_ok_def counters_ok_def
        mark_ok_def)
qed (rule tstep_ok)


lemma unregister_other:
  "ts_sessions s (cs_clientID (ts_heap s ! i)) \<noteq> Some i \<Longrightarrow> unregister_session i s = s"
  by (simp add: unregister_session_def Let_def)

lemma deleted_lookup:
  assumes "db_wf d" and "DeleteClient now cid d = (Inr u, d')"
    and "fst (GetClientByTokenHash h d) = Inr c" and "c_ID c = cid"
  shows "fst (GetClientByTokenHash h d') = Inl ErrNoRows" and "IsTokenRevoked h d'"
proof -
  show "fst (GetClientByTokenHash h d') = Inl ErrNoRows"
    using machines.lookup_withdraw [OF assms(1,2), of h] assms(3,4) by simp
  obtain b where b: "d_open d" "b \<in> set (d_clients d)" "c_ID b = cid"
    and d': "d' = (cascade_clients (\<lambda>c. c_ID c = cid) d)
      \<lparr>d_revoked := (d_revoked d)(c_TokenHash b \<mapsto> now)\<rparr>"
    using assms(2) by (rule DeleteClient_InrE)
  have "b = c"
    using b GetClientByTokenHash_row [OF assms(3)] assms(4)
      key_unique [OF clients_ok_ids [OF db_wfD(2) [OF assms(1)]]] by metis
  with b(1) d' GetClientByTokenHash_row [OF assms(3)] show "IsTokenRevoked h d'"
    by (simp add: IsTokenRevoked_def)
qed

section \<open>Properties\<close>

text \<open>
  C19. The server's invariant. In every state the server can reach, under any interleaving of its
  goroutines with the API's database calls: a machine has at most one open session and it is the
  registered one, a registered session belongs to its machine, no two public listeners share a
  port, no flush mark is ahead of its counter, and the database is consistent.
\<close>

theorem server_invariant:
  assumes "ts_reach sha s"
  shows "(\<forall>i < length (ts_heap s). \<forall>j < length (ts_heap s).
        \<not> cs_closed (ts_heap s ! i) \<longrightarrow> \<not> cs_closed (ts_heap s ! j)
        \<longrightarrow> cs_clientID (ts_heap s ! i) = cs_clientID (ts_heap s ! j) \<longrightarrow> i = j)
    \<and> (\<forall>cid i. ts_sessions s cid = Some i \<longrightarrow> cs_clientID (ts_heap s ! i) = cid)
    \<and> distinct (map port_key (ts_listeners s)) \<and> distinct (map fst (ts_listeners s))
    \<and> (\<forall>x i u. ts_live s x = Some (i, u) \<longrightarrow> fst (ts_flushed s x) \<le> i \<and> snd (ts_flushed s x) \<le> u)
    \<and> db_wf (ts_db s)"
proof -
  note ok = server_okD [OF ts_reach_ok [OF assms]]
  have "i = j" if "i < length (ts_heap s)" "j < length (ts_heap s)" "\<not> cs_closed (ts_heap s ! i)"
    "\<not> cs_closed (ts_heap s ! j)" "cs_clientID (ts_heap s ! i) = cs_clientID (ts_heap s ! j)" for i j
    using sessions_okD(2) [OF ok(1) that(1,3)] sessions_okD(2) [OF ok(1) that(2,4)] that(5)
    by (metis option.inject)
  moreover have "cs_clientID (ts_heap s ! i) = cid" if "ts_sessions s cid = Some i" for cid i
    using sessions_okD(1) [OF ok(1) that] by simp
  moreover have "fst (ts_flushed s x) \<le> i \<and> snd (ts_flushed s x) \<le> u"
    if "ts_live s x = Some (i, u)" for x i u
    using ok(3) that unfolding counters_ok_def mark_ok_def
    by (metis (no_types, lifting) case_prod_conv option.simps(5))
  ultimately show ?thesis using ok(2,4) by (simp add: listeners_ok_def)
qed

text \<open>
  Reconnecting. When a machine connects while an older session of it is registered, the older
  one is closed and replaced, and the older connection's clean-up, whenever it runs, leaves the
  new session registered.
\<close>

theorem reconnect_survives_stale_disconnect:
  assumes "sessions_ok s" and "ts_sessions s (c_ID c) = Some i"
    and "register_session c s = (j, s')"
  shows "i \<noteq> j \<and> cs_closed (ts_heap s' ! i) \<and> \<not> cs_closed (ts_heap s' ! j)
    \<and> ts_sessions (unregister_session i s') (c_ID c) = Some j"
proof -
  have i: "i < length (ts_heap s)" "cs_clientID (ts_heap s ! i) = c_ID c"
    using sessions_okD(1) [OF assms(1,2)] by simp_all
  from assms(2,3) have j: "j = length (ts_heap s)"
    and heap: "ts_heap s' = ts_heap (close_session i s) @ [\<lparr>cs_clientID = c_ID c,
      cs_name = c_Name c, cs_closed = False, cs_control = [], cs_streams = [], cs_lastPushed = []\<rparr>]"
    by (auto simp: register_session_def Let_def)
  note reg = register_session_ok(2,4) [OF assms(1,3)]
  have "cs_closed (ts_heap s' ! i)" "cs_clientID (ts_heap s' ! i) = c_ID c"
    using i by (simp_all add: heap nth_append)
  moreover have "i \<noteq> j" using i j by simp
  ultimately show ?thesis using reg unregister_other [of s' i] by simp
qed

text \<open>
  Connections reach only the owner. A proxied connection of a tunnel opens exactly one stream,
  on the open session registered for the machine that owns the tunnel, headed by the tunnel's
  id; every other session is untouched, and the connection is counted for the drain.
\<close>

theorem proxy_reaches_owner:
  assumes "proxyConn ook wok t remote s = (True, s')" and "sessions_ok s"
  shows "\<exists>i. ts_sessions s (t_ClientID t) = Some i \<and> cs_clientID (ts_heap s ! i) = t_ClientID t
    \<and> \<not> cs_closed (ts_heap s ! i)
    \<and> cs_streams (ts_heap s' ! i) = cs_streams (ts_heap s ! i)
        @ [\<lparr>sh_TunnelID = t_ID t, sh_RemoteAddr = remote\<rparr>]
    \<and> (\<forall>j. j \<noteq> i \<longrightarrow> ts_heap s' ! j = ts_heap s ! j)
    \<and> ts_active s' = ts_active s + 1 \<and> ts_live s' (t_ID t) \<noteq> None"
proof -
  from assms(1) obtain i where i: "ts_sessions s (t_ClientID t) = Some i"
    and open_i: "\<not> cs_closed (ts_heap s ! i)"
    and s': "s' = getLiveCounter (t_ID t) (s\<lparr>ts_active := ts_active s + 1,
       ts_heap := (ts_heap s)[i := (ts_heap s ! i)\<lparr>cs_streams := cs_streams (ts_heap s ! i)
         @ [\<lparr>sh_TunnelID = t_ID t, sh_RemoteAddr = remote\<rparr>]\<rparr>]\<rparr>)"
    by (auto simp: proxyConn_def Let_def split: option.splits if_splits)
  have len: "i < length (ts_heap s)" "cs_clientID (ts_heap s ! i) = t_ClientID t"
    using sessions_okD(1) [OF assms(2) i] by simp_all
  have "ts_active s' = ts_active s + 1" "ts_live s' (t_ID t) \<noteq> None"
    by (simp_all add: s' getLiveCounter_def split: option.split)
  with i open_i len show ?thesis by (intro exI [of _ i]) (simp add: s')
qed

text \<open>
  Removing a machine reaches it. Once a machine has been deleted, its token is refused and the
  refusal tells it to uninstall; and while it is still connected, the pushed uninstall order is
  the last frame on its control stream.
\<close>

theorem deleted_machine_uninstalls:
  assumes "db_wf (ts_db s)" and "DeleteClient now (c_ID c) (ts_db s) = (Inr u, d')"
    and "fst (GetClientByTokenHash (HashToken sha token) (ts_db s)) = Inr c"
    and "ts_sessions s (c_ID c) = Some i" and "i < length (ts_heap s)"
    and "\<not> cs_closed (ts_heap s ! i)"
  shows "\<not> rs_OK (fst (auth_response sha token d')) \<and> rs_Uninstall (fst (auth_response sha token d'))
    \<and> fst (PushUninstall True (c_ID c) s)
    \<and> tp_Uninstall (last (cs_control (ts_heap (snd (PushUninstall True (c_ID c) s)) ! i)))"
  using deleted_lookup [OF assms(1,2,3) refl] assms(4-6)
  by (simp add: auth_response_def PushUninstall_def Let_def)

section \<open>Witnesses\<close>

lemma example_reach: "db_reach id d \<Longrightarrow> ts_reach id (snd (register_session example_client (NewServer d)))"
  by (rule ts_reach.step [OF ts_reach.start tstep.server [OF goroutine.register]])

theorem server_invariant_witness:
  "db_wf (ts_db (snd (register_session example_client (NewServer fresh_db))))"
  using server_invariant [OF example_reach [OF db_reach.fresh]] by simp

theorem reconnect_survives_stale_disconnect_witness:
  "ts_sessions (unregister_session 0 (snd (register_session example_client example_server))) ''c1''
   = Some 1"
proof -
  have "c_ID example_client = ''c1''"
    by (simp add: example_client_def example_db_def)
  moreover have "ts_sessions example_server ''c1'' = Some 0"
    by (simp add: example_server_def register_session_def NewServer_def example_client_def example_db_def)
  moreover have "register_session example_client example_server
      = (1, snd (register_session example_client example_server))"
    using calculation by (simp add: register_session_def Let_def example_server_session)
  ultimately show ?thesis
    using reconnect_survives_stale_disconnect [OF example_server_ok, of example_client 0 1] by simp
qed

theorem proxy_reaches_owner_witness:
  "fst (proxyConn True True (scanTunnel (example_tunnel ''t1'' 8080)) ''9.9.9.9:5'' example_server)
   \<and> ts_active (snd (proxyConn True True (scanTunnel (example_tunnel ''t1'' 8080)) ''9.9.9.9:5''
        example_server)) = 1"
proof -
  have f: "fst (proxyConn True True (scanTunnel (example_tunnel ''t1'' 8080)) ''9.9.9.9:5'' example_server)"
    "ts_active example_server = 0"
    by (simp_all add: proxyConn_def example_server_def register_session_def NewServer_def
        example_client_def example_db_def scanTunnel_def example_tunnel_def Let_def)
  then have p: "proxyConn True True (scanTunnel (example_tunnel ''t1'' 8080)) ''9.9.9.9:5'' example_server
      = (True, snd (proxyConn True True (scanTunnel (example_tunnel ''t1'' 8080)) ''9.9.9.9:5''
          example_server))"
    by (simp add: prod_eq_iff)
  from proxy_reaches_owner [OF p example_server_ok] f show ?thesis by auto
qed

theorem deleted_machine_uninstalls_witness:
  "rs_Uninstall (fst (auth_response id ''ptly_01'' (snd (DeleteClient 9 ''c2'' ex_created))))"
proof -
  let ?s = "snd (register_session ex_client (NewServer ex_created))"
  have wf: "db_wf ex_created"
    by (simp add: db_wf_def ex_created_def fresh_db_def admins_ok_def clients_ok_def tunnels_ok_def
        ports_ok_def samples_ok_def codes_ok_def keys_ok_def)
  have id: "c_ID ex_client = ''c2''" by (simp add: ex_client_def)
  have "ts_db ?s = ex_created" "ts_sessions ?s (c_ID ex_client) = Some 0"
    "length (ts_heap ?s) = 1" "\<not> cs_closed (ts_heap ?s ! 0)"
    by (simp_all add: register_session_def NewServer_def)
  moreover have "DeleteClient 9 ''c2'' ex_created = (Inr (), snd (DeleteClient 9 ''c2'' ex_created))"
    by (simp add: DeleteClient_eq ex_created_def fresh_db_def ex_client_def)
  moreover have "fst (GetClientByTokenHash (HashToken id ''ptly_01'') ex_created) = Inr ex_client"
    by (simp add: GetClientByTokenHash_def queryM_def row_or_err_def ex_created_def fresh_db_def
        ex_client_def)
  ultimately show ?thesis
    using deleted_machine_uninstalls [of ?s 9 ex_client "()" "snd (DeleteClient 9 ''c2'' ex_created)"
        id "''ptly_01''" 0] wf id by simp
qed

end
