(* ===== verification/NetAddr.thy ===== *)
theory NetAddr
imports Tokens
begin

text \<open>
  The part of Go's \<open>net\<close> package the program calls, on byte strings: joining and splitting
  \<open>host:port\<close>, parsing IP addresses and printing them. An \<open>IP\<close> is the list of its bytes, sixteen
  after \<open>ParseIP\<close>, an IPv4 address being mapped to \<open>::ffff:a.b.c.d\<close>.
\<close>

section \<open>Host and port\<close>

definition JoinHostPort :: "string \<Rightarrow> string \<Rightarrow> string" where
  "JoinHostPort host port =
     (if CHR '':'' \<in> set host then ''['' @ host @ '']:'' @ port else host @ '':'' @ port)"

fun IndexByte :: "string \<Rightarrow> char \<Rightarrow> nat option" where
  "IndexByte [] c = None"
| "IndexByte (x # xs) c = (if x = c then Some 0 else map_option Suc (IndexByte xs c))"

definition LastIndexByte :: "string \<Rightarrow> char \<Rightarrow> nat option" where
  "LastIndexByte s c = map_option (\<lambda>i. length s - 1 - i) (IndexByte (rev s) c)"

text \<open>No caller tells the errors apart.\<close>

definition SplitHostPort :: "string \<Rightarrow> (string \<times> string) option" where
  "SplitHostPort hp =
     (case LastIndexByte hp (CHR '':'') of
        None \<Rightarrow> None
      | Some i \<Rightarrow>
          (case (if hp ! 0 = CHR ''[''
                 then (case IndexByte hp (CHR '']'') of
                         None \<Rightarrow> None
                       | Some end_ \<Rightarrow>
                           if end_ + 1 = i then Some (take (end_ - 1) (drop 1 hp), 1, end_ + 1) else None)
                 else if CHR '':'' \<in> set (take i hp) then None else Some (take i hp, 0, 0)) of
             None \<Rightarrow> None
           | Some (host, j, k) \<Rightarrow>
               if CHR ''['' \<in> set (drop j hp) then None
               else if CHR '']'' \<in> set (drop k hp) then None
               else Some (host, drop (i + 1) hp)))"

lemma IndexByte_append: "c \<notin> set p \<Longrightarrow> IndexByte (p @ c # s) c = Some (length p)"
  by (induction p) auto

lemma LastIndexByte_append: "c \<notin> set s \<Longrightarrow> LastIndexByte (p @ c # s) c = Some (length p)"
  using IndexByte_append [of c "rev s" "rev p"] by (simp add: LastIndexByte_def)

text \<open>What was joined is split again, unless the host has brackets or the port a separator.\<close>

lemma SplitHostPort_Join:
  assumes "CHR ''['' \<notin> set host" "CHR '']'' \<notin> set host"
    and "CHR ''['' \<notin> set port" "CHR '']'' \<notin> set port" "CHR '':'' \<notin> set port"
  shows "SplitHostPort (JoinHostPort host port) = Some (host, port)"
proof (cases "CHR '':'' \<in> set host")
  case True
  have i: "LastIndexByte ((CHR ''['' # host @ [CHR '']'']) @ CHR '':'' # port) (CHR '':'')
      = Some (length host + 2)"
    by (subst LastIndexByte_append) (simp_all add: assms)
  have e: "IndexByte ((CHR ''['' # host) @ CHR '']'' # CHR '':'' # port) (CHR '']'') = Some (length host + 1)"
    by (subst IndexByte_append) (simp_all add: assms)
  from True i e show ?thesis
    by (simp add: SplitHostPort_def JoinHostPort_def assms)
next
  case False
  have i: "LastIndexByte (host @ CHR '':'' # port) (CHR '':'') = Some (length host)"
    by (rule LastIndexByte_append) (rule assms)
  have "(host @ CHR '':'' # port) ! 0 \<noteq> CHR ''[''"
    using assms(1) by (cases host) auto
  with False i show ?thesis
    by (simp add: SplitHostPort_def JoinHostPort_def assms)
qed

section \<open>IPv4 text\<close>

definition To4 :: "byte list \<Rightarrow> byte list option" where
  "To4 ip =
     (if length ip = 4 then Some ip
      else if length ip = 16 \<and> list_all (\<lambda>b. b = 0) (take 10 ip) \<and> ip ! 10 = 0xFF \<and> ip ! 11 = 0xFF
      then Some (drop 12 ip) else None)"

definition v4_mapped :: "byte list \<Rightarrow> byte list" where
  "v4_mapped b = replicate 10 0 @ [0xFF, 0xFF] @ b"

text \<open>The loop over the characters: the previous one, the octet read so far, its digits.\<close>

fun parseIPv4_loop :: "string \<Rightarrow> char option \<Rightarrow> nat \<Rightarrow> nat \<Rightarrow> byte list \<Rightarrow> byte list option" where
  "parseIPv4_loop [] prev val digLen fields =
     (if length fields < 3 then None else Some (fields @ [word_of_nat val]))"
| "parseIPv4_loop (c # cs) prev val digLen fields =
     (if is_digit c then
        if digLen = 1 \<and> val = 0 then None
        else let val' = val * 10 + digit_val c
             in if val' > 255 then None else parseIPv4_loop cs (Some c) val' (digLen + 1) fields
      else if c = CHR ''.'' then
        if prev = None \<or> cs = [] \<or> prev = Some (CHR ''.'') then None
        else if length fields = 3 then None
        else parseIPv4_loop cs (Some c) 0 0 (fields @ [word_of_nat val])
      else None)"

definition parseIPv4 :: "string \<Rightarrow> byte list option" where
  "parseIPv4 s = parseIPv4_loop s None 0 0 []"

definition dotted :: "byte list \<Rightarrow> string" where
  "dotted b = dec_nat (unat (b ! 0)) @ ''.'' @ dec_nat (unat (b ! 1)) @ ''.'' @
     dec_nat (unat (b ! 2)) @ ''.'' @ dec_nat (unat (b ! 3))"

section \<open>IPv6 text\<close>

definition is_hexdig :: "char \<Rightarrow> bool" where
  "is_hexdig c \<longleftrightarrow> is_hex c \<or> (65 \<le> (of_char c :: nat) \<and> (of_char c :: nat) \<le> 70)"

definition hex_val :: "char \<Rightarrow> nat" where
  "hex_val c = (if is_digit c then of_char c - 48
                else if 97 \<le> (of_char c :: nat) then of_char c - 87 else of_char c - 55)"

definition hex_acc :: "string \<Rightarrow> nat" where
  "hex_acc s = foldl (\<lambda>n c. 16 * n + hex_val c) 0 s"

text \<open>
  The loop over the groups, with room for at most \<open>n\<close> more: the text left, the bytes so far and
  the position of the ellipsis.
\<close>

fun parseIPv6_loop :: "nat \<Rightarrow> string \<Rightarrow> byte list \<Rightarrow> nat option
    \<Rightarrow> (string \<times> byte list \<times> nat option) option" where
  "parseIPv6_loop 0 s ip ell = Some (s, ip, ell)"
| "parseIPv6_loop (Suc n) s ip ell =
     (let digs = takeWhile is_hexdig s;
          rest = dropWhile is_hexdig s;
          ip' = ip @ [word_of_nat (hex_acc digs div 256), word_of_nat (hex_acc digs)]
      in if length digs > 4 \<or> digs = [] then None
         else case rest of
           [] \<Rightarrow> Some ([], ip', ell)
         | c # s1 \<Rightarrow>
             if c = CHR ''.'' then
               if ell = None \<and> length ip \<noteq> 12 then None
               else if length ip + 4 > 16 then None
               else map_option (\<lambda>v4. ([], ip @ v4, ell)) (parseIPv4 s)
             else if c \<noteq> CHR '':'' then None
             else case s1 of
               [] \<Rightarrow> None
             | d # s2 \<Rightarrow>
                 if d = CHR '':'' then
                   if ell \<noteq> None then None
                   else if s2 = [] then Some ([], ip', Some (length ip'))
                   else parseIPv6_loop n s2 ip' (Some (length ip'))
                 else parseIPv6_loop n s1 ip' ell)"

text \<open>The zeros go in at the ellipsis.\<close>

definition expand_ellipsis :: "string \<times> byte list \<times> nat option \<Rightarrow> byte list option" where
  "expand_ellipsis r =
     (case r of (s, ip, ell) \<Rightarrow>
        if s \<noteq> [] then None
        else if length ip < 16 then
          map_option (\<lambda>e. take e ip @ replicate (16 - length ip) 0 @ drop e ip) ell
        else if ell \<noteq> None then None
        else Some ip)"

definition parseIPv6 :: "string \<Rightarrow> byte list option" where
  "parseIPv6 s =
     (if HasPrefix s ''::'' then
        if drop 2 s = [] then Some (replicate 16 0)
        else Option.bind (parseIPv6_loop 8 (drop 2 s) [] (Some 0)) expand_ellipsis
      else Option.bind (parseIPv6_loop 8 s [] None) expand_ellipsis)"

text \<open>The first separator decides; an address with a zone is not an \<open>IP\<close>.\<close>

definition ParseIP :: "string \<Rightarrow> byte list option" where
  "ParseIP s =
     (case find (\<lambda>c. c = CHR ''.'' \<or> c = CHR '':'' \<or> c = CHR ''%'') s of
        None \<Rightarrow> None
      | Some c \<Rightarrow>
          if c = CHR ''.'' then map_option v4_mapped (parseIPv4 s)
          else if c = CHR '':'' then (if CHR ''%'' \<in> set s then None else parseIPv6 s)
          else None)"

fun hex_nat :: "nat \<Rightarrow> string" where
  "hex_nat n = (if n < 16 then [hex_digit n] else hex_nat (n div 16) @ [hex_digit (n mod 16)])"

declare hex_nat.simps [simp del]

definition v6u16 :: "byte list \<Rightarrow> nat list" where
  "v6u16 ip = map (\<lambda>i. unat (ip ! (2 * i)) * 256 + unat (ip ! (2 * i + 1))) [0..<8]"

text \<open>The longest run of at least two zero groups, the first of the longest: \<open>None\<close> without one.\<close>

definition run_at :: "nat list \<Rightarrow> nat \<Rightarrow> nat" where
  "run_at gs i = length (takeWhile (\<lambda>g. g = 0) (drop i gs))"

definition zero_step :: "nat list \<Rightarrow> nat \<Rightarrow> (nat \<times> nat) option \<Rightarrow> (nat \<times> nat) option" where
  "zero_step gs i best =
     (if run_at gs i \<ge> 2 \<and> run_at gs i > (case best of None \<Rightarrow> 0 | Some (z, e) \<Rightarrow> e - z)
      then Some (i, i + run_at gs i) else best)"

definition zero_run :: "nat list \<Rightarrow> (nat \<times> nat) option" where
  "zero_run gs = fold (zero_step gs) [0..<8] None"

fun colons :: "nat list \<Rightarrow> string" where
  "colons [] = []"
| "colons [g] = hex_nat g"
| "colons (g # h # gs) = hex_nat g @ '':'' @ colons (h # gs)"

definition string6 :: "byte list \<Rightarrow> string" where
  "string6 ip =
     (let gs = v6u16 ip
      in case zero_run gs of
           None \<Rightarrow> colons gs
         | Some (z, e) \<Rightarrow> colons (take z gs) @ ''::'' @ colons (drop e gs))"

definition ip_String :: "byte list \<Rightarrow> string" where
  "ip_String ip = (case To4 ip of Some b \<Rightarrow> dotted b | None \<Rightarrow> string6 ip)"

section \<open>Printing and parsing IPv4\<close>

lemma dec_nat_octet:
  assumes "n < 1000"
  shows "dec_nat n = (if n < 10 then [digit_char n]
    else if n < 100 then [digit_char (n div 10), digit_char (n mod 10)]
    else [digit_char (n div 100), digit_char (n div 10 mod 10), digit_char (n mod 10)])"
proof -
  have "n div 100 < 10" "n div 10 < 10 \<longleftrightarrow> n < 100" using assms by auto
  then show ?thesis
    by (simp add: dec_nat.simps [of n] dec_nat.simps [of "n div 10"] dec_nat.simps [of "n div 100"]
        div_mult2_eq [symmetric])
qed

lemma digit_char_dot [simp]: "n < 10 \<Longrightarrow> digit_char n \<noteq> CHR ''.''" "n < 10 \<Longrightarrow> digit_char n \<noteq> CHR '':''"
   "n < 10 \<Longrightarrow> digit_char n \<noteq> CHR ''%''"
  by (auto dest: arg_cong [of _ _ "of_char :: char \<Rightarrow> nat"] simp: digit_char_def)

lemma parse_octet:
  assumes "n < 256"
  shows "\<exists>c l. c \<noteq> CHR ''.'' \<and> parseIPv4_loop (dec_nat n @ rest) prev 0 0 fs = parseIPv4_loop rest (Some c) n l fs"
proof -
  have *: "n div 10 mod 10 < 10" "n mod 10 < 10" "n div 100 < 10" using assms by auto
  consider "n < 10" | "10 \<le> n" "n < 100" | "100 \<le> n" by linarith
  then show ?thesis
  proof cases
    case 1
    then show ?thesis by (intro exI [of _ "digit_char n"] exI [of _ 1]) (simp add: dec_nat_octet)
  next
    case 2
    then have "n div 10 < 10" "n div 10 \<noteq> 0" "n div 10 * 10 + n mod 10 = n" by simp_all
    with 2 * assms show ?thesis
      by (intro exI [of _ "digit_char (n mod 10)"] exI [of _ "Suc (Suc 0)"])
         (auto simp: dec_nat_octet Let_def numeral_2_eq_2)
  next
    case 3
    have "(n div 100 * 10 + n div 10 mod 10) * 10 + n mod 10 = n"
    proof -
      have "n div 100 = n div 10 div 10" by (simp add: div_mult2_eq [symmetric])
      then show ?thesis by (simp only: div_mult_mod_eq)
    qed
    moreover have "n div 100 \<noteq> 0" "n div 100 * 10 + n div 10 mod 10 \<le> 255" "n div 100 \<le> 255" using 3 assms by auto
    ultimately show ?thesis using 3 * assms
      by (intro exI [of _ "digit_char (n mod 10)"] exI [of _ "Suc (Suc (Suc 0))"])
         (simp add: dec_nat_octet Let_def, intro impI, linarith)
  qed
qed

lemma parse_octet_dot:
  assumes "n < 256" and "length fs \<noteq> 3" and "rest \<noteq> []"
  shows "parseIPv4_loop (dec_nat n @ CHR ''.'' # rest) prev 0 0 fs
    = parseIPv4_loop rest (Some (CHR ''.'')) 0 0 (fs @ [word_of_nat n])"
proof -
  obtain c l where "c \<noteq> CHR ''.''" "parseIPv4_loop (dec_nat n @ CHR ''.'' # rest) prev 0 0 fs
      = parseIPv4_loop (CHR ''.'' # rest) (Some c) n l fs"
    using parse_octet [OF assms(1), of "CHR ''.'' # rest" prev fs] by (elim exE conjE) (rule that)
  with assms(2,3) show ?thesis by (simp add: is_digit_def)
qed

lemma parse_octet_end:
  assumes "n < 256" and "3 \<le> length fs"
  shows "parseIPv4_loop (dec_nat n) prev 0 0 fs = Some (fs @ [word_of_nat n])"
  using parse_octet [OF assms(1), of "[]" prev fs] assms(2) by auto

lemma parseIPv4_dotted:
  assumes "length b = 4"
  shows "parseIPv4 (dotted b) = Some b"
proof -
  obtain b0 b1 b2 b3 where b: "b = [b0, b1, b2, b3]"
    using assms by (auto simp: length_Suc_conv numeral_eq_Suc)
  show ?thesis
    by (simp add: b dotted_def parseIPv4_def parse_octet_dot parse_octet_end unat_less_256
        dec_nat_nonempty)
qed

lemma To4_mapped: "length b = 4 \<Longrightarrow> To4 (v4_mapped b) = Some b"
  by (auto simp: To4_def v4_mapped_def nth_append numeral_eq_Suc)

lemma To4_Some:
  assumes "To4 ip = Some b" and "length ip = 16"
  shows "length b = 4" and "ip = v4_mapped b"
proof -
  from assms have z: "list_all (\<lambda>b. b = 0) (take 10 ip)" "ip ! 10 = 0xFF" "ip ! 11 = 0xFF" "b = drop 12 ip"
    by (auto simp: To4_def split: if_splits)
  show "length b = 4" using z(4) assms(2) by simp
  have "take 10 ip = replicate 10 0"
    using z(1) assms(2) replicate_eqI [of "take 10 ip" 10 0] by (simp add: list_all_iff)
  moreover have "ip = take 10 ip @ [ip ! 10, ip ! 11] @ drop 12 ip"
    using assms(2) id_take_nth_drop [of 10 ip] Cons_nth_drop_Suc [of 11 ip] by simp
  ultimately show "ip = v4_mapped b" using z by (simp add: v4_mapped_def)
qed

lemma find_first: "list_all (\<lambda>c. \<not> P c) p \<Longrightarrow> P c \<Longrightarrow> find P (p @ c # s) = Some c"
  by (induction p) auto

lemma ParseIP_dotted:
  assumes "length b = 4"
  shows "ParseIP (dotted b) = Some (v4_mapped b)"
proof -
  have "list_all (\<lambda>c. \<not> (c = CHR ''.'' \<or> c = CHR '':'' \<or> c = CHR ''%'')) (dec_nat n)" for n
    using dec_nat_digits [of n] by (auto simp: list_all_iff is_digit_def)
  note find_first [OF this [of "unat (b ! 0)"]]
  then have "find (\<lambda>c. c = CHR ''.'' \<or> c = CHR '':'' \<or> c = CHR ''%'') (dotted b) = Some (CHR ''.'')"
    by (simp add: dotted_def)
  then show ?thesis by (simp add: ParseIP_def parseIPv4_dotted [OF assms])
qed

section \<open>Printing and parsing IPv6\<close>

lemma hex_digit_props [simp]:
  assumes "n < 16"
  shows "is_hexdig (hex_digit n)" and "hex_val (hex_digit n) = n"
  using assms by (auto simp: is_hexdig_def is_hex_def hex_val_def is_digit_def hex_digit_def)

lemma hexdig_sep [simp]: "\<not> is_hexdig (CHR '':'')" "\<not> is_hexdig (CHR ''.'')" "\<not> is_hexdig (CHR ''%'')"
  by (simp_all add: is_hexdig_def is_hex_def)

lemma hex_nat_digits: "list_all is_hexdig (hex_nat n)"
  by (induction n rule: hex_nat.induct) (subst hex_nat.simps, auto)

lemma hex_nat_nonempty [simp]: "hex_nat n \<noteq> []"
  by (subst hex_nat.simps) simp

lemma hex_acc_hex_nat: "hex_acc (hex_nat n) = n"
proof (induction n rule: hex_nat.induct)
  case (1 n)
  then show ?case by (subst hex_nat.simps) (auto simp: hex_acc_def)
qed

lemma length_hex_nat: "n < 16 ^ k \<Longrightarrow> 0 < k \<Longrightarrow> length (hex_nat n) \<le> k"
proof (induction k arbitrary: n)
  case (Suc k)
  show ?case
  proof (cases "n < 16")
    case False
    then have "0 < k" using Suc.prems(1) by (cases k) auto
    moreover have "n div 16 < 16 ^ k" using Suc.prems(1) by auto
    ultimately have "length (hex_nat (n div 16)) \<le> k" by (intro Suc.IH)
    with False show ?thesis by (subst hex_nat.simps) simp
  qed (subst hex_nat.simps, simp)
qed simp

definition bytes2 :: "nat \<Rightarrow> byte list" where
  "bytes2 g = [word_of_nat (g div 256), word_of_nat g]"

lemma length_bytes2 [simp]: "length (concat (map bytes2 gs)) = 2 * length gs"
  by (induction gs) (auto simp: bytes2_def)

lemma takeWhile_group:
  assumes "rest = [] \<or> hd rest = CHR '':''"
  shows "takeWhile is_hexdig (hex_nat g @ rest) = hex_nat g"
    and "dropWhile is_hexdig (hex_nat g @ rest) = rest"
  using assms hex_nat_digits [of g]
  by (cases rest; simp add: list_all_iff takeWhile_append2 dropWhile_append2)+

lemma parse_group:
  assumes "g < 65536" and "rest = [] \<or> hd rest = CHR '':''"
  shows "parseIPv6_loop (Suc n) (hex_nat g @ rest) ip ell =
    (case rest of
       [] \<Rightarrow> Some ([], ip @ bytes2 g, ell)
     | c # s1 \<Rightarrow> (case s1 of
           [] \<Rightarrow> None
         | d # s2 \<Rightarrow>
             if d = CHR '':'' then
               if ell \<noteq> None then None
               else if s2 = [] then Some ([], ip @ bytes2 g, Some (length (ip @ bytes2 g)))
               else parseIPv6_loop n s2 (ip @ bytes2 g) (Some (length (ip @ bytes2 g)))
             else parseIPv6_loop n s1 (ip @ bytes2 g) ell))"
proof -
  have l: "length (hex_nat g) \<le> 4" using length_hex_nat [of g 4] assms(1) by simp
  show ?thesis
    unfolding parseIPv6_loop.simps(2) Let_def takeWhile_group [OF assms(2)] hex_acc_hex_nat
    using assms(2) l by (cases rest) (simp_all add: bytes2_def split: list.split)
qed

lemma colons_Cons: "colons (g # gs) = hex_nat g @ (if gs = [] then [] else CHR '':'' # colons gs)"
  by (cases gs) simp_all

lemma colons_hd:
  assumes "gs \<noteq> []"
  shows "colons gs \<noteq> []" and "is_hexdig (hd (colons gs))"
proof -
  obtain g gs' where "gs = g # gs'" using assms by (cases gs) auto
  moreover have "is_hexdig (hd (hex_nat g))"
    using hex_nat_digits [of g] hex_nat_nonempty [of g] by (cases "hex_nat g") auto
  ultimately show "colons gs \<noteq> []" "is_hexdig (hd (colons gs))" by (simp_all add: colons_Cons)
qed

lemma colons_hdE:
  assumes "gs \<noteq> []"
  obtains c s where "colons gs = c # s" and "is_hexdig c" and "c \<noteq> CHR '':''"
proof (cases "colons gs")
  case (Cons c s)
  with colons_hd(2) [OF assms] show ?thesis by (intro that [of c s]) auto
qed (use colons_hd(1) [OF assms] in simp)

lemma parse_colons:
  "gs \<noteq> [] \<Longrightarrow> list_all (\<lambda>g. g < 65536) gs \<Longrightarrow> length gs \<le> n
   \<Longrightarrow> parseIPv6_loop n (colons gs) ip ell = Some ([], ip @ concat (map bytes2 gs), ell)"
proof (induction gs arbitrary: n ip)
  case (Cons g gs)
  then obtain m where n: "n = Suc m" by (cases n) auto
  show ?case
  proof (cases "gs = []")
    case True
    then show ?thesis using Cons.prems parse_group [of g "[]" m ip ell] by (simp add: n)
  next
    case False
    then obtain c s where c: "colons gs = c # s" "c \<noteq> CHR '':''" by (rule colons_hdE)
    show ?thesis
      using Cons.prems Cons.IH [OF False, of m "ip @ bytes2 g"] False
        parse_group [of g "CHR '':'' # colons gs" m ip ell] c
      by (simp add: n colons_Cons)
  qed
qed simp

lemma parse_colons_ellipsis:
  "gs \<noteq> [] \<Longrightarrow> list_all (\<lambda>g. g < 65536) gs \<Longrightarrow> length gs \<le> n
   \<Longrightarrow> parseIPv6_loop n (colons gs @ ''::'' @ t) ip None =
      (let ip' = ip @ concat (map bytes2 gs)
       in if t = [] then Some ([], ip', Some (length ip'))
          else parseIPv6_loop (n - length gs) t ip' (Some (length ip')))"
proof (induction gs arbitrary: n ip)
  case (Cons g gs)
  then obtain m where n: "n = Suc m" by (cases n) auto
  show ?case
  proof (cases "gs = []")
    case True
    then show ?thesis using Cons.prems parse_group [of g "''::'' @ t" m ip None] by (simp add: n)
  next
    case False
    then obtain c s where c: "colons gs = c # s" "c \<noteq> CHR '':''" by (rule colons_hdE)
    show ?thesis
      using Cons.prems Cons.IH [OF False, of m "ip @ bytes2 g"] False
        parse_group [of g "CHR '':'' # colons gs @ ''::'' @ t" m ip None] c
      by (simp add: n colons_Cons Let_def)
  qed
qed simp


lemma run_at_le: "i \<le> length gs \<Longrightarrow> i + run_at gs i \<le> length gs"
  using length_takeWhile_le [of "\<lambda>g. g = 0" "drop i gs"] by (simp add: run_at_def)

lemma zero_run_Some:
  assumes "zero_run gs = Some (z, e)" and "length gs = 8"
  shows "z + 2 \<le> e" and "e \<le> 8" and "gs = take z gs @ replicate (e - z) 0 @ drop e gs"
proof -
  let ?P = "\<lambda>best. \<forall>z e. best = Some (z, e) \<longrightarrow> z \<le> 8 \<and> 2 \<le> run_at gs z \<and> e = z + run_at gs z"
  have "?P (zero_step gs i best)" if "i \<le> 8" "?P best" for i best
  proof (cases "2 \<le> run_at gs i \<and> run_at gs i > (case best of None \<Rightarrow> 0 | Some (z, e) \<Rightarrow> e - z)")
    case True
    then have r: "zero_step gs i best = Some (i, i + run_at gs i)" "2 \<le> run_at gs i"
      unfolding zero_step_def by (rule if_P, elim conjE)
    show ?thesis
    proof (intro allI impI)
      fix z e
      assume "zero_step gs i best = Some (z, e)"
      with r(1) have "z = i" "e = i + run_at gs i" by simp_all
      with r(2) that(1) show "z \<le> 8 \<and> 2 \<le> run_at gs z \<and> e = z + run_at gs z" by simp
    qed
  next
    case False
    then have "zero_step gs i best = best" unfolding zero_step_def by (rule if_not_P)
    with that(2) show ?thesis by (simp only:)
  qed
  note step = this
  have "?P (zero_run gs)"
    unfolding zero_run_def
  proof (rule fold_invariant [where P = ?P and Q = "\<lambda>i. i \<le> 8"])
    show "i \<le> 8" if "i \<in> set [0..<8]" for i :: nat using that by simp
    show "?P (zero_step gs i best)" if "i \<le> 8" "?P best" for i best using that by (rule step)
  qed simp
  with assms(1) have z: "z \<le> 8" "2 \<le> run_at gs z" "e = z + run_at gs z" by auto
  show "z + 2 \<le> e" using z by simp
  show "e \<le> 8" using run_at_le [of z gs] z assms(2) by simp
  have "takeWhile (\<lambda>g. g = 0) (drop z gs) = replicate (run_at gs z) 0"
    unfolding run_at_def by (rule replicate_eqI) (auto dest: set_takeWhileD)
  moreover have "dropWhile (\<lambda>g. g = 0) (drop z gs) = drop e gs"
    using z(3) by (simp add: dropWhile_eq_drop run_at_def add.commute)
  ultimately have "drop z gs = replicate (run_at gs z) 0 @ drop e gs"
    by (metis takeWhile_dropWhile_id)
  then show "gs = take z gs @ replicate (e - z) 0 @ drop e gs"
    using z(3) by (metis add_diff_cancel_left' append_take_drop_id)
qed

lemma bytes2_zero: "concat (map bytes2 (replicate k 0)) = replicate (2 * k) 0"
  by (induction k) (simp_all add: bytes2_def)

lemma v6u16_bytes:
  assumes "length ip = 16"
  shows "concat (map bytes2 (v6u16 ip)) = ip" and "list_all (\<lambda>g. g < 65536) (v6u16 ip)"
    and "length (v6u16 ip) = 8"
proof -
  have g: "bytes2 (unat a * 256 + unat b) = [a, b]" for a b :: byte
  proof -
    have "(unat a * 256 + unat b) div 256 = unat a" using unat_less_256 [of b] by simp
    moreover have "word_of_nat (unat a * 256 + unat b) = b"
    proof (rule word_unat_eq_iff [THEN iffD2])
      have "unat (word_of_nat n :: byte) = n mod 256" for n :: nat by (simp add: unsigned_of_nat take_bit_eq_mod)
      then have "unat (word_of_nat (unat a * 256 + unat b) :: byte) = (unat a * 256 + unat b) mod 256" .
      also have "\<dots> = unat b" using unat_less_256 [of b] by simp
      finally show "unat (word_of_nat (unat a * 256 + unat b) :: byte) = unat b" .
    qed
    ultimately show ?thesis by (simp add: bytes2_def)
  qed
  have "concat (map bytes2 (v6u16 ip)) = concat (map (\<lambda>i. [ip ! (2 * i), ip ! (2 * i + 1)]) [0..<8])"
    by (simp add: v6u16_def g comp_def)
  also have "\<dots> = map ((!) ip) [0..<16]" by (simp add: upt_rec numeral_eq_Suc)
  also have "\<dots> = ip" using assms map_nth [of ip] by simp
  finally show "concat (map bytes2 (v6u16 ip)) = ip" .
  have "unat a * 256 + unat b < 65536" for a b :: byte
    using unat_less_256 [of a] unat_less_256 [of b] by simp
  then show "list_all (\<lambda>g. g < 65536) (v6u16 ip)" by (simp add: v6u16_def list_all_iff)
  show "length (v6u16 ip) = 8" by (simp add: v6u16_def)
qed

text \<open>\<open>String\<close> and \<open>ParseIP\<close> are inverse: every address is read back from its text.\<close>

lemma colons_chars: "set (colons gs) \<subseteq> {c. is_hexdig c \<or> c = CHR '':''}"
proof (induction gs)
  case (Cons g gs)
  then show ?case
    using hex_nat_digits [of g] by (auto simp: colons_Cons list_all_iff)
qed simp

lemma find_colon:
  assumes "set s \<subseteq> {c. is_hexdig c \<or> c = CHR '':''}" and "CHR '':'' \<in> set s"
  shows "find (\<lambda>c. c = CHR ''.'' \<or> c = CHR '':'' \<or> c = CHR ''%'') s = Some (CHR '':'')"
  using assms
proof (induction s)
  case (Cons c s)
  show ?case
  proof (cases "c = CHR '':''")
    case False
    then have "is_hexdig c" using Cons.prems(1) by auto
    then have "c \<noteq> CHR ''.''" "c \<noteq> CHR ''%''" using hexdig_sep by metis+
    with False Cons show ?thesis by simp
  qed simp
qed simp

lemma parseIPv6_ellipsis:
  assumes "list_all (\<lambda>g. g < 65536) us" "list_all (\<lambda>g. g < 65536) ws" "length us + length ws < 8"
  shows "parseIPv6 (colons us @ ''::'' @ colons ws) = Some (concat (map bytes2 us)
     @ replicate (16 - (2 * length us + 2 * length ws)) 0 @ concat (map bytes2 ws))"
proof (cases "us = []")
  case True
  show ?thesis
  proof (cases "ws = []")
    case False
    have "parseIPv6_loop 8 (colons ws) [] (Some 0) = Some ([], concat (map bytes2 ws), Some 0)"
      using parse_colons [OF False assms(2), of 8 "[]" "Some 0"] assms(3) by simp
    with True False colons_hd(1) [OF False] assms(3) show ?thesis
      by (simp add: parseIPv6_def HasPrefix_def expand_ellipsis_def)
  qed (simp add: True parseIPv6_def HasPrefix_def)
next
  case False
  obtain c s where "colons us = c # s" "c \<noteq> CHR '':''" using False by (rule colons_hdE)
  then have np: "\<not> HasPrefix (colons us @ ''::'' @ colons ws) ''::''" by (simp add: HasPrefix_def)
  have "parseIPv6_loop 8 (colons us @ ''::'' @ colons ws) [] None
      = Some ([], concat (map bytes2 us) @ concat (map bytes2 ws), Some (2 * length us))"
  proof (cases "ws = []")
    case True
    then show ?thesis
      using parse_colons_ellipsis [OF False assms(1), of 8 "[]" "[]"] assms(3) by (simp add: Let_def)
  next
    case ws: False
    have "parseIPv6_loop (8 - length us) (colons ws) (concat (map bytes2 us)) (Some (2 * length us))
        = Some ([], concat (map bytes2 us) @ concat (map bytes2 ws), Some (2 * length us))"
      using parse_colons [OF ws assms(2)] assms(3) by simp
    then show ?thesis
      using parse_colons_ellipsis [OF False assms(1), of 8 "colons ws" "[]"] assms(3) colons_hd(1) [OF ws]
      by (simp add: Let_def)
  qed
  with np assms(3) show ?thesis by (simp add: parseIPv6_def expand_ellipsis_def)
qed

lemma parseIPv6_string6:
  assumes "length ip = 16"
  shows "parseIPv6 (string6 ip) = Some ip"
proof -
  define gs where "gs = v6u16 ip"
  have gs: "length gs = 8" "list_all (\<lambda>g. g < 65536) gs" "concat (map bytes2 gs) = ip"
    using v6u16_bytes [OF assms] by (simp_all add: gs_def)
  show ?thesis
  proof (cases "zero_run gs")
    case None
    then have s: "string6 ip = colons gs" by (simp add: string6_def gs_def)
    have ne: "gs \<noteq> []" using gs(1) by auto
    then obtain c t where "colons gs = c # t" "c \<noteq> CHR '':''" by (rule colons_hdE)
    then have "\<not> HasPrefix (colons gs) ''::''" by (simp add: HasPrefix_def)
    with gs assms ne show ?thesis
      by (simp add: s parseIPv6_def parse_colons expand_ellipsis_def)
  next
    case (Some p)
    obtain z e where p: "p = (z, e)" by (cases p)
    let ?us = "take z gs" and ?ws = "drop e gs"
    have s: "string6 ip = colons ?us @ ''::'' @ colons ?ws"
      using Some by (simp add: string6_def gs_def p Let_def)
    have ze: "z + 2 \<le> e" "e \<le> 8" "gs = ?us @ replicate (e - z) 0 @ ?ws"
      using zero_run_Some [OF Some [unfolded p] gs(1)] by blast+
    have small: "list_all (\<lambda>g. g < 65536) ?us" "list_all (\<lambda>g. g < 65536) ?ws"
      using gs(2) by (metis append_take_drop_id list_all_append)+
    have "ip = concat (map bytes2 ?us) @ replicate (2 * (e - z)) 0 @ concat (map bytes2 ?ws)"
    proof -
      have "concat (map bytes2 gs) = concat (map bytes2 (?us @ replicate (e - z) 0 @ ?ws))"
        using ze(3) by (rule arg_cong)
      then show ?thesis using gs(3) by (simp only: map_append concat_append bytes2_zero)
    qed
    moreover have k: "16 - (2 * length ?us + 2 * length ?ws) = 2 * (e - z)" "length ?us + length ?ws < 8"
      using ze(1,2) gs(1) by auto
    moreover note parseIPv6_ellipsis [OF small k(2), folded s, unfolded k(1)]
    ultimately show ?thesis by (simp only:)
  qed
qed

lemma ParseIP_String:
  assumes "length ip = 16"
  shows "ParseIP (ip_String ip) = Some ip"
proof (cases "To4 ip")
  case None
  have "string6 ip \<noteq> [] \<and> set (string6 ip) \<subseteq> {c. is_hexdig c \<or> c = CHR '':''}
      \<and> CHR '':'' \<in> set (string6 ip)"
  proof (cases "zero_run (v6u16 ip)")
    case None
    have "length (v6u16 ip) = 8" using v6u16_bytes(3) [OF assms] .
    then obtain g h gs where "v6u16 ip = g # h # gs"
      by (auto simp: length_Suc_conv numeral_eq_Suc)
    with None colons_chars [of "v6u16 ip"] show ?thesis by (simp add: string6_def)
  next
    case (Some p)
    then show ?thesis
      using colons_chars [of "take (fst p) (v6u16 ip)"] colons_chars [of "drop (snd p) (v6u16 ip)"]
      by (auto simp: string6_def Let_def split: prod.split)
  qed
  then have "ParseIP (string6 ip) = parseIPv6 (string6 ip)"
    using find_colon [of "string6 ip"] hexdig_sep(3) by (auto simp: ParseIP_def)
  with None parseIPv6_string6 [OF assms] show ?thesis by (simp add: ip_String_def)
next
  case (Some b)
  note v4 = To4_Some [OF Some assms]
  from Some show ?thesis by (simp add: ip_String_def ParseIP_dotted [OF v4(1)] v4(2))
qed

text \<open>The characters of an address, and how long its text can be.\<close>

definition addr_char :: "char \<Rightarrow> bool" where
  "addr_char c \<longleftrightarrow> is_hexdig c \<or> c = CHR '':'' \<or> c = CHR ''.''"

lemma digit_is_hexdig: "is_digit c \<Longrightarrow> is_hexdig c"
  by (auto simp: is_digit_def is_hexdig_def is_hex_def)

lemma dec_nat_addr: "list_all addr_char (dec_nat n)"
  using dec_nat_digits [of n] by (auto simp: list_all_iff addr_char_def digit_is_hexdig)

lemma ip_String_chars: "list_all addr_char (ip_String ip)"
proof -
  have d: "list_all addr_char (dotted b)" for b
    using dec_nat_addr by (auto simp: dotted_def addr_char_def)
  have c: "list_all addr_char (colons gs)" for gs
    using colons_chars [of gs] by (auto simp: list_all_iff addr_char_def)
  have "list_all addr_char (string6 ip)"
    using c by (auto simp: string6_def addr_char_def Let_def split: option.split)
  with d show ?thesis by (simp add: ip_String_def split: option.split)
qed

lemma ip_String_no: "\<not> addr_char c \<Longrightarrow> c \<notin> set (ip_String ip)"
  using ip_String_chars [of ip] by (auto simp: list_all_iff)

lemma length_dec_nat: "n < 10 ^ k \<Longrightarrow> 0 < k \<Longrightarrow> length (dec_nat n) \<le> k"
proof (induction k arbitrary: n)
  case (Suc k)
  show ?case
  proof (cases "n < 10")
    case False
    then have "0 < k" using Suc.prems(1) by (cases k) auto
    moreover have "n div 10 < 10 ^ k" using Suc.prems(1) by auto
    ultimately have "length (dec_nat (n div 10)) \<le> k" by (intro Suc.IH)
    with False show ?thesis by (subst dec_nat.simps) simp
  qed (subst dec_nat.simps, simp)
qed simp

lemma length_colons: "list_all (\<lambda>g. g < 65536) gs \<Longrightarrow> length (colons gs) \<le> 5 * length gs"
proof (induction gs)
  case (Cons g gs)
  then show ?case using length_hex_nat [of g 4] by (auto simp: colons_Cons)
qed simp

lemma length_colons_sep:
  "list_all (\<lambda>g. g < 65536) gs \<Longrightarrow> gs \<noteq> [] \<Longrightarrow> length (colons gs) < 5 * length gs"
proof (induction gs)
  case (Cons g gs)
  then show ?case
    using length_hex_nat [of g 4] length_colons [of gs] by (cases "gs = []") (auto simp: colons_Cons)
qed simp

lemma length_ip_String:
  assumes "length ip = 16"
  shows "length (ip_String ip) \<le> 39"
proof (cases "To4 ip")
  case None
  note gs = v6u16_bytes(2,3) [OF assms]
  have small: "list_all (\<lambda>g. g < 65536) (take z (v6u16 ip))" "list_all (\<lambda>g. g < 65536) (drop z (v6u16 ip))" for z
    using gs(1) by (metis append_take_drop_id list_all_append)+
  have "length (string6 ip) \<le> 39"
  proof (cases "zero_run (v6u16 ip)")
    case None
    have "v6u16 ip \<noteq> []" using gs(2) by auto
    with length_colons_sep [OF gs(1)] None gs(2) show ?thesis by (simp add: string6_def)
  next
    case (Some p)
    obtain z e where p: "p = (z, e)" by (cases p)
    have "z + 2 \<le> e" "e \<le> 8" using zero_run_Some [OF Some [unfolded p] gs(2)] by blast+
    with length_colons [OF small(1), of z] length_colons [OF small(2), of e] gs(2) show ?thesis
      using Some by (simp add: string6_def p Let_def)
  qed
  with None show ?thesis by (simp add: ip_String_def)
next
  case (Some b)
  have "length (dec_nat (unat (x :: byte))) \<le> 3" for x
    using length_dec_nat [of "unat x" 3] unat_less_256 [of x] by simp
  from this [of "b ! 0"] this [of "b ! 1"] this [of "b ! 2"] this [of "b ! 3"] Some
  show ?thesis by (simp add: ip_String_def dotted_def)
qed

end
