(* ===== verification/ProxyHeader.thy ===== *)
theory ProxyHeader
imports NetAddr
begin

text \<open>
  The PROXY protocol header (\<open>ProxyProtocolV1Header\<close> of \<open>internal/protocol/protocol.go\<close>) and,
  as the specification it is held against, the receiving side as the protocol's text defines it.
\<close>

section \<open>The header\<close>

definition splitHostPortIP :: "string \<Rightarrow> (byte list \<times> string) option" where
  "splitHostPortIP addr =
     (case SplitHostPort addr of
        None \<Rightarrow> None
      | Some (host, port) \<Rightarrow> (case ParseIP host of None \<Rightarrow> None | Some ip \<Rightarrow> Some (ip, port)))"

definition crlf :: string where
  "crlf = [CHR 0x0D, CHR 0x0A]"

definition ProxyProtocolV1Header :: "string \<Rightarrow> string \<Rightarrow> string" where
  "ProxyProtocolV1Header srcAddr dstAddr =
     (case splitHostPortIP srcAddr of
        None \<Rightarrow> ''PROXY UNKNOWN'' @ crlf
      | Some (srcIP, srcPort) \<Rightarrow>
          (let (family, zero) = (if To4 srcIP = None then (''TCP6'', ''::'') else (''TCP4'', ''0.0.0.0''));
               (dstIP, dstPort) = (case splitHostPortIP dstAddr of
                  None \<Rightarrow> (the (ParseIP zero), ''0'') | Some d \<Rightarrow> d)
           in ''PROXY '' @ family @ '' '' @ ip_String srcIP @ '' '' @ ip_String dstIP @ '' '' @ srcPort
                @ '' '' @ dstPort @ crlf))"

section \<open>The receiver\<close>

text \<open>
  A receiver of version 1: the line ends in CRLF, has at most 107 characters and either is
  \<open>PROXY UNKNOWN\<close> or carries a family, two addresses that must be of this family, and two ports.
\<close>

definition proxy_addr :: "bool \<Rightarrow> string \<Rightarrow> byte list option" where
  "proxy_addr v6 s = (if (CHR '':'' \<in> set s) = v6 then ParseIP s else None)"

definition proxy_port :: "string \<Rightarrow> int option" where
  "proxy_port s = (case Atoi s of None \<Rightarrow> None | Some n \<Rightarrow> if 0 \<le> n \<and> n \<le> 65535 then Some n else None)"

datatype proxy_info = ProxyUnknown | Proxied bool "byte list" int "byte list" int

definition proxy_family :: "string \<Rightarrow> bool option" where
  "proxy_family f = (if f = ''TCP4'' then Some False else if f = ''TCP6'' then Some True else None)"

definition proxy_fields :: "bool \<Rightarrow> string \<Rightarrow> string \<Rightarrow> string \<Rightarrow> string \<Rightarrow> proxy_info option" where
  "proxy_fields v6 s d sp dp =
     (case (proxy_addr v6 s, proxy_addr v6 d, proxy_port sp, proxy_port dp) of
        (Some src, Some dst, Some m, Some n) \<Rightarrow> Some (Proxied v6 src m dst n)
      | _ \<Rightarrow> None)"

definition receive_proxy :: "string \<Rightarrow> proxy_info option" where
  "receive_proxy line =
     (if \<not> HasSuffix line crlf \<or> length line > 107 then None
      else case Split (CHR '' '') (TrimSuffix line crlf) of
             w # f # rest \<Rightarrow>
               if w \<noteq> ''PROXY'' then None
               else (case rest of
                       [] \<Rightarrow> if f = ''UNKNOWN'' then Some ProxyUnknown else None
                     | [s, d, sp, dp] \<Rightarrow>
                         Option.bind (proxy_family f) (\<lambda>v6. proxy_fields v6 s d sp dp)
                     | _ \<Rightarrow> None)
           | _ \<Rightarrow> None)"

section \<open>What is sent\<close>

text \<open>The address of a TCP connection, as Go prints it.\<close>

definition addr_text :: "byte list \<Rightarrow> nat \<Rightarrow> string" where
  "addr_text ip port = JoinHostPort (ip_String ip) (dec_nat port)"

lemma not_addr_char [simp]:
  "\<not> addr_char (CHR ''['')" "\<not> addr_char (CHR '']'')" "\<not> addr_char (CHR '' '')"
  by (simp_all add: addr_char_def is_hexdig_def is_hex_def)

lemma dec_nat_no: "\<not> is_digit c \<Longrightarrow> c \<notin> set (dec_nat n)"
  using dec_nat_digits [of n] by (auto simp: list_all_iff)

lemma not_digit [simp]:
  "\<not> is_digit (CHR ''['')" "\<not> is_digit (CHR '']'')" "\<not> is_digit (CHR '' '')" "\<not> is_digit (CHR '':'')"
  by (simp_all add: is_digit_def)

lemma splitHostPortIP_addr:
  assumes "length ip = 16"
  shows "splitHostPortIP (addr_text ip port) = Some (ip, dec_nat port)"
proof -
  have "SplitHostPort (addr_text ip port) = Some (ip_String ip, dec_nat port)"
    unfolding addr_text_def by (rule SplitHostPort_Join) (simp_all add: ip_String_no dec_nat_no)
  with ParseIP_String [OF assms] show ?thesis by (simp add: splitHostPortIP_def)
qed

lemma proxy_port_dec:
  assumes "port \<le> 65535"
  shows "proxy_port (dec_nat port) = Some (int port)"
proof -
  have "Atoi (dec_nat port) = Some (int port)"
    using Atoi_dec_int [of "int port"] assms by (simp add: in_int64_def dec_int_def)
  with assms show ?thesis by (simp add: proxy_port_def)
qed

lemma ip_String_colon:
  assumes "length ip = 16"
  shows "CHR '':'' \<in> set (ip_String ip) \<longleftrightarrow> To4 ip = None"
proof (cases "To4 ip")
  case None
  have "CHR '':'' \<in> set (string6 ip)"
  proof (cases "zero_run (v6u16 ip)")
    case None
    obtain g h gs where "v6u16 ip = g # h # gs"
      using v6u16_bytes(3) [OF assms] by (auto simp: length_Suc_conv numeral_eq_Suc)
    with None show ?thesis by (simp add: string6_def)
  next
    case (Some p)
    then show ?thesis by (cases p) (simp add: string6_def Let_def)
  qed
  with None show ?thesis by (simp add: ip_String_def)
next
  case (Some b)
  then show ?thesis by (simp add: ip_String_def dotted_def dec_nat_no)
qed

lemma proxy_addr_String:
  assumes "length ip = 16"
  shows "proxy_addr v6 (ip_String ip) = (if v6 = (To4 ip = None) then Some ip else None)"
  by (auto simp: proxy_addr_def ip_String_colon [OF assms] ParseIP_String [OF assms])

text \<open>A line of six fields without blanks is taken apart as it was put together.\<close>

lemma receive_line:
  assumes "\<And>f. f \<in> {s, d, sp, dp} \<Longrightarrow> CHR '' '' \<notin> set f"
    and "length s \<le> 39" "length d \<le> 39" "length sp \<le> 5" "length dp \<le> 5"
  shows "receive_proxy (''PROXY '' @ (if v6 then ''TCP6'' else ''TCP4'') @ '' '' @ s @ '' '' @ d @ '' ''
      @ sp @ '' '' @ dp @ crlf) = proxy_fields v6 s d sp dp"
proof -
  define fam body where "fam = (if v6 then ''TCP6'' else ''TCP4'')"
    and "body = ''PROXY '' @ fam @ '' '' @ s @ '' '' @ d @ '' '' @ sp @ '' '' @ dp"
  have len: "length (body @ crlf) \<le> 107" using assms(2-5) by (simp add: body_def fam_def crlf_def)
  have "CHR '' '' \<notin> set fam" by (simp add: fam_def)
  then have "Split (CHR '' '') (fam @ '' '' @ s @ '' '' @ d @ '' '' @ sp @ '' '' @ dp) = [fam, s, d, sp, dp]"
    using assms(1) by simp
  then have "Split (CHR '' '') body = [''PROXY'', fam, s, d, sp, dp]"
    using Split_append [of "CHR '' ''" "''PROXY''"] by (simp add: body_def)
  moreover have "proxy_family fam = Some v6" by (simp add: proxy_family_def fam_def)
  ultimately have "receive_proxy (body @ crlf) = proxy_fields v6 s d sp dp"
    using len by (simp add: receive_proxy_def)
  then show ?thesis by (simp add: body_def fam_def)
qed

text \<open>Every header is such a line.\<close>

lemma length_dec_port: "port \<le> 65535 \<Longrightarrow> length (dec_nat port) \<le> 5"
  using length_dec_nat [of port 5] by simp

lemma header_received:
  assumes "length src = 16" and "sport \<le> 65535" and "length dst = 16" and "dport \<le> 65535"
    and "v6 \<longleftrightarrow> To4 src = None"
  shows "receive_proxy (''PROXY '' @ (if v6 then ''TCP6'' else ''TCP4'') @ '' '' @ ip_String src @ '' ''
      @ ip_String dst @ '' '' @ dec_nat sport @ '' '' @ dec_nat dport @ crlf)
    = (if v6 = (To4 dst = None) then Some (Proxied v6 src (int sport) dst (int dport)) else None)"
proof -
  have "receive_proxy (''PROXY '' @ (if v6 then ''TCP6'' else ''TCP4'') @ '' '' @ ip_String src @ '' ''
      @ ip_String dst @ '' '' @ dec_nat sport @ '' '' @ dec_nat dport @ crlf)
    = proxy_fields v6 (ip_String src) (ip_String dst) (dec_nat sport) (dec_nat dport)"
    using assms by (intro receive_line) (auto simp: ip_String_no dec_nat_no length_ip_String length_dec_port)
  with assms show ?thesis
    by (cases "To4 dst") (simp_all add: proxy_fields_def proxy_addr_String proxy_port_dec)
qed

definition zero_addr :: "bool \<Rightarrow> byte list" where
  "zero_addr v6 = (if v6 then replicate 16 0 else v4_mapped (replicate 4 0))"

lemma dec_nat_0: "dec_nat 0 = ''0''"
  by code_simp

lemma length_v4_mapped [simp]: "length (v4_mapped b) = 12 + length b"
  by (simp add: v4_mapped_def)

lemma zero_texts:
  "ParseIP ''::'' = Some (zero_addr True)" "ParseIP ''0.0.0.0'' = Some (zero_addr False)"
  "length (zero_addr v6) = 16" "To4 (zero_addr v6) = None \<longleftrightarrow> v6"
proof -
  have "dotted (replicate 4 0) = ''0.0.0.0''"
    by (simp add: dotted_def dec_nat_0 numeral_eq_Suc)
  then show "ParseIP ''0.0.0.0'' = Some (zero_addr False)"
    using ParseIP_dotted [of "replicate 4 0"] by (simp add: zero_addr_def)
  show "ParseIP ''::'' = Some (zero_addr True)"
    by (simp add: ParseIP_def parseIPv6_def HasPrefix_def zero_addr_def)
  show "length (zero_addr v6) = 16" by (simp add: zero_addr_def)
  have "To4 (replicate 16 0) = None" by (simp add: To4_def nth_replicate)
  then show "To4 (zero_addr v6) = None \<longleftrightarrow> v6" by (simp add: zero_addr_def To4_mapped)
qed

lemma header_text:
  assumes "length src = 16"
  shows "ProxyProtocolV1Header (addr_text src sport) dstAddr =
    (let v6 = (To4 src = None);
         d = (case splitHostPortIP dstAddr of None \<Rightarrow> (zero_addr v6, ''0'') | Some d \<Rightarrow> d)
     in ''PROXY '' @ (if v6 then ''TCP6'' else ''TCP4'') @ '' '' @ ip_String src @ '' ''
        @ ip_String (fst d) @ '' '' @ dec_nat sport @ '' '' @ snd d @ crlf)"
  by (auto simp: ProxyProtocolV1Header_def splitHostPortIP_addr [OF assms] zero_texts Let_def
      split: option.split prod.split)

section \<open>Properties\<close>

text \<open>
  C26. The header carries the player's address, unless the families differ. For a connection from any
  IPv4 or IPv6 address and port, to a destination of the same family or to one that is not known, a
  receiver of the PROXY protocol accepts the line, which is within the 107 characters the protocol
  allows, and reads exactly this source address and port from it, and the destination, or zeros. To a
  destination of the other family the line names the source's family with an address of the other, and
  a receiver refuses it.
\<close>

theorem proxy_header_faithful:
  assumes "length src = 16" and "sport \<le> 65535"
    and "splitHostPortIP dstAddr = None \<and> dst = zero_addr (To4 src = None) \<and> dport = 0
      \<or> dstAddr = addr_text dst dport \<and> length dst = 16 \<and> dport \<le> 65535"
  shows "receive_proxy (ProxyProtocolV1Header (addr_text src sport) dstAddr)
    = (if To4 dst = None \<longleftrightarrow> To4 src = None
       then Some (Proxied (To4 src = None) src (int sport) dst (int dport)) else None)"
proof -
  from assms(3) have d: "(case splitHostPortIP dstAddr of None \<Rightarrow> (zero_addr (To4 src = None), ''0'') | Some d \<Rightarrow> d)
      = (dst, dec_nat dport)" "length dst = 16" "dport \<le> 65535"
    by (auto simp: splitHostPortIP_addr zero_texts dec_nat_0)
  show ?thesis
    unfolding header_text [OF assms(1)] Let_def d(1) fst_conv snd_conv
    using header_received [OF assms(1,2) d(2,3) refl] by (simp add: eq_commute)
qed

theorem proxy_header_faithful_witness:
  "receive_proxy (ProxyProtocolV1Header (addr_text (v4_mapped [203, 0, 113, 9]) 40000) ''portly.example'')
     = Some (Proxied False (v4_mapped [203, 0, 113, 9]) 40000 (zero_addr False) 0)
   \<and> receive_proxy (ProxyProtocolV1Header (addr_text (v4_mapped [203, 0, 113, 9]) 40000)
       (addr_text (replicate 15 0 @ [1]) 25565)) = None"
proof -
  have "To4 (replicate 15 0 @ [1]) = None" by code_simp
  then show ?thesis
    using proxy_header_faithful [of "v4_mapped [203, 0, 113, 9]" 40000 "''portly.example''" "zero_addr False" 0]
      proxy_header_faithful [of "v4_mapped [203, 0, 113, 9]" 40000 "addr_text (replicate 15 0 @ [1]) 25565"
        "replicate 15 0 @ [1]" 25565]
    by (simp add: To4_mapped splitHostPortIP_def SplitHostPort_def LastIndexByte_def zero_texts)
qed

end
