(* ===== verification/TunnelClient.thy ===== *)
theory TunnelClient
imports TunnelServer ProxyHeader
begin

text \<open>
  The machine's side of a tunnel (\<open>internal/tunnel/client.go\<close>): one control session from dialling
  to its end, the control stream, the data streams, and the loop that reconnects with backoff.
  What the network does (each failure, the bytes received, which goroutine ends the session) is
  an argument; \<open>OnUninstall\<close> is counted, since what it does is on the machine's disk.
\<close>

section \<open>State\<close>

record tclient =
  tc_ServerAddr :: string
  tc_Token :: string
  tc_OnUninstall :: bool
  tc_targets :: "string \<rightharpoonup> TunnelSpec"
  tc_uninstalls :: nat

definition NewClient :: "string \<Rightarrow> string \<Rightarrow> bool \<Rightarrow> tclient" where
  "NewClient serverAddr token hook = \<lparr>tc_ServerAddr = serverAddr, tc_Token = token,
     tc_OnUninstall = hook, tc_targets = Map.empty, tc_uninstalls = 0\<rparr>"

datatype client_err =
    DialErr
  | SendAuthErr
  | ReadAuthErr frame_err
  | AuthRejected string
  | YamuxErr
  | AcceptControlErr
  | ControlClosed frame_err
  | SessionClosed
  | ErrUninstalled
  | CtxDone

definition runUninstall :: "tclient \<Rightarrow> tclient" where
  "runUninstall c = (if tc_OnUninstall c then c\<lparr>tc_uninstalls := tc_uninstalls c + 1\<rparr> else c)"

section \<open>The control stream\<close>

text \<open>The map built from a push: a later entry for an id replaces an earlier one.\<close>

definition targets_of :: "TunnelSpec list \<Rightarrow> string \<rightharpoonup> TunnelSpec" where
  "targets_of ts = fold (\<lambda>t next. next(sp_ID t \<mapsto> t)) ts Map.empty"

lemma ReadFrame_shorter:
  assumes "ReadFrame str_ReadByte un (bs, e) = (Inr m, (bs', e'))"
  shows "length bs' < length bs"
proof -
  have rf: "length (fst s') + n = length (fst s)"
    if "ReadFull_loop str_ReadByte n acc s = (Inr x, s')" for n acc s and x :: "byte list" and s'
    using that
  proof (induction n arbitrary: acc s)
    case (Suc n)
    obtain bs e where s: "s = (bs, e)" by (cases s)
    then obtain b bs' where bs: "bs = b # bs'" using Suc.prems by (cases bs) auto
    with s Suc.prems Suc.IH [of "acc @ [b]" "(bs', e)"] show ?case by simp
  qed simp
  from assms obtain l s1 b where "ReadFull str_ReadByte 4 (bs, e) = (Inr l, s1)"
    and "ReadFull str_ReadByte (unat (Uint32 l)) s1 = (Inr b, (bs', e'))"
    by (auto simp: ReadFrame_def stepM_def Let_def failM_def retM_def
        split: prod.splits sum.splits if_splits option.splits)
  then have "length (fst s1) + 4 = length bs" "length bs' + unat (Uint32 l) = length (fst s1)"
    unfolding ReadFull_def using rf [of 4 "[]" "(bs, e)" l s1] rf [of _ "[]" s1 b "(bs', e')"] by simp_all
  then show ?thesis by simp
qed

function readControlStream ::
    "(byte list \<Rightarrow> TunnelConfigPush option) \<Rightarrow> byte list \<times> ioerr \<Rightarrow> tclient \<Rightarrow> client_err \<times> tclient" where
  "readControlStream un s c =
     (case ReadFrame str_ReadByte un s of
        (Inl e, _) \<Rightarrow> (ControlClosed e, c)
      | (Inr push, s') \<Rightarrow>
          if tp_Uninstall push then (ErrUninstalled, runUninstall c)
          else readControlStream un s' (c\<lparr>tc_targets := targets_of (tp_Tunnels push)\<rparr>))"
  by pat_completeness auto
termination
  by (relation "measure (\<lambda>(un, s, c). length (fst s))") (auto dest: ReadFrame_shorter [OF sym])

declare readControlStream.simps [simp del]

section \<open>Data streams\<close>

text \<open>
  What a data stream comes to: dropped, handed to the UDP loop, or a connection to the local
  target after which nothing (the dial failed), a failed PROXY header, or the bytes of both
  directions follow, the header first.
\<close>

datatype data_stream =
    StreamDropped
  | StreamUDP TunnelSpec
  | DialFailed string
  | HeaderFailed string
  | Piped string string

definition publicDstAddr :: "(string \<Rightarrow> string list option) \<Rightarrow> tclient \<Rightarrow> int \<Rightarrow> string" where
  "publicDstAddr lookup c publicPort =
     (case SplitHostPort (tc_ServerAddr c) of
        None \<Rightarrow> []
      | Some (host, _) \<Rightarrow>
          if ParseIP host \<noteq> None then JoinHostPort host (dec_int publicPort)
          else (case lookup host of
                  None \<Rightarrow> []
                | Some [] \<Rightarrow> []
                | Some (a # _) \<Rightarrow> JoinHostPort a (dec_int publicPort)))"

definition handleDataStream ::
    "(byte list \<Rightarrow> StreamHeader option) \<Rightarrow> (string \<Rightarrow> string list option) \<Rightarrow> (string \<Rightarrow> bool) \<Rightarrow> bool
     \<Rightarrow> byte list \<times> ioerr \<Rightarrow> tclient \<Rightarrow> data_stream" where
  "handleDataStream un lookup dialok wok s c =
     (case fst (ReadFrame str_ReadByte un s) of
        Inl _ \<Rightarrow> StreamDropped
      | Inr hdr \<Rightarrow>
          (case tc_targets c (sh_TunnelID hdr) of
             None \<Rightarrow> StreamDropped
           | Some spec \<Rightarrow>
               if sp_Protocol spec = ''udp'' then StreamUDP spec
               else let local = JoinHostPort (sp_LocalHost spec) (dec_int (sp_LocalPort spec))
                    in if \<not> dialok local then DialFailed local
                       else if sp_ProxyProtocol spec then
                         if wok then Piped local (ProxyProtocolV1Header (sh_RemoteAddr hdr)
                                       (publicDstAddr lookup c (sp_PublicPort spec)))
                         else HeaderFailed local
                       else Piped local []))"

section \<open>One session\<close>

text \<open>
  What one call of \<open>runOnce\<close> meets: which steps succeed, the bytes the server answers with, the
  bytes of the control stream the reader has handled when the session is over, and what ended it
  (the control stream, the acceptor of data streams, or the context): the first of the two
  goroutines to report decides the result, whatever the other has done.
\<close>

datatype session_end = EndControl | EndData | EndCancel

record attempt =
  at_dial :: bool
  at_send :: bool
  at_reply :: "byte list \<times> ioerr"
  at_yamux :: bool
  at_accept :: bool
  at_control :: "byte list \<times> ioerr"
  at_end :: session_end

record codecs =
  un_auth :: "byte list \<Rightarrow> AuthResponse option"
  un_push :: "byte list \<Rightarrow> TunnelConfigPush option"

text \<open>The result, whether \<open>onConnected\<close> was called, and the client.\<close>

definition runOnce :: "codecs \<Rightarrow> attempt \<Rightarrow> tclient \<Rightarrow> (client_err \<times> bool) \<times> tclient" where
  "runOnce J a c =
     (if \<not> at_dial a then ((DialErr, False), c)
      else if \<not> at_send a then ((SendAuthErr, False), c)
      else case fst (ReadFrame str_ReadByte (un_auth J) (at_reply a)) of
        Inl e \<Rightarrow> ((ReadAuthErr e, False), c)
      | Inr resp \<Rightarrow>
          if \<not> rs_OK resp then
            if rs_Uninstall resp then ((ErrUninstalled, False), runUninstall c)
            else ((AuthRejected (rs_Error resp), False), c)
          else if \<not> at_yamux a then ((YamuxErr, False), c)
          else if \<not> at_accept a then ((AcceptControlErr, False), c)
          else let (cerr, c') = readControlStream (un_push J) (at_control a) c
               in ((case at_end a of EndControl \<Rightarrow> cerr | EndData \<Rightarrow> SessionClosed | EndCancel \<Rightarrow> CtxDone,
                    True), c'))"

section \<open>Reconnecting\<close>

text \<open>Times are in seconds.\<close>

definition minBackoff :: nat where "minBackoff = 1"

definition maxBackoff :: nat where "maxBackoff = 30"

text \<open>
  One turn of the loop: whether the context was done at its head, after the session, and during
  the wait. \<open>Run\<close> gives the error it returned with, \<open>None\<close> when it is still running after these
  turns, and the waits it has begun.
\<close>

record turn =
  tu_done_head :: bool
  tu_attempt :: attempt
  tu_done_after :: bool
  tu_done_wait :: bool

fun Run :: "codecs \<Rightarrow> turn list \<Rightarrow> nat \<Rightarrow> tclient \<Rightarrow> (client_err option \<times> nat list) \<times> tclient" where
  "Run J [] backoff c = ((None, []), c)"
| "Run J (u # us) backoff c =
     (if tu_done_head u then ((Some CtxDone, []), c)
      else case runOnce J (tu_attempt u) c of
        ((err, connected), c1) \<Rightarrow>
          (let b = (if connected then minBackoff else backoff)
           in if err = ErrUninstalled then ((Some err, []), c1)
              else if tu_done_after u then ((Some CtxDone, []), c1)
              else if tu_done_wait u then ((Some CtxDone, [b]), c1)
              else case Run J us (if 2 * b > maxBackoff then maxBackoff else 2 * b) c1 of
                ((r, waits), c2) \<Rightarrow> ((r, b # waits), c2)))"

section \<open>Device reports\<close>

text \<open>A scan's result (\<open>None\<close> when it failed) becomes the report, if a stream opens and takes it.\<close>

definition scanAndReportDevices ::
    "(string \<times> string \<times> string) list option \<Rightarrow> bool \<Rightarrow> bool \<Rightarrow> Device list option" where
  "scanAndReportDevices found openok wok =
     (case found of
        None \<Rightarrow> None
      | Some ds \<Rightarrow>
          (let report = map (\<lambda>(ip, mac, name). \<lparr>dv_IP = ip, dv_MAC = mac, dv_Hostname = name\<rparr>) ds
           in if openok \<and> wok then Some report else None))"

end
