(* ===== verification/UdpRelay.thy ===== *)
theory UdpRelay
imports TunnelClient
begin

text \<open>
  UDP tunnels (\<open>internal/tunnel/udp.go\<close>): on the server one public socket and one stream, with the
  table of senders by the text of their address; on the client one local socket per sender, its
  reader goroutine and the reaper of idle ones. Times are nanoseconds; what a socket or the stream
  does with a datagram (delivered or not) is an argument of the step.
\<close>

section \<open>The server's side\<close>

type_synonym udp_addr = "byte list \<times> nat"

definition udp_text :: "udp_addr \<Rightarrow> string" where
  "udp_text a = addr_text (fst a) (snd a)"

definition udpReadBufSize :: nat where "udpReadBufSize = 64 * 1024"

definition udpSessionIdleTimeout :: int where "udpSessionIdleTimeout = 60 * 10 ^ 9"

text \<open>
  A session of \<open>runUDPSession\<close>: the table, the frames written to the stream, the datagrams written
  to the public socket, the two counters, and whether the public side has left its loop.
\<close>

record udp_server =
  ur_addrs :: "string \<rightharpoonup> udp_addr"
  ur_to_client :: "UDPPacket list"
  ur_to_public :: "(udp_addr \<times> byte list) list"
  ur_in :: int
  ur_out :: int
  ur_over :: bool

definition udp_session_start :: "udp_server" where
  "udp_session_start = \<lparr>ur_addrs = Map.empty, ur_to_client = [], ur_to_public = [], ur_in = 0,
     ur_out = 0, ur_over = False\<rparr>"

text \<open>The stream a UDP listener opens to the machine that owns the tunnel.\<close>

definition openClientStream :: "bool \<Rightarrow> bool \<Rightarrow> Tunnel \<Rightarrow> tserver \<Rightarrow> bool \<times> tserver" where
  "openClientStream ook wok t s =
     (case ts_sessions s (t_ClientID t) of
        None \<Rightarrow> (False, s)
      | Some i \<Rightarrow>
          (let cs = ts_heap s ! i
           in if \<not> ook \<or> cs_closed cs then (False, s)
              else if \<not> wok then (False, s)
              else (True, s\<lparr>ts_heap := (ts_heap s)[i := cs\<lparr>cs_streams := cs_streams cs
                     @ [\<lparr>sh_TunnelID = t_ID t, sh_RemoteAddr = []\<rparr>]\<rparr>]\<rparr>)))"

text \<open>A datagram from outside: the sender is entered before the frame is written.\<close>

definition udp_from_public :: "bool \<Rightarrow> udp_addr \<Rightarrow> byte list \<Rightarrow> udp_server \<Rightarrow> udp_server" where
  "udp_from_public wok a datagram s =
     (if ur_over s then s
      else let d = take udpReadBufSize datagram;
               s1 = s\<lparr>ur_addrs := (ur_addrs s)(udp_text a \<mapsto> a)\<rparr>
           in if \<not> wok then s1\<lparr>ur_over := True\<rparr>
              else s1\<lparr>ur_to_client := ur_to_client s @ [\<lparr>up_SourceAddr = udp_text a, up_Data = d\<rparr>],
                      ur_in := ur_in s + int (length d)\<rparr>)"

text \<open>A frame from the client: \<open>sent\<close> says whether the public socket took the datagram.\<close>

definition udp_from_client :: "bool \<Rightarrow> UDPPacket \<Rightarrow> udp_server \<Rightarrow> udp_server" where
  "udp_from_client sent pkt s =
     (case ur_addrs s (up_SourceAddr pkt) of
        None \<Rightarrow> s
      | Some a \<Rightarrow>
          if sent then s\<lparr>ur_to_public := ur_to_public s @ [(a, up_Data pkt)],
                         ur_out := ur_out s + int (length (up_Data pkt))\<rparr>
          else s)"

section \<open>The client's side\<close>

text \<open>
  \<open>us_reading\<close> and \<open>us_deadline\<close> belong to the reader goroutine; \<open>us_sent\<close> are the datagrams
  written to the local service.
\<close>

record udpClientSession =
  us_src :: string
  us_lastActive :: int
  us_closed :: bool
  us_reading :: bool
  us_deadline :: int
  us_sent :: "byte list list"

record udp_client =
  uc_sessions :: "string \<rightharpoonup> nat"
  uc_socks :: "udpClientSession list"
  uc_to_server :: "UDPPacket list"

definition udp_client_start :: udp_client where
  "udp_client_start = \<lparr>uc_sessions = Map.empty, uc_socks = [], uc_to_server = []\<rparr>"

definition upd_sock :: "nat \<Rightarrow> (udpClientSession \<Rightarrow> udpClientSession) \<Rightarrow> udp_client \<Rightarrow> udp_client" where
  "upd_sock i f c = c\<lparr>uc_socks := (uc_socks c)[i := f (uc_socks c ! i)]\<rparr>"

text \<open>\<open>DialUDP\<close> and the start of the reader for a sender seen for the first time.\<close>

definition udp_dial :: "int \<Rightarrow> string \<Rightarrow> udp_client \<Rightarrow> nat \<times> udp_client" where
  "udp_dial now src c =
     (let i = length (uc_socks c)
      in (i, c\<lparr>uc_socks := uc_socks c @ [\<lparr>us_src = src, us_lastActive = 0, us_closed = False,
                 us_reading = True, us_deadline = now + udpSessionIdleTimeout, us_sent = []\<rparr>],
               uc_sessions := (uc_sessions c)(src \<mapsto> i)\<rparr>))"

definition udp_packet :: "int \<Rightarrow> bool \<Rightarrow> bool \<Rightarrow> UDPPacket \<Rightarrow> udp_client \<Rightarrow> udp_client" where
  "udp_packet now dialok wok pkt c =
     (let deliver = (\<lambda>i. upd_sock i (\<lambda>u. u\<lparr>us_lastActive := now,
            us_sent := (if wok \<and> \<not> us_closed u then us_sent u @ [up_Data pkt] else us_sent u)\<rparr>))
      in case uc_sessions c (up_SourceAddr pkt) of
           Some i \<Rightarrow> deliver i c
         | None \<Rightarrow>
             if \<not> dialok then c
             else (case udp_dial now (up_SourceAddr pkt) c of (i, c1) \<Rightarrow> deliver i c1))"

text \<open>
  The reader of one socket: a datagram of the local service before its deadline, or the deadline.
  A reader that has ended, or whose socket is closed, does neither.
\<close>

definition udp_reply :: "int \<Rightarrow> bool \<Rightarrow> nat \<Rightarrow> byte list \<Rightarrow> udp_client \<Rightarrow> udp_client" where
  "udp_reply now wok i datagram c =
     (let u = uc_socks c ! i; d = take udpReadBufSize datagram
      in if i < length (uc_socks c) \<and> us_reading u \<and> \<not> us_closed u \<and> now \<le> us_deadline u
         then if wok
           then (upd_sock i (\<lambda>u. u\<lparr>us_lastActive := now, us_deadline := now + udpSessionIdleTimeout\<rparr>) c)
                  \<lparr>uc_to_server := uc_to_server c @ [\<lparr>up_SourceAddr = us_src u, up_Data = d\<rparr>]\<rparr>
           else upd_sock i (\<lambda>u. u\<lparr>us_lastActive := now, us_reading := False\<rparr>) c
         else c)"

definition udp_read_timeout :: "int \<Rightarrow> nat \<Rightarrow> udp_client \<Rightarrow> udp_client" where
  "udp_read_timeout now i c =
     (if i < length (uc_socks c) \<and> us_deadline (uc_socks c ! i) < now
      then upd_sock i (\<lambda>u. u\<lparr>us_reading := False\<rparr>) c else c)"

text \<open>The reaper closes the sockets of the sessions idle for longer than the timeout.\<close>

definition udp_reap :: "int \<Rightarrow> udp_client \<Rightarrow> udp_client" where
  "udp_reap now c =
     (let idle = (\<lambda>i. us_lastActive (uc_socks c ! i) < now - udpSessionIdleTimeout);
          gone = (\<lambda>i. uc_sessions c (us_src (uc_socks c ! i)) = Some i \<and> idle i)
      in c\<lparr>uc_socks := map (\<lambda>i. if gone i then (uc_socks c ! i)\<lparr>us_closed := True\<rparr> else uc_socks c ! i)
                         [0..<length (uc_socks c)],
           uc_sessions := (\<lambda>src. case uc_sessions c src of
              None \<Rightarrow> None | Some i \<Rightarrow> if idle i then None else Some i)\<rparr>)"

section \<open>Both sides and the stream\<close>

text \<open>
  The stream carries frames in order; \<open>ug_received\<close> and \<open>ug_replied\<close> record what reached the public
  socket and what the local sockets answered.
\<close>

record udp_system =
  ug_server :: udp_server
  ug_client :: udp_client
  ug_down :: nat
  ug_up :: nat
  ug_received :: "(udp_addr \<times> byte list) list"
  ug_replied :: "(nat \<times> byte list) list"

definition udp_start :: udp_system where
  "udp_start = \<lparr>ug_server = udp_session_start, ug_client = udp_client_start, ug_down = 0, ug_up = 0,
     ug_received = [], ug_replied = []\<rparr>"

text \<open>
  \<open>ug_down\<close> and \<open>ug_up\<close> count the frames each end has read, so that those between are in flight.
\<close>

inductive udp_step :: "udp_system \<Rightarrow> udp_system \<Rightarrow> bool" where
  public: "length (fst a) = 16 \<Longrightarrow> udp_step s
     (s\<lparr>ug_server := udp_from_public wok a d (ug_server s), ug_received := ug_received s @ [(a, d)]\<rparr>)"
| down: "ug_down s < length (ur_to_client (ug_server s)) \<Longrightarrow> udp_step s
     (s\<lparr>ug_client := udp_packet now dialok wok (ur_to_client (ug_server s) ! ug_down s) (ug_client s),
        ug_down := ug_down s + 1\<rparr>)"
| reply: "udp_step s
     (s\<lparr>ug_client := udp_reply now wok i d (ug_client s), ug_replied := ug_replied s @ [(i, d)]\<rparr>)"
| timeout: "udp_step s (s\<lparr>ug_client := udp_read_timeout now i (ug_client s)\<rparr>)"
| reap: "udp_step s (s\<lparr>ug_client := udp_reap now (ug_client s)\<rparr>)"
| up: "ug_up s < length (uc_to_server (ug_client s)) \<Longrightarrow> udp_step s
     (s\<lparr>ug_server := udp_from_client sent (uc_to_server (ug_client s) ! ug_up s) (ug_server s),
        ug_up := ug_up s + 1\<rparr>)"

inductive udp_reach :: "udp_system \<Rightarrow> bool" where
  start: "udp_reach udp_start"
| step: "udp_reach s \<Longrightarrow> udp_step s s' \<Longrightarrow> udp_reach s'"

inductive_cases udp_stepE: "udp_step s s'"

end
