(* ===== verification/UdpProps.thy ===== *)
theory UdpProps
imports UdpRelay
begin

text \<open>
  What a UDP tunnel guarantees: senders are told apart by the text of their address, a reply goes
  to the sender whose socket it was read from, and what happens to a sender whose reader has ended.
\<close>

section \<open>Addresses\<close>

lemma dec_nat_inject: "dec_nat m = dec_nat n \<Longrightarrow> m = n"
  by (metis undec_dec_nat)

lemma udp_text_inject:
  assumes "length (fst a) = 16" and "length (fst b) = 16" and "udp_text a = udp_text b"
  shows "a = b"
proof -
  have "Some (fst a, dec_nat (snd a)) = Some (fst b, dec_nat (snd b))"
    using splitHostPortIP_addr [OF assms(1), of "snd a"] splitHostPortIP_addr [OF assms(2), of "snd b"] assms(3)
    by (simp add: udp_text_def)
  then have "fst a = fst b" "snd a = snd b" by (auto dest: dec_nat_inject)
  then show ?thesis by (simp add: prod_eq_iff)
qed

section \<open>The invariant\<close>

definition addrs_ok :: "udp_server \<Rightarrow> bool" where
  "addrs_ok r \<longleftrightarrow> (\<forall>k a. ur_addrs r k = Some a \<longrightarrow> k = udp_text a \<and> length (fst a) = 16)"

text \<open>The frames sent down stem from datagrams received.\<close>

definition down_ok :: "(udp_addr \<times> byte list) list \<Rightarrow> udp_server \<Rightarrow> bool" where
  "down_ok rc r \<longleftrightarrow> (\<forall>p \<in> set (ur_to_client r). \<exists>a x. (a, x) \<in> set rc
     \<and> up_SourceAddr p = udp_text a \<and> up_Data p = take udpReadBufSize x)"

definition srcs :: "udp_client \<Rightarrow> string list" where
  "srcs c = map us_src (uc_socks c)"

definition sessions_map_ok :: "udp_client \<Rightarrow> bool" where
  "sessions_map_ok c \<longleftrightarrow> (\<forall>src i. uc_sessions c src = Some i \<longrightarrow> i < length (srcs c) \<and> srcs c ! i = src)"

text \<open>What a local socket was sent are frames with its sender's address.\<close>

definition sent_ok :: "UDPPacket list \<Rightarrow> udp_client \<Rightarrow> bool" where
  "sent_ok ps c \<longleftrightarrow> (\<forall>u \<in> set (uc_socks c). \<forall>d \<in> set (us_sent u). \<exists>p \<in> set ps.
     up_SourceAddr p = us_src u \<and> up_Data p = d)"

text \<open>The frames sent up were read from the socket of the sender they name.\<close>

definition up_ok :: "(nat \<times> byte list) list \<Rightarrow> udp_client \<Rightarrow> bool" where
  "up_ok rp c \<longleftrightarrow> (\<forall>p \<in> set (uc_to_server c). \<exists>i x. i < length (srcs c) \<and> (i, x) \<in> set rp
     \<and> srcs c ! i = up_SourceAddr p \<and> up_Data p = take udpReadBufSize x)"

definition public_ok :: "UDPPacket list \<Rightarrow> udp_server \<Rightarrow> bool" where
  "public_ok ps r \<longleftrightarrow> (\<forall>(a, d) \<in> set (ur_to_public r). length (fst a) = 16
     \<and> (\<exists>p \<in> set ps. up_SourceAddr p = udp_text a \<and> up_Data p = d))"

definition counts_ok :: "udp_server \<Rightarrow> bool" where
  "counts_ok r \<longleftrightarrow> ur_in r = sum_list (map (int \<circ> length \<circ> up_Data) (ur_to_client r))
     \<and> ur_out r = sum_list (map (int \<circ> length \<circ> snd) (ur_to_public r))"

definition client_ok :: "UDPPacket list \<Rightarrow> (nat \<times> byte list) list \<Rightarrow> udp_client \<Rightarrow> bool" where
  "client_ok ps rp c \<longleftrightarrow> sessions_map_ok c \<and> sent_ok ps c \<and> up_ok rp c"

definition udp_ok :: "udp_system \<Rightarrow> bool" where
  "udp_ok s \<longleftrightarrow> (\<forall>(a, x) \<in> set (ug_received s). length (fst a) = 16) \<and> addrs_ok (ug_server s)
     \<and> down_ok (ug_received s) (ug_server s)
     \<and> client_ok (ur_to_client (ug_server s)) (ug_replied s) (ug_client s)
     \<and> public_ok (uc_to_server (ug_client s)) (ug_server s) \<and> counts_ok (ug_server s)"

text \<open>Growing logs keep what refers to them.\<close>

lemma down_ok_mono: "down_ok rc r \<Longrightarrow> set rc \<subseteq> set rc' \<Longrightarrow> down_ok rc' r"
  unfolding down_ok_def by (meson subsetD)

lemma sent_ok_mono: "sent_ok ps c \<Longrightarrow> set ps \<subseteq> set ps' \<Longrightarrow> sent_ok ps' c"
  unfolding sent_ok_def by (meson subsetD)

lemma up_ok_mono: "up_ok rp c \<Longrightarrow> set rp \<subseteq> set rp' \<Longrightarrow> up_ok rp' c"
  unfolding up_ok_def by (meson subsetD)

lemma up_ok_grow:
  assumes "up_ok rp c" and "srcs c' = srcs c @ xs" and "uc_to_server c' = uc_to_server c"
  shows "up_ok rp c'"
  unfolding up_ok_def
proof
  fix p
  assume "p \<in> set (uc_to_server c')"
  with assms(1,3) obtain i x where "i < length (srcs c)" "(i, x) \<in> set rp" "srcs c ! i = up_SourceAddr p"
    "up_Data p = take udpReadBufSize x" unfolding up_ok_def by auto
  then show "\<exists>i x. i < length (srcs c') \<and> (i, x) \<in> set rp \<and> srcs c' ! i = up_SourceAddr p
      \<and> up_Data p = take udpReadBufSize x"
    by (intro exI [of _ i] exI [of _ x]) (simp add: assms(2) nth_append)
qed

lemma client_ok_mono:
  "client_ok ps rp c \<Longrightarrow> set ps \<subseteq> set ps' \<Longrightarrow> set rp \<subseteq> set rp' \<Longrightarrow> client_ok ps' rp' c"
  by (auto simp: client_ok_def intro: sent_ok_mono up_ok_mono)

lemma public_ok_mono: "public_ok ps r \<Longrightarrow> set ps \<subseteq> set ps' \<Longrightarrow> public_ok ps' r"
  unfolding public_ok_def by fast

text \<open>A change of one socket that keeps its sender.\<close>

lemma srcs_upd_sock [simp]: "(\<And>u. us_src (f u) = us_src u) \<Longrightarrow> srcs (upd_sock i f c) = srcs c"
  by (simp add: srcs_def upd_sock_def map_update)
     (metis length_map list_update_beyond list_update_id not_le nth_map)

lemma upd_sock_fields [simp]:
  "uc_sessions (upd_sock i f c) = uc_sessions c" "uc_to_server (upd_sock i f c) = uc_to_server c"
  by (simp_all add: upd_sock_def)

lemma sent_ok_upd_sock:
  assumes "sent_ok ps c"
    and "i < length (uc_socks c) \<Longrightarrow> us_src (f (uc_socks c ! i)) = us_src (uc_socks c ! i)"
    and "\<And>d. i < length (uc_socks c) \<Longrightarrow> d \<in> set (us_sent (f (uc_socks c ! i))) \<Longrightarrow> d \<in> set (us_sent (uc_socks c ! i))
      \<or> (\<exists>p \<in> set ps. up_SourceAddr p = us_src (uc_socks c ! i) \<and> up_Data p = d)"
  shows "sent_ok ps (upd_sock i f c)"
proof (cases "i < length (uc_socks c)")
  case True
  then have in_set: "uc_socks c ! i \<in> set (uc_socks c)" by simp
  show ?thesis
    unfolding sent_ok_def
  proof (intro ballI)
    fix u d
    assume u: "u \<in> set (uc_socks (upd_sock i f c))" and d: "d \<in> set (us_sent u)"
    then consider "u \<in> set (uc_socks c)" | "u = f (uc_socks c ! i)"
      using set_update_subset_insert [of "uc_socks c" i] by (auto simp: upd_sock_def)
    then show "\<exists>p \<in> set ps. up_SourceAddr p = us_src u \<and> up_Data p = d"
    proof cases
      case 1
      with assms(1) d show ?thesis by (simp add: sent_ok_def)
    next
      case 2
      with d assms(2,3) [OF True] in_set assms(1) show ?thesis by (auto simp: sent_ok_def)
    qed
  qed
next
  case False
  with assms(1) show ?thesis by (simp add: sent_ok_def upd_sock_def list_update_beyond)
qed

lemma client_ok_upd_sock:
  assumes "client_ok ps rp c" and "\<And>u. us_src (f u) = us_src u" and "\<And>u. us_sent (f u) = us_sent u"
  shows "client_ok ps rp (upd_sock i f c)"
  using assms sent_ok_upd_sock [of ps c i f]
  by (simp add: client_ok_def sessions_map_ok_def up_ok_def)

text \<open>A frame is delivered to the socket of its sender.\<close>

lemma deliver_ok:
  assumes "client_ok ps rp c" and "p \<in> set ps" and "i < length (srcs c)" and "srcs c ! i = up_SourceAddr p"
    and "\<And>u. us_src (f u) = us_src u" and "\<And>u. us_sent (f u) = us_sent u \<or> us_sent (f u) = us_sent u @ [up_Data p]"
  shows "client_ok ps rp (upd_sock i f c)"
proof -
  have "us_src (uc_socks c ! i) = up_SourceAddr p" using assms(3,4) by (simp add: srcs_def)
  moreover have "set (us_sent (f u)) \<subseteq> insert (up_Data p) (set (us_sent u))" for u
    using assms(6) [of u] by auto
  ultimately have "sent_ok ps (upd_sock i f c)"
    using assms(1,2,5) by (intro sent_ok_upd_sock) (auto simp: client_ok_def)
  with assms(1,5) show ?thesis by (simp add: client_ok_def sessions_map_ok_def up_ok_def)
qed

lemma udp_packet_ok:
  assumes "client_ok ps rp c" and "p \<in> set ps"
  shows "client_ok ps rp (udp_packet now dialok wok p c)"
    and "uc_to_server (udp_packet now dialok wok p c) = uc_to_server c"
proof -
  show "uc_to_server (udp_packet now dialok wok p c) = uc_to_server c"
    by (auto simp: udp_packet_def Let_def udp_dial_def split: option.split)
  show "client_ok ps rp (udp_packet now dialok wok p c)"
  proof (cases "uc_sessions c (up_SourceAddr p)")
    case (Some i)
    with assms(1) have "i < length (srcs c)" "srcs c ! i = up_SourceAddr p"
      by (auto simp: client_ok_def sessions_map_ok_def)
    with assms Some show ?thesis
      by (auto simp: udp_packet_def Let_def intro!: deliver_ok split: if_splits)
  next
    case None
    obtain i c1 where d: "udp_dial now (up_SourceAddr p) c = (i, c1)" by (cases "udp_dial now (up_SourceAddr p) c")
    then have s: "srcs c1 = srcs c @ [up_SourceAddr p]" "i = length (srcs c)" "uc_to_server c1 = uc_to_server c"
      "uc_sessions c1 = (uc_sessions c)(up_SourceAddr p \<mapsto> i)"
      by (auto simp: udp_dial_def Let_def srcs_def)
    have "sent_ok ps c1" using assms(1) d by (auto simp: client_ok_def udp_dial_def Let_def sent_ok_def)
    moreover have "sessions_map_ok c1"
      using assms(1) s by (auto simp: client_ok_def sessions_map_ok_def nth_append less_Suc_eq)
    moreover have "up_ok rp c1"
      using assms(1) s by (auto simp: client_ok_def intro: up_ok_grow)
    ultimately have "client_ok ps rp c1" by (simp add: client_ok_def)
    with assms d s None show ?thesis
      by (auto simp: udp_packet_def Let_def intro!: deliver_ok split: if_splits)
  qed
qed

lemma udp_reply_ok:
  assumes "client_ok ps rp c"
  shows "client_ok ps (rp @ [(i, x)]) (udp_reply now wok i x c)"
    and "set (uc_to_server c) \<subseteq> set (uc_to_server (udp_reply now wok i x c))"
proof -
  let ?f = "\<lambda>u. u\<lparr>us_lastActive := now, us_deadline := now + udpSessionIdleTimeout\<rparr>"
  show "set (uc_to_server c) \<subseteq> set (uc_to_server (udp_reply now wok i x c))"
    by (auto simp: udp_reply_def Let_def)
  have c: "client_ok ps (rp @ [(i, x)]) c" using assms by (rule client_ok_mono) auto
  have f: "client_ok ps (rp @ [(i, x)]) (upd_sock i ?f c)" using c by (rule client_ok_upd_sock) simp_all
  let ?c = "(upd_sock i ?f c)\<lparr>uc_to_server := uc_to_server c
      @ [\<lparr>up_SourceAddr = us_src (uc_socks c ! i), up_Data = take udpReadBufSize x\<rparr>]\<rparr>"
  have "client_ok ps (rp @ [(i, x)]) ?c" if "i < length (uc_socks c)"
  proof -
    have s: "srcs ?c = srcs c" "srcs c ! i = us_src (uc_socks c ! i)" "i < length (srcs c)"
      using that srcs_upd_sock [of ?f i c] by (simp_all add: srcs_def)
    then have "up_ok (rp @ [(i, x)]) ?c"
      using c by (fastforce simp: client_ok_def up_ok_def)
    with f s show ?thesis by (simp add: client_ok_def sessions_map_ok_def sent_ok_def)
  qed
  moreover have "client_ok ps (rp @ [(i, x)]) (upd_sock i (\<lambda>u. u\<lparr>us_lastActive := now, us_reading := False\<rparr>) c)"
    using c by (rule client_ok_upd_sock) simp_all
  ultimately show "client_ok ps (rp @ [(i, x)]) (udp_reply now wok i x c)"
    using c by (simp add: udp_reply_def Let_def)
qed

lemma udp_timeout_ok:
  "client_ok ps rp c \<Longrightarrow> client_ok ps rp (udp_read_timeout now i c)"
  "uc_to_server (udp_read_timeout now i c) = uc_to_server c"
  by (auto simp: udp_read_timeout_def intro: client_ok_upd_sock)

lemma udp_reap_to_server [simp]: "uc_to_server (udp_reap now c) = uc_to_server c"
  by (simp add: udp_reap_def Let_def)

lemma udp_reap_ok:
  assumes "client_ok ps rp c"
  shows "client_ok ps rp (udp_reap now c)"
proof -
  have socks: "us_src (uc_socks (udp_reap now c) ! i) = us_src (uc_socks c ! i)"
    "us_sent (uc_socks (udp_reap now c) ! i) = us_sent (uc_socks c ! i)" if "i < length (uc_socks c)" for i
    using that by (simp_all add: udp_reap_def Let_def)
  have len: "length (uc_socks (udp_reap now c)) = length (uc_socks c)" by (simp add: udp_reap_def Let_def)
  have s: "srcs (udp_reap now c) = srcs c"
    by (rule nth_equalityI) (simp_all add: srcs_def len socks)
  have "sent_ok ps (udp_reap now c)"
    unfolding sent_ok_def all_set_conv_all_nth [of "uc_socks (udp_reap now c)"] len
    using assms socks by (auto simp: client_ok_def sent_ok_def)
  moreover have "sessions_map_ok (udp_reap now c)"
    using assms by (auto simp: client_ok_def sessions_map_ok_def s) (auto simp: udp_reap_def Let_def split: option.splits if_splits)
  ultimately show "client_ok ps rp (udp_reap now c)"
    using assms by (simp add: client_ok_def up_ok_def s)
qed

text \<open>The server's steps.\<close>

lemma udp_from_public_ok:
  assumes "length (fst a) = 16" and "addrs_ok r" "down_ok rc r" "counts_ok r"
  shows "addrs_ok (udp_from_public wok a x r)" "down_ok (rc @ [(a, x)]) (udp_from_public wok a x r)"
    "counts_ok (udp_from_public wok a x r)"
    "set (ur_to_client r) \<subseteq> set (ur_to_client (udp_from_public wok a x r))"
    "ur_to_public (udp_from_public wok a x r) = ur_to_public r"
proof -
  show "addrs_ok (udp_from_public wok a x r)"
    using assms(1,2) by (auto simp: udp_from_public_def Let_def addrs_ok_def)
  have old: "down_ok (rc @ [(a, x)]) r" using assms(3) by (rule down_ok_mono) auto
  have "\<exists>b y. (b, y) \<in> set (rc @ [(a, x)]) \<and> udp_text a = udp_text b \<and> take udpReadBufSize x = take udpReadBufSize y"
    by (intro exI [of _ a] exI [of _ x]) simp
  with old show "down_ok (rc @ [(a, x)]) (udp_from_public wok a x r)"
    unfolding down_ok_def by (simp add: udp_from_public_def Let_def)
  show "counts_ok (udp_from_public wok a x r)"
    using assms(4) by (auto simp: udp_from_public_def Let_def counts_ok_def)
qed (auto simp: udp_from_public_def Let_def)

lemma udp_from_client_ok:
  assumes "addrs_ok r" "public_ok ps r" "counts_ok r" and "p \<in> set ps"
  shows "addrs_ok (udp_from_client sent p r)" "public_ok ps (udp_from_client sent p r)"
    "counts_ok (udp_from_client sent p r)" "ur_to_client (udp_from_client sent p r) = ur_to_client r"
    "down_ok rc (udp_from_client sent p r) = down_ok rc r"
proof -
  show "public_ok ps (udp_from_client sent p r)"
    using assms(1,2,4) by (auto simp: udp_from_client_def public_ok_def addrs_ok_def split: option.splits)
qed (use assms in \<open>auto simp: udp_from_client_def addrs_ok_def counts_ok_def down_ok_def split: option.splits\<close>)

lemma udp_step_ok:
  assumes "udp_ok s" and "udp_step s s'"
  shows "udp_ok s'"
  using assms(2)
proof (cases rule: udp_step.cases)
  case (public a d wok)
  note ok = assms(1) [unfolded udp_ok_def]
  note f = udp_from_public_ok [where a = a and r = "ug_server s" and rc = "ug_received s" and wok = wok and x = d]
  have "client_ok (ur_to_client (udp_from_public wok a d (ug_server s))) (ug_replied s) (ug_client s)"
    using ok public(2) f by (blast intro: client_ok_mono)
  with ok public f show ?thesis by (auto simp: udp_ok_def public_ok_def)
next
  case (down now dialok wok)
  then have "ur_to_client (ug_server s) ! ug_down s \<in> set (ur_to_client (ug_server s))" by simp
  moreover have "client_ok (ur_to_client (ug_server s)) (ug_replied s) (ug_client s)"
    using assms(1) by (simp add: udp_ok_def)
  ultimately have p: "client_ok (ur_to_client (ug_server s)) (ug_replied s)
      (udp_packet now dialok wok (ur_to_client (ug_server s) ! ug_down s) (ug_client s))"
    "uc_to_server (udp_packet now dialok wok (ur_to_client (ug_server s) ! ug_down s) (ug_client s))
      = uc_to_server (ug_client s)"
    by (simp_all add: udp_packet_ok)
  from assms(1) down(1,2) p show ?thesis by (simp add: udp_ok_def)
next
  case (reply i d now wok)
  note f = udp_reply_ok [where ps = "ur_to_client (ug_server s)" and rp = "ug_replied s" and c = "ug_client s"
      and i = i and x = d and now = now and wok = wok]
  with assms(1) have "public_ok (uc_to_server (udp_reply now wok i d (ug_client s))) (ug_server s)"
    by (auto simp: udp_ok_def intro: public_ok_mono)
  with assms(1) reply f show ?thesis by (simp add: udp_ok_def)
next
  case (timeout now i)
  with assms(1) show ?thesis by (simp add: udp_ok_def udp_timeout_ok)
next
  case (reap now)
  with assms(1) show ?thesis by (simp add: udp_ok_def udp_reap_ok)
next
  case (up sent)
  then have p: "uc_to_server (ug_client s) ! ug_up s \<in> set (uc_to_server (ug_client s))" by simp
  have ok: "addrs_ok (ug_server s)" "public_ok (uc_to_server (ug_client s)) (ug_server s)"
    "counts_ok (ug_server s)" using assms(1) by (simp_all add: udp_ok_def)
  from assms(1) up(1,2) udp_from_client_ok [OF ok p] show ?thesis by (simp add: udp_ok_def)
qed

lemma udp_reach_ok: "udp_reach s \<Longrightarrow> udp_ok s"
proof (induction rule: udp_reach.induct)
  case start
  show ?case
    by (simp add: udp_ok_def udp_start_def udp_session_start_def udp_client_start_def addrs_ok_def
        down_ok_def client_ok_def sessions_map_ok_def sent_ok_def up_ok_def public_ok_def counts_ok_def)
next
  case (step s s')
  then show ?case by (blast intro: udp_step_ok)
qed

section \<open>One round trip\<close>

text \<open>The socket a frame is delivered to, and what it holds afterwards.\<close>

definition answering :: "int \<Rightarrow> string \<Rightarrow> udp_client \<Rightarrow> bool" where
  "answering later src c \<longleftrightarrow> (case uc_sessions c src of
     None \<Rightarrow> True
   | Some i \<Rightarrow> us_reading (uc_socks c ! i) \<and> \<not> us_closed (uc_socks c ! i) \<and> later \<le> us_deadline (uc_socks c ! i))"

lemma udp_packet_delivers:
  assumes "sessions_map_ok c" and "answering later (up_SourceAddr p) c"
    and "now \<le> later" "later \<le> now + udpSessionIdleTimeout"
  obtains i where "i < length (uc_socks (udp_packet now True True p c))"
    and "us_src (uc_socks (udp_packet now True True p c) ! i) = up_SourceAddr p"
    and "us_reading (uc_socks (udp_packet now True True p c) ! i)"
    and "\<not> us_closed (uc_socks (udp_packet now True True p c) ! i)"
    and "later \<le> us_deadline (uc_socks (udp_packet now True True p c) ! i)"
    and "us_sent (uc_socks (udp_packet now True True p c) ! i) \<noteq> []"
    and "last (us_sent (uc_socks (udp_packet now True True p c) ! i)) = up_Data p"
proof (cases "uc_sessions c (up_SourceAddr p)")
  case None
  show ?thesis
    by (rule that [of "length (uc_socks c)"])
       (use None assms(3,4) in \<open>simp_all add: udp_packet_def udp_dial_def upd_sock_def Let_def\<close>)
next
  case (Some i)
  with assms(1) have "i < length (srcs c)" "srcs c ! i = up_SourceAddr p"
    unfolding sessions_map_ok_def by blast+
  then have "i < length (uc_socks c)" "us_src (uc_socks c ! i) = up_SourceAddr p" by (simp_all add: srcs_def)
  with Some assms(2) show ?thesis
    by (intro that [of i]) (simp_all add: udp_packet_def upd_sock_def Let_def answering_def)
qed

lemma round_trip_run:
  assumes "udp_reach s" and "length (fst a) = 16" and "\<not> ur_over (ug_server s)"
    and "ug_down s = length (ur_to_client (ug_server s))" and "ug_up s = length (uc_to_server (ug_client s))"
    and "answering later (udp_text a) (ug_client s)"
    and "now \<le> later" and "later \<le> now + udpSessionIdleTimeout"
    and "length d \<le> udpReadBufSize" and "length r \<le> udpReadBufSize"
  shows "\<exists>s' i. udp_step\<^sup>*\<^sup>* s s' \<and> ur_to_public (ug_server s') = ur_to_public (ug_server s) @ [(a, r)]
    \<and> last (us_sent (uc_socks (ug_client s') ! i)) = d \<and> (i, r) \<in> set (ug_replied s')"
proof -
  let ?p = "\<lparr>up_SourceAddr = udp_text a, up_Data = d\<rparr>"
  define s1 where "s1 = s\<lparr>ug_server := udp_from_public True a d (ug_server s), ug_received := ug_received s @ [(a, d)]\<rparr>"
  have t1: "udp_step s s1" unfolding s1_def by (rule udp_step.public) (rule assms(2))
  have s1: "ur_to_client (ug_server s1) = ur_to_client (ug_server s) @ [?p]" "ug_client s1 = ug_client s"
    "ur_addrs (ug_server s1) (udp_text a) = Some a" "ug_down s1 = ug_down s" "ug_up s1 = ug_up s"
    "ur_to_public (ug_server s1) = ur_to_public (ug_server s)"
    using assms(3,9) by (simp_all add: s1_def udp_from_public_def Let_def)
  define s2 where "s2 = s1\<lparr>ug_client := udp_packet now True True (ur_to_client (ug_server s1) ! ug_down s1) (ug_client s1),
      ug_down := ug_down s1 + 1\<rparr>"
  have t2: "udp_step s1 s2" unfolding s2_def by (rule udp_step.down) (simp add: s1 assms(4))
  have s2: "ug_client s2 = udp_packet now True True ?p (ug_client s)" "ug_server s2 = ug_server s1" "ug_up s2 = ug_up s"
    using assms(4) by (simp_all add: s2_def s1)
  have "sessions_map_ok (ug_client s)" using udp_reach_ok [OF assms(1)] by (simp add: udp_ok_def client_ok_def)
  moreover have "answering later (up_SourceAddr ?p) (ug_client s)" using assms(6) by simp
  ultimately obtain i where i: "i < length (uc_socks (ug_client s2))" "us_src (uc_socks (ug_client s2) ! i) = udp_text a"
    "us_reading (uc_socks (ug_client s2) ! i)" "\<not> us_closed (uc_socks (ug_client s2) ! i)"
    "later \<le> us_deadline (uc_socks (ug_client s2) ! i)" "last (us_sent (uc_socks (ug_client s2) ! i)) = d"
    using assms(7,8) by (rule udp_packet_delivers) (simp add: s2)
  define s3 where "s3 = s2\<lparr>ug_client := udp_reply later True i r (ug_client s2), ug_replied := ug_replied s2 @ [(i, r)]\<rparr>"
  have t3: "udp_step s2 s3" unfolding s3_def by (rule udp_step.reply)
  have up: "uc_to_server (ug_client s2) = uc_to_server (ug_client s)"
    by (auto simp: s2 udp_packet_def Let_def udp_dial_def split: option.split)
  have s3: "uc_to_server (ug_client s3) = uc_to_server (ug_client s) @ [\<lparr>up_SourceAddr = udp_text a, up_Data = r\<rparr>]"
    "ug_server s3 = ug_server s1" "ug_up s3 = ug_up s" "(i, r) \<in> set (ug_replied s3)"
    "last (us_sent (uc_socks (ug_client s3) ! i)) = d"
    using i up assms(10) by (simp_all add: s3_def s2 udp_reply_def Let_def) (simp add: upd_sock_def)
  define s4 where "s4 = s3\<lparr>ug_server := udp_from_client True (uc_to_server (ug_client s3) ! ug_up s3) (ug_server s3),
      ug_up := ug_up s3 + 1\<rparr>"
  have t4: "udp_step s3 s4" unfolding s4_def by (rule udp_step.up) (simp add: s3 assms(5))
  have "ur_to_public (ug_server s4) = ur_to_public (ug_server s) @ [(a, r)]"
    using assms(5) s1 by (simp add: s4_def s3 udp_from_client_def)
  moreover have "(i, r) \<in> set (ug_replied s4)" "last (us_sent (uc_socks (ug_client s4) ! i)) = d"
    using s3 by (simp_all add: s4_def)
  moreover have "udp_step\<^sup>*\<^sup>* s s4" using t1 t2 t3 t4 by (meson rtranclp.rtrancl_into_rtrancl rtranclp.rtrancl_refl)
  ultimately show ?thesis by blast
qed

section \<open>Properties\<close>

text \<open>
  C20. No cross-wiring. Whatever the order in which datagrams and replies arrive, frames travel,
  deadlines pass and idle sockets are reaped: a datagram the server sends to an address is a reply
  read from one local socket of the machine, and this socket has only ever carried datagrams from
  that very address. The counters of the tunnel are the bytes forwarded in each direction.
\<close>

theorem udp_no_crosswiring:
  assumes "udp_reach s" and "(a, d) \<in> set (ur_to_public (ug_server s))"
  shows "(\<exists>i x. (i, x) \<in> set (ug_replied s) \<and> d = take udpReadBufSize x \<and> i < length (uc_socks (ug_client s))
      \<and> set (us_sent (uc_socks (ug_client s) ! i))
          \<subseteq> {take udpReadBufSize y |y. (a, y) \<in> set (ug_received s)})
    \<and> ur_in (ug_server s) = sum_list (map (int \<circ> length \<circ> up_Data) (ur_to_client (ug_server s)))
    \<and> ur_out (ug_server s) = sum_list (map (int \<circ> length \<circ> snd) (ur_to_public (ug_server s)))"
proof (intro conjI)
  note ok = udp_reach_ok [OF assms(1), unfolded udp_ok_def client_ok_def]
  have a: "length (fst a) = 16" and "\<exists>p \<in> set (uc_to_server (ug_client s)). up_SourceAddr p = udp_text a \<and> up_Data p = d"
    using ok assms(2) by (auto simp: public_ok_def)
  then obtain p where p: "p \<in> set (uc_to_server (ug_client s))" "up_SourceAddr p = udp_text a" "up_Data p = d"
    by blast
  with ok obtain i x where i: "i < length (srcs (ug_client s))" "(i, x) \<in> set (ug_replied s)"
    "srcs (ug_client s) ! i = udp_text a" "d = take udpReadBufSize x" unfolding up_ok_def by metis
  have "\<exists>y. (a, y) \<in> set (ug_received s) \<and> e = take udpReadBufSize y"
    if "e \<in> set (us_sent (uc_socks (ug_client s) ! i))" for e
  proof -
    have "uc_socks (ug_client s) ! i \<in> set (uc_socks (ug_client s))"
      "us_src (uc_socks (ug_client s) ! i) = udp_text a" using i(1,3) by (simp_all add: srcs_def)
    with ok that obtain q where q: "q \<in> set (ur_to_client (ug_server s))" "up_SourceAddr q = udp_text a" "up_Data q = e"
      unfolding sent_ok_def by metis
    with ok obtain b y where b: "(b, y) \<in> set (ug_received s)" "udp_text b = udp_text a" "e = take udpReadBufSize y"
      unfolding down_ok_def by metis
    with ok a have "b = a" by (intro udp_text_inject) auto
    with b show ?thesis by blast
  qed
  with i show "\<exists>i x. (i, x) \<in> set (ug_replied s) \<and> d = take udpReadBufSize x \<and> i < length (uc_socks (ug_client s))
      \<and> set (us_sent (uc_socks (ug_client s) ! i)) \<subseteq> {take udpReadBufSize y |y. (a, y) \<in> set (ug_received s)}"
    by (intro exI [of _ i] exI [of _ x]) (auto simp: srcs_def)
  show "ur_in (ug_server s) = sum_list (map (int \<circ> length \<circ> up_Data) (ur_to_client (ug_server s)))"
    "ur_out (ug_server s) = sum_list (map (int \<circ> length \<circ> snd) (ur_to_public (ug_server s)))"
    using ok by (simp_all add: counts_ok_def)
qed

text \<open>
  A datagram is answered. When the stream works, its queues are drained and the local service
  answers within a minute: a datagram from any address is written to the local service, and the
  answer is sent back to this address, whoever else is using the tunnel; provided that the sender
  is new to the machine, or the reader of its socket is still waiting.
\<close>

theorem udp_round_trip:
  assumes "udp_reach s" and "length (fst a) = 16" and "\<not> ur_over (ug_server s)"
    and "ug_down s = length (ur_to_client (ug_server s))" and "ug_up s = length (uc_to_server (ug_client s))"
    and "answering later (udp_text a) (ug_client s)"
    and "now \<le> later" and "later \<le> now + udpSessionIdleTimeout"
    and "length d \<le> udpReadBufSize" and "length r \<le> udpReadBufSize"
  shows "\<exists>s' i. udp_step\<^sup>*\<^sup>* s s' \<and> ur_to_public (ug_server s') = ur_to_public (ug_server s) @ [(a, r)]
    \<and> last (us_sent (uc_socks (ug_client s') ! i)) = d \<and> (i, r) \<in> set (ug_replied s')"
  using assms by (rule round_trip_run)

text \<open>
  After a silent minute replies are lost. The reader of a sender's socket ends when the local
  service has not answered for a minute, but the session stays in the table as long as the sender
  keeps sending: its datagrams still reach the service through this socket, and no answer to them,
  whenever it comes, is forwarded.
\<close>

theorem udp_replies_lost:
  assumes "uc_sessions c src = Some i" and "i < length (uc_socks c)" and "us_src (uc_socks c ! i) = src"
    and "\<not> us_closed (uc_socks c ! i)" and "us_deadline (uc_socks c ! i) < t1"
    and "up_SourceAddr p = src" and "t3 \<le> t2 + udpSessionIdleTimeout"
    and "c' = udp_reap t3 (udp_packet t2 dialok True p (udp_read_timeout t1 i c))"
  shows "uc_sessions c' src = Some i \<and> last (us_sent (uc_socks c' ! i)) = up_Data p
    \<and> (\<forall>now wok d. udp_reply now wok i d c' = c')"
proof -
  let ?u = "(uc_socks c ! i)\<lparr>us_reading := False, us_lastActive := t2, us_sent := us_sent (uc_socks c ! i) @ [up_Data p]\<rparr>"
  have "udp_packet t2 dialok True p (udp_read_timeout t1 i c) = c\<lparr>uc_socks := (uc_socks c)[i := ?u]\<rparr>"
    using assms(1-6) by (simp add: udp_read_timeout_def udp_packet_def upd_sock_def Let_def)
  then have c': "uc_sessions c' src = Some i" "uc_socks c' ! i = ?u" "i < length (uc_socks c')"
    using assms(1-4,7) by (simp_all add: assms(8) udp_reap_def Let_def)
  then show ?thesis by (auto simp: udp_reply_def Let_def)
qed

section \<open>Witnesses\<close>

definition ex_sender :: udp_addr where
  "ex_sender = (v4_mapped [203, 0, 113, 9], 40000)"

definition ex_client_state :: udp_client where
  "ex_client_state = udp_packet 0 True True \<lparr>up_SourceAddr = ''[::1]:5'', up_Data = [1]\<rparr> udp_client_start"

lemma ex_sender_length [simp]: "length (fst ex_sender) = 16"
  by (simp add: ex_sender_def)

lemma ex_start [simp]:
  "\<not> ur_over (ug_server udp_start)" "ug_down udp_start = length (ur_to_client (ug_server udp_start))"
  "ug_up udp_start = length (uc_to_server (ug_client udp_start))"
  "answering t src (ug_client udp_start)" "ur_to_public (ug_server udp_start) = []"
  by (simp_all add: udp_start_def udp_session_start_def udp_client_start_def answering_def)

theorem udp_round_trip_witness:
  "\<exists>s. udp_step\<^sup>*\<^sup>* udp_start s \<and> ur_to_public (ug_server s) = [(ex_sender, [2])]"
  using udp_round_trip [OF udp_reach.start, of ex_sender 5 5 "[1]" "[2]"]
  by (auto simp: udpSessionIdleTimeout_def udpReadBufSize_def)

lemma ex_answered: "\<exists>s. udp_reach s \<and> ur_to_public (ug_server s) = [(ex_sender, [2])]"
proof -
  obtain s where s: "udp_step\<^sup>*\<^sup>* udp_start s" "ur_to_public (ug_server s) = [(ex_sender, [2])]"
    using round_trip_run [OF udp_reach.start, of ex_sender 5 5 "[1]" "[2]"]
    by (auto simp: udpSessionIdleTimeout_def udpReadBufSize_def)
  from s(1) have "udp_reach s"
    by (induction rule: rtranclp_induct) (auto intro: udp_reach.start udp_reach.step)
  with s(2) show ?thesis by blast
qed

theorem udp_no_crosswiring_witness:
  "\<exists>s i x. udp_reach s \<and> (i, x) \<in> set (ug_replied s) \<and> [2] = take udpReadBufSize x"
proof -
  obtain s where s: "udp_reach s" "ur_to_public (ug_server s) = [(ex_sender, [2])]" using ex_answered by blast
  then have "(ex_sender, [2]) \<in> set (ur_to_public (ug_server s))" by simp
  from udp_no_crosswiring [OF s(1) this] s(1) show ?thesis by blast
qed

theorem udp_replies_lost_witness:
  "let c' = udp_reap (75 * 10 ^ 9) (udp_packet (70 * 10 ^ 9) True True \<lparr>up_SourceAddr = ''[::1]:5'', up_Data = [3]\<rparr>
       (udp_read_timeout (61 * 10 ^ 9) 0 ex_client_state))
   in uc_sessions c' ''[::1]:5'' = Some 0 \<and> last (us_sent (uc_socks c' ! 0)) = [3]
      \<and> uc_to_server (udp_reply (71 * 10 ^ 9) True 0 [4] c') = uc_to_server c'"
proof -
  let ?p = "\<lparr>up_SourceAddr = ''[::1]:5'', up_Data = [3]\<rparr>"
  let ?c' = "udp_reap (75 * 10 ^ 9) (udp_packet (70 * 10 ^ 9) True True ?p (udp_read_timeout (61 * 10 ^ 9) 0 ex_client_state))"
  have c: "uc_sessions ex_client_state ''[::1]:5'' = Some 0" "length (uc_socks ex_client_state) = 1"
    "uc_socks ex_client_state ! 0 = \<lparr>us_src = ''[::1]:5'', us_lastActive = 0, us_closed = False, us_reading = True,
       us_deadline = 60 * 10 ^ 9, us_sent = [[1]]\<rparr>"
    by (simp_all add: ex_client_state_def udp_packet_def udp_dial_def upd_sock_def udp_client_start_def
        udpSessionIdleTimeout_def)
  have "uc_sessions ?c' ''[::1]:5'' = Some 0 \<and> last (us_sent (uc_socks ?c' ! 0)) = up_Data ?p
    \<and> (\<forall>now wok d. udp_reply now wok 0 d ?c' = ?c')"
    by (rule udp_replies_lost [OF c(1) _ _ _ _ _ _ refl]) (simp_all add: c udpSessionIdleTimeout_def)
  then show ?thesis by (simp add: Let_def)
qed

end
