(* ===== verification/LanScan.thy ===== *)
theory LanScan
imports NetAddr TunnelClient
begin

text \<open>
  The scan of the local network (\<open>internal/lanscan/lanscan.go\<close>): which subnets are probed and with
  which addresses, the two parsers of the ARP table, and the list that is reported. The interfaces,
  the table's text and the reverse lookups are arguments; the probes only make the kernel fill the
  table.
\<close>

section \<open>Subnets\<close>

text \<open>\<open>IPMask.Size\<close>: leading ones and length in bits, or zeros for a mask with a hole.\<close>

definition mask_bits :: "byte list \<Rightarrow> bool list" where
  "mask_bits m = concat (map (\<lambda>b. map (bit b) [7, 6, 5, 4, 3, 2, 1, 0]) m)"

definition mask_Size :: "byte list \<Rightarrow> nat \<times> nat" where
  "mask_Size m =
     (let bs = mask_bits m; n = length (takeWhile id bs)
      in if list_ex id (drop n bs) then (0, 0) else (n, length bs))"

definition IsPrivate :: "byte list \<Rightarrow> bool" where
  "IsPrivate ip4 \<longleftrightarrow> ip4 ! 0 = 10 \<or> (ip4 ! 0 = 172 \<and> (ip4 ! 1) AND 0xF0 = 16)
     \<or> (ip4 ! 0 = 192 \<and> ip4 ! 1 = 168)"

definition maxSubnetHosts :: int where
  "maxSubnetHosts = 1022"

text \<open>An interface: up, loopback, and its addresses with their masks (\<open>None\<close> if not readable).\<close>

record net_iface =
  if_up :: bool
  if_loopback :: bool
  if_addrs :: "(byte list \<times> byte list) option list option"

type_synonym ipnet = "byte list \<times> byte list"

definition subnet_of :: "byte list \<times> byte list \<Rightarrow> string list \<times> ipnet list \<Rightarrow> string list \<times> ipnet list" where
  "subnet_of a acc =
     (case To4 (fst a) of
        None \<Rightarrow> acc
      | Some ip4 \<Rightarrow>
          if \<not> IsPrivate ip4 then acc
          else let own = fst acc @ [ip_String ip4];
                   (ones, bits) = mask_Size (snd a)
               in if bits \<noteq> 32 \<or> 2 ^ (32 - ones) - 2 > maxSubnetHosts then (own, snd acc)
                  else (own, snd acc @ [(map2 (AND) ip4 (snd a), snd a)]))"

definition localIPv4Subnets :: "net_iface list option \<Rightarrow> string list \<times> ipnet list" where
  "localIPv4Subnets ifaces =
     (case ifaces of
        None \<Rightarrow> ([], [])
      | Some is \<Rightarrow>
          fold (\<lambda>f acc.
            if \<not> if_up f \<or> if_loopback f then acc
            else case if_addrs f of
                   None \<Rightarrow> acc
                 | Some as \<Rightarrow> fold (\<lambda>a acc. case a of None \<Rightarrow> acc | Some n \<Rightarrow> subnet_of n acc) as acc)
            is ([], []))"

definition be32 :: "byte list \<Rightarrow> 32 word" where
  "be32 b = push_bit 24 (ucast (b ! 0)) OR push_bit 16 (ucast (b ! 1)) OR push_bit 8 (ucast (b ! 2))
     OR ucast (b ! 3)"

definition IPv4 :: "32 word \<Rightarrow> byte list" where
  "IPv4 v = v4_mapped [ucast (drop_bit 24 v), ucast (drop_bit 16 v), ucast (drop_bit 8 v), ucast v]"

definition hostsIn :: "ipnet \<Rightarrow> byte list list" where
  "hostsIn subnet =
     (let (ones, bits) = mask_Size (snd subnet);
          cnt = (2::nat) ^ (bits - ones)
      in if cnt \<le> 2 then []
         else let baseInt = be32 (the (To4 (fst subnet)))
              in map (\<lambda>i. IPv4 (baseInt + word_of_nat i)) [1..<cnt - 1])"

section \<open>The ARP table\<close>

definition Contains :: "string \<Rightarrow> string \<Rightarrow> bool" where
  "Contains s sub \<longleftrightarrow> list_ex (\<lambda>i. HasPrefix (drop i s) sub) [0..<length s + 1]"

definition isUsableMAC :: "string \<Rightarrow> bool" where
  "isUsableMAC mac \<longleftrightarrow> mac \<noteq> [] \<and> mac \<noteq> ''00:00:00:00:00:00'' \<and> \<not> Contains mac ''incomplete''"

text \<open>\<open>strings.Fields\<close>: the maximal runs without white space.\<close>

fun take_field :: "string \<Rightarrow> string" where
  "take_field [] = []"
| "take_field (c # cs) = (if list_ex (HasPrefix (c # cs)) space_seqs then [] else c # take_field cs)"

lemma strip_front_no_space:
  "strip_front space_seqs s \<noteq> [] \<Longrightarrow> take_field (strip_front space_seqs s) \<noteq> []"
proof -
  assume ne: "strip_front space_seqs s \<noteq> []"
  have "\<not> list_ex (HasPrefix (strip_front space_seqs s)) space_seqs"
    using strip_front_clean [of _ space_seqs s] space_not_visible by (auto simp: list_ex_iff)
  with ne show ?thesis by (cases "strip_front space_seqs s") auto
qed

lemma strip_front_shorter: "length (strip_front ws s) \<le> length s"
  using strip_front_suffix [of s ws] by (metis le_add2 length_append)

function Fields :: "string \<Rightarrow> string list" where
  "Fields s =
     (let t = strip_front space_seqs s
      in if t = [] then [] else take_field t # Fields (drop (length (take_field t)) t))"
  by pat_completeness auto
termination
proof (relation "measure length", simp)
  fix s t
  assume t: "t = strip_front space_seqs s" "t \<noteq> []"
  then have "length (take_field t) > 0" using strip_front_no_space by auto
  moreover have "0 < length t" using t(2) by simp
  ultimately have "length (drop (length (take_field t)) t) < length t" by simp
  then show "(drop (length (take_field t)) t, s) \<in> measure length"
    using strip_front_shorter [of space_seqs s] t(1) by simp
qed

declare Fields.simps [simp del]

type_synonym arp_entry = "string \<times> string"

text \<open>
  The lines a \<open>bufio.Scanner\<close> delivers: without the line end, and without an empty last one.
\<close>

definition scan_lines :: "string \<Rightarrow> string list" where
  "scan_lines txt =
     (let ls = Split (CHR 0x0A) txt
      in map (\<lambda>l. TrimSuffix l [CHR 0x0D]) (if last ls = [] then butlast ls else ls))"

definition arp_line :: "string \<Rightarrow> arp_entry option" where
  "arp_line l = (let fields = Fields l in if length fields < 4 then None else Some (fields ! 0, fields ! 3))"

definition readProcNetARP :: "string option \<Rightarrow> arp_entry list option" where
  "readProcNetARP f =
     (case f of None \<Rightarrow> None | Some txt \<Rightarrow> Some (List.map_filter arp_line (drop 1 (scan_lines txt))))"

definition Trim :: "string \<Rightarrow> string \<Rightarrow> string" where
  "Trim s cutset = rev (dropWhile (\<lambda>c. c \<in> set cutset) (rev (dropWhile (\<lambda>c. c \<in> set cutset) s)))"

fun arp_fields :: "string list \<Rightarrow> string \<times> string \<Rightarrow> string \<times> string" where
  "arp_fields [] (ip, mac) = (ip, mac)"
| "arp_fields (f # fs) (ip, mac) =
     arp_fields fs
       (if HasPrefix f ''('' \<and> HasSuffix f '')'' then Trim f ''()'' else ip,
        if f = ''at'' \<and> fs \<noteq> [] then hd fs else mac)"

definition readARPCommand :: "string option \<Rightarrow> arp_entry list option" where
  "readARPCommand out =
     (case out of
        None \<Rightarrow> None
      | Some txt \<Rightarrow> Some (filter (\<lambda>(ip, mac). ip \<noteq> [] \<and> mac \<noteq> [])
          (map (\<lambda>l. arp_fields (Fields l) ([], [])) (Split (CHR 0x0A) txt))))"

definition readARPTable :: "bool \<Rightarrow> string option \<Rightarrow> string option \<Rightarrow> arp_entry list option" where
  "readARPTable linux proc cmd = (if linux then readProcNetARP proc else readARPCommand cmd)"

section \<open>The scan\<close>

definition reverseLookup :: "(string \<Rightarrow> string list option) \<Rightarrow> string \<Rightarrow> string" where
  "reverseLookup lookup ip =
     (case lookup ip of Some (n # _) \<Rightarrow> TrimSuffix n ''.'' | _ \<Rightarrow> [])"

fun bytes_less :: "byte list \<Rightarrow> byte list \<Rightarrow> bool" where
  "bytes_less (x # xs) (y # ys) = (if x \<noteq> y then x < y else bytes_less xs ys)"
| "bytes_less _ _ = False"

text \<open>Go's comparison of strings is the lexicographic one on bytes, a proper prefix being smaller.\<close>

fun string_less :: "string \<Rightarrow> string \<Rightarrow> bool" where
  "string_less _ [] = False"
| "string_less [] (y # ys) = True"
| "string_less (x # xs) (y # ys) =
     (if x = y then string_less xs ys else (of_char x :: nat) < of_char y)"

definition ip4_of :: "string \<Rightarrow> byte list option" where
  "ip4_of s = Option.bind (ParseIP s) To4"

definition ipLess :: "string \<Rightarrow> string \<Rightarrow> bool" where
  "ipLess a b =
     (case (ip4_of a, ip4_of b) of
        (Some x, Some y) \<Rightarrow> bytes_less x y
      | _ \<Rightarrow> string_less a b)"

text \<open>
  \<open>sort.Slice\<close> as it treats short slices: each element moves to the left past the larger ones. (For
  longer slices Go uses another algorithm, with the same result up to the order of equal elements
  when the comparison is a strict weak order.) The accumulator is the sorted part, reversed.
\<close>

fun move_left :: "('a \<Rightarrow> 'a \<Rightarrow> bool) \<Rightarrow> 'a \<Rightarrow> 'a list \<Rightarrow> 'a list" where
  "move_left lt x [] = [x]"
| "move_left lt x (y # ys) = (if lt x y then y # move_left lt x ys else x # y # ys)"

definition SortSlice :: "('a \<Rightarrow> 'a \<Rightarrow> bool) \<Rightarrow> 'a list \<Rightarrow> 'a list" where
  "SortSlice lt xs = rev (foldl (\<lambda>acc x. move_left lt x acc) [] xs)"

definition Scan ::
    "net_iface list option \<Rightarrow> arp_entry list option \<Rightarrow> (string \<Rightarrow> string list option) \<Rightarrow>
     (string \<times> string \<times> string) list option" where
  "Scan ifaces arp lookup =
     (let (ownIPs, subnets) = localIPv4Subnets ifaces
      in case arp of
           None \<Rightarrow> None
         | Some entries \<Rightarrow>
             Some (SortSlice (\<lambda>d e. ipLess (fst d) (fst e))
               (map (\<lambda>(ip, mac). (ip, mac, reverseLookup lookup ip))
                 (filter (\<lambda>(ip, mac). ip \<notin> set ownIPs \<and> isUsableMAC mac) entries))))"

end
