(* ===== verification/LanProps.thy ===== *)
theory LanProps
imports LanScan "HOL-Library.Multiset"
begin

text \<open>
  What the scan of the local network guarantees: which addresses are probed, how the ARP table is
  read, and what the report contains.
\<close>

section \<open>Subnets as words\<close>

lemma IPv4_PutUint32: "IPv4 v = v4_mapped (PutUint32 v)"
  by (simp add: IPv4_def PutUint32_def)

lemma be32_Uint32: "be32 b = Uint32 b"
  by (simp add: be32_def Uint32_def ac_simps)

lemma be32_PutUint32 [simp]: "be32 (PutUint32 v) = v"
  by (simp add: be32_Uint32 Uint32_PutUint32)

lemma IPv4_inject: "IPv4 v = IPv4 w \<longleftrightarrow> v = w"
proof
  assume "IPv4 v = IPv4 w"
  then have "PutUint32 v = PutUint32 w" by (simp add: IPv4_PutUint32 v4_mapped_def)
  then show "v = w" by (metis be32_PutUint32)
qed simp

lemma bit_be32:
  assumes "length b = 4" and "j < 32"
  shows "bit (be32 b) j = bit (b ! (3 - j div 8)) (j mod 8)"
proof -
  consider "j < 8" | "8 \<le> j" "j < 16" | "16 \<le> j" "j < 24" | "24 \<le> j" using assms(2) by linarith
  then show ?thesis
  proof cases
    case 1
    then have "j div 8 = 0" "j mod 8 = j" by simp_all
    with 1 assms(2) show ?thesis by (simp add: be32_def bit_simps)
  next
    case 2
    then have "j div 8 = 1" using assms(2) by (intro div_nat_eqI) simp_all
    moreover from this have "j mod 8 = j - 8" by (simp add: minus_div_mult_eq_mod [symmetric])
    ultimately show ?thesis using 2 assms(2)
      by (auto simp: be32_def bit_simps dest: bit_imp_le_length)
  next
    case 3
    then have "j div 8 = 2" using assms(2) by (intro div_nat_eqI) simp_all
    moreover from this have "j mod 8 = j - 16" by (simp add: minus_div_mult_eq_mod [symmetric])
    ultimately show ?thesis using 3 assms(2)
      by (auto simp: be32_def bit_simps dest: bit_imp_le_length)
  next
    case 4
    then have "j div 8 = 3" using assms(2) by (intro div_nat_eqI) simp_all
    moreover from this have "j mod 8 = j - 24" by (simp add: minus_div_mult_eq_mod [symmetric])
    ultimately show ?thesis using 4 assms(2)
      by (auto simp: be32_def bit_simps dest: bit_imp_le_length)
  qed
qed

lemma be32_and:
  assumes "length a = 4" and "length b = 4"
  shows "be32 (map2 (AND) a b) = be32 a AND be32 b"
proof (rule bit_word_eqI)
  fix j
  assume "j < LENGTH(32)"
  then have j: "j < 32" by simp
  have "3 - j div 8 < 4" by simp
  with assms j show "bit (be32 (map2 (AND) a b)) j = bit (be32 a AND be32 b) j"
    by (simp add: bit_be32 bit_and_iff)
qed

lemma length_mask_bits: "length (mask_bits m) = 8 * length m"
  by (induction m) (simp_all add: mask_bits_def)

lemma mask_bits_nth':
  "i < 8 * length m \<Longrightarrow> mask_bits m ! i = bit (m ! (i div 8)) (7 - i mod 8)"
proof (induction m arbitrary: i)
  case (Cons b m)
  have l: "[7, 6, 5, 4, 3, 2, 1, 0::nat] = rev [0..<8]" by (simp add: upt_rec numeral_eq_Suc)
  have m: "mask_bits (b # m) = map (bit b) (rev [0..<8]) @ mask_bits m"
    unfolding mask_bits_def list.map(2) concat.simps(2) l ..
  show ?case
  proof (cases "i < 8")
    case True
    then show ?thesis by (simp add: m nth_append rev_nth)
  next
    case False
    then obtain k where i: "i = k + 8" by (metis add.commute le_Suc_ex linorder_not_less)
    then have "i div 8 = Suc (k div 8)" "i mod 8 = k mod 8" by simp_all
    with Cons.prems Cons.IH [of k] show ?thesis by (simp add: m nth_append i)
  qed
qed simp

lemma mask_bits_nth:
  assumes "length m = 4" and "j < 32"
  shows "mask_bits m ! (31 - j) = bit (be32 m) j"
proof -
  define q r where "q = j div 8" and "r = j mod 8"
  have j: "j = 8 * q + r" "r < 8" "q < 4" using assms(2) by (auto simp: q_def r_def)
  define t where "t = 7 - r"
  have t: "t < 8" "7 - t = r" "31 - j = t + 8 * (3 - q)" using j unfolding t_def by linarith+
  then have "(31 - j) div 8 = 3 - j div 8" "7 - (31 - j) mod 8 = j mod 8"
    by (simp_all add: q_def [symmetric] r_def [symmetric])
  with mask_bits_nth' [of "31 - j" m] assms show ?thesis by (simp add: bit_be32)
qed

text \<open>A mask of \<open>n\<close> ones clears the low \<open>32 - n\<close> bits and keeps the others.\<close>

lemma mask_Size_bits:
  assumes "mask_Size m = (n, 32)" and "length m = 4" and "j < 32"
  shows "bit (be32 m) j \<longleftrightarrow> 32 - n \<le> j" and "n \<le> 32"
proof -
  let ?bs = "mask_bits m"
  have len: "length ?bs = 32" using assms(2) by (simp add: length_mask_bits)
  have n: "n = length (takeWhile id ?bs)" and hole: "\<not> list_ex id (drop n ?bs)"
    using assms(1) by (auto simp: mask_Size_def Let_def split: if_splits)
  show le: "n \<le> 32" using len length_takeWhile_le [of id ?bs] by (simp add: n)
  have ones: "?bs ! i" if "i < n" for i
    using that nth_mem [of i "takeWhile id ?bs"] takeWhile_nth [of i id ?bs] set_takeWhileD [of _ id ?bs]
    by (metis id_apply n)
  have zeros: "\<not> ?bs ! i" if "n \<le> i" "i < 32" for i
  proof -
    have "?bs ! i \<in> set (drop n ?bs)"
      using that len nth_mem [of "i - n" "drop n ?bs"] by simp
    with hole show ?thesis by (auto simp: list_ex_iff)
  qed
  show "bit (be32 m) j \<longleftrightarrow> 32 - n \<le> j"
  proof (cases "32 - n \<le> j")
    case True
    then have "31 - j < n" using assms(3) le by linarith
    with ones [of "31 - j"] mask_bits_nth [OF assms(2,3)] True show ?thesis by simp
  next
    case False
    then have "n \<le> 31 - j" "31 - j < 32" using assms(3) le by linarith+
    with zeros [of "31 - j"] mask_bits_nth [OF assms(2,3)] False show ?thesis by simp
  qed
qed

lemma PutUint32_be32: "length b = 4 \<Longrightarrow> PutUint32 (be32 b) = b"
proof -
  assume len: "length b = 4"
  then obtain b0 b1 b2 b3 where b: "b = [b0, b1, b2, b3]" by (auto simp: length_Suc_conv numeral_eq_Suc)
  have "ucast (drop_bit 24 (be32 b)) = b0"
    by (rule bit_word_eqI) (auto simp: b be32_def bit_simps dest: bit_imp_le_length)
  moreover have "ucast (drop_bit 16 (be32 b)) = b1"
    by (rule bit_word_eqI) (auto simp: b be32_def bit_simps dest: bit_imp_le_length)
  moreover have "ucast (drop_bit 8 (be32 b)) = b2"
    by (rule bit_word_eqI) (auto simp: b be32_def bit_simps dest: bit_imp_le_length)
  moreover have "ucast (be32 b) = b3"
    by (rule bit_word_eqI) (auto simp: b be32_def bit_simps dest: bit_imp_le_length)
  ultimately show ?thesis by (simp add: PutUint32_def b)
qed

text \<open>The addresses between the first and the last of an aligned block.\<close>

lemma block_words:
  fixes base :: "32 word"
  assumes "k \<le> 32" and "take_bit k base = 0"
  shows "(\<lambda>i. base + word_of_nat i) ` {1..<2 ^ k - 1}
      = {v. drop_bit k v = drop_bit k base \<and> v \<noteq> base \<and> v \<noteq> base + word_of_nat (2 ^ k - 1)}"
    and "inj_on (\<lambda>i. base + word_of_nat i) {..<2 ^ k}"
proof -
  define q where "q = unat base div 2 ^ k"
  have "unat (take_bit k base) = unat base mod 2 ^ k" 
    by (rule trans [OF unsigned_take_bit_eq take_bit_eq_mod])
  then have "unat base mod 2 ^ k = 0" by (simp only: assms(2) unsigned_0)
  then have base: "unat base = 2 ^ k * q" unfolding q_def by (metis mult_div_mod_eq add.right_neutral)
  have "unat base < 2 ^ 32" using unsigned_less [of base] by simp
  then have "2 ^ k * q < 2 ^ k * 2 ^ (32 - k)" using assms(1) by (simp add: base flip: power_add)
  then have "q + 1 \<le> 2 ^ (32 - k)" by simp
  then have "2 ^ k * (q + 1) \<le> 2 ^ k * 2 ^ (32 - k)" by (rule mult_le_mono2)
  then have room: "unat base + 2 ^ k \<le> 2 ^ 32" using assms(1) by (simp add: base algebra_simps flip: power_add)
  have u: "unat (base + word_of_nat i) = unat base + i" if "i < 2 ^ k" for i
  proof -
    have i: "i < 2 ^ 32" "unat base + i < 2 ^ 32" using that room by linarith+
    then have "unat (word_of_nat i :: 32 word) = i" by (simp add: unat_of_nat)
    with i(2) show ?thesis by (simp add: unat_word_ariths)
  qed
  have d: "drop_bit k v = drop_bit k base \<longleftrightarrow> unat v div 2 ^ k = q" for v :: "32 word"
  proof -
    have "unat (drop_bit k x) = unat x div 2 ^ k" for x :: "32 word"
      by (rule trans [OF unat_drop_bit_eq drop_bit_eq_div])
    then show ?thesis by (metis q_def word_unat_eq_iff)
  qed
  show "inj_on (\<lambda>i. base + word_of_nat i) {..<2 ^ k}"
  proof (rule inj_onI)
    fix i j
    assume "i \<in> {..<2 ^ k}" "j \<in> {..<2 ^ k}" "base + word_of_nat i = base + word_of_nat j"
    then have "unat base + i = unat base + j" using u [of i] u [of j] by (metis lessThan_iff)
    then show "i = j" by simp
  qed
  show "(\<lambda>i. base + word_of_nat i) ` {1..<2 ^ k - 1}
      = {v. drop_bit k v = drop_bit k base \<and> v \<noteq> base \<and> v \<noteq> base + word_of_nat (2 ^ k - 1)}"
  proof (intro equalityI subsetI)
    fix v
    assume "v \<in> (\<lambda>i. base + word_of_nat i) ` {1..<2 ^ k - 1}"
    then obtain i where i: "1 \<le> i" "i < 2 ^ k - 1" "v = base + word_of_nat i" by auto
    then have v: "unat v = unat base + i" using u [of i] by simp
    then have "unat v div 2 ^ k = q" using i(2) by (simp add: base)
    moreover have "v \<noteq> base" using v i(1) by auto
    moreover have "unat (base + word_of_nat (2 ^ k - 1)) = unat base + (2 ^ k - 1)" by (rule u) simp
    then have "v \<noteq> base + word_of_nat (2 ^ k - 1)" using v i(2) by auto
    ultimately show "v \<in> {v. drop_bit k v = drop_bit k base \<and> v \<noteq> base \<and> v \<noteq> base + word_of_nat (2 ^ k - 1)}"
      by (simp add: d)
  next
    fix v
    assume "v \<in> {v. drop_bit k v = drop_bit k base \<and> v \<noteq> base \<and> v \<noteq> base + word_of_nat (2 ^ k - 1)}"
    then have v: "unat v div 2 ^ k = q" "v \<noteq> base" "v \<noteq> base + word_of_nat (2 ^ k - 1)" by (simp_all add: d)
    define i where "i = unat v mod 2 ^ k"
    have i: "i < 2 ^ k" by (simp add: i_def)
    have "unat v = 2 ^ k * q + i" using v(1) by (simp add: i_def) (metis mult_div_mod_eq)
    with u [OF i] have veq: "v = base + word_of_nat i" by (simp add: base word_unat_eq_iff)
    have "i \<noteq> 0"
    proof
      assume "i = 0"
      then show False using veq v(2) by simp
    qed
    moreover have "i \<noteq> 2 ^ k - 1"
    proof
      assume "i = 2 ^ k - 1"
      with veq have "v = base + word_of_nat (2 ^ k - 1)" by (simp only:)
      with v(3) show False ..
    qed
    ultimately have "i \<in> {1..<2 ^ k - 1}" using i by auto
    with veq show "v \<in> (\<lambda>i. base + word_of_nat i) ` {1..<2 ^ k - 1}" by auto
  qed
qed

text \<open>One attached subnet: the interface's address, the mask of \<open>n\<close> ones.\<close>

lemma subnet_words:
  assumes "mask_Size m = (n, 32)" and "length m = 4" and "length ip4 = 4"
  shows "take_bit (32 - n) (be32 (map2 (AND) ip4 m)) = 0"
    and "drop_bit (32 - n) (be32 (map2 (AND) ip4 m)) = drop_bit (32 - n) (be32 ip4)"
proof -
  note b = mask_Size_bits(1) [OF assms(1,2)] and n = mask_Size_bits(2) [OF assms(1,2)]
  show "take_bit (32 - n) (be32 (map2 (AND) ip4 m)) = 0"
    by (rule bit_word_eqI) (use b in \<open>auto simp: be32_and assms bit_simps\<close>)
  show "drop_bit (32 - n) (be32 (map2 (AND) ip4 m)) = drop_bit (32 - n) (be32 ip4)"
    by (rule bit_word_eqI) (use b n in \<open>auto simp: be32_and assms bit_simps dest: bit_imp_le_length\<close>)
qed

lemma hostsIn_block:
  assumes "mask_Size m = (n, 32)" and "length m = 4" and "length net = 4"
    and "take_bit (32 - n) (be32 net) = 0"
  shows "set (hostsIn (net, m)) = IPv4 ` {v. drop_bit (32 - n) v = drop_bit (32 - n) (be32 net)
      \<and> v \<noteq> be32 net \<and> v \<noteq> be32 net + word_of_nat (2 ^ (32 - n) - 1)}"
    and "distinct (hostsIn (net, m))" and "length (hostsIn (net, m)) = 2 ^ (32 - n) - 2"
proof -
  let ?k = "32 - n"
  have h: "hostsIn (net, m) = map (\<lambda>i. IPv4 (be32 net + word_of_nat i)) [1..<2 ^ ?k - 1]"
    using assms(1,3) by (simp add: hostsIn_def To4_def Let_def)
  note blk = block_words [of ?k "be32 net", OF _ assms(4)]
  have "set (hostsIn (net, m)) = IPv4 ` (\<lambda>i. be32 net + word_of_nat i) ` {1..<2 ^ ?k - 1}"
    by (simp only: h set_map set_upt image_image)
  also note blk(1)
  finally show "set (hostsIn (net, m)) = IPv4 ` {v. drop_bit (32 - n) v = drop_bit (32 - n) (be32 net)
      \<and> v \<noteq> be32 net \<and> v \<noteq> be32 net + word_of_nat (2 ^ (32 - n) - 1)}" by simp
  have "inj_on (\<lambda>i. IPv4 (be32 net + word_of_nat i)) {1..<2 ^ ?k - 1}"
  proof (rule inj_onI)
    fix i j
    assume ij: "i \<in> {1..<2 ^ ?k - 1}" "j \<in> {1..<2 ^ ?k - 1}"
      "IPv4 (be32 net + word_of_nat i) = IPv4 (be32 net + word_of_nat j)"
    then have "i \<in> {..<2 ^ ?k}" "j \<in> {..<2 ^ ?k}" by auto
    with ij(3) inj_onD [OF blk(2)] show "i = j" by (simp add: IPv4_inject)
  qed
  then show "distinct (hostsIn (net, m))" by (simp add: h distinct_map)
  show "length (hostsIn (net, m)) = 2 ^ ?k - 2" by (simp add: h)
qed

section \<open>The probed addresses\<close>

text \<open>The IPv4 addresses, with their masks, of the interfaces that are up and not the loopback one.\<close>

definition attached :: "net_iface list option \<Rightarrow> (byte list \<times> byte list) list" where
  "attached ifaces =
     concat (map (\<lambda>f. case if_addrs f of
         None \<Rightarrow> []
       | Some as \<Rightarrow> if if_up f \<and> \<not> if_loopback f
           then List.map_filter (\<lambda>a. Option.bind a (\<lambda>(ip, m). map_option (\<lambda>b. (b, m)) (To4 ip))) as else [])
       (case ifaces of None \<Rightarrow> [] | Some is \<Rightarrow> is))"

definition scannable :: "byte list \<times> byte list \<Rightarrow> bool" where
  "scannable a \<longleftrightarrow> IsPrivate (fst a) \<and> snd (mask_Size (snd a)) = 32 \<and> 22 \<le> fst (mask_Size (snd a))"

definition collect :: "(byte list \<times> byte list) list \<Rightarrow> string list \<times> ipnet list" where
  "collect as = (map (\<lambda>a. ip_String (fst a)) (filter (\<lambda>a. IsPrivate (fst a)) as),
     map (\<lambda>a. (map2 (AND) (fst a) (snd a), snd a)) (filter scannable as))"

lemma few_hosts: "n \<le> 32 \<Longrightarrow> (2::int) ^ (32 - n) - 2 > maxSubnetHosts \<longleftrightarrow> \<not> 22 \<le> n"
proof -
  assume "n \<le> 32"
  have "(2::int) ^ (32 - n) > 2 ^ 10 \<longleftrightarrow> 10 < 32 - n" by (rule power_strict_increasing_iff) simp
  then show ?thesis using \<open>n \<le> 32\<close> by (simp add: maxSubnetHosts_def) linarith
qed

lemma mask_Size_le: "mask_Size m = (n, b) \<Longrightarrow> n \<le> b"
  using length_takeWhile_le [of id "mask_bits m"] by (auto simp: mask_Size_def Let_def split: if_splits)

lemma To4_length: "To4 a = Some b \<Longrightarrow> length b = 4"
  by (auto simp: To4_def split: if_splits)

lemma subnet_of_collect:
  "subnet_of a acc = (case To4 (fst a) of None \<Rightarrow> acc
     | Some b \<Rightarrow> (fst acc @ fst (collect [(b, snd a)]), snd acc @ snd (collect [(b, snd a)])))"
proof (cases "mask_Size (snd a)")
  case (Pair n b)
  with mask_Size_le [of "snd a" n b] few_hosts [of n] show ?thesis
    by (auto simp: subnet_of_def collect_def scannable_def Let_def split: option.splits)
qed

lemma fold_subnet_of:
  "fold (\<lambda>a acc. case a of None \<Rightarrow> acc | Some n \<Rightarrow> subnet_of n acc) as acc =
     (let c = collect (List.map_filter (\<lambda>a. Option.bind a (\<lambda>(ip, m). map_option (\<lambda>b. (b, m)) (To4 ip))) as)
      in (fst acc @ fst c, snd acc @ snd c))"
  by (induction as arbitrary: acc)
    (auto simp: subnet_of_collect map_filter_simps collect_def Let_def split: option.splits)

lemma collect_append: "collect (xs @ ys) = (fst (collect xs) @ fst (collect ys), snd (collect xs) @ snd (collect ys))"
  by (simp add: collect_def)

lemma localIPv4Subnets_collect: "localIPv4Subnets ifaces = collect (attached ifaces)"
proof (cases ifaces)
  case None
  then show ?thesis by (simp add: localIPv4Subnets_def collect_def attached_def)
next
  case (Some "is")
  define step where "step = (\<lambda>(f :: net_iface) acc.
            if \<not> if_up f \<or> if_loopback f then acc
            else case if_addrs f of
                   None \<Rightarrow> acc
                 | Some as \<Rightarrow> fold (\<lambda>a acc. case a of None \<Rightarrow> acc | Some n \<Rightarrow> subnet_of n acc) as acc)"
  have none: "collect [] = ([], [])" by (simp add: collect_def)
  have one: "step f acc = (fst acc @ fst (collect (attached (Some [f]))), snd acc @ snd (collect (attached (Some [f]))))"
    for f acc
    by (simp add: step_def attached_def fold_subnet_of Let_def none split: option.splits)
  have "fold step fs acc = (fst acc @ fst (collect (attached (Some fs))), snd acc @ snd (collect (attached (Some fs))))" for fs acc
  proof (induction fs arbitrary: acc)
    case Nil
    then show ?case by (simp add: attached_def none)
  next
    case (Cons f fs)
    have "attached (Some (f # fs)) = attached (Some [f]) @ attached (Some fs)" by (simp add: attached_def)
    then show ?case
      unfolding fold_simps(2) Cons.IH unfolding one by (simp add: collect_append)
  qed
  from this [where fs = "is" and acc = "([], [])"] show ?thesis
    by (simp add: localIPv4Subnets_def Some step_def)
qed

text \<open>Addresses of one scanned block agree in their first two bytes, so all of them are private.\<close>

lemma same_block_private:
  assumes "drop_bit k v = drop_bit k (be32 ip)" and "k \<le> 16" and "length ip = 4" and "IsPrivate ip"
  shows "IsPrivate (PutUint32 v)"
proof -
  have "drop_bit 16 v = drop_bit (16 - k) (drop_bit k v)" for v :: "32 word" using assms(2) by (simp add: drop_bit_drop_bit)
  then have d: "drop_bit 16 v = drop_bit 16 (be32 ip)" using assms(1) by metis
  have "drop_bit 24 v = drop_bit 8 (drop_bit 16 v)" for v :: "32 word" by (simp add: drop_bit_drop_bit)
  then have "drop_bit 24 v = drop_bit 24 (be32 ip)" using d by metis
  with d have "PutUint32 v ! 0 = PutUint32 (be32 ip) ! 0" "PutUint32 v ! 1 = PutUint32 (be32 ip) ! 1"
    by (simp_all add: PutUint32_def)
  with assms(4) show ?thesis by (simp only: IsPrivate_def PutUint32_be32 [OF assms(3)])
qed

lemma scannable_iff: "scannable (ip, m) \<longleftrightarrow> IsPrivate ip \<and> (\<exists>n. mask_Size m = (n, 32) \<and> 22 \<le> n)"
  by (cases "mask_Size m") (auto simp: scannable_def)

lemma attached_length: "(ip, m) \<in> set (attached ifaces) \<Longrightarrow> length ip = 4"
  by (auto simp: attached_def map_filter_def bind_eq_Some_conv split: option.splits if_splits intro: To4_length)

lemma scanned_subnet:
  assumes "length ip = 4" and "IsPrivate ip" and size: "mask_Size m = (n, 32)" and "22 \<le> n"
  shows "set (hostsIn (map2 (AND) ip m, m)) = IPv4 ` {v. drop_bit (32 - n) v = drop_bit (32 - n) (be32 ip)
         \<and> v \<noteq> be32 ip AND be32 m \<and> v \<noteq> be32 ip OR NOT (be32 m)}"
    and "distinct (hostsIn (map2 (AND) ip m, m))" and "length (hostsIn (map2 (AND) ip m, m)) = 2 ^ (32 - n) - 2"
    and "length (hostsIn (map2 (AND) ip m, m)) \<le> 1022"
    and "\<forall>h\<in>set (hostsIn (map2 (AND) ip m, m)). \<exists>b. To4 h = Some b \<and> IsPrivate b"
proof -
  let ?net = "map2 (AND) ip m"
  have lm: "length m = 4"
    using size length_mask_bits [of m] by (auto simp: mask_Size_def Let_def split: if_splits)
  note li = assms(1)
  note words = subnet_words [OF size lm li]
  have ln: "length ?net = 4" by (simp add: li lm)
  note hosts = hostsIn_block [OF size lm ln words(1)]
  have first: "be32 ?net = be32 ip AND be32 m" by (simp add: be32_and li lm)
  have last: "be32 ?net + word_of_nat (2 ^ (32 - n) - 1) = be32 ip OR NOT (be32 m)"
  proof -
    have "word_of_nat (2 ^ (32 - n) - 1) = (mask (32 - n) :: 32 word)"
      by (simp add: mask_eq_exp_minus_1 of_nat_diff)
    moreover have "be32 ?net + mask (32 - n) = be32 ?net OR mask (32 - n)"
      by (rule disjunctive_add) (use words(1) in \<open>auto simp: bit_eq_iff bit_simps\<close>)
    moreover have "be32 ?net OR mask (32 - n) = be32 ip OR NOT (be32 m)"
      by (rule bit_word_eqI) (use mask_Size_bits(1) [OF size lm] in \<open>auto simp: first bit_simps\<close>)
    ultimately show ?thesis by simp
  qed
  show set_eq: "set (hostsIn (?net, m)) = IPv4 ` {v. drop_bit (32 - n) v = drop_bit (32 - n) (be32 ip)
         \<and> v \<noteq> be32 ip AND be32 m \<and> v \<noteq> be32 ip OR NOT (be32 m)}"
    by (simp only: hosts(1) last words(2) flip: first)
  have "(2::nat) ^ (32 - n) \<le> 2 ^ 10" using assms(4) by (intro power_increasing) simp_all
  then show "length (hostsIn (?net, m)) \<le> 1022" by (simp add: hosts(3))
  show "\<forall>h\<in>set (hostsIn (?net, m)). \<exists>b. To4 h = Some b \<and> IsPrivate b"
  proof
    fix h assume "h \<in> set (hostsIn (?net, m))"
    then obtain v where v: "h = IPv4 v" "drop_bit (32 - n) v = drop_bit (32 - n) (be32 ip)"
      by (auto simp: set_eq)
    have "IsPrivate (PutUint32 v)" by (rule same_block_private [OF v(2) _ li assms(2)]) (use assms(4) in simp)
    moreover have "To4 h = Some (PutUint32 v)" by (simp add: v(1) IPv4_PutUint32 To4_mapped)
    ultimately show "\<exists>b. To4 h = Some b \<and> IsPrivate b" by blast
  qed
  show "distinct (hostsIn (?net, m))" "length (hostsIn (?net, m)) = 2 ^ (32 - n) - 2" by (rule hosts(2,3))+
qed

text \<open>
  C30. A scan probes the right addresses, all of them, and never floods the network. The subnets that
  are scanned are, in order, those of every private IPv4 address of an interface that is up and not the
  loopback one, whose mask has at least 22 ones, and no others. The addresses probed in such a subnet
  are exactly those with the same network part, this machine's own included, less the network's and
  the broadcast address; there are at most 1022 of them, none twice, and all are private too.
\<close>

theorem scan_probes:
  "snd (localIPv4Subnets ifaces) = map (\<lambda>(ip, m). (map2 (AND) ip m, m))
      (filter (\<lambda>(ip, m). IsPrivate ip \<and> (\<exists>n. mask_Size m = (n, 32) \<and> 22 \<le> n)) (attached ifaces))
   \<and> (\<forall>(ip, m)\<in>set (attached ifaces). \<forall>n. IsPrivate ip \<longrightarrow> mask_Size m = (n, 32) \<longrightarrow> 22 \<le> n \<longrightarrow>
      set (hostsIn (map2 (AND) ip m, m)) = IPv4 ` {v. drop_bit (32 - n) v = drop_bit (32 - n) (be32 ip)
         \<and> v \<noteq> be32 ip AND be32 m \<and> v \<noteq> be32 ip OR NOT (be32 m)}
      \<and> distinct (hostsIn (map2 (AND) ip m, m)) \<and> length (hostsIn (map2 (AND) ip m, m)) = 2 ^ (32 - n) - 2
      \<and> length (hostsIn (map2 (AND) ip m, m)) \<le> 1022
      \<and> (\<forall>h\<in>set (hostsIn (map2 (AND) ip m, m)). \<exists>b. To4 h = Some b \<and> IsPrivate b))"
proof
  show "snd (localIPv4Subnets ifaces) = map (\<lambda>(ip, m). (map2 (AND) ip m, m))
      (filter (\<lambda>(ip, m). IsPrivate ip \<and> (\<exists>n. mask_Size m = (n, 32) \<and> 22 \<le> n)) (attached ifaces))"
    by (simp add: localIPv4Subnets_collect collect_def case_prod_unfold flip: scannable_iff)
next
  show "\<forall>(ip, m)\<in>set (attached ifaces). \<forall>n. IsPrivate ip \<longrightarrow> mask_Size m = (n, 32) \<longrightarrow> 22 \<le> n \<longrightarrow>
      set (hostsIn (map2 (AND) ip m, m)) = IPv4 ` {v. drop_bit (32 - n) v = drop_bit (32 - n) (be32 ip)
         \<and> v \<noteq> be32 ip AND be32 m \<and> v \<noteq> be32 ip OR NOT (be32 m)}
      \<and> distinct (hostsIn (map2 (AND) ip m, m)) \<and> length (hostsIn (map2 (AND) ip m, m)) = 2 ^ (32 - n) - 2
      \<and> length (hostsIn (map2 (AND) ip m, m)) \<le> 1022
      \<and> (\<forall>h\<in>set (hostsIn (map2 (AND) ip m, m)). \<exists>b. To4 h = Some b \<and> IsPrivate b)"
  proof (intro ballI, unfold split_paired_all prod.case, intro allI impI conjI)
    fix ip m n
    assume "(ip, m) \<in> set (attached ifaces)" "IsPrivate ip" "mask_Size m = (n, 32)" "22 \<le> n"
    note s = scanned_subnet [OF attached_length [OF this(1)] this(2-4)]
    show "set (hostsIn (map2 (AND) ip m, m)) = IPv4 ` {v. drop_bit (32 - n) v = drop_bit (32 - n) (be32 ip)
         \<and> v \<noteq> be32 ip AND be32 m \<and> v \<noteq> be32 ip OR NOT (be32 m)}"
      "distinct (hostsIn (map2 (AND) ip m, m))" "length (hostsIn (map2 (AND) ip m, m)) = 2 ^ (32 - n) - 2"
      "length (hostsIn (map2 (AND) ip m, m)) \<le> 1022"
      "\<forall>h\<in>set (hostsIn (map2 (AND) ip m, m)). \<exists>b. To4 h = Some b \<and> IsPrivate b"
      by (fact s)+
  qed
qed

text \<open>An interface with one private /29 and one public address: one subnet, six addresses.\<close>

definition ex_ifaces :: "net_iface list option" where
  "ex_ifaces = Some [\<lparr>if_up = True, if_loopback = False, if_addrs = Some
     [Some ([192, 168, 1, 5], [255, 255, 255, 248]), Some ([203, 0, 113, 9], [255, 255, 255, 0])]\<rparr>]"

lemma scan_probes_witness:
  "snd (localIPv4Subnets ex_ifaces) = [([192, 168, 1, 0], [255, 255, 255, 248])]
   \<and> length (hostsIn ([192, 168, 1, 0], [255, 255, 255, 248])) = 6"
proof -
  have a: "attached ex_ifaces = [([192, 168, 1, 5], [255, 255, 255, 248]), ([203, 0, 113, 9], [255, 255, 255, 0])]"
    "mask_Size [255, 255, 255, 248] = (29, 32)" "IsPrivate [192, 168, 1, 5]" "\<not> IsPrivate [203, 0, 113, 9]"
    "map2 (AND) [192, 168, 1, 5] [255, 255, 255, 248 :: byte] = [192, 168, 1, 0]"
    by code_simp+
  from scan_probes [of ex_ifaces] a show ?thesis by simp
qed

section \<open>The report\<close>

lemma mset_move_left: "mset (move_left lt x ys) = add_mset x (mset ys)"
  by (induction ys) auto

lemma mset_SortSlice: "mset (SortSlice lt xs) = mset xs"
proof -
  have "mset (foldl (\<lambda>acc x. move_left lt x acc) acc xs) = mset acc + mset xs" for acc
    by (induction xs arbitrary: acc) (simp_all add: mset_move_left)
  then show ?thesis by (simp add: SortSlice_def)
qed

text \<open>A comparison that compares keys sorts by them.\<close>

lemma move_left_sorted:
  fixes key :: "'a \<Rightarrow> 'k::linorder"
  assumes "\<And>y. y \<in> set ys \<Longrightarrow> lt x y \<longleftrightarrow> key x < key y" and "sorted_wrt (\<lambda>a b. key b \<le> key a) ys"
  shows "sorted_wrt (\<lambda>a b. key b \<le> key a) (move_left lt x ys)"
  using assms
proof (induction ys)
  case (Cons y ys)
  have set: "set (move_left lt x ys) = insert x (set ys)"
    using arg_cong [OF mset_move_left [of lt x ys], of set_mset] by simp
  show ?case
  proof (cases "lt x y")
    case True
    with Cons.prems Cons.IH set show ?thesis by (auto simp: less_imp_le)
  next
    case False
    with Cons.prems have "key y \<le> key x" by (simp add: not_less)
    with False Cons.prems show ?thesis by (auto intro: order_trans)
  qed
qed simp

lemma SortSlice_sorted:
  fixes key :: "'a \<Rightarrow> 'k::linorder"
  assumes "\<And>x y. x \<in> set xs \<Longrightarrow> y \<in> set xs \<Longrightarrow> lt x y \<longleftrightarrow> key x < key y"
  shows "sorted_wrt (\<lambda>a b. key a \<le> key b) (SortSlice lt xs)"
proof -
  have "sorted_wrt (\<lambda>a b. key b \<le> key a) (foldl (\<lambda>acc x. move_left lt x acc) acc ys)"
    if "sorted_wrt (\<lambda>a b. key b \<le> key a) acc" "set acc \<union> set ys \<subseteq> set xs" for acc ys
    using that
  proof (induction ys arbitrary: acc)
    case (Cons y ys)
    have "set (move_left lt y acc) = insert y (set acc)"
      using arg_cong [OF mset_move_left [of lt y acc], of set_mset] by simp
    moreover have "sorted_wrt (\<lambda>a b. key b \<le> key a) (move_left lt y acc)"
      using Cons.prems assms by (intro move_left_sorted) auto
    ultimately show ?case using Cons.prems by (simp add: Cons.IH)
  qed simp
  from this [of "[]" xs] show ?thesis by (simp add: SortSlice_def sorted_wrt_rev)
qed

text \<open>Comparing four bytes from the left compares the addresses as numbers.\<close>

lemma unat_be32:
  "unat (be32 [a, b, c, d]) = ((unat a * 256 + unat b) * 256 + unat c) * 256 + unat d"
proof -
  let ?x = "push_bit 24 (ucast a) OR push_bit 16 (ucast b) :: 32 word"
  let ?y = "?x OR push_bit 8 (ucast c)"
  have "be32 [a, b, c, d] = ?y OR ucast d" by (simp add: be32_def or.assoc)
  also have "\<dots> = ?y + ucast d"
    by (rule disjunctive_add [symmetric]) (auto simp: bit_simps dest: bit_imp_le_length)
  also have "?y = ?x + push_bit 8 (ucast c)"
    by (rule disjunctive_add [symmetric]) (auto simp: bit_simps dest: bit_imp_le_length)
  also have "?x = push_bit 24 (ucast a) + push_bit 16 (ucast b)"
    by (rule disjunctive_add [symmetric]) (auto simp: bit_simps dest: bit_imp_le_length)
  finally have "be32 [a, b, c, d] = push_bit 24 (ucast a) + push_bit 16 (ucast b) + push_bit 8 (ucast c) + ucast d" .
  moreover have "unat a < 256" "unat b < 256" "unat c < 256" "unat d < 256"
    using unsigned_less [of a] unsigned_less [of b] unsigned_less [of c] unsigned_less [of d] by simp_all
  moreover have "unat (ucast x :: 32 word) = unat x" for x :: byte
  proof -
    have "unat x < 2 ^ LENGTH(8)" by (rule unsigned_less)
    then have "unat x < 2 ^ LENGTH(32)" by simp
    then show ?thesis by (simp only: unsigned_ucast_eq take_bit_nat_eq_self)
  qed
  ultimately show ?thesis
    by (simp add: push_bit_eq_mult unat_word_ariths)
qed

lemma bytes_less_be32:
  assumes "length x = 4" and "length y = 4"
  shows "bytes_less x y \<longleftrightarrow> be32 x < be32 y"
proof -
  obtain a b c d where x: "x = [a, b, c, d]" using assms(1) by (auto simp: length_Suc_conv numeral_eq_Suc)
  obtain e f g h where y: "y = [e, f, g, h]" using assms(2) by (auto simp: length_Suc_conv numeral_eq_Suc)
  have bound: "unat w < 256" for w :: byte using unsigned_less [of w] by simp
  show ?thesis
    using bound [of a] bound [of b] bound [of c] bound [of d] bound [of e] bound [of f] bound [of g] bound [of h]
    by (simp add: x y word_less_nat_alt unat_be32 word_unat_eq_iff) linarith
qed

definition ip4_key :: "string \<Rightarrow> 32 word" where
  "ip4_key ip = be32 (the (ip4_of ip))"

lemma ipLess_key:
  assumes "ip4_of a \<noteq> None" and "ip4_of b \<noteq> None"
  shows "ipLess a b \<longleftrightarrow> ip4_key a < ip4_key b"
proof -
  obtain x y where xy: "ip4_of a = Some x" "ip4_of b = Some y" using assms by blast
  then have "length x = 4" "length y = 4" by (auto simp: ip4_of_def bind_eq_Some_conv intro: To4_length)
  with xy show ?thesis by (simp add: ipLess_def ip4_key_def bytes_less_be32)
qed

text \<open>
  The report of a scan is exactly the usable part of the ARP table: the entries that are not this
  machine's own address and have a complete hardware address, each once and with the first name the
  reverse lookup gives. When the table's addresses are IPv4 addresses, it is in ascending numeric
  order (so .9 comes before .10).
\<close>

theorem scan_report:
  assumes "Scan ifaces (Some entries) lookup = Some devices"
    and "\<And>ip mac. (ip, mac) \<in> set entries \<Longrightarrow> ip4_of ip \<noteq> None"
  shows "mset devices = image_mset (\<lambda>(ip, mac). (ip, mac, reverseLookup lookup ip))
      (filter_mset (\<lambda>(ip, mac). ip \<notin> ip_String ` fst ` set (filter (\<lambda>a. IsPrivate (fst a)) (attached ifaces))
         \<and> isUsableMAC mac) (mset entries))
    \<and> sorted_wrt (\<lambda>d e. ip4_key (fst d) \<le> ip4_key (fst e)) devices"
proof -
  let ?own = "fst (localIPv4Subnets ifaces)"
  let ?out = "map (\<lambda>(ip, mac). (ip, mac, reverseLookup lookup ip))
      (filter (\<lambda>(ip, mac). ip \<notin> set ?own \<and> isUsableMAC mac) entries)"
  have own: "set ?own = ip_String ` fst ` set (filter (\<lambda>a. IsPrivate (fst a)) (attached ifaces))"
    by (auto simp: localIPv4Subnets_collect collect_def)
  have d: "devices = SortSlice (\<lambda>d e. ipLess (fst d) (fst e)) ?out"
    using assms(1) by (simp add: Scan_def split: prod.splits)
  have "sorted_wrt (\<lambda>d e. ip4_key (fst d) \<le> ip4_key (fst e)) devices"
    unfolding d by (rule SortSlice_sorted) (auto intro!: ipLess_key assms(2))
  then show ?thesis by (simp add: d mset_SortSlice own mset_filter)
qed

lemma scan_report_witness:
  "map fst (the (Scan None (Some [(''10.0.0.10'', ''aa:bb''), (''10.0.0.9'', ''cc:dd''), (''10.0.0.1'', [])])
      (\<lambda>_. None))) = [''10.0.0.9'', ''10.0.0.10'']
   \<and> sorted_wrt (\<lambda>d e. ip4_key (fst d) \<le> ip4_key (fst e))
      (the (Scan None (Some [(''10.0.0.10'', ''aa:bb''), (''10.0.0.9'', ''cc:dd''), (''10.0.0.1'', [])]) (\<lambda>_. None)))"
proof -
  let ?e = "[(''10.0.0.10'', ''aa:bb''), (''10.0.0.9'', ''cc:dd''), (''10.0.0.1'', [])]"
  have run: "Scan None (Some ?e) (\<lambda>_. None)
      = Some [(''10.0.0.9'', ''cc:dd'', []), (''10.0.0.10'', ''aa:bb'', [])]"
    by code_simp
  have "ip4_of ''10.0.0.10'' \<noteq> None" "ip4_of ''10.0.0.9'' \<noteq> None" "ip4_of ''10.0.0.1'' \<noteq> None"
    by code_simp+
  then have "ip4_of ip \<noteq> None" if "(ip, mac) \<in> set ?e" for ip mac using that by auto
  from scan_report [OF run this] show ?thesis by (simp add: run)
qed

end
