(* ===== verification/Http.thy ===== *)
theory Http
imports Prelude
begin

text \<open>
  What the programs use of \<open>net/http\<close> as clients (\<open>selfupdate.go\<close>, \<open>publicip.go\<close>,
  \<open>updatecheck.go\<close>): the answer to a GET, and reading its body through a limit.
\<close>

text \<open>
  The answer to a GET: \<open>None\<close> when the request failed, else the status, the bytes of the body that
  arrived, and whether they are all of it.
\<close>

type_synonym http_reply = "(nat \<times> byte list \<times> bool) option"

text \<open>\<open>io.ReadAll\<close> through \<open>io.LimitReader\<close>: an error after the limit is not seen.\<close>

definition read_limited :: "nat \<Rightarrow> byte list \<times> bool \<Rightarrow> byte list option" where
  "read_limited n c = (if \<not> snd c \<and> length (fst c) < n then None else Some (take n (fst c)))"

end
