(* ===== verification/Host.thy ===== *)
theory Host
imports GoStrings
begin

text \<open>
  The host a program runs on, client or server: its files, whether systemd runs it, and the state of
  the client's service. What its operating system grants is an argument: the result of each write
  and removal, of each \<open>systemctl\<close> call, and of starting a process. A file that cannot be read is one
  that is not there.
\<close>

record machine =
  mc_files :: "string \<rightharpoonup> byte list"
  mc_linux :: bool
  mc_systemd :: bool
  mc_root :: bool
  mc_exe :: "string option"
  mc_enabled :: bool
  mc_active :: bool

text \<open>
  A write succeeds, or fails and leaves the file alone or with some content. A removal that fails
  leaves the file; \<open>os_ctl\<close> says whether \<open>systemctl\<close> succeeds with these arguments.
\<close>

datatype write_result = Written | NotOpened | Partial "byte list"

record os =
  os_mkdir :: bool
  os_write :: "string \<Rightarrow> write_result"
  os_remove :: "string \<Rightarrow> bool"
  os_ctl :: "string list \<Rightarrow> bool"
  os_start :: bool

definition WriteFile :: "os \<Rightarrow> string \<Rightarrow> byte list \<Rightarrow> machine \<Rightarrow> bool \<times> machine" where
  "WriteFile S path data m =
     (case os_write S path of
        Written \<Rightarrow> (True, m\<lparr>mc_files := (mc_files m)(path \<mapsto> data)\<rparr>)
      | NotOpened \<Rightarrow> (False, m)
      | Partial d \<Rightarrow> (False, m\<lparr>mc_files := (mc_files m)(path \<mapsto> d)\<rparr>))"

definition RemoveFile :: "os \<Rightarrow> string \<Rightarrow> machine \<Rightarrow> machine" where
  "RemoveFile S path m = (if os_remove S path then m\<lparr>mc_files := (mc_files m)(path := None)\<rparr> else m)"

definition fileExists :: "string \<Rightarrow> machine \<Rightarrow> bool" where
  "fileExists path m \<longleftrightarrow> mc_files m path \<noteq> None"

text \<open>\<open>filepath.Join\<close> of a clean directory and a name.\<close>

definition in_dir :: "string \<Rightarrow> string \<Rightarrow> string" where
  "in_dir dataDir name = dataDir @ ''/'' @ name"

end
