(* ===== verification/Updates.thy ===== *)
theory Updates
imports Http Host
begin

text \<open>
  What the server does about its own updates, before the API: the comparison with the latest commit
  (\<open>internal/updatecheck/updatecheck.go\<close>) and the request that the updater unit acts on
  (\<open>triggerUpdate\<close> of \<open>cmd/portly-server/main.go\<close>). The answer of GitHub and the decoding of its
  JSON are arguments.
\<close>

section \<open>Update checks\<close>

datatype check_err = CheckUnreachable | CheckHTTP nat | CheckDecode | CheckMissingSha

record Status =
  us_CurrentCommit :: string
  us_LatestCommit :: string
  us_UpdateAvailable :: bool
  us_CheckedAt :: int
  us_CheckError :: "check_err option"

definition fetchLatestCommit :: "(byte list \<Rightarrow> string option) \<Rightarrow> http_reply \<Rightarrow> check_err + string" where
  "fetchLatestCommit unsha reply =
     (case reply of
        None \<Rightarrow> Inl CheckUnreachable
      | Some (status, content, _) \<Rightarrow>
          if status \<noteq> 200 then Inl (CheckHTTP status)
          else (case unsha content of
                  None \<Rightarrow> Inl CheckDecode
                | Some sha \<Rightarrow> if sha = [] then Inl CheckMissingSha else Inr sha))"

definition Check :: "(byte list \<Rightarrow> string option) \<Rightarrow> http_reply \<Rightarrow> int \<Rightarrow> string \<Rightarrow> Status" where
  "Check unsha reply now currentCommit =
     (let status = \<lparr>us_CurrentCommit = currentCommit, us_LatestCommit = [], us_UpdateAvailable = False,
                    us_CheckedAt = now, us_CheckError = None\<rparr>
      in if currentCommit = [] \<or> currentCommit = ''dev'' then status
         else case fetchLatestCommit unsha reply of
                Inl e \<Rightarrow> status\<lparr>us_CheckError := Some e\<rparr>
              | Inr latest \<Rightarrow> status\<lparr>us_LatestCommit := latest, us_UpdateAvailable := latest \<noteq> currentCommit\<rparr>)"

section \<open>Requesting an update\<close>

datatype trigger_err = NotUnderSystemd | NoUpdater | TriggerWrite

definition updatePathUnitPath :: string where
  "updatePathUnitPath = ''/etc/systemd/system/portly-update.path''"

definition triggerUpdate :: "os \<Rightarrow> (int \<Rightarrow> string) \<Rightarrow> int \<Rightarrow> string \<Rightarrow> machine \<Rightarrow> (trigger_err + unit) \<times> machine" where
  "triggerUpdate S rfc3339 now dataDir m =
     (if \<not> mc_systemd m then (Inl NotUnderSystemd, m)
      else if \<not> fileExists updatePathUnitPath m then (Inl NoUpdater, m)
      else case WriteFile S (in_dir dataDir ''update-requested'') (bytes_of (rfc3339 now @ [CHR 0x0A])) m of
             (False, m1) \<Rightarrow> (Inl TriggerWrite, m1)
           | (True, m1) \<Rightarrow> (Inr (), m1))"

end
