(* ===== verification/ApiBase.thy ===== *)
theory ApiBase
imports TunnelServer Updates
begin

text \<open>
  The management API's server (\<open>internal/api/server.go\<close>): its state, responses, the session
  table, the two authentication wrappers, CORS and the public base URL. A handler is a program of
  the state-and-error monad whose error is the response written by an early return; its state
  includes the tunnel server's and through it the database.

  What one request takes from outside the repository is bundled in \<open>env\<close>: SHA-256, bcrypt's
  comparison and generation, Unicode lower-casing, the clock (Unix seconds; one instant per
  request), the n-th identifier and random buffer it draws, which ports the operating system has
  free, whether a control-stream write and a file write succeed, what the operating system grants on
  other files, GitHub's answer, the decoding of two JSON texts, and what \<open>websocket.Accept\<close> answers to a request it
  refuses (\<open>None\<close>: it switches protocols). A JSON body arrives decoded;
  \<open>None\<close> is one that \<open>readJSON\<close> refuses.
\<close>

section \<open>State\<close>

record sessionInfo =
  si_adminID :: string
  si_expires :: int

text \<open>
  \<open>as_Wired\<close>: whether \<open>main.go\<close> has set the three hooks; \<open>as_setup_file\<close> is the content of
  the setup-code file those hooks write and remove; \<open>as_host\<close> are the files of the host.
\<close>

record apiserver =
  as_ts :: tserver
  as_AdvertiseHost :: string
  as_AdvertiseHostV6 :: string
  as_ControlPort :: int
  as_APIPort :: int
  as_CAFingerprint :: string
  as_AllowedOrigins :: "string list"
  as_ClientBinaries :: "string \<rightharpoonup> byte list"
  as_ClientBinarySHA256 :: "string \<rightharpoonup> string"
  as_PublicHTTPPort :: int
  as_PublicHTTPSPort :: int
  as_Wired :: bool
  as_sessions :: "string \<rightharpoonup> sessionInfo"
  as_domain :: string
  as_cert :: "string \<times> string"
  as_setup_file :: "string option"
  as_BuildCommit :: string
  as_DataDir :: string
  as_updateStatus :: Status
  as_host :: machine

text \<open>The status file of the update script, with the end of its log.\<close>

record UpdateProgress =
  pg_Status :: string
  pg_Stage :: int
  pg_TotalStages :: int
  pg_Label :: string
  pg_StartedAt :: string
  pg_UpdatedAt :: string
  pg_LogTail :: string

definition no_progress :: UpdateProgress where
  "no_progress = \<lparr>pg_Status = [], pg_Stage = 0, pg_TotalStages = 0, pg_Label = [], pg_StartedAt = [],
     pg_UpdatedAt = [], pg_LogTail = []\<rparr>"

definition no_status :: Status where
  "no_status = \<lparr>us_CurrentCommit = [], us_LatestCommit = [], us_UpdateAvailable = False, us_CheckedAt = 0,
     us_CheckError = None\<rparr>"

definition no_host :: machine where
  "no_host = \<lparr>mc_files = Map.empty, mc_linux = False, mc_systemd = False, mc_root = False, mc_exe = None,
     mc_enabled = False, mc_active = False\<rparr>"

abbreviation as_db :: "apiserver \<Rightarrow> db" where
  "as_db s \<equiv> ts_db (as_ts s)"

record env =
  ev_sha :: "byte list \<Rightarrow> byte list"
  ev_compare :: "string \<Rightarrow> string \<Rightarrow> bool"
  ev_generate :: "string \<Rightarrow> string option"
  ev_lower :: "string \<Rightarrow> string"
  ev_now :: int
  ev_uuid :: "nat \<Rightarrow> string"
  ev_rand :: "nat \<Rightarrow> byte list option"
  ev_ports :: osports
  ev_wok :: "string \<Rightarrow> bool"
  ev_file :: bool
  ev_os :: os
  ev_rfc3339 :: "int \<Rightarrow> string"
  ev_github :: http_reply
  ev_unsha :: "byte list \<Rightarrow> string option"
  ev_unprogress :: "byte list \<Rightarrow> UpdateProgress"
  ev_ws :: "(nat \<times> string) option"

text \<open>What the code reads of an \<open>http.Request\<close> besides path and body.\<close>

record request =
  hq_Options :: bool
  hq_Origin :: string
  hq_Authorization :: string
  hq_UserAgent :: string
  hq_Cookie :: "string option"

definition sessionTTL :: int where
  "sessionTTL = 7 * 24 * 3600"

definition NewApiServer :: "tserver \<Rightarrow> apiserver" where
  "NewApiServer tunnels = \<lparr>as_ts = tunnels, as_AdvertiseHost = [], as_AdvertiseHostV6 = [],
     as_ControlPort = 0, as_APIPort = 0, as_CAFingerprint = [], as_AllowedOrigins = [],
     as_ClientBinaries = Map.empty, as_ClientBinarySHA256 = Map.empty, as_PublicHTTPPort = 0,
     as_PublicHTTPSPort = 0, as_Wired = False, as_sessions = Map.empty,
     as_domain = (case fst (GetSetting ''domain'' (ts_db tunnels)) of
                    Inr (Some d) \<Rightarrow> d | _ \<Rightarrow> []),
     as_cert = ([], []), as_setup_file = None, as_BuildCommit = [], as_DataDir = [],
     as_updateStatus = no_status, as_host = no_host\<rparr>"

section \<open>Responses\<close>

record tunnelView =
  tv_ID :: string
  tv_ClientID :: string
  tv_Name :: string
  tv_Protocol :: string
  tv_LocalHost :: string
  tv_LocalPort :: int
  tv_PublicPort :: int
  tv_Enabled :: bool
  tv_TrafficLimitBytes :: "int option"
  tv_PublicHostname :: string
  tv_ProxyProtocol :: bool
  tv_BytesInTotal :: int
  tv_BytesOutTotal :: int
  tv_CreatedAt :: int

record clientView =
  cv_ID :: string
  cv_Name :: string
  cv_CreatedAt :: int
  cv_LastSeen :: "int option"
  cv_Connected :: bool
  cv_TrafficLimitBytes :: "int option"

record apiKeyView =
  kv_ID :: string
  kv_Name :: string
  kv_CreatedAt :: int
  kv_LastUsed :: "int option"

text \<open>Messages: fixed texts, the text of a data-layer error, and those with a computed part.\<close>

datatype apierr =
    Msg string
  | BadBody
  | DbMsg dberr
  | PortInUse int
  | HostnameInUse string
  | NoBinary string
  | AlreadyConnected
  | TriggerErr trigger_err

datatype body =
    Empty
  | ErrorBody apierr
  | AdminBody string bool
  | NeedsSetup bool
  | InfoBody string int int string
  | SetupBody string string int string string string
  | DomainBody string
  | TunnelBody tunnelView
  | TunnelsBody "tunnelView list"
  | SamplesBody "(int \<times> int \<times> int) list"
  | ClientBody clientView
  | ClientsBody "clientView list"
  | InstallBody clientView string string int
  | DevicesBody "Device list"
  | KeysBody "apiKeyView list"
  | KeyBody apiKeyView string
  | EnrollBody string string string string
  | ScriptBody string string
  | BlockedBody string
  | FileBody "byte list"
  | TextBody string
  | UpdateStatusBody Status bool
  | ProgressBody UpdateProgress

datatype cookie = SetCookie string int | ClearCookie

text \<open>\<open>Panicked\<close>: the handler panicked; \<open>net/http\<close> recovers and drops the connection.\<close>

datatype response = Reply nat body "cookie option" | Panicked

fun reply_status :: "response \<Rightarrow> nat" where
  "reply_status (Reply n b c) = n"
| "reply_status Panicked = 0"

definition writeJSON :: "nat \<Rightarrow> body \<Rightarrow> response" where
  "writeJSON status v = Reply status v None"

definition writeError :: "nat \<Rightarrow> apierr \<Rightarrow> response" where
  "writeError status msg = writeJSON status (ErrorBody msg)"

section \<open>Handlers\<close>

type_synonym 'a hm = "(apiserver, response, 'a) sem"

definition finish :: "response hm \<Rightarrow> apiserver \<Rightarrow> response \<times> apiserver" where
  "finish m s = (case m s of (Inl r, s') \<Rightarrow> (r, s') | (Inr r, s') \<Rightarrow> (r, s'))"

definition put_db :: "db \<Rightarrow> apiserver \<Rightarrow> apiserver" where
  "put_db d s = s\<lparr>as_ts := (as_ts s)\<lparr>ts_db := d\<rparr>\<rparr>"

text \<open>A data-layer call, with the response of the branch \<open>err != nil\<close>.\<close>

definition callDB :: "(dberr \<Rightarrow> response) \<Rightarrow> 'a dbm \<Rightarrow> 'a hm" where
  "callDB err m s = (case m (as_db s) of
     (Inl e, d) \<Rightarrow> (Inl (err e), put_db d s)
   | (Inr x, d) \<Rightarrow> (Inr x, put_db d s))"

text \<open>A data-layer call whose error the code discards.\<close>

definition tryDB :: "'a dbm \<Rightarrow> (dberr + 'a) hm" where
  "tryDB m s = (Inr (fst (m (as_db s))), put_db (snd (m (as_db s))) s)"

definition getS :: "(apiserver \<Rightarrow> 'a) \<Rightarrow> 'a hm" where
  "getS f s = (Inr (f s), s)"

definition modS :: "(apiserver \<Rightarrow> apiserver) \<Rightarrow> unit hm" where
  "modS f s = (Inr (), f s)"

definition tsM :: "(tserver \<Rightarrow> 'a \<times> tserver) \<Rightarrow> 'a hm" where
  "tsM f s = (Inr (fst (f (as_ts s))), s\<lparr>as_ts := snd (f (as_ts s))\<rparr>)"

definition readJSON :: "'r option \<Rightarrow> 'r hm" where
  "readJSON b = (case b of None \<Rightarrow> failM (writeError 400 BadBody) | Some r \<Rightarrow> retM r)"

text \<open>\<open>if c { writeError(...); return }\<close>\<close>

definition guardM :: "bool \<Rightarrow> response \<Rightarrow> unit hm" where
  "guardM c r = (if c then failM r else retM ())"

named_theorems hm_simps \<open>a handler, unfolded one statement at a time\<close>

declare retM_def [hm_simps] failM_def [hm_simps] bindM_def [hm_simps] getS_def [hm_simps]
  modS_def [hm_simps] tsM_def [hm_simps] readJSON_def [hm_simps] guardM_def [hm_simps]

lemma put_db_simps [simp]:
  "as_ts (put_db d s) = (as_ts s)\<lparr>ts_db := d\<rparr>" "as_sessions (put_db d s) = as_sessions s"
  "as_domain (put_db d s) = as_domain s" "as_cert (put_db d s) = as_cert s"
  "as_setup_file (put_db d s) = as_setup_file s" "as_Wired (put_db d s) = as_Wired s"
  "as_AdvertiseHost (put_db d s) = as_AdvertiseHost s"
  "as_ControlPort (put_db d s) = as_ControlPort s"
  "as_CAFingerprint (put_db d s) = as_CAFingerprint s"
  "put_db e (put_db d s) = put_db e s" "put_db (as_db s) s = s"
  by (simp_all add: put_db_def)

lemma callDB_Inr: "m (as_db s) = (Inr x, d) \<Longrightarrow> callDB err m s = (Inr x, put_db d s)"
  by (simp add: callDB_def)

lemma callDB_Inl: "m (as_db s) = (Inl e, d) \<Longrightarrow> callDB err m s = (Inl (err e), put_db d s)"
  by (simp add: callDB_def)

text \<open>A read answers from the database and leaves the state.\<close>

lemma callDB_query [hm_simps]:
  "callDB err (queryM q) s = (if d_open (as_db s)
     then (case q (as_db s) of Inl e \<Rightarrow> (Inl (err e), s) | Inr x \<Rightarrow> (Inr x, s))
     else (Inl (err DBClosed), s))"
  by (simp add: callDB_def queryM_def split: sum.split)

subsection \<open>Invariants of handlers\<close>

lemma keeps_callDB:
  assumes "\<And>s. I s \<Longrightarrow> I (put_db (snd (m (as_db s))) s)"
  shows "keeps I (callDB err m)"
  using assms by (fastforce simp: keeps_def callDB_def split: prod.split sum.split)

lemma keeps_tryDB:
  assumes "\<And>s. I s \<Longrightarrow> I (put_db (snd (m (as_db s))) s)"
  shows "keeps I (tryDB m)"
  using assms by (simp add: keeps_def tryDB_def)

lemma keeps_getS [keeps_intros]: "keeps I (getS f)"
  by (simp add: keeps_def getS_def)

lemma keeps_modS: "(\<And>s. I s \<Longrightarrow> I (f s)) \<Longrightarrow> keeps I (modS f)"
  by (simp add: keeps_def modS_def)

lemma keeps_tsM: "(\<And>s. I s \<Longrightarrow> I (s\<lparr>as_ts := snd (f (as_ts s))\<rparr>)) \<Longrightarrow> keeps I (tsM f)"
  by (simp add: keeps_def tsM_def)

lemma keeps_readJSON [keeps_intros]: "keeps I (readJSON b)"
  by (simp add: readJSON_def keeps_ret keeps_fail split: option.split)

lemma keeps_guardM [keeps_intros]: "keeps I (guardM c r)"
  by (simp add: guardM_def keeps_ret keeps_fail)

lemma keeps_finish: "keeps I m \<Longrightarrow> keeps I (finish m)"
  by (fastforce simp: keeps_def finish_def split: prod.split sum.split)

section \<open>Domain and certificate\<close>

definition setDomain :: "string \<Rightarrow> apiserver \<Rightarrow> apiserver" where
  "setDomain d s = s\<lparr>as_domain := d\<rparr>"

definition SetCertState :: "string \<Rightarrow> string \<Rightarrow> apiserver \<Rightarrow> apiserver" where
  "SetCertState st errMsg s = s\<lparr>as_cert := (st, errMsg)\<rparr>"

definition apiBaseURL :: "apiserver \<Rightarrow> string" where
  "apiBaseURL s =
     (if as_domain s \<noteq> [] then
        (if as_PublicHTTPSPort s \<noteq> 0 \<and> as_PublicHTTPSPort s \<noteq> 443
         then ''https://'' @ as_domain s @ '':'' @ dec_int (as_PublicHTTPSPort s)
         else ''https://'' @ as_domain s)
      else if as_PublicHTTPPort s \<noteq> 0 \<and> as_PublicHTTPPort s \<noteq> 80
      then ''http://'' @ as_AdvertiseHost s @ '':'' @ dec_int (as_PublicHTTPPort s)
      else ''http://'' @ as_AdvertiseHost s)"

text \<open>\<open>main.go\<close>: \<open>autocert\<close> may ask for a certificate for the configured domain only.\<close>

definition HostPolicy :: "apiserver \<Rightarrow> string \<Rightarrow> bool" where
  "HostPolicy s host \<longleftrightarrow> as_domain s \<noteq> [] \<and> host = as_domain s"

section \<open>Sessions\<close>

definition createSession :: "env \<Rightarrow> string \<Rightarrow> apiserver \<Rightarrow> string \<times> apiserver" where
  "createSession E adminID s =
     (let token = randomHex 32 (ev_rand E 0)
      in (token, s\<lparr>as_sessions := (as_sessions s)
            (token \<mapsto> \<lparr>si_adminID = adminID, si_expires = ev_now E + sessionTTL\<rparr>)\<rparr>))"

definition destroySession :: "string \<Rightarrow> apiserver \<Rightarrow> apiserver" where
  "destroySession token s = s\<lparr>as_sessions := (as_sessions s)(token := None)\<rparr>"

definition clearAllSessions :: "apiserver \<Rightarrow> apiserver" where
  "clearAllSessions s = s\<lparr>as_sessions := Map.empty\<rparr>"

text \<open>An unknown or expired token is removed from the table as it is looked up.\<close>

definition sessionAdminID :: "env \<Rightarrow> request \<Rightarrow> apiserver \<Rightarrow> string option \<times> apiserver" where
  "sessionAdminID E q s =
     (case hq_Cookie q of
        None \<Rightarrow> (None, s)
      | Some token \<Rightarrow>
          (case as_sessions s token of
             None \<Rightarrow> (None, destroySession token s)
           | Some info \<Rightarrow>
               if ev_now E > si_expires info then (None, destroySession token s)
               else (Some (si_adminID info), s)))"

section \<open>Authentication\<close>

definition apiKeyFromRequest :: "env \<Rightarrow> request \<Rightarrow> apiserver \<Rightarrow> ApiKey option" where
  "apiKeyFromRequest E q s =
     (let auth = hq_Authorization q
      in if \<not> HasPrefix auth ''Bearer '' then None
         else let token = TrimPrefix auth ''Bearer ''
              in if \<not> HasPrefix token ''ptly_api_'' then None
                 else case fst (GetAPIKeyByHash (HashToken (ev_sha E) token) (as_db s)) of
                        Inl _ \<Rightarrow> None | Inr key \<Rightarrow> Some key)"

definition requireAuth :: "env \<Rightarrow> request \<Rightarrow> response hm \<Rightarrow> apiserver \<Rightarrow> response \<times> apiserver" where
  "requireAuth E q handler s =
     (case sessionAdminID E q s of
        (None, s1) \<Rightarrow> (writeError 401 (Msg ''not authenticated''), s1)
      | (Some _, s1) \<Rightarrow> finish handler s1)"

definition requireAuthOrAPIKey ::
    "env \<Rightarrow> request \<Rightarrow> response hm \<Rightarrow> apiserver \<Rightarrow> response \<times> apiserver" where
  "requireAuthOrAPIKey E q handler s =
     (case sessionAdminID E q s of
        (Some _, s1) \<Rightarrow> finish handler s1
      | (None, s1) \<Rightarrow>
          (case apiKeyFromRequest E q s1 of
             Some key \<Rightarrow>
               finish handler (put_db (snd (UpdateAPIKeyLastUsed (ev_now E) (k_ID key) (as_db s1))) s1)
           | None \<Rightarrow> (writeError 401 (Msg ''not authenticated''), s1)))"

section \<open>CORS\<close>

definition originAllowed :: "apiserver \<Rightarrow> string \<Rightarrow> bool" where
  "originAllowed s origin \<longleftrightarrow> list_ex (\<lambda>a. a = origin \<or> a = ''*'') (as_AllowedOrigins s)"

text \<open>
  The CORS headers as the origin they echo (with credentials allowed), and the response; an
  \<open>OPTIONS\<close> request is answered here.
\<close>

definition withCORS :: "request \<Rightarrow> (apiserver \<Rightarrow> response \<times> apiserver) \<Rightarrow> apiserver
    \<Rightarrow> (string option \<times> response) \<times> apiserver" where
  "withCORS q handler s =
     (let cors = (if hq_Origin q \<noteq> [] \<and> originAllowed s (hq_Origin q)
                  then Some (hq_Origin q) else None)
      in if hq_Options q then ((cors, Reply 204 Empty None), s)
         else case handler s of (r, s') \<Rightarrow> ((cors, r), s'))"

end
