(* ===== verification/ApiAccounts.thy ===== *)
theory ApiAccounts
imports ApiBase
begin

text \<open>
  The handlers of the admin account, the setup-code bootstrap, API keys, the public domain and
  the factory reset (\<open>internal/api/auth.go\<close>, \<open>apikeys.go\<close>, \<open>setup.go\<close>, \<open>factory_reset.go\<close>),
  with the hooks \<open>cmd/portly-server/main.go\<close> wires to them.
\<close>

section \<open>Requests\<close>

record loginRequest =
  lq_Username :: string
  lq_Password :: string

record changeCredentialsRequest =
  cq_CurrentPassword :: string
  cq_NewUsername :: string
  cq_NewPassword :: string

record bootstrapClaimRequest =
  bq_SetupCode :: string
  bq_Username :: string
  bq_Password :: string

record createAPIKeyRequest =
  aq_Name :: string

record setDomainRequest =
  dq_Domain :: string

record factoryResetRequest =
  fq_Confirm :: string

text \<open>
  \<open>utf8.RuneCountInString\<close> of a string the JSON decoder produced, which is valid UTF-8: the
  bytes that do not continue a character.
\<close>

definition RuneCount :: "string \<Rightarrow> nat" where
  "RuneCount s = length (filter (\<lambda>c. \<not> (128 \<le> (of_char c :: nat) \<and> (of_char c :: nat) < 192)) s)"

section \<open>Hooks of the server program\<close>

text \<open>
  On the database and the content of the setup-code file: \<open>os.WriteFile\<close> of the code and a
  newline, where a failure to write is only logged.
\<close>

definition writeSetupCode :: "env \<Rightarrow> db \<times> string option \<Rightarrow> db \<times> string option" where
  "writeSetupCode E df =
     (case df of (d, file) \<Rightarrow>
        (case EnsureSetupCode (ev_rand E 0) d of
           (Inl _, d') \<Rightarrow> (d', file)
         | (Inr (code, hasAdmin), d') \<Rightarrow>
             if hasAdmin then (d', file)
             else if ev_file E then (d', Some (code @ [CHR 0x0A])) else (d', file)))"

definition OnAdminClaimed :: "env \<Rightarrow> apiserver \<Rightarrow> apiserver" where
  "OnAdminClaimed E s = (if as_Wired s \<and> ev_file E then s\<lparr>as_setup_file := None\<rparr> else s)"

definition OnFactoryReset :: "env \<Rightarrow> apiserver \<Rightarrow> apiserver" where
  "OnFactoryReset E s =
     (if as_Wired s
      then case writeSetupCode E (as_db s, as_setup_file s) of
             (d, file) \<Rightarrow> (put_db d s)\<lparr>as_setup_file := file\<rparr>
      else s)"

section \<open>Login and account\<close>

definition noAdmin :: response where
  "noAdmin = writeError 500 (Msg ''admin account not found'')"

definition handleLogin :: "env \<Rightarrow> loginRequest option \<Rightarrow> response hm" where
  "handleLogin E body =
     bindM (readJSON body) (\<lambda>req.
     bindM (callDB (\<lambda>_. noAdmin) GetAdminUser) (\<lambda>admin.
     bindM (guardM (a_Username admin \<noteq> lq_Username req)
              (writeError 401 (Msg ''invalid username or password''))) (\<lambda>_.
     bindM (guardM (\<not> ev_compare E (a_PasswordHash admin) (lq_Password req))
              (writeError 401 (Msg ''invalid username or password''))) (\<lambda>_.
     bindM (getS (\<lambda>s. fst (createSession E (a_ID admin) s))) (\<lambda>token.
     bindM (modS (\<lambda>s. snd (createSession E (a_ID admin) s))) (\<lambda>_.
     retM (Reply 200 (AdminBody (a_Username admin) (a_MustChangePassword admin))
             (Some (SetCookie token (ev_now E + sessionTTL))))))))))"

definition handleLogout :: "request \<Rightarrow> response hm" where
  "handleLogout q =
     bindM (modS (\<lambda>s. case hq_Cookie q of None \<Rightarrow> s | Some token \<Rightarrow> destroySession token s)) (\<lambda>_.
     retM (Reply 204 Empty (Some ClearCookie)))"

definition handleMe :: "response hm" where
  "handleMe =
     bindM (callDB (\<lambda>_. noAdmin) GetAdminUser) (\<lambda>admin.
     retM (writeJSON 200 (AdminBody (a_Username admin) (a_MustChangePassword admin))))"

definition handleChangeCredentials ::
    "env \<Rightarrow> changeCredentialsRequest option \<Rightarrow> response hm" where
  "handleChangeCredentials E body =
     bindM (readJSON body) (\<lambda>req.
     bindM (callDB (\<lambda>_. noAdmin) GetAdminUser) (\<lambda>admin.
     bindM (guardM (\<not> ev_compare E (a_PasswordHash admin) (cq_CurrentPassword req))
              (writeError 401 (Msg ''current password is incorrect''))) (\<lambda>_.
     bindM (guardM (cq_NewUsername req \<noteq> [] \<and> RuneCount (cq_NewUsername req) < 3)
              (writeError 400 (Msg ''username must be at least 3 characters''))) (\<lambda>_.
     bindM (retM (if cq_NewUsername req \<noteq> [] then cq_NewUsername req
                  else a_Username admin)) (\<lambda>newUsername.
     bindM (guardM (RuneCount (cq_NewPassword req) < 8)
              (writeError 400 (Msg ''password must be at least 8 characters''))) (\<lambda>_.
     (case ev_generate E (cq_NewPassword req) of
        None \<Rightarrow> failM (writeError 500 (Msg ''failed to hash password''))
      | Some hash \<Rightarrow>
          bindM (callDB (\<lambda>e. writeError 500 (DbMsg e))
                   (UpdateAdminCredentials (a_ID admin) newUsername hash False)) (\<lambda>_.
          retM (writeJSON 200 (AdminBody newUsername False))))))))))"

section \<open>Bootstrap\<close>

definition handleBootstrapStatus :: "response hm" where
  "handleBootstrapStatus =
     bindM (callDB (\<lambda>e. writeError 500 (DbMsg e)) HasAdminUser) (\<lambda>hasAdmin.
     retM (writeJSON 200 (NeedsSetup (\<not> hasAdmin))))"

definition handleBootstrapClaim :: "env \<Rightarrow> bootstrapClaimRequest option \<Rightarrow> response hm" where
  "handleBootstrapClaim E body =
     bindM (readJSON body) (\<lambda>req.
     bindM (callDB (\<lambda>e. writeError 500 (DbMsg e)) HasAdminUser) (\<lambda>hasAdmin.
     bindM (guardM hasAdmin (writeError 409 (Msg ''setup already completed''))) (\<lambda>_.
     bindM (callDB (\<lambda>_. writeError 401 (Msg ''invalid or already-used setup code''))
              (ClaimSetupCode (bq_SetupCode req))) (\<lambda>_.
     bindM (guardM (RuneCount (bq_Username req) < 3)
              (writeError 400 (Msg ''username must be at least 3 characters''))) (\<lambda>_.
     bindM (guardM (RuneCount (bq_Password req) < 8)
              (writeError 400 (Msg ''password must be at least 8 characters''))) (\<lambda>_.
     (case ev_generate E (bq_Password req) of
        None \<Rightarrow> failM (writeError 500 (Msg ''failed to hash password''))
      | Some hash \<Rightarrow>
          bindM (callDB (\<lambda>_. writeError 409 (Msg ''could not create admin account''))
                   (CreateAdminUser (ev_uuid E 0) (bq_Username req) hash)) (\<lambda>admin.
          bindM (modS (OnAdminClaimed E)) (\<lambda>_.
          bindM (getS (\<lambda>s. fst (createSession E (a_ID admin) s))) (\<lambda>token.
          bindM (modS (\<lambda>s. snd (createSession E (a_ID admin) s))) (\<lambda>_.
          retM (Reply 200 (AdminBody (a_Username admin) False)
                  (Some (SetCookie token (ev_now E + sessionTTL)))))))))))))))"

definition handleServerInfo :: "response hm" where
  "handleServerInfo =
     getS (\<lambda>s. writeJSON 200 (InfoBody (as_AdvertiseHost s) (as_ControlPort s) (as_APIPort s)
       (as_CAFingerprint s)))"

section \<open>API keys\<close>

definition toAPIKeyView :: "ApiKey \<Rightarrow> apiKeyView" where
  "toAPIKeyView k = \<lparr>kv_ID = k_ID k, kv_Name = k_Name k, kv_CreatedAt = k_CreatedAt k,
     kv_LastUsed = k_LastUsed k\<rparr>"

definition handleListAPIKeys :: "response hm" where
  "handleListAPIKeys =
     bindM (callDB (\<lambda>e. writeError 500 (DbMsg e)) ListAPIKeys) (\<lambda>keys.
     retM (writeJSON 200 (KeysBody (map toAPIKeyView keys))))"

definition handleCreateAPIKey :: "env \<Rightarrow> createAPIKeyRequest option \<Rightarrow> response hm" where
  "handleCreateAPIKey E body =
     bindM (readJSON body) (\<lambda>req.
     bindM (retM (TrimSpace (aq_Name req))) (\<lambda>name.
     bindM (guardM (name = []) (writeError 400 (Msg ''name is required''))) (\<lambda>_.
     bindM (guardM (length name > 64)
              (writeError 400 (Msg ''name must be 64 characters or fewer''))) (\<lambda>_.
     bindM (callDB (\<lambda>e. writeError 500 (DbMsg e))
              (CreateAPIKey (ev_sha E) (ev_rand E 0) (ev_uuid E 0) (ev_now E) name))
       (\<lambda>(key, token). retM (writeJSON 201 (KeyBody (toAPIKeyView key) token)))))))"

definition handleDeleteAPIKey :: "string \<Rightarrow> response hm" where
  "handleDeleteAPIKey kid =
     bindM (callDB (\<lambda>e. writeError 500 (DbMsg e)) (DeleteAPIKey kid)) (\<lambda>_.
     retM (Reply 204 Empty None))"

section \<open>Domain\<close>

definition letter :: "char \<Rightarrow> bool" where
  "letter c \<longleftrightarrow> (65 \<le> (of_char c :: nat) \<and> (of_char c :: nat) \<le> 90)
     \<or> (97 \<le> (of_char c :: nat) \<and> (of_char c :: nat) \<le> 122)"

definition alnum :: "char \<Rightarrow> bool" where
  "alnum c \<longleftrightarrow> letter c \<or> is_digit c"

text \<open>The labels between dots; the pattern's labels contain none, so the split is the match.\<close>

fun split_dots :: "string \<Rightarrow> string list" where
  "split_dots [] = [[]]"
| "split_dots (c # s) = (if c = CHR ''.'' then [] # split_dots s
     else case split_dots s of [] \<Rightarrow> [[c]] | l # ls \<Rightarrow> (c # l) # ls)"

definition domain_label :: "string \<Rightarrow> bool" where
  "domain_label l \<longleftrightarrow> l \<noteq> [] \<and> length l \<le> 63 \<and> alnum (hd l) \<and> alnum (last l)
     \<and> list_all (\<lambda>c. alnum c \<or> c = CHR ''-'') l"

definition domainPattern :: "string \<Rightarrow> bool" where
  "domainPattern s \<longleftrightarrow>
     (let ls = split_dots s
      in 2 \<le> length ls \<and> list_all domain_label (butlast ls)
         \<and> 2 \<le> length (last ls) \<and> list_all letter (last ls))"

definition handleSetupStatus :: "response hm" where
  "handleSetupStatus = getS (\<lambda>s. writeJSON 200 (SetupBody (as_AdvertiseHost s)
     (as_AdvertiseHostV6 s) (as_ControlPort s) (as_domain s) (fst (as_cert s)) (snd (as_cert s))))"

text \<open>\<open>OnDomainSet\<close> runs in a goroutine of its own: it only reports through \<open>SetCertState\<close>.\<close>

definition handleSetDomain :: "env \<Rightarrow> setDomainRequest option \<Rightarrow> response hm" where
  "handleSetDomain E body =
     bindM (readJSON body) (\<lambda>req.
     bindM (retM (ToLower (ev_lower E) (TrimSpace (dq_Domain req)))) (\<lambda>domain.
     bindM (guardM (domain \<noteq> [] \<and> \<not> domainPattern domain)
              (writeError 400 (Msg ''that doesn't look like a valid domain, e.g. panel.example.com'')))
       (\<lambda>_.
     bindM (callDB (\<lambda>e. writeError 500 (DbMsg e)) (SetSetting ''domain'' domain)) (\<lambda>_.
     bindM (modS (setDomain domain)) (\<lambda>_.
     bindM (modS (if domain = [] then SetCertState [] []
                  else SetCertState ''pending'' [])) (\<lambda>_.
     retM (writeJSON 200 (DomainBody domain))))))))"

section \<open>Factory reset\<close>

definition factoryResetConfirmPhrase :: string where
  "factoryResetConfirmPhrase = ''RESET''"

text \<open>Every machine in turn is told to uninstall; whether its write succeeds is \<open>ev_wok\<close>.\<close>

fun push_uninstalls :: "env \<Rightarrow> Client list \<Rightarrow> tserver \<Rightarrow> tserver" where
  "push_uninstalls E [] t = t"
| "push_uninstalls E (c # cs) t =
     push_uninstalls E cs (snd (PushUninstall (ev_wok E (c_ID c)) (c_ID c) t))"

definition handleFactoryReset :: "env \<Rightarrow> factoryResetRequest option \<Rightarrow> response hm" where
  "handleFactoryReset E body =
     bindM (readJSON body) (\<lambda>req.
     bindM (guardM (fq_Confirm req \<noteq> factoryResetConfirmPhrase)
              (writeError 400 (Msg ''type \"RESET\" to confirm''))) (\<lambda>_.
     bindM (callDB (\<lambda>e. writeError 500 (DbMsg e)) ListClients) (\<lambda>clients.
     bindM (tsM (\<lambda>t. ((), push_uninstalls E clients t))) (\<lambda>_.
     bindM (callDB (\<lambda>e. writeError 500 (DbMsg e)) (FactoryReset (ev_now E))) (\<lambda>_.
     bindM (modS (setDomain [])) (\<lambda>_.
     bindM (modS (SetCertState [] [])) (\<lambda>_.
     bindM (modS clearAllSessions) (\<lambda>_.
     bindM (modS (OnFactoryReset E)) (\<lambda>_.
     retM (Reply 204 Empty None))))))))))"

end
