(* ===== verification/ApiTunnels.thy ===== *)
theory ApiTunnels
imports ApiAccounts
begin

text \<open>
  The tunnel and traffic handlers (\<open>internal/api/tunnels.go\<close>, \<open>traffic.go\<close>): port
  specifications, creation with its probes and its rollback, the enabled toggle, settings,
  deletion, listing and the traffic history.
\<close>

section \<open>Views\<close>

definition toTunnelView :: "Tunnel \<Rightarrow> tunnelView" where
  "toTunnelView t = \<lparr>tv_ID = t_ID t, tv_ClientID = t_ClientID t, tv_Name = t_Name t,
     tv_Protocol = t_Protocol t, tv_LocalHost = t_LocalHost t, tv_LocalPort = t_LocalPort t,
     tv_PublicPort = t_PublicPort t, tv_Enabled = t_Enabled t,
     tv_TrafficLimitBytes = t_TrafficLimitBytes t, tv_PublicHostname = t_PublicHostname t,
     tv_ProxyProtocol = t_ProxyProtocol t, tv_BytesInTotal = t_BytesInTotal t,
     tv_BytesOutTotal = t_BytesOutTotal t, tv_CreatedAt = t_CreatedAt t\<rparr>"

definition handleListTunnels :: "string \<Rightarrow> response hm" where
  "handleListTunnels clientID =
     bindM (callDB (\<lambda>e. writeError 500 (DbMsg e))
              (if clientID \<noteq> [] then ListTunnelsByClient clientID else ListAllTunnels)) (\<lambda>tunnels.
     retM (writeJSON 200 (TunnelsBody (map toTunnelView tunnels))))"

section \<open>Port specifications\<close>

text \<open>
  The JSON value of a port field: an integer literal, \<open>null\<close>, a string, or anything else. A
  field that is absent leaves the list of values empty: its \<open>UnmarshalJSON\<close> is not called.
\<close>

datatype portJSON = PortNumber int | PortNull | PortString string | PortOther

definition portSpec :: "portJSON \<Rightarrow> int list option" where
  "portSpec j =
     (case j of
        PortNumber n \<Rightarrow> if in_int64 n then Some [n] else None
      | PortNull \<Rightarrow> Some [0]
      | PortOther \<Rightarrow> None
      | PortString s0 \<Rightarrow>
          (let s = TrimSpace s0
           in case Cut s (CHR ''-'') of
                (before, after, isRange) \<Rightarrow>
                  if \<not> isRange then map_option (\<lambda>n. [n]) (Atoi s)
                  else (case (Atoi (TrimSpace before), Atoi (TrimSpace after)) of
                          (Some start, Some end_) \<Rightarrow>
                            if start > end_ then None else Some [start..end_]
                        | _ \<Rightarrow> None)))"

record createTunnelBody =
  tb_ClientID :: string
  tb_Name :: string
  tb_Protocol :: string
  tb_LocalHost :: string
  tb_LocalPort :: "portJSON option"
  tb_PublicPort :: "portJSON option"

record createTunnelRequest =
  tq_ClientID :: string
  tq_Name :: string
  tq_Protocol :: string
  tq_LocalHost :: string
  tq_LocalPort :: "int list"
  tq_PublicPort :: "int list"

definition decodePort :: "portJSON option \<Rightarrow> int list option" where
  "decodePort j = (case j of None \<Rightarrow> Some [] | Some v \<Rightarrow> portSpec v)"

definition decodeCreateTunnel :: "createTunnelBody \<Rightarrow> createTunnelRequest option" where
  "decodeCreateTunnel b =
     (case (decodePort (tb_LocalPort b), decodePort (tb_PublicPort b)) of
        (Some lps, Some pps) \<Rightarrow>
          Some \<lparr>tq_ClientID = tb_ClientID b, tq_Name = tb_Name b, tq_Protocol = tb_Protocol b,
                tq_LocalHost = tb_LocalHost b, tq_LocalPort = lps, tq_PublicPort = pps\<rparr>
      | _ \<Rightarrow> None)"

section \<open>Creation\<close>

text \<open>
  The loop over the local ports: \<open>i\<close> is the index of the next one, \<open>created\<close> what was inserted
  so far. A failure deletes that again; \<open>publicPorts[0]\<close> of an empty list panics.
\<close>

definition rollback :: "tunnelView list \<Rightarrow> apiserver \<Rightarrow> apiserver" where
  "rollback created s =
     fold (\<lambda>c s. put_db (snd (DeleteTunnel (tv_ID c) (as_db s))) s) created s"

fun create_tunnels :: "env \<Rightarrow> createTunnelRequest \<Rightarrow> string \<Rightarrow> bool \<Rightarrow> nat \<Rightarrow> int list
    \<Rightarrow> tunnelView list \<Rightarrow> tunnelView list hm" where
  "create_tunnels E req baseName isRange i [] created = retM created"
| "create_tunnels E req baseName isRange i (lp # lps) created =
     (let publicPorts = tq_PublicPort req
      in if publicPorts = [] \<or> (length publicPorts > 1 \<and> i \<ge> length publicPorts)
         then failM Panicked
         else
           let pp = (if length publicPorts > 1 then publicPorts ! i else publicPorts ! 0);
               name = (if isRange then baseName @ ''-'' @ dec_int pp else baseName)
           in bindM (getS (\<lambda>s. pp \<noteq> 0
                         \<and> \<not> ProbePublicPort (ev_ports E) (tq_Protocol req) pp (as_ts s))) (\<lambda>busy.
              if busy
              then bindM (modS (rollback created)) (\<lambda>_. failM (writeError 409 (PortInUse pp)))
              else
                bindM (tryDB (CreateTunnel (ev_uuid E i) (ev_now E) (tq_ClientID req) name
                                (tq_LocalHost req) lp pp (tq_Protocol req))) (\<lambda>r.
                case r of
                  Inl _ \<Rightarrow>
                    bindM (modS (rollback created)) (\<lambda>_. failM (writeError 409
                      (Msg ''public_port is already in use by another tunnel'')))
                | Inr t \<Rightarrow>
                    create_tunnels E req baseName isRange (Suc i) lps
                      (created @ [toTunnelView t]))))"

definition handleCreateTunnel :: "env \<Rightarrow> createTunnelBody option \<Rightarrow> response hm" where
  "handleCreateTunnel E body =
     bindM (readJSON (case body of None \<Rightarrow> None | Some b \<Rightarrow> decodeCreateTunnel b)) (\<lambda>req0.
     bindM (retM (req0\<lparr>
         tq_LocalHost := (if TrimSpace (tq_LocalHost req0) = [] then ''127.0.0.1''
                          else TrimSpace (tq_LocalHost req0)),
         tq_Name := TrimSpace (tq_Name req0),
         tq_Protocol := (if tq_Protocol req0 = [] then ''tcp'' else tq_Protocol req0)\<rparr>)) (\<lambda>req.
     bindM (guardM (tq_ClientID req = []) (writeError 400 (Msg ''client_id is required''))) (\<lambda>_.
     bindM (callDB (\<lambda>_. writeError 404 (Msg ''client not found''))
              (GetClientByID (tq_ClientID req))) (\<lambda>_.
     bindM (guardM (tq_Protocol req \<noteq> ''tcp'' \<and> tq_Protocol req \<noteq> ''udp'')
              (writeError 400 (Msg (''protocol must be 'tcp' or 'udp'' @ [CHR 0x27])))) (\<lambda>_.
     bindM (retM (length (tq_LocalPort req) > 1 \<or> length (tq_PublicPort req) > 1)) (\<lambda>isRange.
     bindM (guardM (isRange \<and> length (tq_LocalPort req) \<noteq> length (tq_PublicPort req))
              (writeError 400
                (Msg ''local_port and public_port ranges must be the same length''))) (\<lambda>_.
     bindM (guardM (list_ex (\<lambda>p. p < 1 \<or> p > 65535) (tq_LocalPort req))
              (writeError 400 (Msg ''local_port must be 1-65535''))) (\<lambda>_.
     bindM (case find (\<lambda>p. p \<noteq> 0 \<and> (p < 1 \<or> p > 65535) \<or> isRange \<and> p = 0) (tq_PublicPort req) of
              None \<Rightarrow> retM ()
            | Some p \<Rightarrow>
                if p \<noteq> 0
                then failM (writeError 400
                  (Msg ''public_port must be 1-65535, or 0 for hostname-only routing''))
                else failM (writeError 400
                  (Msg ''public_port 0 (hostname-only routing) isn't valid inside a range''))) (\<lambda>_.
     bindM (retM (if tq_Name req = [] then tq_LocalHost req else tq_Name req)) (\<lambda>baseName.
     bindM (create_tunnels E req baseName isRange 0 (tq_LocalPort req) []) (\<lambda>created.
     if isRange then retM (writeJSON 201 (TunnelsBody created))
     else (case created of
             [] \<Rightarrow> failM Panicked
           | c # _ \<Rightarrow> retM (writeJSON 201 (TunnelBody c))))))))))))))"

section \<open>Updates\<close>

record updateTunnelSettingsRequest =
  sq_TrafficLimitBytes :: "int option"
  sq_PublicHostname :: string
  sq_ProxyProtocol :: bool

text \<open>The body is the optional field \<open>enabled\<close>.\<close>

definition handleUpdateTunnel :: "env \<Rightarrow> string \<Rightarrow> bool option option \<Rightarrow> response hm" where
  "handleUpdateTunnel E tid body =
     bindM (readJSON body) (\<lambda>req.
     case req of
       None \<Rightarrow> failM (writeError 400 (Msg ''enabled is required''))
     | Some enabled \<Rightarrow>
         bindM (if enabled
           then bindM (callDB (\<lambda>_. writeError 404 (Msg ''tunnel not found''))
                         (GetTunnelByID tid)) (\<lambda>t.
                bindM (getS (\<lambda>s. t_PublicPort t \<noteq> 0
                    \<and> \<not> ProbePublicPort (ev_ports E) (t_Protocol t) (t_PublicPort t) (as_ts s)))
                  (\<lambda>busy. guardM busy (writeError 409 (PortInUse (t_PublicPort t)))))
           else retM ()) (\<lambda>_.
         bindM (callDB (\<lambda>e. writeError 500 (DbMsg e)) (SetTunnelEnabled tid enabled)) (\<lambda>_.
         retM (Reply 204 Empty None))))"

definition handleUpdateTunnelSettings ::
    "env \<Rightarrow> string \<Rightarrow> updateTunnelSettingsRequest option \<Rightarrow> response hm" where
  "handleUpdateTunnelSettings E tid body =
     bindM (readJSON body) (\<lambda>req.
     bindM (guardM (case sq_TrafficLimitBytes req of None \<Rightarrow> False | Some l \<Rightarrow> l \<le> 0)
              (writeError 400
                (Msg ''traffic_limit_bytes must be positive, or omitted/null for unlimited''))) (\<lambda>_.
     bindM (retM (TrimSpace (ToLower (ev_lower E) (sq_PublicHostname req)))) (\<lambda>hostname.
     bindM (guardM (length hostname > 253)
              (writeError 400 (Msg ''public_hostname is too long''))) (\<lambda>_.
     bindM (if hostname \<noteq> []
       then bindM (tryDB (HostnameTaken hostname tid)) (\<lambda>r.
              guardM (case r of Inr taken \<Rightarrow> taken | Inl _ \<Rightarrow> False)
                (writeError 409 (HostnameInUse hostname)))
       else retM ()) (\<lambda>_.
     bindM (callDB (\<lambda>_. writeError 404 (Msg ''tunnel not found''))
              (UpdateTunnelSettings tid (sq_TrafficLimitBytes req) hostname
                 (sq_ProxyProtocol req))) (\<lambda>_.
     bindM (callDB (\<lambda>e. writeError 500 (DbMsg e)) (GetTunnelByID tid)) (\<lambda>t.
     retM (writeJSON 200 (TunnelBody (toTunnelView t))))))))))"

definition handleDeleteTunnel :: "string \<Rightarrow> response hm" where
  "handleDeleteTunnel tid =
     bindM (callDB (\<lambda>e. writeError 500 (DbMsg e)) (DeleteTunnel tid)) (\<lambda>_.
     retM (Reply 204 Empty None))"

section \<open>Traffic history\<close>

text \<open>\<open>strconv.ParseInt\<close> in base 10 accepts what \<open>Atoi\<close> accepts; anything else is ignored.\<close>

definition handleTunnelTraffic :: "env \<Rightarrow> string \<Rightarrow> string \<Rightarrow> response hm" where
  "handleTunnelTraffic E tid v =
     bindM (retM (if v = [] then ev_now E - 3600
                  else case Atoi v of None \<Rightarrow> ev_now E - 3600 | Some n \<Rightarrow> n)) (\<lambda>since.
     bindM (callDB (\<lambda>e. writeError 500 (DbMsg e)) (ListTrafficSamples tid since)) (\<lambda>samples.
     retM (writeJSON 200 (SamplesBody samples))))"

end
