(* ===== verification/ApiClients.thy ===== *)
theory ApiClients
imports ApiTunnels
begin

text \<open>
  The machine handlers, the installer and the enrollment exchange
  (\<open>internal/api/clients.go\<close>, \<open>enroll.go\<close>). Of the install script and of the page a browser is
  shown, a response keeps what is substituted into the text; the text itself is in \<open>InstallScript\<close>.
\<close>

section \<open>Requests and views\<close>

record createClientRequest =
  nq_Name :: string

record updateClientSettingsRequest =
  uq_TrafficLimitBytes :: "int option"

record enrollExchangeRequest =
  eq_Code :: string

definition clientNamePattern :: "string \<Rightarrow> bool" where
  "clientNamePattern s \<longleftrightarrow> s \<noteq> [] \<and> alnum (hd s) \<and> length s \<le> 64
     \<and> list_all (\<lambda>c. alnum c \<or> c = CHR ''_'' \<or> c = CHR ''-'') (tl s)"

definition enrollCodeTTL :: int where
  "enrollCodeTTL = 15 * 60"

definition toClientView :: "Client \<Rightarrow> bool \<Rightarrow> clientView" where
  "toClientView c connected = \<lparr>cv_ID = c_ID c, cv_Name = c_Name c, cv_CreatedAt = c_CreatedAt c,
     cv_LastSeen = c_LastSeen c, cv_Connected = connected,
     cv_TrafficLimitBytes = c_TrafficLimitBytes c\<rparr>"

section \<open>Machines\<close>

definition handleListClients :: "response hm" where
  "handleListClients =
     bindM (callDB (\<lambda>e. writeError 500 (DbMsg e)) ListClients) (\<lambda>clients.
     getS (\<lambda>s. writeJSON 200 (ClientsBody
       (map (\<lambda>c. toClientView c (ConnectedClientIDs (as_ts s) (c_ID c))) clients))))"

definition installCommand :: "string \<Rightarrow> apiserver \<Rightarrow> string" where
  "installCommand code s =
     ''curl -fsSL '' @ [CHR 0x27] @ apiBaseURL s @ ''/install.sh?code='' @ code @ [CHR 0x27]
       @ '' | sudo bash''"

text \<open>The end both install handlers share: the code for a token, and the response with it.\<close>

definition issueInstall :: "env \<Rightarrow> nat \<Rightarrow> Client \<Rightarrow> string \<Rightarrow> response hm" where
  "issueInstall E status client token =
     bindM (callDB (\<lambda>e. writeError 500 (DbMsg e))
              (CreateEnrollmentCode (ev_sha E) (ev_rand E 1) (ev_now E) (c_ID client) token
                 enrollCodeTTL)) (\<lambda>code.
     getS (\<lambda>s. writeJSON status (InstallBody (toClientView client False) (installCommand code s)
       code (ev_now E + enrollCodeTTL))))"

definition handleCreateClient :: "env \<Rightarrow> createClientRequest option \<Rightarrow> response hm" where
  "handleCreateClient E body =
     bindM (readJSON body) (\<lambda>req.
     bindM (guardM (\<not> clientNamePattern (nq_Name req))
              (writeError 400 (Msg (''name must be 1-64 characters: letters, digits, '' @
                 [CHR 0x27] @ ''-'' @ [CHR 0x27] @ '', '' @ [CHR 0x27] @ ''_'' @ [CHR 0x27])))) (\<lambda>_.
     bindM (callDB (\<lambda>_. writeError 409 (Msg ''a client with that name already exists''))
              (CreateClient (ev_sha E) (ev_rand E 0) (ev_uuid E 0) (ev_now E) (nq_Name req)))
       (\<lambda>(client, token). issueInstall E 201 client token)))"

definition handleReissueInstall :: "env \<Rightarrow> string \<Rightarrow> response hm" where
  "handleReissueInstall E cid =
     bindM (callDB (\<lambda>_. writeError 404 (Msg ''client not found'')) (GetClientByID cid)) (\<lambda>client.
     bindM (guardM (c_LastSeen client \<noteq> None) (writeError 409 AlreadyConnected)) (\<lambda>_.
     bindM (callDB (\<lambda>e. writeError 500 (DbMsg e))
              (RotateClientToken (ev_sha E) (ev_rand E 0) (c_ID client))) (\<lambda>token.
     issueInstall E 200 client token)))"

definition handleListClientDevices :: "string \<Rightarrow> response hm" where
  "handleListClientDevices cid =
     bindM (callDB (\<lambda>_. writeError 404 (Msg ''client not found'')) (GetClientByID cid)) (\<lambda>_.
     getS (\<lambda>s. writeJSON 200 (DevicesBody (DiscoveredDevices cid (as_ts s)))))"

definition handleUpdateClientSettings ::
    "string \<Rightarrow> updateClientSettingsRequest option \<Rightarrow> response hm" where
  "handleUpdateClientSettings cid body =
     bindM (readJSON body) (\<lambda>req.
     bindM (guardM (case uq_TrafficLimitBytes req of None \<Rightarrow> False | Some l \<Rightarrow> l \<le> 0)
              (writeError 400
                (Msg ''traffic_limit_bytes must be positive, or omitted/null for unlimited''))) (\<lambda>_.
     bindM (callDB (\<lambda>_. writeError 404 (Msg ''client not found''))
              (UpdateClientTrafficLimit cid (uq_TrafficLimitBytes req))) (\<lambda>_.
     bindM (callDB (\<lambda>e. writeError 500 (DbMsg e)) (GetClientByID cid)) (\<lambda>c.
     getS (\<lambda>s. writeJSON 200 (ClientBody (toClientView c (ConnectedClientIDs (as_ts s) cid))))))))"

definition handleDeleteClient :: "env \<Rightarrow> string \<Rightarrow> response hm" where
  "handleDeleteClient E cid =
     bindM (tsM (PushUninstall (ev_wok E cid) cid)) (\<lambda>_.
     bindM (callDB (\<lambda>e. writeError 500 (DbMsg e)) (DeleteClient (ev_now E) cid)) (\<lambda>_.
     retM (Reply 204 Empty None)))"

section \<open>Installer\<close>

definition looksLikeShellFetch :: "env \<Rightarrow> request \<Rightarrow> bool" where
  "looksLikeShellFetch E q =
     list_ex (HasPrefix (ToLower (ev_lower E) (hq_UserAgent q))) [''curl/'', ''wget/'']"

definition writeInstallBlockedPage :: "string \<Rightarrow> response hm" where
  "writeInstallBlockedPage code =
     getS (\<lambda>s. Reply 403 (BlockedBody (apiBaseURL s @ ''/install.sh?code='' @ code)) None)"

definition handleInstallScript :: "env \<Rightarrow> request \<Rightarrow> string \<Rightarrow> response hm" where
  "handleInstallScript E q code =
     bindM (guardM (code = []) (Reply 400 (TextBody ''missing code query parameter'') None)) (\<lambda>_.
     if \<not> looksLikeShellFetch E q then writeInstallBlockedPage code
     else getS (\<lambda>s. Reply 200 (ScriptBody (apiBaseURL s) code) None))"

text \<open>
  The binaries embedded at build time, as directory entries (name, whether it is a directory,
  the content unless it cannot be read), and their checksums.
\<close>

definition clientBinPrefix :: string where
  "clientBinPrefix = ''clientbins/portly-client-''"

fun load_binaries :: "(string \<times> bool \<times> byte list option) list \<Rightarrow> (string \<rightharpoonup> byte list)
    \<Rightarrow> (string \<rightharpoonup> byte list) option" where
  "load_binaries [] out = Some out"
| "load_binaries ((base, is_dir, content) # es) out =
     (let name = ''clientbins/'' @ base
      in if is_dir \<or> \<not> HasPrefix name clientBinPrefix then load_binaries es out
         else case content of
                None \<Rightarrow> None
              | Some data \<Rightarrow> load_binaries es (out(TrimPrefix name clientBinPrefix \<mapsto> data)))"

definition LoadEmbeddedClientBinaries ::
    "(string \<times> bool \<times> byte list option) list option \<Rightarrow> (string \<rightharpoonup> byte list) option" where
  "LoadEmbeddedClientBinaries dir =
     (case dir of None \<Rightarrow> None | Some entries \<Rightarrow> load_binaries entries Map.empty)"

definition ChecksumClientBinaries ::
    "(byte list \<Rightarrow> byte list) \<Rightarrow> (string \<rightharpoonup> byte list) \<Rightarrow> (string \<rightharpoonup> string)" where
  "ChecksumClientBinaries sha256 bins = (\<lambda>key. map_option (\<lambda>data. hex_encode (sha256 data)) (bins key))"

definition handleDownloadClient :: "string \<Rightarrow> response hm" where
  "handleDownloadClient key =
     getS (\<lambda>s. case as_ClientBinaries s key of
        None \<Rightarrow> writeError 404 (NoBinary key) | Some bin \<Rightarrow> Reply 200 (FileBody bin) None)"

definition handleDownloadClientChecksum :: "string \<Rightarrow> response hm" where
  "handleDownloadClientChecksum key =
     getS (\<lambda>s. case as_ClientBinarySHA256 s key of
        None \<Rightarrow> writeError 404 (NoBinary key)
      | Some digest \<Rightarrow> Reply 200 (TextBody (digest @ [CHR 0x0A])) None)"

definition handleEnrollExchange :: "env \<Rightarrow> enrollExchangeRequest option \<Rightarrow> response hm" where
  "handleEnrollExchange E body =
     bindM (readJSON body) (\<lambda>req.
     bindM (callDB (\<lambda>e. writeError 401 (DbMsg e))
              (ExchangeEnrollmentCode (ev_sha E) (ev_now E) (eq_Code req))) (\<lambda>(client, token).
     getS (\<lambda>s. writeJSON 200 (EnrollBody (c_Name client) token
       (as_AdvertiseHost s @ '':'' @ dec_int (as_ControlPort s)) (as_CAFingerprint s)))))"

end
