(* ===== verification/ClientMachine.thy ===== *)
theory ClientMachine
imports TunnelClient ApiClients Host
begin

text \<open>
  The client program on its machine: the configuration file (\<open>internal/config/client.go\<close>), the
  certificate pin (\<open>internal/tlsutil\<close>), \<open>enroll\<close>, \<open>init\<close>, \<open>run\<close> and \<open>uninstall\<close>
  (\<open>cmd/portly-client\<close>), on a \<open>machine\<close> of \<open>Host\<close>. The YAML and JSON codecs are arguments.
\<close>

section \<open>Configuration\<close>

record ClientConfig =
  cc_ServerAddr :: string
  cc_Token :: string
  cc_CAFingerprint :: string
  cc_APIBase :: string

datatype config_err = ReadConfig | ParseConfig | MissingFields

definition LoadClientConfig ::
    "(byte list \<Rightarrow> ClientConfig option) \<Rightarrow> string \<Rightarrow> machine \<Rightarrow> config_err + ClientConfig" where
  "LoadClientConfig unyaml path m =
     (case mc_files m path of
        None \<Rightarrow> Inl ReadConfig
      | Some data \<Rightarrow>
          (case unyaml data of
             None \<Rightarrow> Inl ParseConfig
           | Some cfg \<Rightarrow>
               if cc_ServerAddr cfg = [] \<or> cc_Token cfg = [] \<or> cc_CAFingerprint cfg = []
               then Inl MissingFields else Inr cfg))"

definition SaveClientConfig ::
    "os \<Rightarrow> (ClientConfig \<Rightarrow> byte list) \<Rightarrow> string \<Rightarrow> ClientConfig \<Rightarrow> machine \<Rightarrow> bool \<times> machine" where
  "SaveClientConfig S yaml path cfg = WriteFile S path (yaml cfg)"

section \<open>The certificate pin\<close>

definition Fingerprint :: "(byte list \<Rightarrow> byte list) \<Rightarrow> byte list \<Rightarrow> string" where
  "Fingerprint sha256 der = hex_encode (sha256 der)"

text \<open>\<open>None\<close>: the TCP connection or the TLS handshake failed; else the certificates presented.\<close>

definition DialPinned :: "(byte list \<Rightarrow> byte list) \<Rightarrow> string \<Rightarrow> byte list list option \<Rightarrow> bool" where
  "DialPinned sha256 expectedFingerprint peer =
     (case peer of
        None \<Rightarrow> False
      | Some [] \<Rightarrow> False
      | Some (leaf # _) \<Rightarrow> Fingerprint sha256 leaf = expectedFingerprint)"

section \<open>Enrolling\<close>

definition systemConfigPath :: string where
  "systemConfigPath = ''/etc/portly/portly-client.yaml''"

definition systemUnitPath :: string where
  "systemUnitPath = ''/etc/systemd/system/portly-client.service''"

definition systemBinaryPath :: string where
  "systemBinaryPath = ''/usr/local/bin/portly-client''"

record exchangeResponse =
  xr_Name :: string
  xr_Token :: string
  xr_ControlAddr :: string
  xr_CAFingerprint :: string
  xr_Error :: string

datatype enroll_err =
    Unreachable
  | DecodeResponse
  | EnrollmentFailed string
  | EnrollmentStatus nat
  | ConfigDir
  | SaveConfig
  | WriteUnit
  | Systemctl "string list"
  | StartClient

text \<open>The answer of the server to the exchange request, \<open>None\<close> when it was not reached.\<close>

definition exchangeEnrollCode ::
    "(byte list \<Rightarrow> exchangeResponse option) \<Rightarrow> (nat \<times> byte list) option \<Rightarrow> enroll_err + exchangeResponse" where
  "exchangeEnrollCode unjson answer =
     (case answer of
        None \<Rightarrow> Inl Unreachable
      | Some (status, content) \<Rightarrow>
          (case unjson content of
             None \<Rightarrow> Inl DecodeResponse
           | Some resp \<Rightarrow>
               if status \<noteq> 200 then
                 Inl (if xr_Error resp \<noteq> [] then EnrollmentFailed (xr_Error resp) else EnrollmentStatus status)
               else Inr resp))"

definition hasSystemd :: "machine \<Rightarrow> bool" where
  "hasSystemd m \<longleftrightarrow> mc_linux m \<and> mc_systemd m"

definition lines_of :: "string list \<Rightarrow> string" where
  "lines_of ls = concat (map (\<lambda>l. l @ [CHR 0x0A]) ls)"

definition unit_file :: "string \<Rightarrow> string" where
  "unit_file configPath = lines_of
     [''[Unit]'', ''Description=Portly reverse-tunnel client'', ''After=network-online.target'',
      ''Wants=network-online.target'', [], ''[Service]'', ''Type=simple'',
      ''ExecStart='' @ systemBinaryPath @ '' --config '' @ configPath @ '' run'', ''Restart=on-failure'',
      ''RestartSec=2'', [], ''[Install]'', ''WantedBy=multi-user.target'']"

text \<open>What \<open>systemctl\<close> does to the service, when it succeeds.\<close>

fun ctl_effect :: "string list \<Rightarrow> machine \<Rightarrow> machine" where
  "ctl_effect args m =
     (if args = [''enable'', ''portly-client''] then m\<lparr>mc_enabled := True\<rparr>
      else if args = [''enable'', ''--now'', ''portly-client''] then m\<lparr>mc_enabled := True, mc_active := True\<rparr>
      else if args = [''disable'', ''portly-client''] then m\<lparr>mc_enabled := False\<rparr>
      else if args = [''stop'', ''portly-client''] then m\<lparr>mc_active := False\<rparr>
      else m)"

definition systemctl :: "os \<Rightarrow> string list \<Rightarrow> machine \<Rightarrow> bool \<times> machine" where
  "systemctl S args m = (if os_ctl S args then (True, ctl_effect args m) else (False, m))"

definition installSystemdService :: "os \<Rightarrow> string \<Rightarrow> bool \<Rightarrow> machine \<Rightarrow> (enroll_err + unit) \<times> machine" where
  "installSystemdService S configPath start m =
     (case WriteFile S systemUnitPath (bytes_of (unit_file configPath)) m of
        (False, m1) \<Rightarrow> (Inl WriteUnit, m1)
      | (True, m1) \<Rightarrow>
          (let enableArgs = (if start then [''enable'', ''--now'', ''portly-client''] else [''enable'', ''portly-client''])
           in case systemctl S [''daemon-reload''] m1 of
                (False, m2) \<Rightarrow> (Inl (Systemctl [''daemon-reload'']), m2)
              | (True, m2) \<Rightarrow>
                  (case systemctl S enableArgs m2 of
                     (False, m3) \<Rightarrow> (Inl (Systemctl enableArgs), m3)
                   | (True, m3) \<Rightarrow> (Inr (), m3))))"

text \<open>Without systemd: a background process, and an error only if it fails within a moment.\<close>

definition startDetached :: "os \<Rightarrow> machine \<Rightarrow> (enroll_err + unit) \<times> machine" where
  "startDetached S m = (if os_start S then (Inr (), m\<lparr>mc_active := True\<rparr>) else (Inl StartClient, m))"

definition runEnroll ::
    "os \<Rightarrow> (byte list \<Rightarrow> exchangeResponse option) \<Rightarrow> (ClientConfig \<Rightarrow> byte list) \<Rightarrow> string \<Rightarrow> bool
     \<Rightarrow> (nat \<times> byte list) option \<Rightarrow> machine \<Rightarrow> (enroll_err + unit) \<times> machine" where
  "runEnroll S unjson yaml apiBase noStart answer m =
     (case exchangeEnrollCode unjson answer of
        Inl e \<Rightarrow> (Inl e, m)
      | Inr resp \<Rightarrow>
          (let cfg = \<lparr>cc_ServerAddr = xr_ControlAddr resp, cc_Token = xr_Token resp,
                      cc_CAFingerprint = xr_CAFingerprint resp, cc_APIBase = apiBase\<rparr>;
               configPath = (if mc_root m then systemConfigPath else ''portly-client.yaml'')
           in if mc_root m \<and> \<not> os_mkdir S then (Inl ConfigDir, m)
              else case SaveClientConfig S yaml configPath cfg m of
                (False, m1) \<Rightarrow> (Inl SaveConfig, m1)
              | (True, m1) \<Rightarrow>
                  if \<not> mc_root m1 then (Inr (), m1)
                  else if hasSystemd m1 then installSystemdService S configPath (\<not> noStart) m1
                  else startDetached S m1))"

text \<open>\<open>portly-client init\<close>: the values come from flags.\<close>

definition initCmd ::
    "os \<Rightarrow> (ClientConfig \<Rightarrow> byte list) \<Rightarrow> string \<Rightarrow> string \<Rightarrow> string \<Rightarrow> string \<Rightarrow> machine \<Rightarrow> bool \<times> machine" where
  "initCmd S yaml configPath serverAddr token caFingerprint =
     SaveClientConfig S yaml configPath \<lparr>cc_ServerAddr = serverAddr, cc_Token = token,
       cc_CAFingerprint = caFingerprint, cc_APIBase = []\<rparr>"

section \<open>Uninstalling\<close>

definition performSelfUninstall :: "os \<Rightarrow> string \<Rightarrow> machine \<Rightarrow> machine" where
  "performSelfUninstall S configPath m =
     (let m1 = (if hasSystemd m
                then snd (systemctl S [''daemon-reload''] (RemoveFile S systemUnitPath
                       (snd (systemctl S [''disable'', ''portly-client''] m))))
                else m);
          m2 = RemoveFile S configPath m1
      in case mc_exe m2 of None \<Rightarrow> m2 | Some exe \<Rightarrow> RemoveFile S exe m2)"

text \<open>
  \<open>portly-client uninstall\<close>: \<open>answer\<close> is the line typed at the prompt; lower-casing it needs
  Unicode's tables.
\<close>

definition uninstallCmd ::
    "os \<Rightarrow> (string \<Rightarrow> string) \<Rightarrow> string \<Rightarrow> bool \<Rightarrow> string \<Rightarrow> machine \<Rightarrow> machine" where
  "uninstallCmd S lower configPath yes answer m =
     (let path = (if configPath = ''portly-client.yaml'' \<and> mc_files m systemConfigPath \<noteq> None
                  then systemConfigPath else configPath)
      in if \<not> yes \<and> ToLower lower (TrimSpace answer) \<noteq> ''y'' then m
         else performSelfUninstall S path
                (if hasSystemd m then snd (systemctl S [''stop'', ''portly-client''] m) else m))"

section \<open>Running\<close>

text \<open>
  \<open>portly-client run\<close>: the result of the process (\<open>None\<close> while it is still running after these
  turns), the waits, the client and the machine, on which each call of \<open>OnUninstall\<close> has removed
  the installation.
\<close>

datatype exit = ConfigError config_err | ExitOK | ExitErr client_err

definition runClient ::
    "os \<Rightarrow> (byte list \<Rightarrow> ClientConfig option) \<Rightarrow> codecs \<Rightarrow> turn list \<Rightarrow> string \<Rightarrow> machine
     \<Rightarrow> (exit option \<times> nat list) \<times> machine" where
  "runClient S unyaml J us configPath m =
     (case LoadClientConfig unyaml configPath m of
        Inl e \<Rightarrow> ((Some (ConfigError e), []), m)
      | Inr cfg \<Rightarrow>
          (case Run J us minBackoff (NewClient (cc_ServerAddr cfg) (cc_Token cfg) True) of
             ((res, waits), c) \<Rightarrow>
               ((case res of None \<Rightarrow> None
                   | Some e \<Rightarrow> Some (if e = CtxDone \<or> e = ErrUninstalled then ExitOK else ExitErr e), waits),
                (performSelfUninstall S configPath ^^ tc_uninstalls c) m)))"

end
