(* ===== verification/SelfUpdate.thy ===== *)
theory SelfUpdate
imports ClientMachine Http
begin

text \<open>
  The client's self-update (\<open>cmd/portly-client/selfupdate.go\<close>): the two HTTP requests, the
  temporary file and the rename over the running program. The machine is that of
  \<open>ClientMachine\<close>; the answers to the requests and what the operating system grants are arguments.
\<close>

section \<open>The checksum\<close>

definition TrimRight :: "string \<Rightarrow> char \<Rightarrow> string" where
  "TrimRight s c = rev (dropWhile (\<lambda>x. x = c) (rev s))"

datatype upd_err =
    RequestFailed
  | HTTPStatus nat
  | ReadFailed
  | BadChecksum string
  | NoExecutable
  | HashFailed
  | TempFailed
  | CopyFailed
  | CloseFailed
  | Mismatch string string
  | ChmodFailed
  | RenameFailed
  | ExecFailed

definition fetchChecksum :: "(string \<Rightarrow> http_reply) \<Rightarrow> string \<Rightarrow> string \<Rightarrow> upd_err + string" where
  "fetchChecksum get apiBase osArch =
     (case get (TrimRight apiBase (CHR ''/'') @ ''/downloads/'' @ osArch @ ''/sha256'') of
        None \<Rightarrow> Inl RequestFailed
      | Some (status, c) \<Rightarrow>
          if status \<noteq> 200 then Inl (HTTPStatus status)
          else (case read_limited 256 c of
                  None \<Rightarrow> Inl ReadFailed
                | Some body \<Rightarrow>
                    (let sum = TrimSpace (string_of body)
                     in if length sum \<noteq> 64 then Inl (BadChecksum sum) else Inr sum)))"

section \<open>The download\<close>

text \<open>
  What the operating system grants an update: the executable's path, resolved; reading it; the
  temporary file's path; how many bytes of the body are written (all when \<open>None\<close>); closing it; the
  mode; the rename; replacing the process.
\<close>

record update_os = os +
  up_resolve :: "string \<Rightarrow> string option"
  up_read :: bool
  up_temp :: "string option"
  up_short :: "nat option"
  up_close :: bool
  up_chmod :: bool
  up_rename :: bool
  up_exec :: bool

definition remove_temp :: "update_os \<Rightarrow> string \<Rightarrow> machine \<Rightarrow> machine" where
  "remove_temp U = RemoveFile (os.truncate U)"

definition downloadBinary ::
    "(byte list \<Rightarrow> byte list) \<Rightarrow> update_os \<Rightarrow> (string \<Rightarrow> http_reply) \<Rightarrow> string \<Rightarrow> string \<Rightarrow> string
     \<Rightarrow> machine \<Rightarrow> (upd_err + string) \<times> machine" where
  "downloadBinary sha256 U get apiBase osArch wantSum m =
     (case get (TrimRight apiBase (CHR ''/'') @ ''/downloads/'' @ osArch) of
        None \<Rightarrow> (Inl RequestFailed, m)
      | Some (status, content, complete) \<Rightarrow>
          if status \<noteq> 200 then (Inl (HTTPStatus status), m)
          else (case up_temp U of
                  None \<Rightarrow> (Inl TempFailed, m)
                | Some tmp \<Rightarrow>
                    (let written = (case up_short U of None \<Rightarrow> content | Some k \<Rightarrow> take k content);
                         m1 = m\<lparr>mc_files := (mc_files m)(tmp \<mapsto> written)\<rparr>;
                         gotSum = hex_encode (sha256 content)
                     in if up_short U \<noteq> None \<or> \<not> complete then (Inl CopyFailed, remove_temp U tmp m1)
                        else if \<not> up_close U then (Inl CloseFailed, remove_temp U tmp m1)
                        else if gotSum \<noteq> wantSum then (Inl (Mismatch gotSum wantSum), remove_temp U tmp m1)
                        else if \<not> up_chmod U then (Inl ChmodFailed, remove_temp U tmp m1)
                        else (Inr tmp, m1))))"

definition sha256File ::
    "(byte list \<Rightarrow> byte list) \<Rightarrow> update_os \<Rightarrow> string \<Rightarrow> machine \<Rightarrow> upd_err + string" where
  "sha256File sha256 U path m =
     (case mc_files m path of
        None \<Rightarrow> Inl HashFailed
      | Some content \<Rightarrow> if up_read U then Inr (hex_encode (sha256 content)) else Inl HashFailed)"

section \<open>One check\<close>

definition rename_file :: "string \<Rightarrow> string \<Rightarrow> machine \<Rightarrow> machine" where
  "rename_file a b m = m\<lparr>mc_files := (mc_files m)(b := mc_files m a, a := if a = b then mc_files m a else None)\<rparr>"

text \<open>\<open>Restarted\<close>: the process is replaced by the new program, and the function does not return.\<close>

datatype update = UpToDate | Failed upd_err | Restarted

definition checkAndApplyUpdate ::
    "(byte list \<Rightarrow> byte list) \<Rightarrow> update_os \<Rightarrow> (string \<Rightarrow> http_reply) \<Rightarrow> (string \<Rightarrow> http_reply)
     \<Rightarrow> string \<Rightarrow> string \<Rightarrow> machine \<Rightarrow> update \<times> machine" where
  "checkAndApplyUpdate sha256 U getSum getBin apiBase osArch m =
     (case fetchChecksum getSum apiBase osArch of
        Inl e \<Rightarrow> (Failed e, m)
      | Inr remoteSum \<Rightarrow>
          (case Option.bind (mc_exe m) (up_resolve U) of
             None \<Rightarrow> (Failed NoExecutable, m)
           | Some exePath \<Rightarrow>
               (case sha256File sha256 U exePath m of
                  Inl e \<Rightarrow> (Failed e, m)
                | Inr localSum \<Rightarrow>
                    if localSum = remoteSum then (UpToDate, m)
                    else case downloadBinary sha256 U getBin apiBase osArch remoteSum m of
                      (Inl e, m1) \<Rightarrow> (Failed e, m1)
                    | (Inr newPath, m1) \<Rightarrow>
                        if \<not> up_rename U then (Failed RenameFailed, remove_temp U newPath m1)
                        else let m2 = rename_file newPath exePath m1
                             in if up_exec U then (Restarted, m2) else (Failed ExecFailed, m2))))"

section \<open>The loop\<close>

text \<open>
  One turn of the select: the context is done, or the timer fires and a check is made. The result
  is \<open>None\<close> while the loop goes on after these turns, \<open>Some False\<close> when it has returned, \<open>Some True\<close>
  when the process was replaced.
\<close>

datatype tick = CtxCancelled | TimerFired update_os "string \<Rightarrow> http_reply" "string \<Rightarrow> http_reply"

fun updateTicks :: "(byte list \<Rightarrow> byte list) \<Rightarrow> string \<Rightarrow> string \<Rightarrow> tick list \<Rightarrow> machine \<Rightarrow> bool option \<times> machine" where
  "updateTicks sha256 apiBase osArch [] m = (None, m)"
| "updateTicks sha256 apiBase osArch (CtxCancelled # ts) m = (Some False, m)"
| "updateTicks sha256 apiBase osArch (TimerFired U getSum getBin # ts) m =
     (case checkAndApplyUpdate sha256 U getSum getBin apiBase osArch m of
        (Restarted, m1) \<Rightarrow> (Some True, m1)
      | (_, m1) \<Rightarrow> updateTicks sha256 apiBase osArch ts m1)"

definition runSelfUpdateLoop ::
    "(byte list \<Rightarrow> byte list) \<Rightarrow> string \<Rightarrow> string \<Rightarrow> tick list \<Rightarrow> machine \<Rightarrow> bool option \<times> machine" where
  "runSelfUpdateLoop sha256 apiBase osArch ts m =
     (if apiBase = [] then (Some False, m) else updateTicks sha256 apiBase osArch ts m)"

end
