(* ===== verification/ApiUpdates.thy ===== *)
theory ApiUpdates
imports ApiBase
begin

text \<open>
  The update handlers (\<open>internal/api/updates.go\<close>): the state of the update check, the request for
  an update, and the progress of a running one, read from the files of the update script.
\<close>

definition SetUpdateStatus :: "Status \<Rightarrow> apiserver \<Rightarrow> apiserver" where
  "SetUpdateStatus status s = s\<lparr>as_updateStatus := status\<rparr>"

definition handleUpdateStatus :: "response hm" where
  "handleUpdateStatus = getS (\<lambda>s. writeJSON 200 (UpdateStatusBody (as_updateStatus s) (as_Wired s)))"

definition handleCheckUpdate :: "env \<Rightarrow> response hm" where
  "handleCheckUpdate E =
     bindM (getS (\<lambda>s. Check (ev_unsha E) (ev_github E) (ev_now E) (as_BuildCommit s))) (\<lambda>status.
     bindM (modS (SetUpdateStatus status)) (\<lambda>_.
     getS (\<lambda>s. writeJSON 200 (UpdateStatusBody status (as_Wired s)))))"

text \<open>The hook that \<open>main.go\<close> sets: \<open>triggerUpdate\<close> on the data directory.\<close>

definition ApplyUpdate :: "env \<Rightarrow> (trigger_err + unit) hm" where
  "ApplyUpdate E s =
     (case triggerUpdate (ev_os E) (ev_rfc3339 E) (ev_now E) (as_DataDir s) (as_host s) of
        (r, h) \<Rightarrow> (Inr r, s\<lparr>as_host := h\<rparr>))"

definition handleApplyUpdate :: "env \<Rightarrow> response hm" where
  "handleApplyUpdate E =
     bindM (getS as_Wired) (\<lambda>wired.
     bindM (guardM (\<not> wired) (writeError 501 
       (Msg (''one-click update isn't wired up on this server build '' @ [CHR 0xE2, CHR 0x80, CHR 0x94] @
          '' update manually instead'')))) (\<lambda>_.
     bindM (ApplyUpdate E) (\<lambda>r.
     case r of Inl e \<Rightarrow> failM (writeError 409 (TriggerErr e)) | Inr _ \<Rightarrow> retM (Reply 202 Empty None))))"

definition updateLogTailBytes :: nat where
  "updateLogTailBytes = 8 * 1024"

definition tailFile :: "string \<Rightarrow> nat \<Rightarrow> machine \<Rightarrow> string" where
  "tailFile path n m =
     (case mc_files m path of
        None \<Rightarrow> []
      | Some content \<Rightarrow>
          (let offset = (if length content > n then length content - n else 0)
           in string_of (drop offset content)))"

definition readUpdateProgress :: "env \<Rightarrow> apiserver \<Rightarrow> UpdateProgress" where
  "readUpdateProgress E s =
     (if as_DataDir s = [] then no_progress
      else let p = (case mc_files (as_host s) (in_dir (as_DataDir s) ''update-progress.json'') of
                      None \<Rightarrow> no_progress | Some data \<Rightarrow> ev_unprogress E data)
           in p\<lparr>pg_LogTail := tailFile (in_dir (as_DataDir s) ''update.log'') updateLogTailBytes (as_host s)\<rparr>)"

definition handleUpdateProgress :: "env \<Rightarrow> response hm" where
  "handleUpdateProgress E = getS (\<lambda>s. writeJSON 200 (ProgressBody (readUpdateProgress E s)))"

end
