(* ===== verification/LiveStats.thy ===== *)
theory LiveStats
imports ApiBase
begin

text \<open>
  The live statistics of the dashboard (\<open>handleLiveWS\<close> in \<open>internal/api/traffic.go\<close>): what one tick of
  the WebSocket sends, given what the previous ticks remembered. Times are in nanoseconds;
  \<open>rate d e\<close> stands for \<open>int64(float64(d) / elapsed)\<close>, \<open>elapsed\<close> being \<open>e\<close> nanoseconds in seconds.
\<close>

record liveTunnelStat =
  lt_ID :: string
  lt_Name :: string
  lt_ClientID :: string
  lt_Connected :: bool
  lt_Enabled :: bool
  lt_BytesInTotal :: int
  lt_BytesOutTotal :: int
  lt_RateInBps :: int
  lt_RateOutBps :: int

record livePrev =
  lp_bytesIn :: int
  lp_bytesOut :: int
  lp_at :: int

definition live_bytes :: "apiserver \<Rightarrow> Tunnel \<Rightarrow> int \<times> int" where
  "live_bytes s t = (case LiveBytesSnapshot (as_ts s) (t_ID t) of
     Some l \<Rightarrow> l | None \<Rightarrow> (t_BytesInTotal t, t_BytesOutTotal t))"

definition live_stat ::
    "(int \<Rightarrow> int \<Rightarrow> int) \<Rightarrow> int \<Rightarrow> apiserver \<Rightarrow> (string \<rightharpoonup> livePrev) \<Rightarrow> Tunnel \<Rightarrow> liveTunnelStat" where
  "live_stat rate now s prev t =
     (let (bytesIn, bytesOut) = live_bytes s t;
          (rin, rout) = (case prev (t_ID t) of
             None \<Rightarrow> (0, 0)
           | Some p \<Rightarrow>
               (let elapsed = now - lp_at p
                in if elapsed > 0
                   then (rate (wrap64 (bytesIn - lp_bytesIn p)) elapsed, rate (wrap64 (bytesOut - lp_bytesOut p)) elapsed)
                   else (0, 0)))
      in \<lparr>lt_ID = t_ID t, lt_Name = t_Name t, lt_ClientID = t_ClientID t,
          lt_Connected = ConnectedClientIDs (as_ts s) (t_ClientID t), lt_Enabled = t_Enabled t,
          lt_BytesInTotal = bytesIn, lt_BytesOutTotal = bytesOut, lt_RateInBps = rin, lt_RateOutBps = rout\<rparr>)"

fun live_loop ::
    "(int \<Rightarrow> int \<Rightarrow> int) \<Rightarrow> int \<Rightarrow> apiserver \<Rightarrow> (string \<rightharpoonup> livePrev) \<Rightarrow> Tunnel list
     \<Rightarrow> liveTunnelStat list \<times> (string \<rightharpoonup> livePrev)" where
  "live_loop rate now s prev [] = ([], prev)"
| "live_loop rate now s prev (t # ts) =
     (let stat = live_stat rate now s prev t;
          p = \<lparr>lp_bytesIn = lt_BytesInTotal stat, lp_bytesOut = lt_BytesOutTotal stat, lp_at = now\<rparr>
      in case live_loop rate now s (prev(t_ID t \<mapsto> p)) ts of (stats, prev') \<Rightarrow> (stat # stats, prev'))"

text \<open>A tick sends a list, or nothing when the database cannot be read.\<close>

definition live_tick ::
    "(int \<Rightarrow> int \<Rightarrow> int) \<Rightarrow> int \<Rightarrow> apiserver \<Rightarrow> (string \<rightharpoonup> livePrev)
     \<Rightarrow> liveTunnelStat list option \<times> (string \<rightharpoonup> livePrev)" where
  "live_tick rate now s prev =
     (case fst (ListAllTunnels (as_db s)) of
        Inl _ \<Rightarrow> (None, prev)
      | Inr tunnels \<Rightarrow> (case live_loop rate now s prev tunnels of (stats, prev') \<Rightarrow> (Some stats, prev')))"

text \<open>
  The request is answered by switching protocols, and the ticks follow on the connection; or by the
  error that \<open>websocket.Accept\<close> has written, after which the handler returns.
\<close>

definition handleLiveWS :: "env \<Rightarrow> response hm" where
  "handleLiveWS E = (case ev_ws E of
     None \<Rightarrow> retM (Reply 101 Empty None)
   | Some (status, msg) \<Rightarrow> failM (Reply status (TextBody msg) None))"

end
