(* ===== verification/ApiServer.thy ===== *)
theory ApiServer
imports ApiClients ApiUpdates LiveStats
begin

text \<open>
  The router of the management API and the server program that runs it
  (\<open>internal/api/server.go\<close>, \<open>cmd/portly-server/main.go\<close>), as a transition system whose steps are
  requests, steps of the tunnel server, reports of the certificate manager, update checks and restarts. A
  request is one step: its database calls are not interleaved with those of another (\<open>ApiRaces\<close> does
  this for the bootstrap claim and the settings of a tunnel).
\<close>

section \<open>Routes\<close>

text \<open>
  Method and path, with the path's parameters and the decoded body. Not modelled: the
  reverse proxy to the web UI.
\<close>

datatype endpoint =
    PostLogin "loginRequest option"
  | PostLogout
  | GetMe
  | PostChangeCredentials "changeCredentialsRequest option"
  | GetBootstrapStatus
  | PostBootstrapClaim "bootstrapClaimRequest option"
  | GetServerInfo
  | GetClients
  | PostClients "createClientRequest option"
  | DeleteClientAt string
  | PatchClientSettings string "updateClientSettingsRequest option"
  | GetClientDevices string
  | PostReissueInstall string
  | GetTunnels string
  | PostTunnels "createTunnelBody option"
  | PatchTunnel string "bool option option"
  | PatchTunnelSettings string "updateTunnelSettingsRequest option"
  | DeleteTunnelAt string
  | GetTunnelTraffic string string
  | GetAPIKeys
  | PostAPIKeys "createAPIKeyRequest option"
  | DeleteAPIKeyAt string
  | GetInstallScript string
  | GetDownload string
  | GetDownloadChecksum string
  | PostEnrollExchange "enrollExchangeRequest option"
  | GetSetup
  | PostSetupDomain "setDomainRequest option"
  | PostFactoryReset "factoryResetRequest option"
  | GetLiveWS
  | GetUpdateStatus
  | PostCheckUpdate
  | PostApplyUpdate
  | GetUpdateProgress

fun mux :: "env \<Rightarrow> request \<Rightarrow> endpoint \<Rightarrow> apiserver \<Rightarrow> response \<times> apiserver" where
  "mux E q (PostLogin b) = finish (handleLogin E b)"
| "mux E q PostLogout = finish (handleLogout q)"
| "mux E q GetMe = requireAuth E q handleMe"
| "mux E q (PostChangeCredentials b) = requireAuth E q (handleChangeCredentials E b)"
| "mux E q GetBootstrapStatus = finish handleBootstrapStatus"
| "mux E q (PostBootstrapClaim b) = finish (handleBootstrapClaim E b)"
| "mux E q GetServerInfo = requireAuthOrAPIKey E q handleServerInfo"
| "mux E q GetClients = requireAuthOrAPIKey E q handleListClients"
| "mux E q (PostClients b) = requireAuth E q (handleCreateClient E b)"
| "mux E q (DeleteClientAt i) = requireAuth E q (handleDeleteClient E i)"
| "mux E q (PatchClientSettings i b) = requireAuth E q (handleUpdateClientSettings i b)"
| "mux E q (GetClientDevices i) = requireAuth E q (handleListClientDevices i)"
| "mux E q (PostReissueInstall i) = requireAuth E q (handleReissueInstall E i)"
| "mux E q (GetTunnels c) = requireAuthOrAPIKey E q (handleListTunnels c)"
| "mux E q (PostTunnels b) = requireAuthOrAPIKey E q (handleCreateTunnel E b)"
| "mux E q (PatchTunnel i b) = requireAuthOrAPIKey E q (handleUpdateTunnel E i b)"
| "mux E q (PatchTunnelSettings i b) = requireAuthOrAPIKey E q (handleUpdateTunnelSettings E i b)"
| "mux E q (DeleteTunnelAt i) = requireAuthOrAPIKey E q (handleDeleteTunnel i)"
| "mux E q (GetTunnelTraffic i v) = requireAuth E q (handleTunnelTraffic E i v)"
| "mux E q GetAPIKeys = requireAuth E q handleListAPIKeys"
| "mux E q (PostAPIKeys b) = requireAuth E q (handleCreateAPIKey E b)"
| "mux E q (DeleteAPIKeyAt i) = requireAuth E q (handleDeleteAPIKey i)"
| "mux E q (GetInstallScript c) = finish (handleInstallScript E q c)"
| "mux E q (GetDownload k) = finish (handleDownloadClient k)"
| "mux E q (GetDownloadChecksum k) = finish (handleDownloadClientChecksum k)"
| "mux E q (PostEnrollExchange b) = finish (handleEnrollExchange E b)"
| "mux E q GetSetup = requireAuth E q handleSetupStatus"
| "mux E q (PostSetupDomain b) = requireAuth E q (handleSetDomain E b)"
| "mux E q (PostFactoryReset b) = requireAuth E q (handleFactoryReset E b)"
| "mux E q GetLiveWS = requireAuth E q (handleLiveWS E)"
| "mux E q GetUpdateStatus = requireAuth E q handleUpdateStatus"
| "mux E q PostCheckUpdate = requireAuth E q (handleCheckUpdate E)"
| "mux E q PostApplyUpdate = requireAuth E q (handleApplyUpdate E)"
| "mux E q GetUpdateProgress = finish (handleUpdateProgress E)"

definition Router ::
    "env \<Rightarrow> request \<Rightarrow> endpoint \<Rightarrow> apiserver \<Rightarrow> (string option \<times> response) \<times> apiserver" where
  "Router E q e s = withCORS q (mux E q e) s"

section \<open>The server program\<close>

text \<open>
  \<open>portly-server run\<close>: a setup code if there is no admin, the tunnel server, the API server with
  the configuration \<open>cfg\<close> (flags, detected addresses, embedded binaries), the hooks, a first update
  check. Other programs may change the host's files (\<open>files\<close>), as the update script does.
\<close>

definition runServer :: "env \<Rightarrow> apiserver \<Rightarrow> db \<Rightarrow> string option \<Rightarrow> apiserver" where
  "runServer E cfg d0 file0 =
     (case writeSetupCode E (d0, file0) of
        (d, file) \<Rightarrow>
          (let s = NewApiServer (NewServer d)
           in cfg\<lparr>as_ts := as_ts s, as_sessions := as_sessions s, as_domain := as_domain s,
                 as_ClientBinarySHA256 := ChecksumClientBinaries (ev_sha E) (as_ClientBinaries cfg),
                 as_Wired := True, as_setup_file := file,
                 as_updateStatus := Check (ev_unsha E) (ev_github E) (ev_now E) (as_BuildCommit cfg),
                 as_cert := (if as_domain s \<noteq> [] then (''pending'', []) else ([], []))\<rparr>))"

inductive api_step :: "(byte list \<Rightarrow> byte list) \<Rightarrow> apiserver \<Rightarrow> apiserver \<Rightarrow> bool" for sha where
  request: "ev_sha E = sha \<Longrightarrow> api_step sha s (snd (Router E q e s))"
| tunnels: "goroutine (as_ts s) t \<Longrightarrow> api_step sha s (s\<lparr>as_ts := t\<rparr>)"
| cert: "api_step sha s (SetCertState st err s)"
| check: "api_step sha s (SetUpdateStatus status s)"
| files: "api_step sha s (s\<lparr>as_host := h\<rparr>)"
| restart: "ev_sha E = sha \<Longrightarrow> api_step sha s (runServer E cfg (as_db s) (as_setup_file s))"

inductive api_reach :: "(byte list \<Rightarrow> byte list) \<Rightarrow> apiserver \<Rightarrow> bool" for sha where
  install: "ev_sha E = sha \<Longrightarrow> api_reach sha (runServer E cfg fresh_db None)"
| step: "api_reach sha s \<Longrightarrow> api_step sha s s' \<Longrightarrow> api_reach sha s'"

end
