(* ===== verification/ApiInvariant.thy ===== *)
theory ApiInvariant
imports ApiServer
begin

text \<open>
  The invariant of the whole server program over requests, tunnel-server steps and restarts: a
  small Hoare logic for handlers, the database calls that leave accounts and settings alone, and
  the invariant's preservation by every route.
\<close>

section \<open>Triples for handlers\<close>

text \<open>\<open>triple P m Q I\<close>: from \<open>P\<close>, an early return leaves \<open>I\<close>, a result \<open>x\<close> leaves \<open>Q x\<close>.\<close>

definition triple :: "('s \<Rightarrow> bool) \<Rightarrow> ('s, 'e, 'a) sem \<Rightarrow> ('a \<Rightarrow> 's \<Rightarrow> bool) \<Rightarrow> ('s \<Rightarrow> bool) \<Rightarrow> bool"
where
  "triple P m Q I \<longleftrightarrow> (\<forall>s. P s \<longrightarrow> (case m s of (Inl _, s') \<Rightarrow> I s' | (Inr x, s') \<Rightarrow> Q x s'))"

named_theorems triples \<open>rules of the Hoare logic\<close>

lemma triple_bind [triples]:
  assumes "triple P m R I" and "\<And>x. triple (R x) (f x) Q I"
  shows "triple P (bindM m f) Q I"
  unfolding triple_def
proof (intro allI impI)
  fix s
  assume "P s"
  with assms(1) have m: "case m s of (Inl _, s') \<Rightarrow> I s' | (Inr x, s') \<Rightarrow> R x s'"
    by (simp add: triple_def)
  show "case bindM m f s of (Inl _, s') \<Rightarrow> I s' | (Inr x, s') \<Rightarrow> Q x s'"
  proof (cases "m s")
    case (Pair r s')
    with m assms(2) show ?thesis by (cases r) (auto simp: bindM_def triple_def)
  qed
qed

lemma triple_ret: "(\<And>s. P s \<Longrightarrow> Q x s) \<Longrightarrow> triple P (retM x) Q I"
  by (simp add: triple_def retM_def)

lemma triple_fail: "(\<And>s. P s \<Longrightarrow> I s) \<Longrightarrow> triple P (failM r) Q I"
  by (simp add: triple_def failM_def)

lemma triple_guard:
  "(\<And>s. P s \<Longrightarrow> c \<Longrightarrow> I s) \<Longrightarrow> (\<And>s. P s \<Longrightarrow> \<not> c \<Longrightarrow> Q () s) \<Longrightarrow> triple P (guardM c r) Q I"
  by (auto simp: guardM_def retM_def failM_def triple_def)

lemma triple_modS: "(\<And>s. P s \<Longrightarrow> Q () (f s)) \<Longrightarrow> triple P (modS f) Q I"
  by (simp add: triple_def modS_def)

lemma triple_getS: "(\<And>s. P s \<Longrightarrow> Q (f s) s) \<Longrightarrow> triple P (getS f) Q I"
  by (simp add: triple_def getS_def)

lemma triple_callDB:
  assumes "\<And>s e d. P s \<Longrightarrow> m (as_db s) = (Inl e, d) \<Longrightarrow> I (put_db d s)"
    and "\<And>s x d. P s \<Longrightarrow> m (as_db s) = (Inr x, d) \<Longrightarrow> Q x (put_db d s)"
  shows "triple P (callDB err m) Q I"
  using assms by (auto simp: triple_def callDB_def split: prod.split sum.split)

lemma triple_keeps: "keeps I m \<Longrightarrow> (\<And>s. P s \<Longrightarrow> I s) \<Longrightarrow> triple P m (\<lambda>_. I) I"
  by (fastforce simp: keeps_def triple_def split: prod.split sum.split)

lemma keeps_triple: "triple I m (\<lambda>_. I) I \<Longrightarrow> keeps I m"
proof (rule keepsI)
  fix s
  assume t: "triple I m (\<lambda>_. I) I" and "I s"
  then have "case m s of (Inl _, s') \<Rightarrow> I s' | (Inr x, s') \<Rightarrow> I s'" by (simp add: triple_def)
  then show "I (snd (m s))" by (cases "m s"; cases "fst (m s)") auto
qed

lemma triple_readJSON: "(\<And>s. P s \<Longrightarrow> I s) \<Longrightarrow> (\<And>r s. P s \<Longrightarrow> Q r s) \<Longrightarrow> triple P (readJSON b) Q I"
  by (cases b) (simp_all add: readJSON_def triple_ret triple_fail)

section \<open>Calls that leave accounts, settings and hostnames alone\<close>

definition hostnames :: "db \<Rightarrow> string list" where
  "hostnames d = filter (\<lambda>h. h \<noteq> []) (map r_public_hostname (d_tunnels d))"

definition quiet :: "AdminUser list \<Rightarrow> (string \<rightharpoonup> string) \<Rightarrow> db \<Rightarrow> bool" where
  "quiet A S d \<longleftrightarrow> d_open d \<and> d_admins d = A \<and> d_settings d = S \<and> distinct (hostnames d)"

lemma quiet_same:
  "quiet A S d \<Longrightarrow> d_open d' = d_open d \<Longrightarrow> d_admins d' = d_admins d
   \<Longrightarrow> d_settings d' = d_settings d \<Longrightarrow> d_tunnels d' = d_tunnels d \<Longrightarrow> quiet A S d'"
  by (simp add: quiet_def hostnames_def)

lemma hostnames_upd:
  assumes "\<And>t. r_public_hostname (f t) = r_public_hostname t"
  shows "map r_public_hostname (upd_where p f ts) = map r_public_hostname ts"
  by (simp add: upd_where_def assms)

lemma distinct_filter_map_del:
  "distinct (filter q (map k ts)) \<Longrightarrow> distinct (filter q (map k (del_where p ts)))"
  by (induction ts) (auto simp: del_where_def)

lemma quiet_exec [keeps_intros]:
  assumes "\<And>d n d'. quiet A S d \<Longrightarrow> u d = Inr (n, d') \<Longrightarrow> quiet A S d'"
  shows "keeps (quiet A S) (execM u)"
  using assms by (auto intro: keeps_exec)

lemma quiet_update_tunnels:
  "(\<And>t. r_public_hostname (f t) = r_public_hostname t) \<Longrightarrow> keeps (quiet A S) (update_tunnels p f)"
  unfolding update_tunnels_def
  by (rule quiet_exec) (auto simp: quiet_def hostnames_def hostnames_upd)

lemma quiet_tunnel_prims [keeps_intros]:
  "keeps (quiet A S) (add_bytes tid i u)"
  "keeps (quiet A S) (insert_sample x)"
  "keeps (quiet A S) (DeleteTunnel tid)"
  "keeps (quiet A S) (SetTunnelEnabled tid b)"
  "r_public_hostname t = [] \<Longrightarrow> keeps (quiet A S) (insert_tunnel t)"
  unfolding add_bytes_def insert_sample_def DeleteTunnel_def SetTunnelEnabled_def
    insert_tunnel_def update_tunnels_def
  by (rule quiet_exec, auto simp: quiet_def hostnames_def hostnames_upd distinct_filter_map_del
      split: if_splits)+

lemma quiet_client_prims [keeps_intros]:
  "keeps (quiet A S) (insert_client c)"
  "keeps (quiet A S) (update_clients cid f)"
  "keeps (quiet A S) (delete_clients p)"
  "keeps (quiet A S) (revoke_token now h)"
  "keeps (quiet A S) (insert_code h e)"
  "keeps (quiet A S) (delete_code h)"
  "keeps (quiet A S) (insert_api_key k)"
  "keeps (quiet A S) (UpdateAPIKeyLastUsed now kid)"
  "keeps (quiet A S) (DeleteAPIKey kid)"
  unfolding insert_client_def update_clients_def delete_clients_def revoke_token_def
    insert_code_def delete_code_def insert_api_key_def UpdateAPIKeyLastUsed_def DeleteAPIKey_def
  by (rule quiet_exec, auto simp: quiet_def hostnames_def cascade_clients_def Let_def
      distinct_filter_map_del split: if_splits)+

lemma quiet_rotate [keeps_intros]: "keeps (quiet A S) (RotateClientToken sha r cid)"
  unfolding RotateClientToken_def
  by (intro keeps_intros) (auto simp: quiet_def hostnames_def split: if_splits)

lemma quiet_client_methods [keeps_intros]:
  "keeps (quiet A S) (CreateClient sha r i now n)"
  "keeps (quiet A S) (UpdateClientTrafficLimit cid l)"
  "keeps (quiet A S) (UpdateClientLastSeen now cid)"
  "keeps (quiet A S) (DeleteClient now cid)"
  "keeps (quiet A S) (CreateEnrollmentCode sha r now cid tok ttl)"
  "keeps (quiet A S) (ExchangeEnrollmentCode sha now code)"
  "keeps (quiet A S) (CreateAPIKey sha r i now n)"
  unfolding CreateClient_def UpdateClientTrafficLimit_def UpdateClientLastSeen_def DeleteClient_def
    CreateEnrollmentCode_def ExchangeEnrollmentCode_def CreateAPIKey_def GetClientByID_def
  by (auto intro!: keeps_intros)

lemma quiet_create_tunnel [keeps_intros]: "keeps (quiet A S) (CreateTunnel i now c n h lp pp p)"
  unfolding CreateTunnel_def Let_def by (auto intro!: keeps_intros)

lemma quiet_traffic [keeps_intros]: "keeps (quiet A S) (AddTunnelTraffic now tid i u)"
  unfolding AddTunnelTraffic_def
  by (intro keeps_intros quiet_update_tunnels) simp_all


section \<open>The tunnel server leaves them alone\<close>

lemma quiet_flush:
  assumes "quiet A S (ts_db t)"
  shows "quiet A S (ts_db (flush_one now x cur t))"
proof -
  have "quiet A S (snd (AddTunnelTraffic now x i u (ts_db t)))" for i u
    using quiet_traffic assms by (rule keepsD)
  then have "quiet A S d'" if "AddTunnelTraffic now x i u (ts_db t) = (r, d')" for i u r d'
    using that by (metis snd_conv)
  then show ?thesis
    using assms by (auto simp: flush_one_def Let_def split: prod.split sum.split)
qed

lemma goroutine_quiet:
  assumes "goroutine t t'" and "quiet A S (ts_db t)"
  shows "quiet A S (ts_db t')"
  using assms(1)
proof cases
  case (push i now wok)
  then show ?thesis using assms(2) keepsD [OF quiet_client_methods(3)] by simp
next
  case (flush now order)
  have "quiet A S (ts_db (fold (\<lambda>x s. case snap x of None \<Rightarrow> s | Some cur \<Rightarrow> flush_one now x cur s)
      order t))" for snap
    by (rule fold_invariant [where Q = "\<lambda>_. True" and P = "\<lambda>t. quiet A S (ts_db t)"])
       (auto simp: assms(2) quiet_flush split: option.split)
  with flush show ?thesis by (simp add: flush_tick_def Let_def)
qed (use assms(2) in \<open>auto simp: close_session_def acceptDeviceReport_def RunControl_def
    RunMinecraftRouter_def Shutdown_def proxyConn_def proxy_end_def Let_def split: option.split\<close>)


section \<open>The invariant\<close>

definition accounts_ok :: "AdminUser list \<Rightarrow> (string \<rightharpoonup> string) \<Rightarrow> bool" where
  "accounts_ok A S \<longleftrightarrow> length A \<le> 1 \<and> (A \<noteq> [] \<longrightarrow> S setupCodeSettingKey = None)"

definition front_ok :: "AdminUser list \<Rightarrow> (string \<rightharpoonup> string) \<Rightarrow> apiserver \<Rightarrow> bool" where
  "front_ok A S s \<longleftrightarrow> accounts_ok A S
     \<and> as_domain s = (case S ''domain'' of None \<Rightarrow> [] | Some d \<Rightarrow> d)
     \<and> (\<forall>token info. as_sessions s token = Some info \<longrightarrow> si_adminID info \<in> a_ID ` set A)
     \<and> as_Wired s"

definition api_ok :: "apiserver \<Rightarrow> bool" where
  "api_ok s \<longleftrightarrow> server_ok (as_ts s) \<and> d_open (as_db s) \<and> distinct (hostnames (as_db s))
     \<and> front_ok (d_admins (as_db s)) (d_settings (as_db s)) s"

lemma api_ok_quiet:
  assumes "api_ok s" and "db_wf d" and "quiet (d_admins (as_db s)) (d_settings (as_db s)) d"
  shows "api_ok (put_db d s)"
proof -
  have "server_ok ((as_ts s)\<lparr>ts_db := d\<rparr>)"
    using assms(1,2) by (simp add: api_ok_def server_ok_def counters_ok_def sessions_ok_def)
  with assms(1,3) show ?thesis by (simp add: api_ok_def quiet_def front_ok_def)
qed

lemma api_okD:
  assumes "api_ok s"
  shows "server_ok (as_ts s)" "db_wf (as_db s)" "d_open (as_db s)"
    "quiet (d_admins (as_db s)) (d_settings (as_db s)) (as_db s)"
    "accounts_ok (d_admins (as_db s)) (d_settings (as_db s))"
  using assms server_okD(4) by (auto simp: api_ok_def quiet_def front_ok_def)

lemma api_ok_call:
  assumes "keeps db_wf m" and "\<And>A S. keeps (quiet A S) m" and "api_ok s"
  shows "api_ok (put_db (snd (m (as_db s))) s)"
  using assms(3) keepsD [OF assms(1) api_okD(2) [OF assms(3)]]
    keepsD [OF assms(2) api_okD(4) [OF assms(3)]]
  by (rule api_ok_quiet)

lemma keeps_call [keeps_intros]:
  assumes "keeps db_wf m" and "\<And>A S. keeps (quiet A S) m"
  shows "keeps api_ok (callDB err m)"
  using api_ok_call [OF assms] by (rule keeps_callDB)

lemma keeps_try [keeps_intros]:
  assumes "keeps db_wf m" and "\<And>A S. keeps (quiet A S) m"
  shows "keeps api_ok (tryDB m)"
  using api_ok_call [OF assms] by (rule keeps_tryDB)

lemma keeps_readers [keeps_intros]:
  "keeps I GetAdminUser" "keeps I HasAdminUser" "keeps I ListClients" "keeps I ListAPIKeys"
  "keeps I (GetClientByID cid)" "keeps I (GetTunnelByID tid)" "keeps I ListAllTunnels"
  "keeps I (ListTunnelsByClient cid)" "keeps I (HostnameTaken h x)"
  "keeps I (ListTrafficSamples x n)"
  unfolding GetAdminUser_def HasAdminUser_def ListClients_def ListAPIKeys_def GetClientByID_def
    GetTunnelByID_def ListAllTunnels_def ListTunnelsByClient_def HostnameTaken_def
    ListTrafficSamples_def
  by (rule keeps_query)+

text \<open>Sessions come and go without touching anything else.\<close>

lemma api_ok_create:
  assumes "api_ok s" and "a_ID a \<in> a_ID ` set (d_admins (as_db s))"
  shows "api_ok (snd (createSession E (a_ID a) s))"
  using assms by (auto simp: api_ok_def front_ok_def createSession_def Let_def)

lemma api_ok_destroy: "api_ok s \<Longrightarrow> api_ok (destroySession token s)"
  by (auto simp: api_ok_def front_ok_def destroySession_def)

lemma api_ok_uninstall:
  assumes "api_ok s"
  shows "api_ok (s\<lparr>as_ts := snd (PushUninstall wok cid (as_ts s))\<rparr>)"
proof -
  have "server_ok (snd (PushUninstall wok cid (as_ts s)))"
    by (rule goroutine_ok [OF goroutine.uninstall api_okD(1) [OF assms]])
  with assms show ?thesis by (simp add: api_ok_def front_ok_def)
qed

section \<open>Every handler keeps it\<close>

text \<open>Handlers whose database calls are quiet.\<close>

lemma keeps_issueInstall [keeps_intros]: "keeps api_ok (issueInstall E n c tok)"
  unfolding issueInstall_def by (intro keeps_intros)

lemma keeps_rollback: "api_ok s \<Longrightarrow> api_ok (rollback created s)"
proof (induction created arbitrary: s)
  case (Cons c created)
  have "api_ok (put_db (snd (DeleteTunnel (tv_ID c) (as_db s))) s)"
    using keeps_delete_tunnel quiet_tunnel_prims(3) Cons.prems by (rule api_ok_call)
  with Cons.IH show ?case by (simp add: rollback_def)
qed (simp add: rollback_def)

lemma keeps_create_tunnels [keeps_intros]:
  "keeps api_ok (create_tunnels E req base rng i lps created)"
proof (induction lps arbitrary: rng i created)
  case Nil
  show ?case by (simp add: keeps_ret)
next
  case (Cons lp lps)
  show ?case
  proof (cases "tq_PublicPort req = []
      \<or> 1 < length (tq_PublicPort req) \<and> length (tq_PublicPort req) \<le> i")
    case True
    then show ?thesis by (simp add: keeps_fail)
  next
    case False
    have t: "keeps api_ok (tryDB (CreateTunnel u n c nm h l pp p))" for u n c nm h l pp p
      by (intro keeps_intros)
    from False show ?thesis
      unfolding create_tunnels.simps Let_def
      by (auto intro!: keeps_bind keeps_getS keeps_modS keeps_rollback keeps_fail t Cons.IH
          split: sum.split)
  qed
qed

lemma keeps_quiet_handlers [keeps_intros]:
  "keeps api_ok handleMe" "keeps api_ok handleBootstrapStatus" "keeps api_ok handleServerInfo"
  "keeps api_ok handleListAPIKeys" "keeps api_ok (handleDeleteAPIKey kid)"
  "keeps api_ok handleSetupStatus" "keeps api_ok (handleListTunnels c)"
  "keeps api_ok (handleDeleteTunnel tid)" "keeps api_ok (handleTunnelTraffic E tid v)"
  "keeps api_ok handleListClients" "keeps api_ok (handleListClientDevices cid)"
  "keeps api_ok (handleReissueInstall E cid)" "keeps api_ok (handleUpdateClientSettings cid b2)"
  "keeps api_ok (handleInstallScript E q code)" "keeps api_ok (handleDownloadClient key)"
  "keeps api_ok (handleDownloadClientChecksum key)"
  unfolding handleMe_def handleBootstrapStatus_def handleServerInfo_def handleListAPIKeys_def
    handleDeleteAPIKey_def handleSetupStatus_def handleListTunnels_def handleDeleteTunnel_def
    handleTunnelTraffic_def handleListClients_def handleListClientDevices_def
    handleReissueInstall_def handleUpdateClientSettings_def handleInstallScript_def
    writeInstallBlockedPage_def handleDownloadClient_def handleDownloadClientChecksum_def
  by (intro keeps_intros | simp)+

lemma keeps_quiet_handlers2 [keeps_intros]:
  "keeps api_ok (handleCreateAPIKey E b)"
  "keeps api_ok (handleCreateClient E b1)"
  "keeps api_ok (handleEnrollExchange E b3)"
  "keeps api_ok (handleUpdateTunnel E tid b4)"
  unfolding handleCreateAPIKey_def handleCreateClient_def handleEnrollExchange_def
    handleUpdateTunnel_def
  by (intro keeps_intros | simp)+

lemma api_ok_host: "api_ok s \<Longrightarrow> api_ok (s\<lparr>as_host := h\<rparr>)" "api_ok s \<Longrightarrow> api_ok (SetUpdateStatus status s)"
  by (simp_all add: api_ok_def front_ok_def SetUpdateStatus_def)

lemma keeps_update_handlers [keeps_intros]:
  "keeps api_ok (handleLiveWS E0)" "keeps api_ok handleUpdateStatus" "keeps api_ok (handleCheckUpdate E)"
  "keeps api_ok (handleApplyUpdate E1)" "keeps api_ok (handleUpdateProgress E2)"
proof -
  have "keeps api_ok (ApplyUpdate E1)"
    by (auto simp: keeps_def ApplyUpdate_def api_ok_host split: prod.split)
  moreover have "keeps api_ok (modS (SetUpdateStatus status))" for status
    by (rule keeps_modS) (rule api_ok_host)
  ultimately show "keeps api_ok (handleLiveWS E0)" "keeps api_ok handleUpdateStatus" "keeps api_ok (handleCheckUpdate E)"
    "keeps api_ok (handleApplyUpdate E1)" "keeps api_ok (handleUpdateProgress E2)"
    unfolding handleLiveWS_def handleUpdateStatus_def handleCheckUpdate_def handleApplyUpdate_def
      handleUpdateProgress_def
    by (intro keeps_intros | simp add: keeps_ret keeps_fail split: sum.split option.split)+
qed

lemma keeps_handleCreateTunnel [keeps_intros]: "keeps api_ok (handleCreateTunnel E b)"
  unfolding handleCreateTunnel_def
  by (intro keeps_intros | simp add: keeps_ret keeps_fail split: option.split list.split)+

lemma keeps_handleDeleteClient [keeps_intros]: "keeps api_ok (handleDeleteClient E cid)"
  unfolding handleDeleteClient_def
  by (intro keeps_intros keeps_tsM api_ok_uninstall)

lemma keeps_handleLogout [keeps_intros]: "keeps api_ok (handleLogout q)"
  unfolding handleLogout_def
  by (intro keeps_intros keeps_modS) (simp add: api_ok_destroy split: option.split)

text \<open>Handlers that write accounts, settings or hostnames.\<close>

lemma GetAdminUser_Inr: "GetAdminUser d = (Inr a, d') \<Longrightarrow> d' = d \<and> a \<in> set (d_admins d)"
  by (auto simp: GetAdminUser_def queryM_def split: if_splits list.splits)

lemma triple_GetAdmin [triples]:
  "triple api_ok (callDB err GetAdminUser) (\<lambda>a s. api_ok s \<and> a \<in> set (d_admins (as_db s))) api_ok"
  by (rule triple_callDB)
     (auto simp: GetAdminUser_def queryM_def split: if_splits list.splits)

lemma triple_session [triples]:
  "triple (\<lambda>s. api_ok s \<and> a \<in> set (d_admins (as_db s))) (modS (\<lambda>s. snd (createSession E (a_ID a) s)))
     (\<lambda>_. api_ok) I"
  by (rule triple_modS) (auto intro: api_ok_create)

lemma triple_token [triples]:
  "triple P (getS f) (\<lambda>_. P) I"
  by (rule triple_getS)

lemma triple_guard_same [triples]:
  "(\<And>s. P s \<Longrightarrow> I s) \<Longrightarrow> triple P (guardM c r) (\<lambda>_. P) I"
  by (rule triple_guard)

lemma triple_ret_same [triples]: "triple P (retM x) (\<lambda>_. P) I"
  by (rule triple_ret)

lemma triple_fail_same [triples]: "(\<And>s. P s \<Longrightarrow> I s) \<Longrightarrow> triple P (failM r) Q I"
  by (rule triple_fail)

lemma triple_option [triples]:
  "triple P a Q I \<Longrightarrow> (\<And>y. triple P (f y) Q I)
   \<Longrightarrow> triple P (case x of None \<Rightarrow> a | Some y \<Rightarrow> f y) Q I"
  by (cases x) simp_all

lemma triple_read_same [triples]: "(\<And>s. P s \<Longrightarrow> I s) \<Longrightarrow> triple P (readJSON b) (\<lambda>_. P) I"
  by (rule triple_readJSON)

lemma keeps_handleLogin [keeps_intros]: "keeps api_ok (handleLogin E b)"
  unfolding handleLogin_def by (rule keeps_triple) (rule triples | simp)+

lemma api_ok_db:
  assumes "api_ok s" and "db_wf d" and "d_open d" and "distinct (hostnames d)"
    and "front_ok (d_admins d) (d_settings d) s"
  shows "api_ok (put_db d s)"
  using assms by (simp add: api_ok_def server_ok_def counters_ok_def sessions_ok_def front_ok_def)

lemma keeps_handleChangeCredentials [keeps_intros]: "keeps api_ok (handleChangeCredentials E b)"
proof -
  have upd: "triple (\<lambda>s. api_ok s \<and> a \<in> set (d_admins (as_db s)))
      (callDB err (UpdateAdminCredentials (a_ID a) u h m)) (\<lambda>_. api_ok) api_ok" for a u h m err
  proof (rule triple_keeps)
    show "keeps api_ok (callDB err (UpdateAdminCredentials (a_ID a) u h m))"
    proof (rule keeps_callDB)
      fix s
      assume ok: "api_ok s"
      let ?d = "snd (UpdateAdminCredentials (a_ID a) u h m (as_db s))"
      have "db_wf ?d" using keeps_update_admin api_okD(2) [OF ok] by (rule keepsD)
      moreover have d: "d_open ?d" "hostnames ?d = hostnames (as_db s)"
        "d_settings ?d = d_settings (as_db s)"
        "map a_ID (d_admins ?d) = map a_ID (d_admins (as_db s))"
        using api_okD(3) [OF ok]
        by (auto simp: UpdateAdminCredentials_def execM_def hostnames_def upd_where_def)
      moreover have "a_ID ` set (d_admins ?d) = a_ID ` set (d_admins (as_db s))"
        "length (d_admins ?d) = length (d_admins (as_db s))"
        "d_admins ?d = [] \<longleftrightarrow> d_admins (as_db s) = []"
        using d(4) by (metis list.set_map) (metis length_map d(4), metis map_is_Nil_conv d(4))
      ultimately show "api_ok (put_db ?d s)"
        using ok by (intro api_ok_db) (auto simp: api_ok_def front_ok_def accounts_ok_def)
    qed
  qed simp
  show ?thesis
    unfolding handleChangeCredentials_def
    by (rule keeps_triple)
       (rule triples upd | simp)+
qed

lemma keeps_handleSetDomain [keeps_intros]: "keeps api_ok (handleSetDomain E b)"
proof -
  have set: "triple api_ok (callDB err (SetSetting ''domain'' h))
      (\<lambda>_ s. api_ok (setDomain h s)) api_ok" for h err
  proof (rule triple_callDB)
    fix s e d
    assume "api_ok s" "SetSetting ''domain'' h (as_db s) = (Inl e, d)"
    then show "api_ok (put_db d s)"
      by (auto simp: SetSetting_def execM_def split: if_splits)
  next
    fix s x d
    assume ok: "api_ok s" and d: "SetSetting ''domain'' h (as_db s) = (Inr x, d)"
    have "db_wf d" using keepsD [OF keeps_settings(1) api_okD(2) [OF ok]] d by (metis snd_conv)
    moreover have "d = (as_db s)\<lparr>d_settings := (d_settings (as_db s))(''domain'' \<mapsto> h)\<rparr>"
      using d by (auto simp: SetSetting_def execM_def split: if_splits)
    ultimately show "api_ok (setDomain h (put_db d s))"
      using ok by (auto simp: api_ok_def server_ok_def counters_ok_def sessions_ok_def front_ok_def
          setDomain_def hostnames_def accounts_ok_def setupCodeSettingKey_def)
  qed
  have dom: "triple (\<lambda>s. api_ok (setDomain h s)) (modS (setDomain h)) (\<lambda>_. api_ok) api_ok" for h
    by (rule triple_modS)
  have cert: "triple api_ok (modS (if c then SetCertState [] [] else SetCertState ''pending'' []))
      (\<lambda>_. api_ok) api_ok" for c
    by (rule triple_modS) (auto simp: SetCertState_def api_ok_def front_ok_def)
  show ?thesis
    unfolding handleSetDomain_def by (rule keeps_triple) (rule triples set dom cert | simp)+
qed

lemma distinct_hosts_upd:
  assumes "distinct (map r_id ts)" and "distinct (filter (\<lambda>h. h \<noteq> []) (map r_public_hostname ts))"
    and "h \<noteq> [] \<Longrightarrow> \<forall>t \<in> set ts. r_public_hostname t = h \<longrightarrow> r_id t = x"
    and "\<And>t. r_public_hostname (f t) = h"
  shows "distinct (filter (\<lambda>h. h \<noteq> []) (map r_public_hostname (upd_where (\<lambda>t. r_id t = x) f ts)))"
  using assms
proof (induction ts)
  case (Cons t ts)
  have rest: "upd_where (\<lambda>t. r_id t = x) f ts = ts" if "r_id t = x"
    using Cons.prems(1) that by (intro upd_where_none) (auto simp: image_iff)
  have "h \<notin> r_public_hostname ` set ts" if x: "r_id t = x" and h: "h \<noteq> []"
  proof
    assume "h \<in> r_public_hostname ` set ts"
    then obtain u where u: "u \<in> set ts" "r_public_hostname u = h" by auto
    with Cons.prems(3) [OF h] have "r_id u = x" by simp
    with u(1) x Cons.prems(1) show False by (metis distinct.simps(2) image_eqI list.set_map list.simps(9))
  qed
  note new = this
  let ?ne = "filter (\<lambda>h. h \<noteq> [])"
  let ?upd = "upd_where (\<lambda>t. r_id t = x) f"
  show ?case
  proof (cases "r_id t = x")
    case True
    then have "?upd (t # ts) = f t # ts" using rest by (simp add: upd_where_def)
    with True new Cons.prems(2,4) show ?thesis by (auto split: if_splits)
  next
    case False
    have "?upd (t # ts) = t # ?upd ts" using False by (simp add: upd_where_def)
    moreover have "distinct (?ne (map r_public_hostname (?upd ts)))"
      using Cons.prems by (intro Cons.IH) (auto split: if_splits)
    moreover have "r_public_hostname t \<notin> r_public_hostname ` set (?upd ts)"
      if ne: "r_public_hostname t \<noteq> []"
    proof
      assume "r_public_hostname t \<in> r_public_hostname ` set (?upd ts)"
      then have "r_public_hostname t = h \<or> r_public_hostname t \<in> r_public_hostname ` set ts"
        using Cons.prems(4) by (auto simp: upd_where_def split: if_splits)
      moreover have "r_public_hostname t \<notin> r_public_hostname ` set ts"
        using Cons.prems(2) ne by simp
      ultimately have "r_public_hostname t = h" by simp
      with Cons.prems(3) ne False show False by simp
    qed
    ultimately show ?thesis by auto
  qed
qed (simp add: upd_where_def)

definition host_free :: "string \<Rightarrow> string \<Rightarrow> db \<Rightarrow> bool" where
  "host_free h x d \<longleftrightarrow> (h \<noteq> [] \<longrightarrow> (\<forall>t \<in> set (d_tunnels d). r_public_hostname t = h \<longrightarrow> r_id t = x))"

lemma triple_host_check [triples]:
  "triple api_ok
     (if h \<noteq> [] then bindM (tryDB (HostnameTaken h x)) (\<lambda>r.
              guardM (case r of Inr taken \<Rightarrow> taken | Inl _ \<Rightarrow> False) resp)
       else retM ())
     (\<lambda>_ s. api_ok s \<and> host_free h x (as_db s)) api_ok"
  by (auto simp: triple_def bindM_def tryDB_def HostnameTaken_def queryM_def guardM_def retM_def
      failM_def host_free_def count_where_def api_okD(3) filter_empty_conv)

lemma triple_settings [triples]:
  "triple (\<lambda>s. api_ok s \<and> host_free h x (as_db s))
     (callDB err (UpdateTunnelSettings x l h p)) (\<lambda>_. api_ok) api_ok"
proof -
  have upd: "api_ok (put_db (snd (UpdateTunnelSettings x l h p (as_db s))) s)"
    if ok: "api_ok s" and free: "host_free h x (as_db s)" for s
  proof -
    let ?d = "snd (UpdateTunnelSettings x l h p (as_db s))"
    let ?f = "\<lambda>t. t\<lparr>r_traffic_limit := l, r_public_hostname := h, r_proxy_protocol := p\<rparr>"
    have wf: "db_wf ?d" using keeps_tunnel_methods api_okD(2) [OF ok] by (blast intro: keepsD)
    have d: "?d = (as_db s)\<lparr>d_tunnels := upd_where (\<lambda>t. r_id t = x) ?f (d_tunnels (as_db s))\<rparr>"
      using api_okD(3) [OF ok]
      by (auto simp: UpdateTunnelSettings_def update_tunnels_def bindM_def execM_def requireRow_def
          failM_def retM_def)
    have "distinct (map r_id (d_tunnels (as_db s)))"
      using db_wfD(3) [OF api_okD(2) [OF ok]] by (rule tunnels_ok_ids)
    then have "distinct (hostnames ?d)"
      unfolding d hostnames_def
      using ok free distinct_hosts_upd [of "d_tunnels (as_db s)" h x ?f]
      by (auto simp: host_free_def api_ok_def hostnames_def)
    with wf show ?thesis
      using ok unfolding d by (intro api_ok_db) (auto simp: api_ok_def)
  qed
  show ?thesis
    by (rule triple_callDB) (metis upd snd_conv)+
qed

lemma keeps_handleUpdateTunnelSettings [keeps_intros]:
  "keeps api_ok (handleUpdateTunnelSettings E x b)"
proof -
  have get: "triple api_ok (callDB err (GetTunnelByID x)) (\<lambda>_. api_ok) api_ok" for err
    by (rule triple_keeps) (intro keeps_intros)
  show ?thesis
    unfolding handleUpdateTunnelSettings_def
    by (rule keeps_triple) (rule triples get | simp)+
qed

text \<open>The bootstrap: no admin, then no code either, then the one admin.\<close>

definition claimable :: "apiserver \<Rightarrow> bool" where
  "claimable s \<longleftrightarrow> api_ok s \<and> d_admins (as_db s) = []"

definition claimed :: "apiserver \<Rightarrow> bool" where
  "claimed s \<longleftrightarrow> claimable s \<and> d_settings (as_db s) setupCodeSettingKey = None"

lemma claim_weaken: "claimed s \<Longrightarrow> api_ok s" "claimable s \<Longrightarrow> api_ok s"
  by (simp_all add: claimed_def claimable_def)

lemma triple_has_admin:
  "triple api_ok (callDB err HasAdminUser) (\<lambda>b s. api_ok s \<and> (\<not> b \<longrightarrow> claimable s)) api_ok"
  by (rule triple_callDB) (auto simp: HasAdminUser_def queryM_def claimable_def split: if_splits)

lemma triple_no_admin:
  "triple (\<lambda>s. api_ok s \<and> (\<not> b \<longrightarrow> claimable s)) (guardM b r) (\<lambda>_. claimable) api_ok"
  by (rule triple_guard) auto

lemma triple_claim: "triple claimable (callDB err (ClaimSetupCode c)) (\<lambda>_. claimed) api_ok"
proof (rule triple_callDB)
  fix s e d
  assume "claimable s" and e: "ClaimSetupCode c (as_db s) = (Inl e, d)"
  then have "api_ok s" by (simp add: claimable_def)
  with e have "d = as_db s"
    by (auto simp: Claim_eq api_okD(3) split: option.splits if_splits)
  with \<open>api_ok s\<close> show "api_ok (put_db d s)" by simp
next
  fix s u d
  assume c: "claimable s" and r: "ClaimSetupCode c (as_db s) = (Inr u, d)"
  then have ok: "api_ok s" and d: "d = (as_db s)\<lparr>d_settings :=
      (d_settings (as_db s))(setupCodeSettingKey := None)\<rparr>"
    by (auto simp: claimable_def Claim_eq api_okD(3) split: option.splits if_splits)
  have "keeps db_wf (ClaimSetupCode c)" by (rule keeps_admin_methods)
  from keepsD [OF this api_okD(2) [OF ok]] r have "db_wf d" by simp
  with ok have "api_ok (put_db d s)"
    unfolding d by (intro api_ok_db) (auto simp: api_ok_def hostnames_def front_ok_def
        accounts_ok_def setupCodeSettingKey_def)
  with c show "claimed (put_db d s)" by (simp add: claimed_def claimable_def d)
qed

lemma triple_create_admin:
  "triple claimed (callDB err (CreateAdminUser i u h))
     (\<lambda>a s. api_ok s \<and> a \<in> set (d_admins (as_db s))) api_ok"
proof -
  have new: "CreateAdminUser i u h (as_db s) = (Inr \<lparr>a_ID = i, a_Username = u, a_PasswordHash = h,
        a_MustChangePassword = False\<rparr>, (as_db s)\<lparr>d_admins := [\<lparr>a_ID = i, a_Username = u,
        a_PasswordHash = h, a_MustChangePassword = False\<rparr>]\<rparr>)" if "claimed s" for s
    using that api_okD(3) [of s]
    by (simp add: claimed_def claimable_def CreateAdminUser_def insert_admin_def bindM_def
        execM_def retM_def Let_def)
  have wf: "db_wf (snd (CreateAdminUser i u h (as_db s)))" if "claimed s" for s
    using keeps_admin_methods(1) api_okD(2) [OF claim_weaken(1) [OF that]] by (rule keepsD)
  have "api_ok (put_db (snd (CreateAdminUser i u h (as_db s))) s)" if "claimed s" for s
    using that wf [OF that] new [OF that]
    by (intro api_ok_db) (auto simp: claimed_def claimable_def api_ok_def hostnames_def
        front_ok_def accounts_ok_def)
  then show ?thesis
    using new by (intro triple_callDB) fastforce+
qed

lemma keeps_handleBootstrapClaim [keeps_intros]: "keeps api_ok (handleBootstrapClaim E b)"
proof -
  have claimed_hook: "triple (\<lambda>s. api_ok s \<and> a \<in> set (d_admins (as_db s))) (modS (OnAdminClaimed E))
      (\<lambda>_ s. api_ok s \<and> a \<in> set (d_admins (as_db s))) api_ok" for a
    by (rule triple_modS) (auto simp: OnAdminClaimed_def api_ok_def front_ok_def)
  show ?thesis
    unfolding handleBootstrapClaim_def
    by (rule keeps_triple)
       (rule triple_has_admin triple_no_admin triple_claim triple_create_admin claimed_hook triples
          | simp add: claim_weaken)+
qed

text \<open>The factory reset: an emptied database, then an emptied server, then a new setup code.\<close>

definition wiped :: "apiserver \<Rightarrow> bool" where
  "wiped s \<longleftrightarrow> server_ok (as_ts s) \<and> d_open (as_db s) \<and> hostnames (as_db s) = []
     \<and> d_admins (as_db s) = [] \<and> d_settings (as_db s) = Map.empty \<and> as_Wired s"

lemma wiped_reset:
  "wiped s \<Longrightarrow> as_domain s = [] \<Longrightarrow> as_sessions s = Map.empty \<Longrightarrow> api_ok s"
  by (simp add: wiped_def api_ok_def front_ok_def accounts_ok_def)

lemma api_ok_ts:
  assumes "api_ok s" and "server_ok t" and "ts_db t = as_db s"
  shows "api_ok (s\<lparr>as_ts := t\<rparr>)"
  using assms by (simp add: api_ok_def front_ok_def)

lemma push_uninstalls_ok:
  "server_ok t \<Longrightarrow> server_ok (push_uninstalls E cs t) \<and> ts_db (push_uninstalls E cs t) = ts_db t"
proof (induction cs arbitrary: t)
  case (Cons c cs)
  have "server_ok (snd (PushUninstall (ev_wok E (c_ID c)) (c_ID c) t))"
    by (rule goroutine_ok [OF goroutine.uninstall Cons.prems])
  from Cons.IH [OF this] show ?case by simp
qed simp

lemma triple_reset: "triple api_ok (callDB err (FactoryReset now)) (\<lambda>_. wiped) api_ok"
proof (rule triple_callDB)
  fix s e d
  assume ok: "api_ok s" and "FactoryReset now (as_db s) = (Inl e, d)"
  then show "api_ok (put_db d s)" by (simp add: FactoryReset_eq api_okD)
next
  fix s u d
  assume ok: "api_ok s" and r: "FactoryReset now (as_db s) = (Inr u, d)"
  have "db_wf d" using keepsD [OF keeps_factory_reset api_okD(2) [OF ok]] r by (metis snd_conv)
  moreover have "d_open d" "hostnames d = []" "d_admins d = []" "d_settings d = Map.empty"
    using r by (auto simp: FactoryReset_eq [OF api_okD(2,3) [OF ok]] fresh_db_def hostnames_def)
  ultimately show "wiped (put_db d s)"
    using ok by (simp add: wiped_def api_ok_def front_ok_def server_ok_def counters_ok_def
        sessions_ok_def)
qed

lemma ensure_ok:
  assumes "db_wf d" and "d_open d" and "accounts_ok (d_admins d) (d_settings d)"
    and "writeSetupCode E (d, file) = (d', file')"
  shows "db_wf d'" "d_open d'" "d_admins d' = d_admins d" "hostnames d' = hostnames d"
    "d_settings d' ''domain'' = d_settings d ''domain''" "accounts_ok (d_admins d') (d_settings d')"
proof -
  have d': "d' = snd (EnsureSetupCode (ev_rand E 0) d)"
    using assms(4) by (auto simp: writeSetupCode_def split: prod.splits sum.splits if_splits)
  show "db_wf d'" unfolding d' using keeps_admin_methods(2) assms(1) by (rule keepsD)
  show "d_open d'" "d_admins d' = d_admins d" "hostnames d' = hostnames d"
    "d_settings d' ''domain'' = d_settings d ''domain''" "accounts_ok (d_admins d') (d_settings d')"
    unfolding d' using assms(2,3)
    by (auto simp: EnsureSetupCode_def HasAdminUser_def GetSetting_def queryM_def bindM_def
        retM_def tokM_def liftM_def SetSetting_def execM_def hostnames_def setupCodeSettingKey_def
        accounts_ok_def split: option.split sum.split)
qed

lemma api_ok_OnFactoryReset: "api_ok s \<Longrightarrow> api_ok (OnFactoryReset E s)"
proof -
  assume ok: "api_ok s"
  obtain d f where w: "writeSetupCode E (as_db s, as_setup_file s) = (d, f)" by fastforce
  note e = ensure_ok [OF api_okD(2,3,5) [OF ok] w]
  have "api_ok (put_db d s)"
    using ok e by (intro api_ok_db) (auto simp: api_ok_def front_ok_def)
  then have "api_ok ((put_db d s)\<lparr>as_setup_file := f\<rparr>)" by (simp add: api_ok_def front_ok_def)
  with ok w show ?thesis by (simp add: OnFactoryReset_def)
qed

lemma keeps_handleFactoryReset [keeps_intros]: "keeps api_ok (handleFactoryReset E b)"
proof -
  have list: "triple api_ok (callDB err ListClients) (\<lambda>_. api_ok) api_ok" for err
    by (rule triple_keeps) (intro keeps_intros)
  have push: "triple api_ok (tsM (\<lambda>t. ((), push_uninstalls E cs t))) (\<lambda>_. api_ok) api_ok" for cs
    by (rule triple_keeps, rule keeps_tsM)
       (auto intro: api_ok_ts simp: push_uninstalls_ok api_okD)
  have dom: "triple wiped (modS (setDomain [])) (\<lambda>_ s. wiped s \<and> as_domain s = []) api_ok"
    by (rule triple_modS) (simp add: wiped_def setDomain_def)
  have cert: "triple (\<lambda>s. wiped s \<and> as_domain s = []) (modS (SetCertState [] []))
      (\<lambda>_ s. wiped s \<and> as_domain s = []) api_ok"
    by (rule triple_modS) (simp add: wiped_def SetCertState_def)
  have clear: "triple (\<lambda>s. wiped s \<and> as_domain s = []) (modS clearAllSessions) (\<lambda>_. api_ok) api_ok"
    by (rule triple_modS) (rule wiped_reset; simp add: wiped_def clearAllSessions_def)
  have hook: "triple api_ok (modS (OnFactoryReset E)) (\<lambda>_. api_ok) api_ok"
    by (rule triple_modS) (rule api_ok_OnFactoryReset)
  show ?thesis
    unfolding handleFactoryReset_def
    by (rule keeps_triple) (rule list push triple_reset dom cert clear hook triples | simp)+
qed

section \<open>Every request keeps it\<close>

lemma sessionAdminID_state: "snd (sessionAdminID E q s) \<in> {s} \<union> (\<lambda>t. destroySession t s) ` UNIV"
  by (auto simp: sessionAdminID_def split: option.split)

lemma api_ok_sessionAdminID: "api_ok s \<Longrightarrow> api_ok (snd (sessionAdminID E q s))"
  using sessionAdminID_state [of E q s] api_ok_destroy by auto

lemma keeps_requireAuth [keeps_intros]:
  assumes "keeps api_ok m"
  shows "keeps api_ok (requireAuth E q m)"
proof (rule keepsI)
  fix s assume "api_ok s"
  then have "api_ok (snd (sessionAdminID E q s))" by (rule api_ok_sessionAdminID)
  with keepsD [OF keeps_finish [OF assms]] show "api_ok (snd (requireAuth E q m s))"
    by (auto simp: requireAuth_def split: prod.split option.split)
qed

lemma keeps_requireAuthOrAPIKey [keeps_intros]:
  assumes "keeps api_ok m"
  shows "keeps api_ok (requireAuthOrAPIKey E q m)"
proof (rule keepsI)
  fix s assume "api_ok s"
  then have ok: "api_ok (snd (sessionAdminID E q s))" by (rule api_ok_sessionAdminID)
  have "api_ok (put_db (snd (UpdateAPIKeyLastUsed n k (as_db t))) t)" if "api_ok t" for n k t
    using keeps_api_keys quiet_client_prims(8) that by (intro api_ok_call)
  with ok keepsD [OF keeps_finish [OF assms]] show "api_ok (snd (requireAuthOrAPIKey E q m s))"
    by (auto simp: requireAuthOrAPIKey_def split: prod.split option.split)
qed

lemma keeps_mux: "keeps api_ok (mux E q e)"
  by (cases e) (auto intro!: keeps_finish keeps_intros)

lemma Router_ok: "api_ok s \<Longrightarrow> api_ok (snd (Router E q e s))"
  using keepsD [OF keeps_mux, of s E q e]
  by (cases "mux E q e s") (simp add: Router_def withCORS_def Let_def)

lemma runServer_ok:
  assumes "db_wf d" and "d_open d" and "distinct (hostnames d)"
    and "accounts_ok (d_admins d) (d_settings d)"
  shows "api_ok (runServer E cfg d file)"
proof -
  obtain d' f where w: "writeSetupCode E (d, file) = (d', f)" by fastforce
  note e = ensure_ok [OF assms(1,2,4) w]
  have "server_ok (NewServer d')"
    using NewServer_ok [of d'] e(1)
    by (simp add: server_ok_def NewServer_def listeners_ok_def counters_ok_def mark_ok_def)
  moreover have "as_domain (NewApiServer (NewServer d'))
      = (case d_settings d' ''domain'' of None \<Rightarrow> [] | Some x \<Rightarrow> x)"
    using e(2) by (simp add: NewApiServer_def GetSetting_def queryM_def NewServer_def
        split: option.split)
  ultimately show ?thesis
    using w e assms(3)
    by (simp add: runServer_def Let_def api_ok_def front_ok_def NewApiServer_def NewServer_def)
qed

lemma api_step_ok:
  assumes "api_step sha s s'" and "api_ok s"
  shows "api_ok s'"
  using assms(1)
proof cases
  case (request E q e)
  with assms(2) show ?thesis by (simp add: Router_ok)
next
  case (tunnels t)
  have "server_ok t" using goroutine_ok [OF tunnels(2) api_okD(1) [OF assms(2)]] .
  moreover have "quiet (d_admins (as_db s)) (d_settings (as_db s)) (ts_db t)"
    using tunnels(2) api_okD(4) [OF assms(2)] by (rule goroutine_quiet)
  ultimately show ?thesis
    using tunnels assms(2) by (simp add: api_ok_def quiet_def front_ok_def)
next
  case (cert st err)
  with assms(2) show ?thesis by (simp add: SetCertState_def api_ok_def front_ok_def)
next
  case (check status)
  with assms(2) show ?thesis by (simp add: api_ok_host)
next
  case (files h)
  with assms(2) show ?thesis by (simp add: api_ok_host)
next
  case (restart E cfg)
  have "distinct (hostnames (as_db s))" using assms(2) by (simp add: api_ok_def)
  with restart(1) show ?thesis
    using runServer_ok [OF api_okD(2,3) [OF assms(2)] _ api_okD(5) [OF assms(2)]] by simp
qed

lemma api_reach_ok: "api_reach sha s \<Longrightarrow> api_ok s"
proof (induction rule: api_reach.induct)
  case (install E cfg)
  show ?case
    by (rule runServer_ok [OF db_wf_fresh]) (simp_all add: fresh_db_def hostnames_def accounts_ok_def)
qed (rule api_step_ok)

lemma hostnames_unique:
  assumes "distinct (hostnames d)" and "t \<in> set (d_tunnels d)" and "u \<in> set (d_tunnels d)"
    and "r_public_hostname t \<noteq> []" and "r_public_hostname u = r_public_hostname t"
  shows "u = t"
proof -
  have "u = t" if "distinct (filter (\<lambda>h. h \<noteq> []) (map r_public_hostname ts))"
      "t \<in> set ts" "u \<in> set ts" for ts
    using that assms(4,5) by (induction ts) (auto simp: image_iff split: if_splits)
  with assms(1-3) show ?thesis by (simp add: hostnames_def)
qed

section \<open>A concrete run\<close>

text \<open>Digest, comparison and hashing are the identity; codes and tokens come from fixed bytes.\<close>

definition example_env :: env where
  "example_env = \<lparr>ev_sha = id, ev_compare = (=), ev_generate = Some, ev_lower = id, ev_now = 100,
     ev_uuid = (\<lambda>n. ''u'' @ dec_nat n), ev_rand = (\<lambda>n. Some [word_of_nat n, 1, 2]),
     ev_ports = (\<lambda>_ _. True), ev_wok = (\<lambda>_. True), ev_file = True,
     ev_os = \<lparr>os_mkdir = True, os_write = (\<lambda>_. Written), os_remove = (\<lambda>_. True), os_ctl = (\<lambda>_. True), os_start = True\<rparr>,
     ev_rfc3339 = dec_int, ev_github = None, ev_unsha = (\<lambda>_. None), ev_unprogress = (\<lambda>_. no_progress),
     ev_ws = None\<rparr>"

definition example_cfg :: apiserver where
  "example_cfg = (NewApiServer (NewServer fresh_db))\<lparr>as_AdvertiseHost := ''198.51.100.7'',
     as_ControlPort := 7443, as_PublicHTTPPort := 80, as_PublicHTTPSPort := 443\<rparr>"

definition example_installed :: apiserver where
  "example_installed = runServer example_env example_cfg fresh_db None"

definition example_request :: request where
  "example_request = \<lparr>hq_Options = False, hq_Origin = [], hq_Authorization = [],
     hq_UserAgent = ''curl/8.5.0'', hq_Cookie = None\<rparr>"

definition example_claim :: bootstrapClaimRequest where
  "example_claim = \<lparr>bq_SetupCode = ''ABC'', bq_Username = ''admin'', bq_Password = ''password''\<rparr>"

lemma example_installed_db:
  "as_db example_installed = fresh_db\<lparr>d_settings := [setupCodeSettingKey \<mapsto> ''ABC'']\<rparr>"
  "as_setup_file example_installed = Some (''ABC'' @ [CHR 0x0A])"
  "as_Wired example_installed" "as_sessions example_installed = Map.empty"
  "as_domain example_installed = []"
  by (simp_all add: example_installed_def runServer_def writeSetupCode_def EnsureSetupCode_def
      HasAdminUser_def GetSetting_def SetSetting_def queryM_def execM_def bindM_def retM_def
      tokM_def liftM_def randomCode_def example_env_def example_cfg_def fresh_db_def code_char_def
      enrollCodeAlphabet_def setupCodeSettingKey_def NewApiServer_def NewServer_def Let_def)

lemma example_installed_reach: "api_reach id example_installed"
  unfolding example_installed_def by (rule api_reach.install) (simp add: example_env_def)

section \<open>Property\<close>

text \<open>
  C1. The program's invariant between requests. In every state the server program reaches from a
  fresh install, when API requests (with any bodies, cookies and keys) are handled one after another,
  in any order with steps of the tunnel server's goroutines, certificate reports and restarts: there
  is at most one admin account; once it exists no setup code is left; no two tunnels share a public
  hostname; the domain the certificate policy consults is the stored one; every session belongs to the
  existing admin; and the database and the tunnel server satisfy their own invariants. The handlers
  check before they write, so the rules on accounts and hostnames are not kept by requests whose
  database calls overlap: theory \<open>ApiRaces\<close> has both counterexamples. The invariants of the database
  and of the tunnel server are proved call by call, in whatever order requests make the calls.
\<close>

theorem api_invariant:
  assumes "api_reach sha s"
  shows "length (d_admins (as_db s)) \<le> 1
    \<and> (d_admins (as_db s) \<noteq> [] \<longrightarrow> d_settings (as_db s) setupCodeSettingKey = None)
    \<and> (\<forall>t \<in> set (d_tunnels (as_db s)). \<forall>u \<in> set (d_tunnels (as_db s)).
         r_public_hostname t \<noteq> [] \<longrightarrow> r_public_hostname t = r_public_hostname u \<longrightarrow> t = u)
    \<and> (\<forall>h. HostPolicy s h \<longrightarrow> d_settings (as_db s) ''domain'' = Some h)
    \<and> (\<forall>token info. as_sessions s token = Some info
         \<longrightarrow> (\<exists>a. d_admins (as_db s) = [a] \<and> si_adminID info = a_ID a))
    \<and> server_ok (as_ts s)"
proof -
  have ok: "api_ok s" using assms by (rule api_reach_ok)
  then have A: "length (d_admins (as_db s)) \<le> 1"
    and code: "d_admins (as_db s) \<noteq> [] \<longrightarrow> d_settings (as_db s) setupCodeSettingKey = None"
    and dom: "as_domain s = (case d_settings (as_db s) ''domain'' of None \<Rightarrow> [] | Some d \<Rightarrow> d)"
    and sess: "\<And>token info. as_sessions s token = Some info
        \<Longrightarrow> si_adminID info \<in> a_ID ` set (d_admins (as_db s))"
    and hosts: "distinct (hostnames (as_db s))" and srv: "server_ok (as_ts s)"
    by (auto simp: api_ok_def front_ok_def accounts_ok_def)
  have "\<exists>a. d_admins (as_db s) = [a] \<and> si_adminID info = a_ID a"
    if "as_sessions s token = Some info" for token info
    using sess [OF that] A by (cases "d_admins (as_db s)") auto
  moreover have "d_settings (as_db s) ''domain'' = Some h" if "HostPolicy s h" for h
    using dom that by (auto simp: HostPolicy_def split: option.splits)
  moreover have "t = u" if "t \<in> set (d_tunnels (as_db s))" "u \<in> set (d_tunnels (as_db s))"
      "r_public_hostname t \<noteq> []" "r_public_hostname t = r_public_hostname u" for t u
    using hostnames_unique [OF hosts that(2,1)] that(3,4) by simp
  ultimately show ?thesis using A code srv by blast
qed

theorem api_invariant_witness:
  "length (d_admins (as_db (snd (Router example_env example_request
      (PostBootstrapClaim (Some example_claim)) example_installed)))) \<le> 1"
proof -
  have "ev_sha example_env = id" by (simp add: example_env_def)
  then have "api_reach id (snd (Router example_env example_request
      (PostBootstrapClaim (Some example_claim)) example_installed))"
    by (rule api_reach.step [OF example_installed_reach api_step.request])
  from api_invariant [OF this] show ?thesis by blast
qed

end
