(* ===== verification/UpdateProps.thy ===== *)
theory UpdateProps
imports SelfUpdate ApiInvariant
begin

text \<open>
  The self-update against the server that serves it, and against any server: what a check leaves
  on the machine.
\<close>

section \<open>One check leaves the old program or a verified one\<close>

lemma remove_temp_simps:
  "mc_exe (remove_temp U p m) = mc_exe m" "mc_enabled (remove_temp U p m) = mc_enabled m"
  "mc_active (remove_temp U p m) = mc_active m"
  "q \<noteq> p \<Longrightarrow> mc_files (remove_temp U p m) q = mc_files m q"
  "os_remove U p \<Longrightarrow> mc_files (remove_temp U p m) = (mc_files m)(p := None)"
  by (simp_all add: remove_temp_def RemoveFile_def os.truncate_def)

text \<open>Except for the temporary file, a download changes nothing; one that fails removes that file.\<close>

lemma downloadBinary_effect:
  assumes "downloadBinary sha U get apiBase osArch want m = (r, m1)"
  shows "mc_exe m1 = mc_exe m" and "up_temp U \<noteq> Some p \<Longrightarrow> mc_files m1 p = mc_files m p"
    and "r = Inr tmp \<Longrightarrow> up_temp U = Some tmp \<and> (\<exists>content. mc_files m1 tmp = Some content
      \<and> hex_encode (sha content) = want)"
    and "r = Inl e \<Longrightarrow> os_remove U = (\<lambda>_. True) \<Longrightarrow> up_temp U = Some tmp \<Longrightarrow> mc_files m tmp = None \<Longrightarrow> mc_files m1 tmp = None"
  using assms
  by (auto simp: downloadBinary_def Let_def remove_temp_simps split: option.splits if_splits)

text \<open>Where the programs of a check may be, and what is asked of temporary files: fresh names.\<close>

definition check_ok :: "string \<Rightarrow> string \<Rightarrow> string set \<Rightarrow> update_os \<Rightarrow> bool" where
  "check_ok link exe F U \<longleftrightarrow> (\<forall>e. up_resolve U link = Some e \<longrightarrow> e = exe) \<and> (\<forall>tmp\<in>F. up_temp U \<noteq> Some tmp)"

lemma check_cases:
  assumes "checkAndApplyUpdate sha U getSum getBin apiBase osArch m = (r, m1)"
    and "mc_exe m = Some link" and "check_ok link exe F U"
  obtains (Same) "m1 = m"
  | (Refused) want e where "downloadBinary sha U getBin apiBase osArch want m = (Inl e, m1)"
  | (Kept) want tmp m2 where "downloadBinary sha U getBin apiBase osArch want m = (Inr tmp, m2)"
      "m1 = remove_temp U tmp m2"
  | (Replaced) want tmp m2 where "fetchChecksum getSum apiBase osArch = Inr want"
      "downloadBinary sha U getBin apiBase osArch want m = (Inr tmp, m2)" "m1 = rename_file tmp exe m2"
  using assms
  by (auto simp: checkAndApplyUpdate_def check_ok_def Let_def
      split: sum.splits option.splits if_splits prod.splits Option.bind_splits)

lemma check_effect:
  assumes "checkAndApplyUpdate sha U getSum getBin apiBase osArch m = (r, m1)"
    and "mc_exe m = Some link" and "check_ok link exe F U" and "exe \<in> F"
  shows "mc_exe m1 = mc_exe m" and "p \<in> F \<Longrightarrow> p \<noteq> exe \<Longrightarrow> mc_files m1 p = mc_files m p"
    and "mc_files m1 exe = mc_files m exe \<or> (\<exists>want content. fetchChecksum getSum apiBase osArch = Inr want
      \<and> mc_files m1 exe = Some content \<and> hex_encode (sha content) = want)"
    and "os_remove U = (\<lambda>_. True) \<Longrightarrow> dom (mc_files m) = F \<Longrightarrow> dom (mc_files m1) = F"
proof -
  have F: "p \<in> F \<Longrightarrow> up_temp U \<noteq> Some p" for p using assms(3) by (auto simp: check_ok_def)
  have "mc_exe m1 = mc_exe m \<and> (\<forall>p\<in>F. p \<noteq> exe \<longrightarrow> mc_files m1 p = mc_files m p)
    \<and> (mc_files m1 exe = mc_files m exe \<or> (\<exists>want content. fetchChecksum getSum apiBase osArch = Inr want
      \<and> mc_files m1 exe = Some content \<and> hex_encode (sha content) = want))
    \<and> (os_remove U = (\<lambda>_. True) \<longrightarrow> dom (mc_files m) = F \<longrightarrow> dom (mc_files m1) = F)"
    using assms(1-3)
  proof (cases rule: check_cases)
    case (Refused want e)
    note d = downloadBinary_effect [OF Refused]
    have "dom (mc_files m1) = F" if "os_remove U = (\<lambda>_. True)" "dom (mc_files m) = F"
    proof -
      have "mc_files m1 p = mc_files m p" for p
        using d(2) [of p] d(4) [OF refl that(1), of p] F [of p] that(2) by (cases "mc_files m p") (auto simp: dom_def)
      with that(2) show ?thesis by (simp add: dom_def)
    qed
    with d(1,2) F assms(4) show ?thesis by auto
  next
    case (Kept want tmp m2)
    note d = downloadBinary_effect [OF Kept(1)]
    have t: "up_temp U = Some tmp" using d(3) by blast
    have "dom (mc_files m1) = F" if "os_remove U = (\<lambda>_. True)" "dom (mc_files m) = F"
    proof -
      have "mc_files m1 p = mc_files m p" for p
        using d(2) [of p] t F [of tmp] that
        by (cases "p = tmp"; cases "mc_files m tmp") (auto simp: Kept(2) remove_temp_simps dom_def)
      with that(2) show ?thesis by (simp add: dom_def)
    qed
    moreover have "mc_files m1 p = mc_files m p" if "p \<in> F" for p
      using d(2) [of p] t F [OF that] by (auto simp: Kept(2) remove_temp_simps)
    ultimately show ?thesis using d(1) assms(4) Kept(2) by (simp add: remove_temp_simps)
  next
    case (Replaced want tmp m2)
    note d = downloadBinary_effect [OF Replaced(2)]
    obtain content where t: "up_temp U = Some tmp" "mc_files m2 tmp = Some content" "hex_encode (sha content) = want"
      using d(3) by blast
    then have tmp: "tmp \<notin> F" using F by blast
    then have "exe \<noteq> tmp" using assms(4) by auto
    have "dom (mc_files m1) = F" if "dom (mc_files m) = F"
    proof -
      have "mc_files m1 p = None \<longleftrightarrow> mc_files m p = None" for p
        using d(2) [of p] t tmp assms(4) that \<open>exe \<noteq> tmp\<close> by (auto simp: Replaced(3) rename_file_def dom_def)
      with that show ?thesis by (auto simp: dom_def)
    qed
    with d(1,2) F t tmp assms(4) Replaced \<open>exe \<noteq> tmp\<close> show ?thesis by (auto simp: rename_file_def)
  qed auto
  then show "mc_exe m1 = mc_exe m" and "p \<in> F \<Longrightarrow> p \<noteq> exe \<Longrightarrow> mc_files m1 p = mc_files m p"
    and "mc_files m1 exe = mc_files m exe \<or> (\<exists>want content. fetchChecksum getSum apiBase osArch = Inr want
      \<and> mc_files m1 exe = Some content \<and> hex_encode (sha content) = want)"
    and "os_remove U = (\<lambda>_. True) \<Longrightarrow> dom (mc_files m) = F \<Longrightarrow> dom (mc_files m1) = F"
    by auto
qed

section \<open>Updating from the API server\<close>

text \<open>The routes of the downloads, as the answers to the client's two requests.\<close>

fun http_of :: "response \<Rightarrow> http_reply" where
  "http_of (Reply status b c) =
     Some (status, case b of FileBody bin \<Rightarrow> bin | TextBody t \<Rightarrow> bytes_of t | _ \<Rightarrow> [], True)"
| "http_of Panicked = None"

definition served :: "env \<Rightarrow> request \<Rightarrow> apiserver \<Rightarrow> string \<Rightarrow> string \<Rightarrow> string \<Rightarrow> http_reply" where
  "served E q s base osArch url =
     (if url = base @ ''/downloads/'' @ osArch @ ''/sha256''
      then http_of (snd (fst (Router E q (GetDownloadChecksum osArch) s)))
      else if url = base @ ''/downloads/'' @ osArch
      then http_of (snd (fst (Router E q (GetDownload osArch) s)))
      else None)"

lemma served_reply:
  assumes "\<not> hq_Options q"
  shows "served E q s base osArch (base @ ''/downloads/'' @ osArch @ ''/sha256'') =
      (case as_ClientBinarySHA256 s osArch of None \<Rightarrow> Some (404, [], True)
       | Some digest \<Rightarrow> Some (200, bytes_of (digest @ [CHR 0x0A]), True))"
    and "served E q s base osArch (base @ ''/downloads/'' @ osArch) =
      (case as_ClientBinaries s osArch of None \<Rightarrow> Some (404, [], True) | Some bin \<Rightarrow> Some (200, bin, True))"
  using assms
  by (simp_all add: served_def Router_def withCORS_def finish_def handleDownloadClientChecksum_def
      handleDownloadClient_def getS_def writeError_def writeJSON_def split: option.split)

text \<open>The trailing newline of a checksum file is trimmed, and nothing else.\<close>

lemma strip_front_step:
  assumes "find (\<lambda>w. w \<noteq> [] \<and> HasPrefix s w) ws = Some w"
  shows "strip_front ws s = strip_front ws (drop (length w) s)"
  using assms by (subst strip_front.simps) simp

lemma newline_char: "CHR 0x0A = char_of (10::nat)"
  by code_simp

lemma newline_space:
  "w \<in> set (map rev space_seqs) \<Longrightarrow> w \<noteq> [] \<Longrightarrow> hd w = CHR 0x0A \<Longrightarrow> w = [CHR 0x0A]"
  "[CHR 0x0A] \<in> set (map rev space_seqs)"
  by (auto simp: space_seqs_def char_of_eq_iff upt_rec) (simp_all add: newline_char)

lemma TrimSpace_line:
  assumes "s \<noteq> []" and "visible (hd s)" and "visible (last s)"
  shows "TrimSpace (s @ [CHR 0x0A]) = s"
proof -
  have nl: "CHR 0x0A # rev s = rev (s @ [CHR 0x0A])" by simp
  have "strip_front space_seqs (s @ [CHR 0x0A]) = s @ [CHR 0x0A]"
  proof (rule strip_front_id)
    fix w assume "w \<in> set space_seqs"
    from space_not_visible [OF this] show "\<not> HasPrefix (s @ [CHR 0x0A]) w"
      using assms HasPrefix_hd [of "s @ [CHR 0x0A]" w] by auto
  qed
  moreover have "strip_front (map rev space_seqs) (rev s) = rev s"
  proof (rule strip_front_id)
    fix w assume "w \<in> set (map rev space_seqs)"
    then obtain v where v: "v \<in> set space_seqs" "w = rev v" by auto
    from space_not_visible [OF v(1)] show "\<not> HasPrefix (rev s) w"
      using assms HasPrefix_hd [of "rev s" w] by (auto simp: v(2) hd_rev)
  qed
  moreover have "strip_front (map rev space_seqs) (CHR 0x0A # rev s) = strip_front (map rev space_seqs) (rev s)"
  proof (cases "find (\<lambda>w. w \<noteq> [] \<and> HasPrefix (CHR 0x0A # rev s) w) (map rev space_seqs)")
    case None
    then have "\<not> HasPrefix (CHR 0x0A # rev s) [CHR 0x0A]"
      unfolding find_None_all using newline_space(2) by blast
    then show ?thesis by (simp add: HasPrefix_def)
  next
    case (Some w)
    then have w: "w \<in> set (map rev space_seqs)" "w \<noteq> []" "HasPrefix (CHR 0x0A # rev s) w"
      by (auto dest: find_Some_in)
    have "w = [CHR 0x0A]"
      by (rule newline_space(1) [OF w(1,2)]) (use HasPrefix_hd [OF w(3,2)] in simp)
    with strip_front_step [OF Some] show ?thesis by simp
  qed
  ultimately show ?thesis by (simp add: TrimSpace_def)
qed

lemma hex_visible: "is_hex c \<Longrightarrow> visible c"
  by (auto simp: is_hex_def visible_def)

lemma TrimSpace_hex_line: "bs \<noteq> [] \<Longrightarrow> TrimSpace (hex_encode bs @ [CHR 0x0A]) = hex_encode bs"
proof -
  assume "bs \<noteq> []"
  then have h: "hex_encode bs \<noteq> []" by (cases bs) simp_all
  show ?thesis
    by (rule TrimSpace_line) (use h hex_encode_hex [of bs] in \<open>auto simp: list_all_iff hex_visible\<close>)
qed

lemma fetchChecksum_served:
  assumes "\<not> hq_Options q" and "TrimRight apiBase (CHR ''/'') = base"
    and "as_ClientBinarySHA256 s osArch = Some (hex_encode d)" and "length d = 32"
  shows "fetchChecksum (served E q s base osArch) apiBase osArch = Inr (hex_encode d)"
proof -
  have "d \<noteq> []" using assms(4) by auto
  then show ?thesis
    using served_reply(1) [OF assms(1), of E s base osArch] assms
    by (simp add: fetchChecksum_def read_limited_def TrimSpace_hex_line)
qed

definition update_granted :: "update_os \<Rightarrow> string \<Rightarrow> string \<Rightarrow> machine \<Rightarrow> bool" where
  "update_granted U link exe m \<longleftrightarrow> up_resolve U link = Some exe \<and> up_read U
     \<and> (\<exists>tmp. up_temp U = Some tmp \<and> mc_files m tmp = None) \<and> up_short U = None \<and> up_close U
     \<and> up_chmod U \<and> up_rename U \<and> up_exec U"

lemma check_served:
  assumes "as_ClientBinarySHA256 s = ChecksumClientBinaries sha (as_ClientBinaries s)"
    and "as_ClientBinaries s osArch = Some bin" and "\<And>x. length (sha x) = 32" and "\<not> hq_Options q"
    and "TrimRight apiBase (CHR ''/'') = base" and "get = served E q s base osArch"
    and "mc_exe m = Some link" and "mc_files m exe = Some cur" and "up_resolve U link = Some exe" and "up_read U"
  shows "sha cur = sha bin \<Longrightarrow> checkAndApplyUpdate sha U get get apiBase osArch m = (UpToDate, m)"
    and "sha cur \<noteq> sha bin \<Longrightarrow> update_granted U link exe m \<Longrightarrow> checkAndApplyUpdate sha U get get apiBase osArch m
      = (Restarted, m\<lparr>mc_files := (mc_files m)(exe \<mapsto> bin)\<rparr>)"
proof -
  have "as_ClientBinarySHA256 s osArch = Some (hex_encode (sha bin))"
    by (simp add: assms(1,2) ChecksumClientBinaries_def)
  note fetch = fetchChecksum_served [OF assms(4,5) this assms(3), of E, folded assms(6)]
  show "checkAndApplyUpdate sha U get get apiBase osArch m = (UpToDate, m)" if "sha cur = sha bin"
    using that assms(7-10) by (simp add: checkAndApplyUpdate_def fetch sha256File_def)
  assume ne: "sha cur \<noteq> sha bin" and "update_granted U link exe m"
  then obtain tmp where U: "up_temp U = Some tmp" "mc_files m tmp = None" "up_short U = None" "up_close U"
      "up_chmod U" "up_rename U" "up_exec U"
    by (auto simp: update_granted_def)
  then have "tmp \<noteq> exe" using assms(8) by auto
  then have "(mc_files m)(tmp \<mapsto> bin, exe \<mapsto> bin, tmp := None) = (mc_files m)(exe \<mapsto> bin)"
    using U(2) by (auto simp: fun_eq_iff)
  moreover have "downloadBinary sha U get apiBase osArch (hex_encode (sha bin)) m
      = (Inr tmp, m\<lparr>mc_files := (mc_files m)(tmp \<mapsto> bin)\<rparr>)"
    using U served_reply(2) [OF assms(4), of E s base osArch] assms(2,5,6) by (simp add: downloadBinary_def Let_def)
  ultimately show "checkAndApplyUpdate sha U get get apiBase osArch m
      = (Restarted, m\<lparr>mc_files := (mc_files m)(exe \<mapsto> bin)\<rparr>)"
    using ne U \<open>tmp \<noteq> exe\<close> assms(7-10)
    by (simp add: checkAndApplyUpdate_def fetch sha256File_def hex_encode_inject rename_file_def Let_def)
qed

section \<open>Properties\<close>

text \<open>
  C36. An update never installs anything but a verified program. Whatever the answers to the
  requests of the update loop and whatever fails on the machine, the program is afterwards the one
  that was running or one whose SHA-256 is a checksum that the server announced in one of the
  checks; every other file there was is as it was; and no temporary file remains if files can be removed. (The
  names of temporary files are new, as \<open>os.CreateTemp\<close> promises.)
\<close>

theorem self_update_verified:
  assumes "runSelfUpdateLoop sha apiBase osArch ts m = (r, m')"
    and "mc_exe m = Some link" and "exe \<in> dom (mc_files m)"
    and "\<And>U getSum getBin. TimerFired U getSum getBin \<in> set ts \<Longrightarrow> check_ok link exe (dom (mc_files m)) U"
  shows "(mc_files m' exe = mc_files m exe
      \<or> (\<exists>U getSum getBin want content. TimerFired U getSum getBin \<in> set ts
          \<and> fetchChecksum getSum apiBase osArch = Inr want
          \<and> mc_files m' exe = Some content \<and> hex_encode (sha content) = want))
    \<and> (\<forall>p\<in>dom (mc_files m). p \<noteq> exe \<longrightarrow> mc_files m' p = mc_files m p)
    \<and> ((\<forall>U getSum getBin. TimerFired U getSum getBin \<in> set ts \<longrightarrow> os_remove U = (\<lambda>_. True))
        \<longrightarrow> dom (mc_files m') = dom (mc_files m))"
proof -
  let ?F = "dom (mc_files m)"
  define good :: "tick set \<Rightarrow> machine \<Rightarrow> bool" where "good T n \<longleftrightarrow> mc_exe n = Some link
    \<and> (mc_files n exe = mc_files m exe
      \<or> (\<exists>U getSum getBin want content. TimerFired U getSum getBin \<in> T
          \<and> fetchChecksum getSum apiBase osArch = Inr want
          \<and> mc_files n exe = Some content \<and> hex_encode (sha content) = want))
    \<and> (\<forall>p\<in>?F. p \<noteq> exe \<longrightarrow> mc_files n p = mc_files m p)
    \<and> ((\<forall>U getSum getBin. TimerFired U getSum getBin \<in> T \<longrightarrow> os_remove U = (\<lambda>_. True)) \<longrightarrow> dom (mc_files n) = ?F)"
    for T n
  have step: "good T n1"
    if "good T n" "TimerFired U getSum getBin \<in> T" "T \<subseteq> set ts"
      "checkAndApplyUpdate sha U getSum getBin apiBase osArch n = (x, n1)" for T n U getSum getBin x n1
  proof -
    have "mc_exe n = Some link" "check_ok link exe ?F U" using that assms(4) by (auto simp: good_def)
    note e = check_effect [OF that(4) this assms(3)]
    have p: "mc_exe n1 = mc_exe n" "\<forall>p\<in>?F. p \<noteq> exe \<longrightarrow> mc_files n1 p = mc_files n p"
      "os_remove U = (\<lambda>_. True) \<longrightarrow> dom (mc_files n) = ?F \<longrightarrow> dom (mc_files n1) = ?F"
      using e(1,2,4) by auto
    from e(3) that(2) have "mc_files n1 exe = mc_files n exe
        \<or> (\<exists>U getSum getBin want content. TimerFired U getSum getBin \<in> T
          \<and> fetchChecksum getSum apiBase osArch = Inr want
          \<and> mc_files n1 exe = Some content \<and> hex_encode (sha content) = want)"
      by blast
    with that(1,2) p show ?thesis unfolding good_def by (elim conjE disjE) (simp_all, blast+)
  qed
  have loop: "good (set ts) n \<Longrightarrow> set us \<subseteq> set ts \<Longrightarrow> good (set ts) (snd (updateTicks sha apiBase osArch us n))" for us n
  proof (induction us arbitrary: n)
    case (Cons u us)
    show ?case
    proof (cases u)
      case (TimerFired U getSum getBin)
      obtain x n1 where c: "checkAndApplyUpdate sha U getSum getBin apiBase osArch n = (x, n1)" by fastforce
      have "good (set ts) n1" by (rule step [OF Cons.prems(1) _ subset_refl c]) (use TimerFired Cons.prems(2) in auto)
      with Cons.IH [of n1] Cons.prems(2) TimerFired c show ?thesis by (cases x) auto
    qed (use Cons.prems in simp)
  qed simp
  have "good (set ts) m" using assms(2) by (simp add: good_def)
  with loop [of m ts] assms(1) have "good (set ts) m'"
    by (auto simp: runSelfUpdateLoop_def split: if_splits)
  then show ?thesis by (simp add: good_def)
qed

text \<open>
  C37. Updates converge and stop. Against a server with a binary for the machine's platform, a check
  of a client that runs another program, with every step granted, replaces it by exactly the
  server's binary, leaving all other files alone, and restarts into it; a client whose program has
  the hash of the server's binary does nothing; so that after one update any number of further
  checks download nothing and restart nothing.
\<close>

theorem self_update_converges:
  assumes "as_ClientBinarySHA256 s = ChecksumClientBinaries sha (as_ClientBinaries s)"
    and "as_ClientBinaries s osArch = Some bin" and "\<And>x. length (sha x) = 32" and "\<not> hq_Options q"
    and "apiBase \<noteq> []" and "get = served E q s (TrimRight apiBase (CHR ''/'')) osArch"
    and "mc_exe m = Some link" and "mc_files m exe = Some cur" and "update_granted U link exe m"
  shows "runSelfUpdateLoop sha apiBase osArch (TimerFired U get get # ts) m
      = (if sha cur = sha bin then runSelfUpdateLoop sha apiBase osArch ts m
         else (Some True, m\<lparr>mc_files := (mc_files m)(exe \<mapsto> bin)\<rparr>))
    \<and> runSelfUpdateLoop sha apiBase osArch (replicate n (TimerFired U get get)) (m\<lparr>mc_files := (mc_files m)(exe \<mapsto> bin)\<rparr>)
      = (None, m\<lparr>mc_files := (mc_files m)(exe \<mapsto> bin)\<rparr>)"
proof
  have U: "up_resolve U link = Some exe" "up_read U" using assms(9) by (auto simp: update_granted_def)
  note check = check_served [OF assms(1-4) refl assms(6) _ _ U]
  show "runSelfUpdateLoop sha apiBase osArch (TimerFired U get get # ts) m
      = (if sha cur = sha bin then runSelfUpdateLoop sha apiBase osArch ts m
         else (Some True, m\<lparr>mc_files := (mc_files m)(exe \<mapsto> bin)\<rparr>))"
    using check [OF assms(7,8)] assms(5,9) by (simp add: runSelfUpdateLoop_def)
  show "runSelfUpdateLoop sha apiBase osArch (replicate n (TimerFired U get get)) (m\<lparr>mc_files := (mc_files m)(exe \<mapsto> bin)\<rparr>)
      = (None, m\<lparr>mc_files := (mc_files m)(exe \<mapsto> bin)\<rparr>)"
    using check(1) [of "m\<lparr>mc_files := (mc_files m)(exe \<mapsto> bin)\<rparr>" bin] assms(5,7)
    by (induction n) (simp_all add: runSelfUpdateLoop_def)
qed

section \<open>Witnesses\<close>

definition ex_digest :: "byte list \<Rightarrow> byte list" where
  "ex_digest bs = replicate 32 (if bs = [1] then 1 else 0)"

definition ex_upd_os :: update_os where
  "ex_upd_os = \<lparr>os_mkdir = True, os_write = (\<lambda>_. Written), os_remove = (\<lambda>_. True), os_ctl = (\<lambda>_. True),
     os_start = True, up_resolve = Some, up_read = True, up_temp = Some ''tmp'', up_short = None,
     up_close = True, up_chmod = True, up_rename = True, up_exec = True\<rparr>"

definition ex_runner :: machine where
  "ex_runner = \<lparr>mc_files = [systemBinaryPath \<mapsto> [9], ''hosts'' \<mapsto> [4]], mc_linux = True, mc_systemd = True,
     mc_root = True, mc_exe = Some systemBinaryPath, mc_enabled = True, mc_active = True\<rparr>"

definition ex_distributor :: apiserver where
  "ex_distributor = runServer (example_env\<lparr>ev_sha := ex_digest\<rparr>)
     (example_cfg\<lparr>as_ClientBinaries := [''linux-amd64'' \<mapsto> [1]]\<rparr>) fresh_db None"

lemma ex_distributor_binaries:
  "as_ClientBinaries ex_distributor = [''linux-amd64'' \<mapsto> [1]]"
  "as_ClientBinarySHA256 ex_distributor = ChecksumClientBinaries ex_digest [''linux-amd64'' \<mapsto> [1]]"
  by (simp_all add: ex_distributor_def runServer_def Let_def split: prod.split)

lemma ex_runner_ok:
  "mc_exe ex_runner = Some systemBinaryPath" "mc_files ex_runner systemBinaryPath = Some [9]"
  "update_granted ex_upd_os systemBinaryPath systemBinaryPath ex_runner"
  "dom (mc_files ex_runner) = {systemBinaryPath, ''hosts''}" "mc_files ex_runner ''hosts'' = Some [4]"
  by (auto simp: ex_runner_def update_granted_def ex_upd_os_def systemBinaryPath_def)

theorem self_update_converges_witness:
  "\<exists>get. mc_files (snd (runSelfUpdateLoop ex_digest ''http://h/'' ''linux-amd64''
       [TimerFired ex_upd_os get get] ex_runner)) systemBinaryPath = Some [1]"
proof -
  let ?get = "served example_env example_request ex_distributor (TrimRight ''http://h/'' (CHR ''/'')) ''linux-amd64''"
  have "\<not> hq_Options example_request" "ex_digest [9] \<noteq> ex_digest [1]" "\<And>x. length (ex_digest x) = 32"
    by (simp_all add: example_request_def ex_digest_def)
  with self_update_converges [of ex_distributor ex_digest "''linux-amd64''" "[1]" example_request "''http://h/''" ?get
      example_env ex_runner systemBinaryPath systemBinaryPath "[9]" ex_upd_os "[]"]
  show ?thesis by (intro exI [of _ ?get]) (simp add: ex_distributor_binaries ex_runner_ok)
qed

theorem self_update_verified_witness:
  "mc_files (snd (runSelfUpdateLoop ex_digest ''http://h'' ''linux-amd64''
     [TimerFired ex_upd_os (\<lambda>_. Some (200, replicate 64 97, True)) (\<lambda>_. Some (200, [5], True))] ex_runner)) ''hosts''
   = Some [4]"
proof -
  let ?ts = "[TimerFired ex_upd_os (\<lambda>_. Some (200, replicate 64 97, True)) (\<lambda>_. Some (200, [5], True))]"
  obtain r m' where run: "runSelfUpdateLoop ex_digest ''http://h'' ''linux-amd64'' ?ts ex_runner = (r, m')" by fastforce
  have "systemBinaryPath \<in> dom (mc_files ex_runner)" by (simp add: ex_runner_ok)
  from self_update_verified [OF run ex_runner_ok(1) this]
  have "mc_files m' ''hosts'' = mc_files ex_runner ''hosts''"
    by (auto simp: ex_runner_ok check_ok_def ex_upd_os_def systemBinaryPath_def)
  with run show ?thesis by (simp add: ex_runner_ok)
qed

end
