(* ===== verification/Certificates.thy ===== *)
theory Certificates
imports ClientMachine
begin

text \<open>
  The server's certificate (\<open>internal/tlsutil/ca.go\<close>): made on the first start, read back on every
  later one. The cryptography of the standard library is an argument: key generation, serial
  numbers, signing, and the encodings of certificates and keys. Keys are represented by byte
  strings. The files are those of a \<open>machine\<close>, here the server's host.
\<close>

section \<open>The standard library's part\<close>

datatype KeyUsage = DigitalSignature | KeyEncipherment | CertSign | CRLSign

datatype ExtKeyUsage = ServerAuth

record template =
  tp_CommonName :: string
  tp_Organization :: "string list"
  tp_NotBefore :: int
  tp_NotAfter :: int
  tp_KeyUsage :: "KeyUsage list"
  tp_ExtKeyUsage :: "ExtKeyUsage list"
  tp_BasicConstraintsValid :: bool
  tp_IsCA :: bool
  tp_IPAddresses :: "byte list list"
  tp_DNSNames :: "string list"

text \<open>
  The n-th key and serial number drawn; \<open>x509.CreateCertificate\<close> (template, parent or \<open>None\<close> for a
  self-signed one, public key, signing key); the encodings.
\<close>

record pki =
  pk_now :: int
  pk_key :: "nat \<Rightarrow> byte list option"
  pk_serial :: "nat \<Rightarrow> int option"
  pk_create :: "int \<Rightarrow> template \<Rightarrow> byte list option \<Rightarrow> byte list \<Rightarrow> byte list \<Rightarrow> byte list option"
  pk_parse :: "byte list \<Rightarrow> bool"
  pk_marshal_key :: "byte list \<Rightarrow> byte list option"
  pk_parse_key :: "byte list \<Rightarrow> byte list option"
  pk_pem :: "string \<Rightarrow> byte list \<Rightarrow> byte list"
  pk_unpem :: "byte list \<Rightarrow> byte list option"
  pk_load_pair :: "byte list \<Rightarrow> byte list \<Rightarrow> byte list option"

section \<open>Generating\<close>

definition caCertFile :: string where "caCertFile = ''ca-cert.pem''"

definition caKeyFile :: string where "caKeyFile = ''ca-key.pem''"

definition serverCertFile :: string where "serverCertFile = ''server-cert.pem''"

definition serverKeyFile :: string where "serverKeyFile = ''server-key.pem''"

definition certValidity :: int where
  "certValidity = 10 * 365 * 24 * 3600"

text \<open>\<open>CertPanic\<close>: \<open>pem.Decode\<close> found no block and its result was dereferenced.\<close>

datatype cert_err = DataDir | GenerateCA | GenerateServerCert | LoadServerCert | ParseServerCert | CertPanic

definition writeKeyPair ::
    "pki \<Rightarrow> os \<Rightarrow> string \<Rightarrow> string \<Rightarrow> byte list \<Rightarrow> byte list \<Rightarrow> machine \<Rightarrow> bool \<times> machine" where
  "writeKeyPair P S certPath keyPath der key m =
     (case WriteFile S certPath (pk_pem P ''CERTIFICATE'' der) m of
        (False, m1) \<Rightarrow> (False, m1)
      | (True, m1) \<Rightarrow>
          (case pk_marshal_key P key of
             None \<Rightarrow> (False, m1)
           | Some keyBytes \<Rightarrow> WriteFile S keyPath (pk_pem P ''EC PRIVATE KEY'' keyBytes) m1))"

definition ca_template :: "pki \<Rightarrow> template" where
  "ca_template P = \<lparr>tp_CommonName = ''Portly Root CA'', tp_Organization = [''Portly''],
     tp_NotBefore = pk_now P - 3600, tp_NotAfter = pk_now P + certValidity,
     tp_KeyUsage = [CertSign, CRLSign, DigitalSignature], tp_ExtKeyUsage = [],
     tp_BasicConstraintsValid = True, tp_IsCA = True, tp_IPAddresses = [], tp_DNSNames = []\<rparr>"

definition generateCA :: "pki \<Rightarrow> os \<Rightarrow> string \<Rightarrow> string \<Rightarrow> machine \<Rightarrow> bool \<times> machine" where
  "generateCA P S certPath keyPath m =
     (case pk_key P 0 of
        None \<Rightarrow> (False, m)
      | Some key \<Rightarrow>
          (case pk_serial P 0 of
             None \<Rightarrow> (False, m)
           | Some serial \<Rightarrow>
               (case pk_create P serial (ca_template P) None key key of
                  None \<Rightarrow> (False, m)
                | Some der \<Rightarrow> writeKeyPair P S certPath keyPath der key m)))"

text \<open>The hosts become IP addresses or DNS names of the certificate.\<close>

definition host_names :: "string list \<Rightarrow> string list" where
  "host_names hosts = (if hosts = [] then [''localhost''] else hosts)"

definition server_template :: "pki \<Rightarrow> string list \<Rightarrow> template" where
  "server_template P hosts =
     fold (\<lambda>h t. case ParseIP h of
             Some ip \<Rightarrow> t\<lparr>tp_IPAddresses := tp_IPAddresses t @ [ip]\<rparr>
           | None \<Rightarrow> t\<lparr>tp_DNSNames := tp_DNSNames t @ [h]\<rparr>)
       (host_names hosts)
       \<lparr>tp_CommonName = ''Portly Server'', tp_Organization = [''Portly''],
        tp_NotBefore = pk_now P - 3600, tp_NotAfter = pk_now P + certValidity,
        tp_KeyUsage = [DigitalSignature, KeyEncipherment], tp_ExtKeyUsage = [ServerAuth],
        tp_BasicConstraintsValid = False, tp_IsCA = False, tp_IPAddresses = [], tp_DNSNames = []\<rparr>"

definition generateServerCert ::
    "pki \<Rightarrow> os \<Rightarrow> string \<Rightarrow> string \<Rightarrow> string \<Rightarrow> string \<Rightarrow> string list \<Rightarrow> machine \<Rightarrow> cert_err option \<times> machine" where
  "generateServerCert P S caCertPath caKeyPath certPath keyPath hosts m =
     (case (mc_files m caCertPath, mc_files m caKeyPath) of
        (Some caCertPEM, Some caKeyPEM) \<Rightarrow>
          (case pk_unpem P caCertPEM of
             None \<Rightarrow> (Some CertPanic, m)
           | Some caCert \<Rightarrow>
               if \<not> pk_parse P caCert then (Some GenerateServerCert, m)
               else (case pk_unpem P caKeyPEM of
                  None \<Rightarrow> (Some CertPanic, m)
                | Some keyDER \<Rightarrow>
                    (case (pk_parse_key P keyDER, pk_key P 1, pk_serial P 1) of
                       (Some caKey, Some key, Some serial) \<Rightarrow>
                         (case pk_create P serial (server_template P hosts) (Some caCert) key caKey of
                            None \<Rightarrow> (Some GenerateServerCert, m)
                          | Some der \<Rightarrow>
                              (case writeKeyPair P S certPath keyPath der key m of
                                 (True, m1) \<Rightarrow> (None, m1) | (False, m1) \<Rightarrow> (Some GenerateServerCert, m1)))
                     | _ \<Rightarrow> (Some GenerateServerCert, m))))
      | _ \<Rightarrow> (Some GenerateServerCert, m))"

section \<open>Loading, or generating on the first run\<close>

text \<open>The result is the leaf the TLS server presents, and its fingerprint.\<close>

definition EnsureServerCert ::
    "(byte list \<Rightarrow> byte list) \<Rightarrow> pki \<Rightarrow> os \<Rightarrow> string \<Rightarrow> string list \<Rightarrow> machine
     \<Rightarrow> (cert_err + byte list \<times> string) \<times> machine" where
  "EnsureServerCert sha256 P S dataDir hosts m =
     (if \<not> os_mkdir S then (Inl DataDir, m)
      else let caCertPath = in_dir dataDir caCertFile; caKeyPath = in_dir dataDir caKeyFile;
               serverCertPath = in_dir dataDir serverCertFile; serverKeyPath = in_dir dataDir serverKeyFile
      in case (if fileExists caCertPath m \<and> fileExists caKeyPath m then (True, m)
               else generateCA P S caCertPath caKeyPath m) of
           (False, m1) \<Rightarrow> (Inl GenerateCA, m1)
         | (True, m1) \<Rightarrow>
             (case (if fileExists serverCertPath m1 \<and> fileExists serverKeyPath m1 then (None, m1)
                    else generateServerCert P S caCertPath caKeyPath serverCertPath serverKeyPath hosts m1) of
                (Some e, m2) \<Rightarrow> (Inl e, m2)
              | (None, m2) \<Rightarrow>
                  (case (mc_files m2 serverCertPath, mc_files m2 serverKeyPath) of
                     (Some certPEM, Some keyPEM) \<Rightarrow>
                       (case pk_load_pair P certPEM keyPEM of
                          None \<Rightarrow> (Inl LoadServerCert, m2)
                        | Some leaf \<Rightarrow>
                            if \<not> pk_parse P leaf then (Inl ParseServerCert, m2)
                            else (Inr (leaf, Fingerprint sha256 leaf), m2))
                   | _ \<Rightarrow> (Inl LoadServerCert, m2))))"

end
