(* ===== verification/ServerMain.thy ===== *)
theory ServerMain
imports Certificates ApiServer Http
begin

text \<open>
  The server program (\<open>cmd/portly-server/main.go\<close>) and the detection of the public address
  (\<open>internal/netutil/publicip.go\<close>): addresses given by flags, the names of the certificate, the
  configuration of the API server, and the command line's operations on
  machines and tunnels. Flags are arguments.
\<close>

section \<open>Addresses\<close>

fun split_from :: "string \<Rightarrow> nat \<Rightarrow> (string \<times> string) option" where
  "split_from addr 0 = None"
| "split_from addr (Suc i) =
     (if addr ! i = CHR '':'' then Some (take i addr, drop (Suc i) addr) else split_from addr i)"

definition splitHostPort :: "string \<Rightarrow> (string \<times> string) option" where
  "splitHostPort addr = split_from addr (length addr)"

definition mustPort :: "string \<Rightarrow> int" where
  "mustPort addr =
     (case splitHostPort addr of
        None \<Rightarrow> 0
      | Some (_, portStr) \<Rightarrow> (case Atoi portStr of None \<Rightarrow> 0 | Some port \<Rightarrow> port))"

definition controlAddrPortSuffix :: "string \<Rightarrow> string" where
  "controlAddrPortSuffix controlAddr =
     (case splitHostPort controlAddr of None \<Rightarrow> controlAddr | Some (_, port) \<Rightarrow> '':'' @ port)"

fun containsString :: "string list \<Rightarrow> string \<Rightarrow> bool" where
  "containsString [] v = False"
| "containsString (s # ss) v = (s = v \<or> containsString ss v)"

definition certHostsFor :: "string list \<Rightarrow> string list" where
  "certHostsFor hosts =
     fold (\<lambda>h out. if \<not> containsString out h then out @ [h] else out) [''localhost'', ''127.0.0.1''] hosts"

definition firstNonEmpty :: "string list \<Rightarrow> string \<Rightarrow> string" where
  "firstNonEmpty hosts fallback =
     (case find (\<lambda>h. h \<noteq> [] \<and> h \<noteq> ''localhost'' \<and> h \<noteq> ''127.0.0.1'') hosts of
        Some h \<Rightarrow> h
      | None \<Rightarrow> (case hosts of h # _ \<Rightarrow> h | [] \<Rightarrow> fallback))"

section \<open>The public address\<close>

definition endpoints :: "string list" where
  "endpoints = [''https://ifconfig.me/ip'', ''https://icanhazip.com'', ''https://ipinfo.io/ip'',
     ''https://api.ipify.org'']"

definition fetchIP :: "(string \<Rightarrow> http_reply) \<Rightarrow> string \<Rightarrow> string option" where
  "fetchIP get url =
     (case get url of
        None \<Rightarrow> None
      | Some (_, c) \<Rightarrow>
          (case read_limited 256 c of
             None \<Rightarrow> None
           | Some body \<Rightarrow>
               (let ip = TrimSpace (string_of body) in if ParseIP ip = None then None else Some ip)))"

fun detect_from :: "(string \<Rightarrow> http_reply) \<Rightarrow> string list \<Rightarrow> string option" where
  "detect_from get [] = None"
| "detect_from get (url # urls) = (case fetchIP get url of None \<Rightarrow> detect_from get urls | Some ip \<Rightarrow> Some ip)"

text \<open>\<open>get4\<close> and \<open>get6\<close> are the services as reached over IPv4 and IPv6.\<close>

definition DetectPublicIP :: "(string \<Rightarrow> http_reply) \<Rightarrow> string option" where
  "DetectPublicIP get4 = detect_from get4 endpoints"

definition DetectPublicIPv6 :: "(string \<Rightarrow> http_reply) \<Rightarrow> string option" where
  "DetectPublicIPv6 get6 = detect_from get6 endpoints"

definition resolveAdvertiseHosts :: "string list \<Rightarrow> (string \<Rightarrow> http_reply) \<Rightarrow> string list" where
  "resolveAdvertiseHosts advertiseHost get4 =
     (if advertiseHost \<noteq> [] then advertiseHost
      else case DetectPublicIP get4 of None \<Rightarrow> [''localhost''] | Some ip \<Rightarrow> [ip])"

section \<open>Running the server\<close>

record flags =
  fl_buildCommit :: string
  fl_dataDir :: string
  fl_controlAddr :: string
  fl_apiAddr :: string
  fl_webAddr :: string
  fl_httpsAddr :: string
  fl_advertiseHost :: "string list"
  fl_allowedOrigins :: "string list"

text \<open>
  The API server's settings; binaries that cannot be loaded are none. The commit of the build is
  set by the linker and kept with the flags.
\<close>

definition configure ::
    "flags \<Rightarrow> string list \<Rightarrow> string option \<Rightarrow> string \<Rightarrow> (string \<rightharpoonup> byte list) option \<Rightarrow> machine
     \<Rightarrow> apiserver \<Rightarrow> apiserver" where
  "configure F hosts ip6 fp bins m s =
     (let clientBins = (case bins of None \<Rightarrow> Map.empty | Some b \<Rightarrow> b)
      in s\<lparr>as_AdvertiseHost := firstNonEmpty hosts ''localhost'',
           as_AdvertiseHostV6 := (case ip6 of None \<Rightarrow> as_AdvertiseHostV6 s | Some a \<Rightarrow> a),
           as_ControlPort := mustPort (fl_controlAddr F), as_APIPort := mustPort (fl_apiAddr F),
           as_CAFingerprint := fp, as_AllowedOrigins := fl_allowedOrigins F,
           as_ClientBinaries := clientBins,
           as_PublicHTTPPort := mustPort (fl_webAddr F), as_PublicHTTPSPort := mustPort (fl_httpsAddr F),
           as_BuildCommit := fl_buildCommit F, as_DataDir := fl_dataDir F, as_host := m\<rparr>)"

text \<open>
  \<open>run\<close> up to the listeners, on the database, the content of the setup-code file and the host's other
  files; \<open>None\<close> is a start that failed. The setup code comes first, so it has been made when the
  certificate fails; \<open>runServer\<close> begins with the same call. The certificate, the detected addresses and
  the embedded directory are as in their definitions.
\<close>

definition startServer ::
    "env \<Rightarrow> pki \<Rightarrow> os \<Rightarrow> flags \<Rightarrow> (string \<Rightarrow> http_reply) \<Rightarrow> (string \<Rightarrow> http_reply)
     \<Rightarrow> (string \<times> bool \<times> byte list option) list option \<Rightarrow> db \<Rightarrow> string option \<Rightarrow> machine
     \<Rightarrow> (byte list \<times> apiserver) option \<times> (db \<times> string option) \<times> machine" where
  "startServer E P S F get4 get6 dir d0 file0 m =
     (let setup = writeSetupCode E (d0, file0);
          hosts = resolveAdvertiseHosts (fl_advertiseHost F) get4
      in case EnsureServerCert (ev_sha E) P S (fl_dataDir F) (certHostsFor hosts) m of
           (Inl _, m1) \<Rightarrow> (None, setup, m1)
         | (Inr (leaf, fp), m1) \<Rightarrow>
             (Some (leaf, runServer E (configure F hosts (DetectPublicIPv6 get6) fp
                      (LoadEmbeddedClientBinaries dir) m1 (NewApiServer (NewServer d0))) d0 file0), setup, m1))"

section \<open>The command line\<close>

text \<open>Each command opens the database, which is then consistent with the running server's.\<close>

datatype cli_err = CliDb dberr | CliCert cert_err | BadProtocol string | NoClient string

record connection =
  cx_server_addr :: string
  cx_token :: string
  cx_ca_fingerprint :: string

definition clientAddCmd ::
    "env \<Rightarrow> pki \<Rightarrow> os \<Rightarrow> flags \<Rightarrow> (string \<Rightarrow> http_reply) \<Rightarrow> string \<Rightarrow> db \<times> machine
     \<Rightarrow> (cli_err + Client \<times> connection) \<times> db \<times> machine" where
  "clientAddCmd E P S F get4 name = (\<lambda>(d, m).
     let hosts = resolveAdvertiseHosts (fl_advertiseHost F) get4
     in case EnsureServerCert (ev_sha E) P S (fl_dataDir F) (certHostsFor hosts) m of
          (Inl e, m1) \<Rightarrow> (Inl (CliCert e), d, m1)
        | (Inr (_, fp), m1) \<Rightarrow>
            (case CreateClient (ev_sha E) (ev_rand E 0) (ev_uuid E 0) (ev_now E) name d of
               (Inl e, d1) \<Rightarrow> (Inl (CliDb e), d1, m1)
             | (Inr (client, token), d1) \<Rightarrow>
                 (Inr (client, \<lparr>cx_server_addr = firstNonEmpty hosts ''YOUR_VPS_HOST'' @ controlAddrPortSuffix (fl_controlAddr F),
                       cx_token = token, cx_ca_fingerprint = fp\<rparr>), d1, m1)))"

text \<open>The lines printed, with the layout of times as an argument.\<close>

definition clientListCmd :: "(int \<Rightarrow> string) \<Rightarrow> string list dbm" where
  "clientListCmd fmt = bindM ListClients (\<lambda>clients. retM (map (\<lambda>c.
     let lastSeen = (case c_LastSeen c of None \<Rightarrow> ''never'' | Some t \<Rightarrow> fmt t)
     in c_ID c @ [CHR 0x09] @ c_Name c @ [CHR 0x09] @ ''last_seen='' @ lastSeen @ [CHR 0x0A]) clients))"

definition clientRmCmd :: "env \<Rightarrow> string \<Rightarrow> unit dbm" where
  "clientRmCmd E cid = DeleteClient (ev_now E) cid"

text \<open>A machine is named by its id or, if none has this id or the lookup fails, by its name.\<close>

definition resolveClient :: "string \<Rightarrow> db \<Rightarrow> (cli_err + Client) \<times> db" where
  "resolveClient ref d =
     (case GetClientByID ref d of
        (Inr c, d1) \<Rightarrow> (Inr c, d1)
      | (Inl _, d1) \<Rightarrow>
          (case ListClients d1 of
             (Inl e, d2) \<Rightarrow> (Inl (CliDb e), d2)
           | (Inr clients, d2) \<Rightarrow>
               (case find (\<lambda>c. c_Name c = ref) clients of
                  None \<Rightarrow> (Inl (NoClient ref), d2) | Some c \<Rightarrow> (Inr c, d2))))"

definition tunnelAddCmd ::
    "env \<Rightarrow> string \<Rightarrow> string \<Rightarrow> string \<Rightarrow> int \<Rightarrow> int \<Rightarrow> string \<Rightarrow> db \<Rightarrow> (cli_err + Client \<times> Tunnel) \<times> db" where
  "tunnelAddCmd E clientRef name0 localHost localPort publicPort proto d =
     (case resolveClient clientRef d of
        (Inl e, d1) \<Rightarrow> (Inl e, d1)
      | (Inr client, d1) \<Rightarrow>
          (let name = (if name0 = [] then localHost @ '':'' @ dec_int localPort @ ''->'' @ dec_int publicPort else name0)
           in if proto \<noteq> ''tcp'' \<and> proto \<noteq> ''udp'' then (Inl (BadProtocol proto), d1)
              else case CreateTunnel (ev_uuid E 0) (ev_now E) (c_ID client) name localHost localPort publicPort proto d1 of
                (Inl e, d2) \<Rightarrow> (Inl (CliDb e), d2)
              | (Inr t, d2) \<Rightarrow> (Inr (client, t), d2)))"

definition tunnelListCmd :: "string list dbm" where
  "tunnelListCmd = bindM ListAllTunnels (\<lambda>tunnels. retM (map (\<lambda>t.
     let status = (if \<not> t_Enabled t then ''disabled'' else ''enabled'')
     in t_ID t @ [CHR 0x09] @ t_Name t @ [CHR 0x09] @ t_Protocol t @ ''/'' @ t_LocalHost t @ '':''
          @ dec_int (t_LocalPort t) @ '' -> :'' @ dec_int (t_PublicPort t) @ [CHR 0x09] @ ''client=''
          @ t_ClientID t @ [CHR 0x09] @ status @ [CHR 0x0A]) tunnels))"

definition tunnelRmCmd :: "string \<Rightarrow> nat dbm" where
  "tunnelRmCmd tid = DeleteTunnel tid"

end
