(* ===== verification/ApiTunnelProps.thy ===== *)
theory ApiTunnelProps
imports ApiInvariant
begin

text \<open>
  What the tunnel handlers promise: a creation request inserts all of its tunnels or none, and
  a hostname that was saved is the one the Minecraft router routes to that tunnel.
\<close>

section \<open>Creation\<close>

definition with_rows :: "tunnel_row list \<Rightarrow> apiserver \<Rightarrow> apiserver" where
  "with_rows rows s = put_db ((as_db s)\<lparr>d_tunnels := d_tunnels (as_db s) @ rows\<rparr>) s"

text \<open>The public port of the k-th tunnel of a request, and the rows of its first tunnels.\<close>

definition nth_port :: "int list \<Rightarrow> nat \<Rightarrow> int" where
  "nth_port pps k = (if length pps > 1 then pps ! k else pps ! 0)"

definition made :: "apiserver \<Rightarrow> createTunnelRequest \<Rightarrow> tunnel_row list \<Rightarrow> tunnelView list \<Rightarrow> bool" where
  "made s req rows created \<longleftrightarrow> map r_id rows = map tv_ID created
     \<and> distinct (map r_id (d_tunnels (as_db s) @ rows))
     \<and> map r_local_port rows = take (length rows) (tq_LocalPort req)
     \<and> (\<forall>k < length rows. r_public_port (rows ! k) = (if 0 < nth_port (tq_PublicPort req) k
            then Some (nth_port (tq_PublicPort req) k) else None))
     \<and> (\<forall>r \<in> set rows. r_client_id r = tq_ClientID req \<and> r_enabled r
          \<and> r_protocol r = tq_Protocol req \<and> r_local_host r = tq_LocalHost req)"

lemma with_rows_nil [simp]: "with_rows [] s = s"
  by (simp add: with_rows_def put_db_def)

lemma delete_new_row:
  assumes "db_wf (as_db s)" and "d_open (as_db s)"
    and "distinct (map r_id (d_tunnels (as_db s) @ r # rows))"
  shows "put_db (snd (DeleteTunnel (r_id r) (as_db (with_rows (r # rows) s)))) (with_rows (r # rows) s)
    = with_rows rows s"
proof -
  have "r_id r \<notin> r_id ` set (d_tunnels (as_db s))" "r_id r \<notin> r_id ` set rows"
    using assms(3) by auto
  then have "del_where (\<lambda>t. r_id t = r_id r) (d_tunnels (as_db s) @ r # rows)
      = d_tunnels (as_db s) @ rows"
    by (simp add: del_where_def filter_id_conv) (metis (mono_tags) image_eqI filter_True)
  moreover have "del_where (\<lambda>x. s_tunnel_id x = r_id r) (d_samples (as_db s)) = d_samples (as_db s)"
    using db_wfD(4) [OF assms(1)] \<open>r_id r \<notin> r_id ` set (d_tunnels (as_db s))\<close>
    by (intro del_where_none) (metis samples_ok_def)
  ultimately show ?thesis
    using assms(2) by (simp add: with_rows_def DeleteTunnel_def execM_def put_db_def)
qed

lemma rollback_made:
  assumes "db_wf (as_db s)" and "d_open (as_db s)" and "made s req rows created"
  shows "rollback created (with_rows rows s) = s"
proof -
  have "rollback created (with_rows rows s) = s"
    if "map r_id rows = map tv_ID created" "distinct (map r_id (d_tunnels (as_db s) @ rows))"
    using that
  proof (induction created arbitrary: rows)
    case (Cons c created)
    then obtain r rows' where r: "rows = r # rows'" "r_id r = tv_ID c"
      "map r_id rows' = map tv_ID created" by auto
    with Cons.prems delete_new_row [OF assms(1,2), of r rows'] Cons.IH [of rows']
    show ?case by (simp add: rollback_def)
  qed (simp add: rollback_def)
  with assms(3) show ?thesis unfolding made_def by blast
qed

lemma CreateTunnel_with_rows:
  assumes "CreateTunnel u n c nm h lp pp p (as_db (with_rows rows s)) = (r, d)" and "p \<noteq> []"
  shows "(case r of
      Inl e \<Rightarrow> d = as_db (with_rows rows s)
    | Inr t \<Rightarrow> \<exists>row. d = as_db (with_rows (rows @ [row]) s) \<and> r_id row = t_ID t \<and> t_ID t = u
        \<and> u \<notin> r_id ` set (d_tunnels (as_db s) @ rows) \<and> r_client_id row = c \<and> r_enabled row
        \<and> r_protocol row = p \<and> r_local_host row = h \<and> r_local_port row = lp
        \<and> r_public_port row = (if 0 < pp then Some pp else None))"
proof -
  let ?row = "\<lparr>r_id = u, r_client_id = c, r_name = nm, r_local_host = h, r_local_port = lp,
      r_public_port = (if 0 < pp then Some pp else None), r_protocol = p, r_enabled = True,
      r_traffic_limit = None, r_public_hostname = [], r_proxy_protocol = False, r_bytes_in = 0,
      r_bytes_out = 0, r_created_at = n\<rparr>"
  have fresh: "u \<notin> r_id ` set (d_tunnels (as_db s) @ rows)"
    "d = as_db (with_rows (rows @ [?row]) s)" if "r = Inr t" for t
    using assms that
    by (auto simp: CreateTunnel_def Let_def insert_tunnel_def execM_def bindM_def retM_def
        with_rows_def list_ex_iff split: if_splits)
  have "t_ID t = u" if "r = Inr t" for t
    using assms that
    by (auto simp: CreateTunnel_def Let_def insert_tunnel_def execM_def bindM_def retM_def
        split: if_splits)
  moreover have "d = as_db (with_rows rows s)" if "r = Inl e" for e
    using assms that
    by (auto simp: CreateTunnel_def Let_def insert_tunnel_def execM_def bindM_def retM_def
        split: if_splits)
  ultimately show ?thesis
    using fresh by (cases r) (auto intro!: exI [of _ ?row] simp del: append.simps)
qed

lemma made_snoc:
  assumes "made s req rows created" and "drop (length rows) (tq_LocalPort req) = lp # lps"
    and "r_id row = tv_ID v" and "r_id row \<notin> r_id ` set (d_tunnels (as_db s) @ rows)"
    and "r_client_id row = tq_ClientID req" "r_enabled row" "r_protocol row = tq_Protocol req"
      "r_local_host row = tq_LocalHost req" "r_local_port row = lp"
    and "r_public_port row = (if 0 < nth_port (tq_PublicPort req) (length rows)
            then Some (nth_port (tq_PublicPort req) (length rows)) else None)"
  shows "made s req (rows @ [row]) (created @ [v])"
proof -
  have len: "length rows < length (tq_LocalPort req)" "tq_LocalPort req ! length rows = lp"
    using assms(2) by (metis drop_all list.distinct(1) not_le, metis nth_via_drop)
  have "map r_local_port (rows @ [row]) = take (length (rows @ [row])) (tq_LocalPort req)"
    using assms(1,9) len by (simp add: made_def take_Suc_conv_app_nth)
  moreover have "r_public_port ((rows @ [row]) ! k) = (if 0 < nth_port (tq_PublicPort req) k
      then Some (nth_port (tq_PublicPort req) k) else None)" if "k < length (rows @ [row])" for k
    using assms(1,10) that by (cases "k = length rows") (auto simp: made_def nth_append)
  moreover have "tv_ID ` set created = r_id ` set rows"
    using assms(1) unfolding made_def by (metis list.set_map)
  ultimately show ?thesis
    using assms(1,3-8) unfolding made_def by auto
qed

text \<open>The loop inserts everything that is left, or ends in the state the request found.\<close>

lemma create_tunnels_outcome:
  assumes "db_wf (as_db s)" and "d_open (as_db s)" and "tq_Protocol req \<noteq> []"
    and "length (tq_PublicPort req) > 1 \<Longrightarrow> length (tq_PublicPort req) = length (tq_LocalPort req)"
    and "made s req rows created" and "drop (length rows) (tq_LocalPort req) = lps"
    and "tq_PublicPort req = [] \<Longrightarrow> rows = []"
    and "create_tunnels E req base rng (length rows) lps created (with_rows rows s) = (r, s')"
  shows "case r of Inl _ \<Rightarrow> s' = s
    | Inr created' \<Rightarrow> \<exists>rows'. made s req rows' created' \<and> s' = with_rows rows' s
        \<and> length rows' = length rows + length lps"
  using assms(5-8)
proof (induction lps arbitrary: rows created)
  case Nil
  then show ?case by (auto simp: retM_def)
next
  case (Cons lp lps)
  let ?pps = "tq_PublicPort req"
  have len: "length rows < length (tq_LocalPort req)"
    using Cons.prems(2) by (metis drop_all list.distinct(1) not_le)
  show ?case
  proof (cases "?pps = []")
    case True
    with Cons.prems show ?thesis by (auto simp: failM_def Let_def)
  next
    case False
    have idx: "\<not> (1 < length ?pps \<and> length ?pps \<le> length rows)" using assms(4) len by auto
    let ?pp = "nth_port ?pps (length rows)"
    let ?name = "if rng then base @ ''-'' @ dec_int ?pp else base"
    have pp: "(if 1 < length ?pps then ?pps ! length rows else ?pps ! 0) = ?pp"
      by (simp add: nth_port_def)
    let ?busy = "?pp \<noteq> 0 \<and> \<not> ProbePublicPort (ev_ports E) (tq_Protocol req) ?pp (as_ts (with_rows rows s))"
    let ?create = "CreateTunnel (ev_uuid E (length rows)) (ev_now E) (tq_ClientID req) ?name
        (tq_LocalHost req) lp ?pp (tq_Protocol req)"
    have run: "create_tunnels E req base rng (length rows) (lp # lps) created (with_rows rows s)
      = (if ?busy then (Inl (writeError 409 (PortInUse ?pp)), rollback created (with_rows rows s))
         else case ?create (as_db (with_rows rows s)) of
             (Inl _, d) \<Rightarrow> (Inl (writeError 409 (Msg ''public_port is already in use by another tunnel'')),
                 rollback created (put_db d (with_rows rows s)))
           | (Inr t, d) \<Rightarrow> create_tunnels E req base rng (Suc (length rows)) lps
               (created @ [toTunnelView t]) (put_db d (with_rows rows s)))"
      using False idx unfolding create_tunnels.simps Let_def pp
      by (auto simp: bindM_def getS_def modS_def failM_def tryDB_def split: prod.split sum.split)
    note undo = rollback_made [OF assms(1,2) Cons.prems(1)]
    obtain x d where c: "?create (as_db (with_rows rows s)) = (x, d)" by fastforce
    note out = CreateTunnel_with_rows [OF c assms(3)]
    show ?thesis
    proof (cases "?busy \<or> isl x")
      case True
      with run undo c out Cons.prems(4) show ?thesis by (cases x) (auto split: if_splits)
    next
      case False
      then obtain t where t: "x = Inr t" by (cases x) auto
      with out obtain row where row: "d = as_db (with_rows (rows @ [row]) s)" "r_id row = t_ID t"
        "t_ID t \<notin> r_id ` set (d_tunnels (as_db s) @ rows)" "r_client_id row = tq_ClientID req"
        "r_enabled row" "r_protocol row = tq_Protocol req" "r_local_host row = tq_LocalHost req"
        "r_local_port row = lp" "r_public_port row = (if 0 < ?pp then Some ?pp else None)"
        by auto
      have "made s req (rows @ [row]) (created @ [toTunnelView t])"
        using Cons.prems(1,2) row by (intro made_snoc) (simp_all add: toTunnelView_def)
      moreover have "drop (length (rows @ [row])) (tq_LocalPort req) = lps"
        using Cons.prems(2) by (metis drop_Suc length_append_singleton list.sel(3) tl_drop)
      moreover have "put_db d (with_rows rows s) = with_rows (rows @ [row]) s"
        unfolding row(1) by (simp add: with_rows_def)
      ultimately show ?thesis
        using Cons.IH [of "rows @ [row]" "created @ [toTunnelView t]"] Cons.prems(4) False
          \<open>?pps \<noteq> []\<close> run c t by (auto split: sum.splits)
    qed
  qed
qed

text \<open>Rules that remember which guards were passed.\<close>

named_theorems passing \<open>triples that carry the outcome of each statement\<close>

lemma pass_read [passing]: "(\<And>s. P s \<Longrightarrow> I s) \<Longrightarrow> triple P (readJSON b) (\<lambda>r s. P s \<and> b = Some r) I"
  by (cases b) (simp_all add: readJSON_def triple_ret triple_fail)

lemma pass_ret [passing]: "triple P (retM x) (\<lambda>y s. P s \<and> y = x) I"
  by (rule triple_ret) simp

lemma pass_guard [passing]: "(\<And>s. P s \<Longrightarrow> I s) \<Longrightarrow> triple P (guardM c r) (\<lambda>_ s. P s \<and> \<not> c) I"
  by (rule triple_guard) auto

lemma pass_query [passing]:
  "(\<And>s. P s \<Longrightarrow> I s) \<Longrightarrow> triple P (callDB err (queryM q)) (\<lambda>x s. P s \<and> q (as_db s) = Inr x) I"
  by (rule triple_callDB) (auto simp: queryM_def split: if_splits)

lemma pass_find [passing]:
  assumes "\<And>s. P s \<Longrightarrow> I s"
  shows "triple P (case find c xs of None \<Rightarrow> retM () | Some p \<Rightarrow> if b p then failM r1 else failM r2)
    (\<lambda>_ s. P s \<and> find c xs = None) I"
  using assms by (cases "find c xs") (simp_all add: triple_ret triple_fail)

definition port_ok :: "int \<Rightarrow> bool" where
  "port_ok p \<longleftrightarrow> 1 \<le> p \<and> p \<le> 65535"

text \<open>What a completed request has done.\<close>

definition created_ok :: "apiserver \<Rightarrow> response \<Rightarrow> apiserver \<Rightarrow> bool" where
  "created_ok s r s' \<longleftrightarrow> (\<exists>req rows created. made s req rows created \<and> s' = with_rows rows s
     \<and> rows \<noteq> [] \<and> length rows = length (tq_LocalPort req)
     \<and> (\<forall>t \<in> set rows. port_ok (r_local_port t)
          \<and> (case r_public_port t of None \<Rightarrow> length rows = 1 | Some p \<Rightarrow> port_ok p))
     \<and> tq_Protocol req \<in> {''tcp'', ''udp''}
     \<and> r \<in> {writeJSON 201 (TunnelsBody created), writeJSON 201 (TunnelBody (hd created))})"

lemma made_nil: "db_wf (as_db s) \<Longrightarrow> made s req [] []"
  using tunnels_ok_ids [OF db_wfD(3)] by (simp add: made_def)

lemma made_ports:
  assumes "made s req rows created" and "length rows = length (tq_LocalPort req)"
    and "\<not> list_ex (\<lambda>p. p < 1 \<or> p > 65535) (tq_LocalPort req)"
    and "find (\<lambda>p. p \<noteq> 0 \<and> (p < 1 \<or> p > 65535) \<or> rng \<and> p = 0) (tq_PublicPort req) = None"
    and "rng \<longleftrightarrow> length (tq_LocalPort req) > 1 \<or> length (tq_PublicPort req) > 1"
    and "rng \<longrightarrow> length (tq_LocalPort req) = length (tq_PublicPort req)"
    and "tq_PublicPort req \<noteq> []" and "t \<in> set rows"
  shows "port_ok (r_local_port t)"
    and "case r_public_port t of None \<Rightarrow> length rows = 1 | Some p \<Rightarrow> port_ok p"
proof -
  have "map r_local_port rows = tq_LocalPort req" using assms(1,2) by (simp add: made_def)
  then have "r_local_port t \<in> set (tq_LocalPort req)" using assms(8) by (metis image_eqI list.set_map)
  with assms(3) show "port_ok (r_local_port t)" by (auto simp: list_ex_iff port_ok_def not_less)
  obtain k where k: "k < length rows" "t = rows ! k" using assms(8) by (metis in_set_conv_nth)
  let ?pp = "nth_port (tq_PublicPort req) k"
  have "k < length (tq_PublicPort req)" if "1 < length (tq_PublicPort req)"
    using that assms(2,5,6) k(1) by simp
  then have pp: "?pp \<in> set (tq_PublicPort req)"
    using assms(7) by (simp add: nth_port_def)
  then have lim: "?pp = 0 \<or> port_ok ?pp" "rng \<Longrightarrow> ?pp \<noteq> 0"
    using assms(4) by (force simp: find_None_iff port_ok_def)+
  have t: "r_public_port t = (if 0 < ?pp then Some ?pp else None)"
    using assms(1) k by (simp add: made_def)
  have "length rows = 1" if "?pp = 0"
    using that lim(2) assms(2,5) k(1) by (cases "length rows") auto
  with t lim(1) show "case r_public_port t of None \<Rightarrow> length rows = 1 | Some p \<Rightarrow> port_ok p"
    by (auto simp: port_ok_def)
qed

lemma pass_ports:
  assumes "db_wf (as_db s)" and "d_open (as_db s)" and "tq_Protocol req \<noteq> []"
    and "\<not> (length (tq_LocalPort req) > 1 \<or> length (tq_PublicPort req) > 1)
           \<or> length (tq_LocalPort req) = length (tq_PublicPort req)"
  shows "triple (\<lambda>t. t = s) (create_tunnels E req base rng 0 (tq_LocalPort req) [])
    (\<lambda>created t. \<exists>rows. made s req rows created \<and> t = with_rows rows s
       \<and> length rows = length (tq_LocalPort req) \<and> (tq_PublicPort req = [] \<longrightarrow> rows = []))
    (\<lambda>t. t = s)"
  unfolding triple_def
proof (intro allI impI)
  fix t
  assume t: "t = s"
  obtain r s' where run: "create_tunnels E req base rng 0 (tq_LocalPort req) [] s = (r, s')"
    by fastforce
  have "case r of Inl _ \<Rightarrow> s' = s
    | Inr created' \<Rightarrow> \<exists>rows'. made s req rows' created' \<and> s' = with_rows rows' s
        \<and> length rows' = length ([] :: tunnel_row list) + length (tq_LocalPort req)"
    using assms(4) run by (intro create_tunnels_outcome [OF assms(1-3) _ made_nil [OF assms(1)]]) auto
  moreover have "tq_LocalPort req = []" if "tq_PublicPort req = []" "r = Inr c" for c
    using run that by (cases "tq_LocalPort req") (auto simp: failM_def Let_def)
  ultimately show "case create_tunnels E req base rng 0 (tq_LocalPort req) [] t of
      (Inl _, s') \<Rightarrow> s' = s | (Inr created, t) \<Rightarrow> \<exists>rows. made s req rows created
         \<and> t = with_rows rows s \<and> length rows = length (tq_LocalPort req)
         \<and> (tq_PublicPort req = [] \<longrightarrow> rows = [])"
    using run t by (cases r) auto
qed

lemma triple_pre: "triple P m Q I \<Longrightarrow> (\<And>s. P' s \<Longrightarrow> P s) \<Longrightarrow> triple P' m Q I"
  by (simp add: triple_def)

lemma triple_assume: "(\<And>s. P s \<Longrightarrow> triple (\<lambda>t. t = s) m Q I) \<Longrightarrow> triple P m Q I"
  by (simp add: triple_def)

lemma create_finish:
  assumes "db_wf (as_db s)" and "d_open (as_db s)"
    and "\<not> list_ex (\<lambda>p. p < 1 \<or> p > 65535) (tq_LocalPort req)"
    and "find (\<lambda>p. p \<noteq> 0 \<and> (p < 1 \<or> p > 65535) \<or> rng \<and> p = 0) (tq_PublicPort req) = None"
    and "rng \<longleftrightarrow> length (tq_LocalPort req) > 1 \<or> length (tq_PublicPort req) > 1"
    and "\<not> (rng \<and> length (tq_LocalPort req) \<noteq> length (tq_PublicPort req))"
    and "\<not> (tq_Protocol req \<noteq> ''tcp'' \<and> tq_Protocol req \<noteq> ''udp'')"
  shows "triple (\<lambda>t. t = s) (bindM (create_tunnels E req base rng 0 (tq_LocalPort req) []) (\<lambda>created.
      if rng then retM (writeJSON 201 (TunnelsBody created))
      else case created of [] \<Rightarrow> failM Panicked | c # _ \<Rightarrow> retM (writeJSON 201 (TunnelBody c))))
    (created_ok s) (\<lambda>t. t = s)"
proof (rule triple_bind, rule pass_ports [OF assms(1,2)])
  show "tq_Protocol req \<noteq> []" using assms(7) by auto
  show "\<not> (length (tq_LocalPort req) > 1 \<or> length (tq_PublicPort req) > 1)
      \<or> length (tq_LocalPort req) = length (tq_PublicPort req)" using assms(5,6) by auto
  fix created
  let ?rest = "(if rng then retM (writeJSON 201 (TunnelsBody created))
    else (case created of [] \<Rightarrow> failM Panicked | c # _ \<Rightarrow> retM (writeJSON 201 (TunnelBody c)))) :: response hm"
  show "triple (\<lambda>t. \<exists>rows. made s req rows created \<and> t = with_rows rows s
       \<and> length rows = length (tq_LocalPort req) \<and> (tq_PublicPort req = [] \<longrightarrow> rows = []))
    ?rest (created_ok s) (\<lambda>t. t = s)"
  proof (rule triple_assume, elim exE conjE)
    fix t rows
    assume m: "made s req rows created" and t: "t = with_rows rows s"
      and len: "length rows = length (tq_LocalPort req)" and pub: "tq_PublicPort req = [] \<longrightarrow> rows = []"
    have same: "length created = length rows" using m unfolding made_def by (metis length_map)
    show "triple (\<lambda>u. u = t) ?rest (created_ok s) (\<lambda>t. t = s)"
    proof (cases "rows = []")
      case True
      then have "\<not> rng" using assms(5,6) len by auto
      with True same t show ?thesis by (simp add: triple_fail)
    next
      case False
      then have "created_ok s (writeJSON 201 (TunnelsBody created)) t"
        "created_ok s (writeJSON 201 (TunnelBody (hd created))) t"
        using m t len pub assms(6,7) made_ports [OF m len assms(3,4,5)]
        unfolding created_ok_def by blast+
      with False same show ?thesis by (cases created) (auto intro: triple_ret)
    qed
  qed
qed

lemma handleCreateTunnel_triple:
  assumes "db_wf (as_db s)" and "d_open (as_db s)"
  shows "triple (\<lambda>t. t = s) (handleCreateTunnel E body) (created_ok s) (\<lambda>t. t = s)"
proof -
  have final: "triple (\<lambda>u. u = t) (bindM (create_tunnels E req base rng 0 (tq_LocalPort req) []) (\<lambda>created.
      if rng then retM (writeJSON 201 (TunnelsBody created))
      else case created of [] \<Rightarrow> failM Panicked | c # _ \<Rightarrow> retM (writeJSON 201 (TunnelBody c))))
    (created_ok s) (\<lambda>t. t = s)"
    if "t = s" and "\<not> (tq_Protocol req \<noteq> ''tcp'' \<and> tq_Protocol req \<noteq> ''udp'')"
      and "rng = (length (tq_LocalPort req) > 1 \<or> length (tq_PublicPort req) > 1)"
      and "\<not> (rng \<and> length (tq_LocalPort req) \<noteq> length (tq_PublicPort req))"
      and "\<not> list_ex (\<lambda>p. p < 1 \<or> p > 65535) (tq_LocalPort req)"
      and "find (\<lambda>p. p \<noteq> 0 \<and> (p < 1 \<or> p > 65535) \<or> rng \<and> p = 0) (tq_PublicPort req) = None"
    for t req rng base
    unfolding that(1) by (rule create_finish [OF assms that(5,6,3,4,2)])
  show ?thesis
    unfolding handleCreateTunnel_def GetClientByID_def
    by (rule triple_bind, rule passing, (simp; fail)?)+
       (rule triple_assume, elim conjE, rule final; assumption)
qed

section \<open>Statements that completed\<close>

text \<open>What it means that a statement went through, to be used after \<open>elim bindM_InrE\<close>.\<close>

named_theorems went \<open>completed statements\<close>

lemma went_basic [went]:
  "readJSON b s = (Inr r, s') \<longleftrightarrow> b = Some r \<and> s' = s"
  "guardM c x s = (Inr u, s') \<longleftrightarrow> \<not> c \<and> s' = s"
  "retM y s = (Inr r2, s') \<longleftrightarrow> r2 = y \<and> s' = s"
  "getS f s = (Inr r3, s') \<longleftrightarrow> r3 = f s \<and> s' = s"
  "modS g s = (Inr u2, s') \<longleftrightarrow> s' = g s"
  "failM x2 s = (Inr r4, s') \<longleftrightarrow> False"
  by (auto simp: readJSON_def guardM_def retM_def getS_def modS_def failM_def split: option.split)

lemma went_call [went]:
  "callDB err m s = (Inr x, s') \<longleftrightarrow> (\<exists>d. m (as_db s) = (Inr x, d) \<and> s' = put_db d s)"
  by (auto simp: callDB_def split: prod.splits sum.splits)

lemma UpdateTunnelSettings_Inr:
  assumes "UpdateTunnelSettings tid l h p d = (Inr u, d')"
  shows "d_open d'" "find (\<lambda>t. r_id t = tid) (d_tunnels d') = map_option
      (\<lambda>t. t\<lparr>r_traffic_limit := l, r_public_hostname := h, r_proxy_protocol := p\<rparr>)
      (find (\<lambda>t. r_id t = tid) (d_tunnels d))"
  using assms find_upd_where_same [of r_id "\<lambda>t. t\<lparr>r_traffic_limit := l, r_public_hostname := h,
      r_proxy_protocol := p\<rparr>" tid "d_tunnels d"]
  by (auto simp: UpdateTunnelSettings_def update_tunnels_def bindM_def execM_def requireRow_def
      failM_def retM_def split: if_splits)

lemma settings_outcome:
  assumes "handleUpdateTunnelSettings E tid (Some req) s = (Inr r, s')"
  obtains row where "find (\<lambda>t. r_id t = tid) (d_tunnels (as_db s')) = Some row" "d_open (as_db s')"
    "r_public_hostname row = TrimSpace (ToLower (ev_lower E) (sq_PublicHostname req))"
    "r = writeJSON 200 (TunnelBody (toTunnelView (scanTunnel row)))"
proof -
  let ?h = "TrimSpace (ToLower (ev_lower E) (sq_PublicHostname req))"
  from assms obtain s1 u d t where u: "UpdateTunnelSettings tid (sq_TrafficLimitBytes req) ?h
        (sq_ProxyProtocol req) (as_db s1) = (Inr u, d)"
    and t: "GetTunnelByID tid d = (Inr t, as_db s')"
      "r = writeJSON 200 (TunnelBody (toTunnelView t))"
    unfolding handleUpdateTunnelSettings_def
    by (elim bindM_InrE) (auto simp: went)
  have d: "as_db s' = d" "d_open d" using t(1) by (auto simp: GetTunnelByID_def queryM_def split: if_splits)
  with t obtain row where row: "find (\<lambda>t. r_id t = tid) (d_tunnels d) = Some row" "t = scanTunnel row"
    by (auto simp: GetTunnelByID_def queryM_def row_or_err_def split: if_splits option.splits)
  then have "r_public_hostname row = ?h"
    using UpdateTunnelSettings_Inr(2) [OF u] by auto
  with row d t that show thesis by auto
qed

section \<open>Concrete requests\<close>

definition example_site :: "db \<Rightarrow> apiserver" where
  "example_site d = example_installed\<lparr>as_ts := NewServer d\<rparr>"

lemma example_site_db [simp]: "as_db (example_site d) = d" "ts_listeners (as_ts (example_site d)) = []"
  by (simp_all add: example_site_def NewServer_def)

lemma example_site_ok:
  assumes "db_wf d" and "d_open d" and "d_admins d = []" and "d_settings d = Map.empty"
    and "distinct (hostnames d)"
  shows "api_ok (example_site d)"
proof -
  have "server_ok (NewServer d)"
    using NewServer_ok [of d] assms(1)
    by (simp add: server_ok_def NewServer_def listeners_ok_def counters_ok_def mark_ok_def)
  with assms(2-5) example_installed_db show ?thesis
    by (simp add: api_ok_def front_ok_def accounts_ok_def example_site_def NewServer_def)
qed

lemma example_db_site: "api_ok (example_site example_db)"
  by (rule example_site_ok [OF example_db_wf])
     (simp_all add: example_db_def fresh_db_def hostnames_def example_tunnel_def)

definition example_body :: createTunnelBody where
  "example_body = \<lparr>tb_ClientID = ''c1'', tb_Name = ''game'', tb_Protocol = [], tb_LocalHost = [],
     tb_LocalPort = Some (PortNumber 25565), tb_PublicPort = Some (PortNumber 25570)\<rparr>"

lemma example_trims:
  "TrimSpace ''game'' = ''game''" "TrimSpace [] = []" "TrimSpace ''play.example'' = ''play.example''"
  by (simp_all add: TrimSpace_visible visible_def)

lemma example_created:
  "\<exists>r s'. handleCreateTunnel example_env (Some example_body) (example_site example_db) = (Inr r, s')"
  by (simp add: handleCreateTunnel_def hm_simps example_body_def decodeCreateTunnel_def
      decodePort_def portSpec_def in_int64_def example_trims GetClientByID_def row_or_err_def
      ProbePublicPort_def listen_def tryDB_def CreateTunnel_def insert_tunnel_def execM_def Let_def
      example_env_def example_db_def example_tunnel_def fresh_db_def writeJSON_def
      nth_port_def)

definition example_settings :: updateTunnelSettingsRequest where
  "example_settings = \<lparr>sq_TrafficLimitBytes = None, sq_PublicHostname = ''Play.Example'',
     sq_ProxyProtocol = False\<rparr>"

definition example_hostless_db :: db where
  "example_hostless_db = example_db\<lparr>d_tunnels :=
     [example_mc_tunnel\<lparr>r_public_hostname := [], r_traffic_limit := None\<rparr>]\<rparr>"

lemma example_settings_saved:
  "\<exists>s'. handleUpdateTunnelSettings example_env ''t3'' (Some example_settings)
     (example_site example_hostless_db)
   = (Inr (writeJSON 200 (TunnelBody (toTunnelView (scanTunnel
       (example_mc_tunnel\<lparr>r_traffic_limit := None\<rparr>))))), s')"
proof -
  have "TrimSpace (ToLower id ''Play.Example'') = ''play.example''"
    using example_lower example_trims(3) by (simp add: ToLower_def is_ascii_def)
  then show ?thesis
    by (simp add: handleUpdateTunnelSettings_def hm_simps example_settings_def example_env_def
        HostnameTaken_def tryDB_def queryM_def UpdateTunnelSettings_def update_tunnels_def execM_def
        callDB_def requireRow_def GetTunnelByID_def row_or_err_def count_where_def upd_where_def
        example_hostless_db_def example_db_def example_mc_tunnel_def example_tunnel_def
        fresh_db_def put_db_def)
qed

lemma example_hostless_site: "api_ok (example_site example_hostless_db)"
proof (rule example_site_ok)
  show "db_wf example_hostless_db"
    by (simp add: example_hostless_db_def example_mc_tunnel_def example_db_def example_tunnel_def
        db_wf_def fresh_db_def admins_ok_def clients_ok_def tunnels_ok_def ports_ok_def
        samples_ok_def codes_ok_def keys_ok_def)
qed (simp_all add: example_hostless_db_def example_db_def fresh_db_def hostnames_def)

section \<open>Properties\<close>

text \<open>
  C11. Creating tunnels is all or nothing. If a creation request is answered with an error, or its
  handler panics, the server is exactly as it was, rows inserted earlier in the same request
  included; if it completes, it has appended one row per local port, in order, with the local and
  public ports of the request (in 1..65535, none only for a single tunnel), fresh identifiers,
  enabled and owned by the named machine, and nothing else has changed.
\<close>

theorem create_tunnel_atomic:
  assumes "api_ok s"
  shows "case handleCreateTunnel E body s of
      (Inl r, s') \<Rightarrow> s' = s
    | (Inr r, s') \<Rightarrow> created_ok s r s'"
  using handleCreateTunnel_triple [OF api_okD(2,3) [OF assms], of E body] by (simp add: triple_def)

theorem create_tunnel_atomic_witness:
  "\<exists>r s'. handleCreateTunnel example_env (Some example_body) (example_site example_db) = (Inr r, s')
     \<and> created_ok (example_site example_db) r s'"
  using create_tunnel_atomic [OF example_db_site, of example_env "Some example_body"]
    example_created by auto

text \<open>
  A request without ports crashes its handler. With a known machine and everything else
  valid, a body that leaves out \<open>public_port\<close>, or both ports, makes the handler panic instead of
  answering an error.
\<close>

theorem create_tunnel_missing_port:
  assumes "d_open (as_db s)" and "find (\<lambda>c. c_ID c = tb_ClientID b) (d_clients (as_db s)) \<noteq> None"
    and "tb_ClientID b \<noteq> []" and "tb_Protocol b \<in> {[], ''tcp'', ''udp''}"
    and "tb_PublicPort b = None"
    and "tb_LocalPort b \<in> {None, Some (PortNumber lp)}" and "port_ok lp"
  shows "handleCreateTunnel E (Some b) s = (Inl Panicked, s)"
proof -
  obtain lps where lps: "decodePort (tb_LocalPort b) = Some lps" "lps \<in> {[], [lp]}"
    using assms(6,7) by (auto simp: decodePort_def portSpec_def port_ok_def in_int64_def)
  obtain c where c: "find (\<lambda>c. c_ID c = tb_ClientID b) (d_clients (as_db s)) = Some c"
    using assms(2) by auto
  from assms(5) have "decodePort (tb_PublicPort b) = Some []" by (simp add: decodePort_def)
  with lps c assms(1,3,4,7) show ?thesis
    by (auto simp: handleCreateTunnel_def decodeCreateTunnel_def hm_simps GetClientByID_def
        row_or_err_def port_ok_def Let_def)
qed

theorem create_tunnel_missing_port_witness:
  "handleCreateTunnel example_env (Some (example_body\<lparr>tb_PublicPort := None\<rparr>)) (example_site example_db)
     = (Inl Panicked, example_site example_db)"
  by (rule create_tunnel_missing_port [where lp = 25565])
     (simp_all add: example_body_def example_db_def fresh_db_def port_ok_def)

lemma handshake_route_name:
  assumes "stream c = buildHandshake pv (bytes_of (h @ dot @ tail)) port ns @ extra"
    and "length (h @ dot @ tail) \<le> 255" and "is_ascii h" and "CHR 0x00 \<notin> set h" and "\<not> HasSuffix h ''.''"
    and "h \<noteq> []" and "dot = [] \<or> dot = ''.''" and "tail = [] \<or> hd tail = CHR 0x00"
    and "handleMinecraftConn ul c d = McProxied t rep"
  shows "\<exists>row\<in>set (d_tunnels d). t = scanTunnel row \<and> r_public_hostname row = map lower_char h"
proof -
  have "fst (readHandshakeAddress str_ReadByte (stream c, conn_end c)) = Inr (bytes_of (h @ dot @ tail))"
    using readHandshakeAddress_build [of "bytes_of (h @ dot @ tail)" pv port ns extra "conn_end c"]
      assms(2) by (simp add: assms(1) del: append.assoc)
  then obtain rep' where "peekMinecraftHostname ul c = Inr (map lower_char h, rep')"
    using peek_stream [of ul c] handshake_hostname_spelling [OF assms(3,4,5,7,8)] assms(6) by auto
  with assms(9) show ?thesis
    by (auto simp: handleMinecraftConn_def GetTunnelByHostname_def queryM_def row_or_err_def
        split: if_splits sum.splits option.splits dest!: find_Some_in)
qed

text \<open>
  C15. A saved hostname is routed, unless it was saved with a trailing dot. After the settings of an
  enabled TCP tunnel were saved with an ASCII public hostname, a Minecraft handshake that names it, in any
  upper or lower case, with or without a trailing dot or a mod's suffix, is proxied to that very tunnel
  with no byte lost. When the name was saved with a dot at its end, no such handshake, with the dot or
  without, reaches the tunnel.
\<close>

theorem saved_hostname_routed:
  assumes "api_ok s"
    and "handleUpdateTunnelSettings E tid (Some req) s = (Inr r, s')"
    and "r = writeJSON 200 (TunnelBody v)" and "tv_Enabled v" and "tv_Protocol v = ''tcp''"
    and "map lower_char h @ saved_dot = TrimSpace (ToLower (ev_lower E) (sq_PublicHostname req))"
    and "stream c = buildHandshake pv (bytes_of (h @ dot @ tail)) port ns @ extra"
    and "length (h @ dot @ tail) \<le> 255"
    and "is_ascii h" and "CHR 0x00 \<notin> set h" and "\<not> HasSuffix h ''.''" and "h \<noteq> []"
    and "dot = [] \<or> dot = ''.''" and "tail = [] \<or> hd tail = CHR 0x00"
    and "saved_dot = [] \<or> saved_dot = ''.''"
  shows "if saved_dot = []
    then \<exists>t rep. handleMinecraftConn ul c (as_db s') = McProxied t rep \<and> t_ID t = tid \<and> stream rep = stream c
    else \<forall>t rep. handleMinecraftConn ul c (as_db s') = McProxied t rep \<longrightarrow> t_ID t \<noteq> tid"
proof -
  obtain row where row: "find (\<lambda>t. r_id t = tid) (d_tunnels (as_db s')) = Some row"
    and op: "d_open (as_db s')" and h: "r_public_hostname row = map lower_char h @ saved_dot"
    and r: "r = writeJSON 200 (TunnelBody (toTunnelView (scanTunnel row)))"
    using assms(2) by (rule settings_outcome) (use assms(6) in simp)
  have v: "r_enabled row" "r_protocol row = ''tcp''"
    using r assms(3-5) by (simp_all add: writeJSON_def toTunnelView_def scanTunnel_def)
  have in_ts: "row \<in> set (d_tunnels (as_db s'))" "r_id row = tid" using find_Some_in [OF row] by auto
  have ok: "api_ok s'"
    using keepsD [OF keeps_handleUpdateTunnelSettings assms(1), of E tid "Some req"] assms(2) by simp
  then have hosts: "distinct (hostnames (as_db s'))" by (simp add: api_ok_def)
  show ?thesis
  proof (cases "saved_dot = []")
    case True
    note h = h [unfolded True append_Nil2]
    have "map lower_char h \<noteq> []" using assms(12) by simp
    have found: "find (\<lambda>t. r_public_hostname t = map lower_char h \<and> r_enabled t) (d_tunnels (as_db s'))
        = Some row"
    proof (rule find_unique [OF in_ts(1)])
      show "r_public_hostname row = map lower_char h \<and> r_enabled row" using h v(1) ..
      fix u
      assume "u \<in> set (d_tunnels (as_db s'))" "r_public_hostname u = map lower_char h \<and> r_enabled u"
      with \<open>map lower_char h \<noteq> []\<close> h show "u = row"
        by (intro hostnames_unique [OF hosts in_ts(1)]) simp_all
    qed
    with v(2) obtain rep where "handleMinecraftConn ul c (as_db s') = McProxied (scanTunnel row) rep"
      "stream rep = stream c"
      using route_handshake [OF assms(7-14) op found, of ul] by auto
    moreover have "t_ID (scanTunnel row) = tid" using in_ts(2) by (simp add: scanTunnel_def)
    ultimately show ?thesis using True by auto
  next
    case False
    have ids: "distinct (map r_id (d_tunnels (as_db s')))"
      using db_wfD(3) [OF api_okD(2) [OF ok]] by (simp add: tunnels_ok_def)
    have "t_ID t \<noteq> tid" if "handleMinecraftConn ul c (as_db s') = McProxied t rep" for t rep
    proof
      assume "t_ID t = tid"
      with handshake_route_name [OF assms(7-14) that] obtain u where u: "u \<in> set (d_tunnels (as_db s'))"
        "r_id u = tid" "r_public_hostname u = map lower_char h"
        by (auto simp: scanTunnel_def)
      with ids in_ts have "u = row" by (auto simp: distinct_map dest: inj_onD)
      with u(3) h False show False by simp
    qed
    with False show ?thesis by simp
  qed
qed

theorem saved_hostname_routed_witness:
  "\<exists>s' t rep. handleMinecraftConn id example_conn (as_db s') = McProxied t rep \<and> t_ID t = ''t3''
     \<and> stream rep = stream example_conn"
proof -
  let ?v = "toTunnelView (scanTunnel (example_mc_tunnel\<lparr>r_traffic_limit := None\<rparr>))"
  obtain s' where s': "handleUpdateTunnelSettings example_env ''t3'' (Some example_settings)
      (example_site example_hostless_db) = (Inr (writeJSON 200 (TunnelBody ?v)), s')"
    using example_settings_saved by blast
  have "tv_Enabled ?v" "tv_Protocol ?v = ''tcp''"
    by (simp_all add: toTunnelView_def scanTunnel_def example_mc_tunnel_def example_tunnel_def)
  moreover have "map lower_char ''Play.Example'' @ []
      = TrimSpace (ToLower (ev_lower example_env) (sq_PublicHostname example_settings))"
    using example_lower example_trims(3)
    by (simp add: example_settings_def ToLower_def is_ascii_def)
  ultimately have "if [] = ([] :: string)
      then \<exists>t rep. handleMinecraftConn id example_conn (as_db s') = McProxied t rep
        \<and> t_ID t = ''t3'' \<and> stream rep = stream example_conn
      else \<forall>t rep. handleMinecraftConn id example_conn (as_db s') = McProxied t rep \<longrightarrow> t_ID t \<noteq> ''t3''"
    by (rule saved_hostname_routed [OF example_hostless_site s' refl _ _ _ example_stream
          example_hyps(1-7) disjI1 [OF refl]])
  then show ?thesis by auto
qed

end
