(* ===== verification/ApiAuthProps.thy ===== *)
theory ApiAuthProps
imports ApiTunnelProps
begin

text \<open>
  Who may do what, and for how long: the authorization decision of every route, the life of a
  session, the bootstrap of the admin account, the factory reset and the onboarding of a machine,
  each from the request to its effect on the components behind it.
\<close>

section \<open>The session table\<close>

text \<open>A statement of a handler that leaves one entry of the session table in \<open>A\<close>.\<close>

definition entry_in :: "string \<Rightarrow> sessionInfo option set \<Rightarrow> apiserver \<Rightarrow> bool" where
  "entry_in token A s \<longleftrightarrow> as_sessions s token \<in> A"

lemma entry_call [keeps_intros]: "keeps (entry_in tok A) (callDB err m)"
  by (rule keeps_callDB) (simp add: entry_in_def)

lemma entry_try [keeps_intros]: "keeps (entry_in tok A) (tryDB m)"
  by (rule keeps_tryDB) (simp add: entry_in_def)

lemma entry_ts [keeps_intros]: "keeps (entry_in tok A) (tsM f)"
  by (rule keeps_tsM) (simp add: entry_in_def)

lemma entry_modS:
  "(\<And>s. as_sessions (f s) = as_sessions s) \<Longrightarrow> keeps (entry_in tok A) (modS f)"
  by (rule keeps_modS) (simp add: entry_in_def)

lemma rollback_sessions [simp]: "as_sessions (rollback created s) = as_sessions s"
  by (induction created arbitrary: s) (simp_all add: rollback_def)

lemma hooks_sessions [simp]:
  "as_sessions (OnAdminClaimed E s) = as_sessions s" "as_sessions (OnFactoryReset E s) = as_sessions s"
  "as_sessions (setDomain d s) = as_sessions s" "as_sessions (SetCertState a b s) = as_sessions s"
  by (simp_all add: OnAdminClaimed_def OnFactoryReset_def setDomain_def SetCertState_def
      split: prod.split)

lemma entry_create_tunnels [keeps_intros]:
  "keeps (entry_in tok A) (create_tunnels E req base rng i lps created)"
proof (induction lps arbitrary: rng i created)
  case (Cons lp lps)
  show ?case
    by (auto intro!: keeps_bind keeps_getS entry_modS keeps_fail entry_try Cons.IH simp: Let_def
        split: sum.split)
qed (simp add: keeps_ret)

lemma entry_issueInstall [keeps_intros]: "keeps (entry_in tok A) (issueInstall E n c t)"
  unfolding issueInstall_def by (intro keeps_intros)

lemma entry_handlers [keeps_intros]:
  "keeps (entry_in tok A) handleMe" "keeps (entry_in tok A) handleBootstrapStatus"
  "keeps (entry_in tok A) handleServerInfo" "keeps (entry_in tok A) handleListAPIKeys"
  "keeps (entry_in tok A) (handleDeleteAPIKey kid)" "keeps (entry_in tok A) handleSetupStatus"
  "keeps (entry_in tok A) (handleListTunnels c)" "keeps (entry_in tok A) (handleDeleteTunnel tid)"
  "keeps (entry_in tok A) (handleTunnelTraffic E tid v)" "keeps (entry_in tok A) handleListClients"
  "keeps (entry_in tok A) (handleListClientDevices cid)"
  "keeps (entry_in tok A) (handleReissueInstall E cid)"
  "keeps (entry_in tok A) (handleUpdateClientSettings cid b2)"
  "keeps (entry_in tok A) (handleInstallScript E q code)"
  "keeps (entry_in tok A) (handleDownloadClient key)"
  "keeps (entry_in tok A) (handleDownloadClientChecksum key)"
  "keeps (entry_in tok A) (handleDeleteClient E cid)"
  unfolding handleMe_def handleBootstrapStatus_def handleServerInfo_def handleListAPIKeys_def
    handleDeleteAPIKey_def handleSetupStatus_def handleListTunnels_def handleDeleteTunnel_def
    handleTunnelTraffic_def handleListClients_def handleListClientDevices_def
    handleReissueInstall_def handleUpdateClientSettings_def handleInstallScript_def
    writeInstallBlockedPage_def handleDownloadClient_def handleDownloadClientChecksum_def
    handleDeleteClient_def
  by (intro keeps_intros | simp)+

lemma entry_handlers2 [keeps_intros]:
  "keeps (entry_in tok A) (handleCreateAPIKey E b)" "keeps (entry_in tok A) (handleCreateClient E b1)"
  "keeps (entry_in tok A) (handleEnrollExchange E b3)"
  "keeps (entry_in tok A) (handleUpdateTunnel E tid b4)"
  "keeps (entry_in tok A) (handleUpdateTunnelSettings E tid b5)"
  "keeps (entry_in tok A) (handleChangeCredentials E b6)"
  unfolding handleCreateAPIKey_def handleCreateClient_def handleEnrollExchange_def
    handleUpdateTunnel_def handleUpdateTunnelSettings_def handleChangeCredentials_def
  by (intro keeps_intros | simp)+

lemma entry_update_handlers [keeps_intros]:
  "keeps (entry_in tok A) (handleLiveWS E0)" "keeps (entry_in tok A) handleUpdateStatus"
  "keeps (entry_in tok A) (handleCheckUpdate E)" "keeps (entry_in tok A) (handleApplyUpdate E1)"
  "keeps (entry_in tok A) (handleUpdateProgress E2)"
proof -
  have "keeps (entry_in tok A) (ApplyUpdate E1)"
    by (auto simp: keeps_def ApplyUpdate_def entry_in_def split: prod.split)
  moreover have "keeps (entry_in tok A) (modS (SetUpdateStatus status))" for status
    by (rule keeps_modS) (simp add: SetUpdateStatus_def entry_in_def)
  ultimately show "keeps (entry_in tok A) (handleLiveWS E0)" "keeps (entry_in tok A) handleUpdateStatus"
    "keeps (entry_in tok A) (handleCheckUpdate E)" "keeps (entry_in tok A) (handleApplyUpdate E1)"
    "keeps (entry_in tok A) (handleUpdateProgress E2)"
    unfolding handleLiveWS_def handleUpdateStatus_def handleCheckUpdate_def handleApplyUpdate_def
      handleUpdateProgress_def
    by (intro keeps_intros | simp add: keeps_ret keeps_fail split: sum.split option.split)+
qed

lemma entry_handleCreateTunnel [keeps_intros]: "keeps (entry_in tok A) (handleCreateTunnel E b)"
  unfolding handleCreateTunnel_def
  by (intro keeps_intros | simp add: keeps_ret keeps_fail split: option.split list.split)+

lemma entry_handleSetDomain [keeps_intros]: "keeps (entry_in tok A) (handleSetDomain E b)"
  unfolding handleSetDomain_def by (intro keeps_intros entry_modS | simp)+

text \<open>The requests that write it.\<close>

lemma entry_session:
  "randomHex 32 (ev_rand E 0) \<noteq> tok
   \<Longrightarrow> keeps (entry_in tok A) (modS (\<lambda>s. snd (createSession E x s)))"
  by (rule keeps_modS) (simp add: entry_in_def createSession_def Let_def)

lemma entry_claimed [keeps_intros]: "keeps (entry_in tok A) (modS (OnAdminClaimed E))"
  by (rule entry_modS) simp

lemmas entry_rules = keeps_bind keeps_readJSON entry_call entry_try entry_ts keeps_guardM
  keeps_option keeps_fail keeps_getS keeps_ret

lemma entry_login [keeps_intros]:
  assumes "randomHex 32 (ev_rand E 0) \<noteq> tok"
  shows "keeps (entry_in tok A) (handleLogin E b)" "keeps (entry_in tok A) (handleBootstrapClaim E b')"
  unfolding handleLogin_def handleBootstrapClaim_def
  by (rule entry_rules entry_claimed entry_session [OF assms])+

lemma entry_logout [keeps_intros]:
  assumes "None \<in> A \<or> hq_Cookie q \<noteq> Some tok"
  shows "keeps (entry_in tok A) (handleLogout q)"
  unfolding handleLogout_def
  by (intro keeps_bind keeps_modS keeps_ret)
     (use assms in \<open>auto simp: entry_in_def destroySession_def split: option.split\<close>)

lemma entry_reset [keeps_intros]:
  assumes "None \<in> A"
  shows "keeps (entry_in tok A) (handleFactoryReset E b)"
proof -
  have clear: "keeps (entry_in tok A) (modS clearAllSessions)"
    using assms by (intro keeps_modS) (simp add: entry_in_def clearAllSessions_def)
  show ?thesis
    unfolding handleFactoryReset_def
    by (rule entry_rules clear | rule entry_modS, simp)+
qed

lemma entry_sessionAdminID:
  assumes "None \<in> A \<or> (\<exists>info. A = {Some info} \<and> ev_now E \<le> si_expires info)"
  shows "entry_in tok A s \<Longrightarrow> entry_in tok A (snd (sessionAdminID E q s))"
  using assms by (auto simp: entry_in_def sessionAdminID_def destroySession_def split: option.split)

lemma entry_requireAuth:
  assumes "None \<in> A \<or> (\<exists>info. A = {Some info} \<and> ev_now E \<le> si_expires info)"
    and "keeps (entry_in tok A) m"
  shows "keeps (entry_in tok A) (requireAuth E q m)" "keeps (entry_in tok A) (requireAuthOrAPIKey E q m)"
proof -
  have put: "entry_in tok A (put_db d s) = entry_in tok A s" for d s by (simp add: entry_in_def)
  show "keeps (entry_in tok A) (requireAuth E q m)"
  proof (rule keepsI)
    fix s assume "entry_in tok A s"
    with entry_sessionAdminID [OF assms(1)] have "entry_in tok A (snd (sessionAdminID E q s))" .
    with keepsD [OF keeps_finish [OF assms(2)]] show "entry_in tok A (snd (requireAuth E q m s))"
      by (auto simp: requireAuth_def split: prod.split option.split)
  qed
  show "keeps (entry_in tok A) (requireAuthOrAPIKey E q m)"
  proof (rule keepsI)
    fix s assume "entry_in tok A s"
    with entry_sessionAdminID [OF assms(1)] have "entry_in tok A (snd (sessionAdminID E q s))" .
    with keepsD [OF keeps_finish [OF assms(2)]] put
    show "entry_in tok A (snd (requireAuthOrAPIKey E q m s))"
      by (auto simp: requireAuthOrAPIKey_def split: prod.split option.split)
  qed
qed

text \<open>Which requests can end the session of a token, and which can start one.\<close>

fun ends_session :: "string \<Rightarrow> request \<Rightarrow> endpoint \<Rightarrow> bool" where
  "ends_session token q PostLogout = (hq_Cookie q = Some token)"
| "ends_session token q (PostFactoryReset b) = True"
| "ends_session token q e = False"

definition draws_token :: "string \<Rightarrow> env \<Rightarrow> bool" where
  "draws_token token E \<longleftrightarrow> randomHex 32 (ev_rand E 0) = token"

lemma entry_mux:
  assumes "\<not> draws_token tok E"
    and "None \<in> A \<or> (\<exists>info. A = {Some info} \<and> ev_now E \<le> si_expires info \<and> \<not> ends_session tok q e)"
  shows "keeps (entry_in tok A) (mux E q e)"
proof -
  have A: "None \<in> A \<or> (\<exists>info. A = {Some info} \<and> ev_now E \<le> si_expires info)" using assms(2) by blast
  have draw: "randomHex 32 (ev_rand E 0) \<noteq> tok" using assms(1) by (simp add: draws_token_def)
  show ?thesis
    using assms(2)
    by (cases e) (auto intro!: keeps_finish entry_requireAuth [OF A] entry_login [OF draw] entry_logout
        entry_reset entry_handlers entry_handlers2 entry_update_handlers entry_handleCreateTunnel entry_handleSetDomain)
qed

text \<open>A sequence of requests, each with its own moment and random draws.\<close>

fun serve :: "(env \<times> request \<times> endpoint) list \<Rightarrow> apiserver \<Rightarrow> apiserver" where
  "serve [] s = s"
| "serve ((E, q, e) # rs) s = serve rs (snd (Router E q e s))"

lemma serve_entry:
  assumes "list_all (\<lambda>(E, q, e). \<not> draws_token tok E \<and> (None \<in> A
      \<or> (\<exists>info. A = {Some info} \<and> ev_now E \<le> si_expires info \<and> \<not> ends_session tok q e))) rs"
    and "entry_in tok A s"
  shows "entry_in tok A (serve rs s)"
  using assms
proof (induction rs arbitrary: s)
  case (Cons x rs)
  obtain E q e where x: "x = (E, q, e)" by (cases x)
  then have "keeps (entry_in tok A) (mux E q e)" using Cons.prems(1) by (intro entry_mux) auto
  then have "entry_in tok A (snd (Router E q e s))"
    using Cons.prems(2) by (cases "mux E q e s") (auto simp: keeps_def Router_def withCORS_def Let_def
        dest: spec [of _ s])
  with Cons x show ?case by simp
qed simp

section \<open>Authorization\<close>

text \<open>
  The policy stated in the comments of \<open>Router\<close>: what needs no credentials, and what an API key
  suffices for; everything else needs an admin session.
\<close>

fun public_endpoint :: "endpoint \<Rightarrow> bool" where
  "public_endpoint (PostLogin b) = True"
| "public_endpoint PostLogout = True"
| "public_endpoint GetBootstrapStatus = True"
| "public_endpoint (PostBootstrapClaim b) = True"
| "public_endpoint (GetInstallScript c) = True"
| "public_endpoint (GetDownload k) = True"
| "public_endpoint (GetDownloadChecksum k) = True"
| "public_endpoint (PostEnrollExchange b) = True"
| "public_endpoint GetUpdateProgress = True"
| "public_endpoint e = False"

fun key_endpoint :: "endpoint \<Rightarrow> bool" where
  "key_endpoint GetServerInfo = True"
| "key_endpoint GetClients = True"
| "key_endpoint (GetTunnels c) = True"
| "key_endpoint (PostTunnels b) = True"
| "key_endpoint (PatchTunnel i b) = True"
| "key_endpoint (PatchTunnelSettings i b) = True"
| "key_endpoint (DeleteTunnelAt i) = True"
| "key_endpoint e = False"

definition live_session :: "env \<Rightarrow> request \<Rightarrow> apiserver \<Rightarrow> bool" where
  "live_session E q s \<longleftrightarrow> (\<exists>token info. hq_Cookie q = Some token
     \<and> as_sessions s token = Some info \<and> ev_now E \<le> si_expires info)"

definition valid_key :: "env \<Rightarrow> request \<Rightarrow> apiserver \<Rightarrow> bool" where
  "valid_key E q s \<longleftrightarrow> (\<exists>token k. hq_Authorization q = ''Bearer '' @ token
     \<and> HasPrefix token ''ptly_api_'' \<and> k \<in> set (d_api_keys (as_db s))
     \<and> k_TokenHash k = HashToken (ev_sha E) token)"

lemma live_session_iff: "live_session E q s \<longleftrightarrow> fst (sessionAdminID E q s) \<noteq> None"
  by (auto simp: live_session_def sessionAdminID_def not_le split: option.splits)

text \<open>All that a refused lookup changes: an expired session is removed.\<close>

definition expired_removed :: "env \<Rightarrow> request \<Rightarrow> apiserver \<Rightarrow> apiserver \<Rightarrow> bool" where
  "expired_removed E q s s' \<longleftrightarrow> s' = s
     \<or> (\<exists>token info. hq_Cookie q = Some token \<and> as_sessions s token = Some info
          \<and> si_expires info < ev_now E \<and> s' = s\<lparr>as_sessions := (as_sessions s)(token := None)\<rparr>)"

lemma refused_session:
  assumes "\<not> live_session E q s"
  obtains t where "sessionAdminID E q s = (None, t)" "expired_removed E q s t"
proof
  show "sessionAdminID E q s = (None, snd (sessionAdminID E q s))"
    using assms by (simp add: live_session_iff prod_eq_iff)
  have "destroySession token s = s" if "as_sessions s token = None" for token
    using that by (simp add: destroySession_def fun_upd_idem)
  with assms show "expired_removed E q s (snd (sessionAdminID E q s))"
    by (auto simp: sessionAdminID_def destroySession_def expired_removed_def split: option.split)
qed

lemma prefix_TrimPrefix: "HasPrefix s p \<Longrightarrow> s = p @ TrimPrefix s p"
  unfolding TrimPrefix_def HasPrefix_def by (metis append_take_drop_id)

lemma apiKey_valid:
  assumes "apiKeyFromRequest E q t = Some k" and "as_ts t = as_ts s"
  shows "valid_key E q s"
proof -
  have p: "HasPrefix (hq_Authorization q) ''Bearer ''"
    "HasPrefix (TrimPrefix (hq_Authorization q) ''Bearer '') ''ptly_api_''"
    using assms(1) by (auto simp: apiKeyFromRequest_def Let_def split: if_splits)
  moreover have "hq_Authorization q = ''Bearer '' @ TrimPrefix (hq_Authorization q) ''Bearer ''"
    using p(1) by (rule prefix_TrimPrefix)
  moreover have "k \<in> set (d_api_keys (as_db s))
      \<and> k_TokenHash k = HashToken (ev_sha E) (TrimPrefix (hq_Authorization q) ''Bearer '')"
    using assms p by (auto simp: apiKeyFromRequest_def Let_def GetAPIKeyByHash_def queryM_def
        row_or_err_def split: if_splits sum.splits option.splits dest!: find_Some_in)
  ultimately show ?thesis unfolding valid_key_def by blast
qed

definition refused :: "env \<Rightarrow> request \<Rightarrow> apiserver \<Rightarrow> response \<Rightarrow> apiserver \<Rightarrow> bool" where
  "refused E q s r s' \<longleftrightarrow> r = writeError 401 (Msg ''not authenticated'') \<and> expired_removed E q s s'"

lemma requireAuth_refuses:
  assumes "\<not> live_session E q s" and "requireAuth E q m s = (r, s')"
  shows "refused E q s r s'"
proof -
  obtain t where "sessionAdminID E q s = (None, t)" "expired_removed E q s t"
    using refused_session [OF assms(1)] .
  with assms(2) show ?thesis by (auto simp: requireAuth_def refused_def)
qed

lemma requireAuthOrAPIKey_refuses:
  assumes "\<not> live_session E q s" and "\<not> valid_key E q s" and "requireAuthOrAPIKey E q m s = (r, s')"
  shows "refused E q s r s'"
proof -
  obtain t where t: "sessionAdminID E q s = (None, t)" "expired_removed E q s t"
    using refused_session [OF assms(1)] .
  then have "as_ts t = as_ts s" by (auto simp: expired_removed_def)
  with assms(2) have "apiKeyFromRequest E q t = None" using apiKey_valid by (metis not_Some_eq)
  with t assms(3) show ?thesis by (auto simp: requireAuthOrAPIKey_def refused_def)
qed

lemma reset_clears_sessions:
  assumes "handleFactoryReset E b s = (Inr r, s')"
  shows "as_sessions s' = Map.empty"
  using assms unfolding handleFactoryReset_def
  by (elim bindM_InrE) (auto simp: went tsM_def clearAllSessions_def)

lemma login_InrE:
  assumes "handleLogin E (Some req) s = (Inr r, s1)"
  obtains a where "d_admins (as_db s) = a # tl (d_admins (as_db s))" "d_open (as_db s)"
    "a_Username a = lq_Username req"
    "ev_compare E (a_PasswordHash a) (lq_Password req)"
    "s1 = snd (createSession E (a_ID a) s)"
    "r = Reply 200 (AdminBody (a_Username a) (a_MustChangePassword a))
           (Some (SetCookie (fst (createSession E (a_ID a) s)) (ev_now E + sessionTTL)))"
  using assms unfolding handleLogin_def
  by (elim bindM_InrE) (auto simp: went GetAdminUser_def queryM_def split: if_splits list.splits)

lemma createSession_entry:
  "as_sessions (snd (createSession E x s)) (fst (createSession E x s))
     = Some \<lparr>si_adminID = x, si_expires = ev_now E + sessionTTL\<rparr>"
  by (simp add: createSession_def Let_def)

lemma session_dead:
  assumes "list_all (\<lambda>(E, q, e). \<not> draws_token token E) rs" and "as_sessions s token = None"
    and "hq_Cookie q = Some token"
  shows "fst (sessionAdminID E q (serve rs s)) = None"
proof -
  have "entry_in token {None} (serve rs s)"
    by (rule serve_entry) (use assms in \<open>auto simp: entry_in_def list_all_iff\<close>)
  with assms(3) show ?thesis by (simp add: entry_in_def sessionAdminID_def)
qed

section \<open>A concrete login\<close>

definition example_admin :: AdminUser where
  "example_admin = \<lparr>a_ID = ''a1'', a_Username = ''admin'', a_PasswordHash = ''password'',
     a_MustChangePassword = False\<rparr>"

definition example_admin_db :: db where
  "example_admin_db = fresh_db\<lparr>d_admins := [example_admin]\<rparr>"

definition example_login :: loginRequest where
  "example_login = \<lparr>lq_Username = ''admin'', lq_Password = ''password''\<rparr>"

definition example_token :: string where
  "example_token = randomHex 32 (ev_rand example_env 0)"

lemma example_logged_in:
  "handleLogin example_env (Some example_login) (example_site example_admin_db)
     = (Inr (Reply 200 (AdminBody ''admin'' False) (Some (SetCookie example_token (100 + sessionTTL)))),
        snd (createSession example_env ''a1'' (example_site example_admin_db)))"
proof -
  have E: "ev_compare example_env ''password'' ''password''" "ev_now example_env = 100"
    by (simp_all add: example_env_def)
  show ?thesis
    by (simp add: handleLogin_def hm_simps GetAdminUser_def example_login_def example_admin_db_def
        fresh_db_def example_admin_def E createSession_def Let_def example_token_def)
qed

section \<open>Properties\<close>

text \<open>
  C2. Authorization. A request to anything but the public endpoints gets past the wrapper only
  with the cookie of a session that has not expired, or, for the endpoints that accept one, with
  a bearer token that starts with \<open>ptly_api_\<close> and whose digest is that of a stored API key;
  otherwise it is answered 401, and the whole server is as it was, except that the session of its
  cookie is removed if it has expired.
\<close>

theorem authorization:
  assumes "mux E q e s = (r, s')" and "\<not> public_endpoint e"
  shows "live_session E q s \<or> (key_endpoint e \<and> valid_key E q s) \<or> refused E q s r s'"
proof (rule ccontr)
  assume "\<not> ?thesis"
  then have n: "\<not> live_session E q s" "\<not> (key_endpoint e \<and> valid_key E q s)" "\<not> refused E q s r s'"
    by blast+
  then show False
    using assms requireAuth_refuses [OF n(1)] requireAuthOrAPIKey_refuses [OF n(1)]
    by (cases e) auto
qed

theorem authorization_witness:
  "refused example_env example_request example_installed
     (fst (mux example_env example_request GetAPIKeys example_installed))
     (snd (mux example_env example_request GetAPIKeys example_installed))"
proof -
  have "\<not> live_session example_env example_request example_installed"
    by (simp add: live_session_def example_request_def)
  then show ?thesis
    using authorization [OF prod.collapse [symmetric], of GetAPIKeys example_env example_request
        example_installed] by simp
qed

text \<open>
  C4. The life of a session. The token a login returns authenticates its admin for seven days,
  after any sequence of other requests, by anyone, that is made in that time and contains neither
  a logout with this token nor a factory reset; after the seven days, after a logout with this token and
  after a factory reset that completed, it authenticates nobody, whatever requests follow (none of them
  drawing the same 32 random bytes). The requests are served one after another.
\<close>

theorem session_lifecycle:
  assumes "handleLogin E0 (Some req) s = (Inr (Reply 200 b (Some (SetCookie token exp))), s1)"
    and "list_all (\<lambda>(E, q, e). \<not> draws_token token E) rs"
    and "hq_Cookie q = Some token"
  shows "exp = ev_now E0 + 7 * 24 * 60 * 60
    \<and> (ev_now E \<le> exp \<and> list_all (\<lambda>(E, q, e). ev_now E \<le> exp \<and> \<not> ends_session token q e) rs
        \<longrightarrow> fst (sessionAdminID E q (serve rs s1)) = Some (a_ID (hd (d_admins (as_db s)))))
    \<and> (exp < ev_now E \<longrightarrow> fst (sessionAdminID E q (serve rs s1)) = None)
    \<and> fst (sessionAdminID E q (serve rs (snd (mux E1 q PostLogout s2)))) = None
    \<and> (\<forall>E2 body r s2 s3. handleFactoryReset E2 body s2 = (Inr r, s3)
        \<longrightarrow> fst (sessionAdminID E q (serve rs s3)) = None)"
proof -
  obtain a where a: "d_admins (as_db s) = a # tl (d_admins (as_db s))"
    and s1: "s1 = snd (createSession E0 (a_ID a) s)"
    and r: "token = fst (createSession E0 (a_ID a) s)" "exp = ev_now E0 + sessionTTL"
    using assms(1) by (rule login_InrE) auto
  let ?info = "\<lparr>si_adminID = a_ID a, si_expires = exp\<rparr>"
  have entry: "as_sessions s1 token = Some ?info"
    unfolding s1 r by (rule createSession_entry)
  have "fst (sessionAdminID E q (serve rs s1)) = Some (a_ID a)"
    if "ev_now E \<le> exp" "list_all (\<lambda>(E, q, e). ev_now E \<le> exp \<and> \<not> ends_session token q e) rs"
  proof -
    have "entry_in token {Some ?info} (serve rs s1)"
      by (rule serve_entry) (use assms(2) that entry in \<open>auto simp: entry_in_def list_all_iff\<close>)
    with that(1) assms(3) show ?thesis by (simp add: entry_in_def sessionAdminID_def)
  qed
  moreover have "a_ID (hd (d_admins (as_db s))) = a_ID a" using a by (metis list.sel(1))
  moreover have "fst (sessionAdminID E q (serve rs s1)) = None" if "exp < ev_now E"
  proof -
    have "entry_in token {None, Some ?info} (serve rs s1)"
      by (rule serve_entry) (use assms(2) entry in \<open>auto simp: entry_in_def list_all_iff\<close>)
    with that assms(3) show ?thesis by (auto simp: entry_in_def sessionAdminID_def)
  qed
  moreover have "as_sessions (snd (mux E1 q PostLogout s2)) token = None"
    using assms(3) by (simp add: finish_def handleLogout_def hm_simps destroySession_def)
  moreover have "as_sessions s3 token = None" if "handleFactoryReset E2 body s2 = (Inr r, s3)" for E2 body r s2 s3
    using reset_clears_sessions [OF that] by simp
  ultimately show ?thesis
    using r(2) session_dead [OF assms(2) _ assms(3)] by (simp add: sessionTTL_def)
qed

theorem session_lifecycle_witness:
  "fst (sessionAdminID example_env (example_request\<lparr>hq_Cookie := Some example_token\<rparr>)
     (snd (handleLogin example_env (Some example_login) (example_site example_admin_db)))) = Some ''a1''"
proof -
  have "ev_now example_env \<le> 100 + sessionTTL" by (simp add: example_env_def sessionTTL_def)
  moreover have "a_ID (hd (d_admins (as_db (example_site example_admin_db)))) = ''a1''"
    by (simp add: example_admin_db_def fresh_db_def example_admin_def)
  ultimately show ?thesis
    using session_lifecycle [OF example_logged_in, of "[]"
        "example_request\<lparr>hq_Cookie := Some example_token\<rparr>" example_env example_env
        "example_site example_admin_db"]
    by (simp add: example_logged_in)
qed

end
