(* ===== verification/ApiLifecycle.thy ===== *)
theory ApiLifecycle
imports ApiAuthProps
begin

text \<open>
  The three flows that cross the API, the database and the tunnel server: claiming a fresh
  installation, resetting it, and taking a machine from its creation to its first connection.
\<close>

section \<open>Data-layer calls, statement by statement\<close>

named_theorems call_simps \<open>a data-layer call inside a handler, unfolded\<close>

lemma callDB_bind [call_simps]:
  "callDB err (bindM m f) s = bindM (callDB err m) (\<lambda>x. callDB err (f x)) s"
  by (auto simp: callDB_def bindM_def split: prod.split sum.split)

lemma callDB_ret [call_simps]: "callDB err (retM x) s = (Inr x, s)" "callDB err (failM e) s = (Inl (err e), s)"
  "callDB err (liftM r) s = (case r of Inl e \<Rightarrow> Inl (err e) | Inr y \<Rightarrow> Inr y, s)"
  by (simp_all add: callDB_def retM_def failM_def liftM_def split: sum.split)

lemma callDB_exec [call_simps]:
  "callDB err (execM u) s = (if \<not> d_open (as_db s) then (Inl (err DBClosed), s)
     else case u (as_db s) of Inl e \<Rightarrow> (Inl (err e), s) | Inr (n, d) \<Rightarrow> (Inr n, put_db d s))"
  by (simp add: callDB_def execM_def split: sum.split prod.split)

section \<open>Bootstrap\<close>

lemma ClaimSetupCode_Inr:
  assumes "ClaimSetupCode code d = (Inr u, d')"
  shows "d_open d" "d_settings d setupCodeSettingKey = Some code" "code \<noteq> []"
    "d' = d\<lparr>d_settings := (d_settings d)(setupCodeSettingKey := None)\<rparr>"
proof -
  show op: "d_open d"
    using assms by (cases "d_open d") (auto simp: ClaimSetupCode_def bindM_def GetSetting_def queryM_def)
  show "d_settings d setupCodeSettingKey = Some code" "code \<noteq> []"
    "d' = d\<lparr>d_settings := (d_settings d)(setupCodeSettingKey := None)\<rparr>"
    using assms by (auto simp: Claim_eq [OF op] split: option.splits if_splits)
qed

lemma CreateAdminUser_Inr:
  assumes "CreateAdminUser i u h d = (Inr a, d')"
  shows "a = \<lparr>a_ID = i, a_Username = u, a_PasswordHash = h, a_MustChangePassword = False\<rparr>"
    "d' = d\<lparr>d_admins := d_admins d @ [a]\<rparr>" "d_open d"
  using assms by (auto simp: CreateAdminUser_def insert_admin_def Let_def bindM_def execM_def retM_def
      split: if_splits)

lemma bootstrap_InrE:
  assumes "handleBootstrapClaim E (Some req) s = (Inr r, s')"
  obtains h a where "d_open (as_db s)" "d_admins (as_db s) = []"
    "d_settings (as_db s) setupCodeSettingKey = Some (bq_SetupCode req)"
    "3 \<le> RuneCount (bq_Username req)" "8 \<le> RuneCount (bq_Password req)"
    "ev_generate E (bq_Password req) = Some h"
    "a = \<lparr>a_ID = ev_uuid E 0, a_Username = bq_Username req, a_PasswordHash = h,
          a_MustChangePassword = False\<rparr>"
    "as_db s' = (as_db s)\<lparr>d_settings := (d_settings (as_db s))(setupCodeSettingKey := None),
       d_admins := [a]\<rparr>"
    "as_Wired s \<Longrightarrow> ev_file E \<Longrightarrow> as_setup_file s' = None"
    "r = Reply 200 (AdminBody (bq_Username req) False)
           (Some (SetCookie (randomHex 32 (ev_rand E 0)) (ev_now E + sessionTTL)))"
    "as_sessions s' (randomHex 32 (ev_rand E 0))
       = Some \<lparr>si_adminID = a_ID a, si_expires = ev_now E + sessionTTL\<rparr>"
proof -
  from assms obtain h a d0 d1 d2 where has: "HasAdminUser (as_db s) = (Inr False, d0)"
    and c: "ClaimSetupCode (bq_SetupCode req) d0 = (Inr (), d1)"
    and len: "3 \<le> RuneCount (bq_Username req)" "8 \<le> RuneCount (bq_Password req)"
    and h: "ev_generate E (bq_Password req) = Some h"
    and a: "CreateAdminUser (ev_uuid E 0) (bq_Username req) h d1 = (Inr a, d2)"
    and s': "s' = snd (createSession E (a_ID a) (OnAdminClaimed E (put_db d2 s)))"
    and r: "r = Reply 200 (AdminBody (a_Username a) False) (Some (SetCookie
      (fst (createSession E (a_ID a) (OnAdminClaimed E (put_db d2 s)))) (ev_now E + sessionTTL)))"
    unfolding handleBootstrapClaim_def
    by (elim bindM_InrE) (auto simp: went not_less split: option.splits elim!: bindM_InrE)
  have d0: "d0 = as_db s" "d_open (as_db s)" "d_admins (as_db s) = []"
    using has by (auto simp: HasAdminUser_def queryM_def split: if_splits)
  note c' = ClaimSetupCode_Inr [OF c] and a' = CreateAdminUser_Inr [OF a]
  have frame: "as_ts (OnAdminClaimed E x) = as_ts x" for x
    by (simp add: OnAdminClaimed_def)
  show thesis
  proof (rule that [OF d0(2,3) _ len h a'(1)])
    show "d_settings (as_db s) setupCodeSettingKey = Some (bq_SetupCode req)" using c'(2) d0(1) by simp
    show "as_db s' = (as_db s)\<lparr>d_settings := (d_settings (as_db s))(setupCodeSettingKey := None),
       d_admins := [a]\<rparr>"
      using c'(4) a'(2) d0 by (simp add: s' createSession_def Let_def frame)
    show "as_setup_file s' = None" if "as_Wired s" "ev_file E"
      using that by (simp add: s' createSession_def Let_def OnAdminClaimed_def)
    show "r = Reply 200 (AdminBody (bq_Username req) False)
           (Some (SetCookie (randomHex 32 (ev_rand E 0)) (ev_now E + sessionTTL)))"
      using r a'(1) by (simp add: createSession_def Let_def)
    show "as_sessions s' (randomHex 32 (ev_rand E 0))
       = Some \<lparr>si_adminID = a_ID a, si_expires = ev_now E + sessionTTL\<rparr>"
      using createSession_entry [of E "a_ID a"] by (simp add: s' createSession_def Let_def)
  qed
qed

lemma login_ok:
  assumes "d_open (as_db s)" and "d_admins (as_db s) = a # rest"
  shows "handleLogin E (Some req) s =
    (if a_Username a = lq_Username req \<and> ev_compare E (a_PasswordHash a) (lq_Password req)
     then (Inr (Reply 200 (AdminBody (a_Username a) (a_MustChangePassword a)) (Some (SetCookie
             (fst (createSession E (a_ID a) s)) (ev_now E + sessionTTL)))),
           snd (createSession E (a_ID a) s))
     else (Inl (writeError 401 (Msg ''invalid username or password'')), s))"
  using assms by (simp add: handleLogin_def hm_simps GetAdminUser_def)

lemma callDB_claim:
  "d_open (as_db s) \<Longrightarrow> callDB err (ClaimSetupCode code) s =
     (case d_settings (as_db s) setupCodeSettingKey of
        None \<Rightarrow> (Inl (err InvalidSetupCode), s)
      | Some stored \<Rightarrow> if code = [] \<or> stored \<noteq> code then (Inl (err InvalidSetupCode), s)
          else (Inr (), put_db ((as_db s)\<lparr>d_settings :=
                 (d_settings (as_db s))(setupCodeSettingKey := None)\<rparr>) s))"
  by (simp add: callDB_def Claim_eq split: option.split)

lemma claim_refused:
  assumes "d_open (as_db s)"
  shows "d_admins (as_db s) \<noteq> [] \<Longrightarrow>
      handleBootstrapClaim E (Some req) s = (Inl (writeError 409 (Msg ''setup already completed'')), s)"
    and "d_admins (as_db s) = [] \<Longrightarrow> d_settings (as_db s) setupCodeSettingKey = None \<Longrightarrow>
      handleBootstrapClaim E (Some req) s
        = (Inl (writeError 401 (Msg ''invalid or already-used setup code'')), s)"
  using assms by (simp_all add: handleBootstrapClaim_def hm_simps HasAdminUser_def callDB_claim)

section \<open>Factory reset\<close>

definition uninstall_frame :: TunnelConfigPush where
  "uninstall_frame = \<lparr>tp_Tunnels = [], tp_Uninstall = True\<rparr>"

lemma PushUninstall_control:
  assumes "sessions_ok t" and "ts_sessions t cid = Some i" and "\<not> cs_closed (ts_heap t ! i)"
  shows "cs_control (ts_heap (snd (PushUninstall w x t)) ! i)
      = cs_control (ts_heap t ! i) @ (if x = cid \<and> w then [uninstall_frame] else [])"
    and "cs_closed (ts_heap (snd (PushUninstall w x t)) ! i) = cs_closed (ts_heap t ! i)"
    and "ts_sessions (snd (PushUninstall w x t)) = ts_sessions t"
proof -
  have i: "i < length (ts_heap t)" "cs_clientID (ts_heap t ! i) = cid"
    using sessions_okD(1) [OF assms(1,2)] by simp_all
  have other: "j \<noteq> i" if "ts_sessions t x = Some j" "x \<noteq> cid" for j
    using sessions_okD(1) [OF assms(1) that(1)] that(2) i(2) by auto
  have "cs_control (ts_heap (snd (PushUninstall w x t)) ! i)
      = cs_control (ts_heap t ! i) @ (if x = cid \<and> w then [uninstall_frame] else [])
    \<and> cs_closed (ts_heap (snd (PushUninstall w x t)) ! i) = cs_closed (ts_heap t ! i)
    \<and> ts_sessions (snd (PushUninstall w x t)) = ts_sessions t"
  proof (cases "x = cid")
    case True
    with assms(2,3) i(1) show ?thesis by (simp add: PushUninstall_def Let_def uninstall_frame_def)
  next
    case False
    with other show ?thesis
      by (cases "ts_sessions t x") (auto simp: PushUninstall_def Let_def)
  qed
  then show "cs_control (ts_heap (snd (PushUninstall w x t)) ! i)
      = cs_control (ts_heap t ! i) @ (if x = cid \<and> w then [uninstall_frame] else [])"
    "cs_closed (ts_heap (snd (PushUninstall w x t)) ! i) = cs_closed (ts_heap t ! i)"
    "ts_sessions (snd (PushUninstall w x t)) = ts_sessions t" by blast+
qed

text \<open>Every machine in the list whose write succeeds gets the instruction, exactly once.\<close>

lemma push_uninstalls_control:
  assumes "sessions_ok t" and "ts_sessions t cid = Some i" and "\<not> cs_closed (ts_heap t ! i)"
    and "distinct (map c_ID cs)"
  shows "cs_control (ts_heap (push_uninstalls E cs t) ! i) = cs_control (ts_heap t ! i)
    @ (if cid \<in> c_ID ` set cs \<and> ev_wok E cid then [uninstall_frame] else [])"
  using assms
proof (induction cs arbitrary: t)
  case (Cons c cs)
  let ?t = "snd (PushUninstall (ev_wok E (c_ID c)) (c_ID c) t)"
  have "sessions_ok ?t" using Cons.prems(1) by (rule PushUninstall_ok)
  then have "cs_control (ts_heap (push_uninstalls E cs ?t) ! i) = cs_control (ts_heap ?t ! i)
    @ (if cid \<in> c_ID ` set cs \<and> ev_wok E cid then [uninstall_frame] else [])"
    using PushUninstall_control [OF Cons.prems(1-3), of "ev_wok E (c_ID c)" "c_ID c"] Cons.prems
    by (intro Cons.IH) simp_all
  moreover have "c_ID c \<noteq> cid \<or> cid \<notin> c_ID ` set cs" using Cons.prems(4) by auto
  ultimately show ?case
    using PushUninstall_control(1) [OF Cons.prems(1-3), of "ev_wok E (c_ID c)" "c_ID c"] by auto
qed simp

lemma writeSetupCode_fresh:
  assumes "d_open d" and "d_admins d = []" and "d_settings d = Map.empty"
  shows "writeSetupCode E (d, file) = (case ev_rand E 0 of
      None \<Rightarrow> (d, file)
    | Some rnd \<Rightarrow> (d\<lparr>d_settings := [setupCodeSettingKey \<mapsto> map code_char (take 12 rnd)]\<rparr>,
        if ev_file E then Some (map code_char (take 12 rnd) @ [CHR 0x0A]) else file))"
  using assms
  by (simp add: writeSetupCode_def EnsureSetupCode_def HasAdminUser_def GetSetting_def queryM_def
      bindM_def retM_def tokM_def liftM_def randomCode_def SetSetting_def execM_def split: option.split)

lemma went_tsM [went]:
  "tsM f s = (Inr u, s') \<longleftrightarrow> u = fst (f (as_ts s)) \<and> s' = s\<lparr>as_ts := snd (f (as_ts s))\<rparr>"
  by (auto simp: tsM_def)

lemma reset_InrE:
  assumes "api_ok s" and "handleFactoryReset E (Some req) s = (Inr r, s')"
  obtains d f where "fq_Confirm req = ''RESET''" "r = Reply 204 Empty None"
    "writeSetupCode E (snd (FactoryReset (ev_now E) (as_db s)), as_setup_file s) = (d, f)"
    "as_ts s' = (push_uninstalls E (sort_key c_CreatedAt (d_clients (as_db s))) (as_ts s))\<lparr>ts_db := d\<rparr>"
    "as_sessions s' = Map.empty" "as_domain s' = []" "as_setup_file s' = f"
proof -
  let ?cs = "sort_key c_CreatedAt (d_clients (as_db s))"
  let ?s1 = "s\<lparr>as_ts := push_uninstalls E ?cs (as_ts s)\<rparr>"
  have op: "d_open (as_db s)" and wired: "as_Wired s" and srv: "server_ok (as_ts s)"
    using assms(1) by (simp_all add: api_ok_def front_ok_def)
  have list: "ListClients (as_db s) = (Inr ?cs, as_db s)"
    using op by (simp add: ListClients_def queryM_def)
  have db1: "ts_db (push_uninstalls E ?cs (as_ts s)) = as_db s" using push_uninstalls_ok [OF srv] by simp
  from assms(2) obtain u d1 where c: "fq_Confirm req = ''RESET''" and r: "r = Reply 204 Empty None"
    and reset: "FactoryReset (ev_now E) (as_db s) = (Inr u, d1)"
    and s': "s' = OnFactoryReset E (clearAllSessions (SetCertState [] [] (setDomain [] (put_db d1 ?s1))))"
    unfolding handleFactoryReset_def
    by (elim bindM_InrE) (auto simp: went list db1 factoryResetConfirmPhrase_def)
  obtain d f where w: "writeSetupCode E (d1, as_setup_file s) = (d, f)" by fastforce
  show thesis
    by (rule that [OF c r, of d f])
       (use w reset wired in \<open>auto simp: s' OnFactoryReset_def clearAllSessions_def SetCertState_def
          setDomain_def put_db_def\<close>)
qed

section \<open>Concrete requests\<close>

lemma example_claim_ok:
  "\<exists>r s'. handleBootstrapClaim example_env (Some example_claim) example_installed = (Inr r, s')"
  by (simp add: handleBootstrapClaim_def hm_simps call_simps HasAdminUser_def callDB_claim
      example_installed_db example_claim_def RuneCount_def example_env_def fresh_db_def
      CreateAdminUser_def insert_admin_def Let_def)

lemma example_reset_ok:
  "\<exists>r s'. handleFactoryReset example_env (Some \<lparr>fq_Confirm = ''RESET''\<rparr>) (example_site example_db)
     = (Inr r, s')"
proof -
  have op: "d_open example_db" by (simp add: example_db_def fresh_db_def)
  have r: "callDB err (FactoryReset n) s = (Inr (), put_db (snd (FactoryReset n example_db)) s)"
    if "as_db s = example_db" for err n s
    using that by (simp add: callDB_def FactoryReset_eq [OF example_db_wf op])
  have "ts_db (push_uninstalls E cs (NewServer example_db)) = example_db" for E cs
    using push_uninstalls_ok [OF api_okD(1) [OF example_db_site], of E cs]
    by (simp add: example_site_def NewServer_def)
  moreover have "ts_db (NewServer example_db) = example_db" by (simp add: NewServer_def)
  ultimately show ?thesis using r op
    by (simp add: handleFactoryReset_def hm_simps factoryResetConfirmPhrase_def ListClients_def
        example_site_def)
qed

section \<open>Properties\<close>

text \<open>
  C16. Claiming an installation. A bootstrap request that succeeds was made while there was no
  admin, with the stored setup code; from then on its user name and password log in and get a
  session, any other user name or a password that does not match the stored hash is answered
  401, every further claim is refused with 409, and the setup-code file is gone. (bcrypt is
  assumed to accept a password against the hash it generated from it.)
\<close>

theorem bootstrap_then_login:
  assumes "handleBootstrapClaim E (Some req) s = (Inr r, s')"
    and "\<And>p h. ev_generate E p = Some h \<Longrightarrow> ev_compare E' h p"
  shows "d_admins (as_db s) = []
    \<and> d_settings (as_db s) setupCodeSettingKey = Some (bq_SetupCode req)
    \<and> (\<exists>c s2. handleLogin E' (Some \<lparr>lq_Username = bq_Username req, lq_Password = bq_Password req\<rparr>) s'
         = (Inr (Reply 200 (AdminBody (bq_Username req) False) (Some c)), s2))
    \<and> (u \<noteq> bq_Username req \<longrightarrow> handleLogin E' (Some \<lparr>lq_Username = u, lq_Password = p\<rparr>) s'
         = (Inl (writeError 401 (Msg ''invalid username or password'')), s'))
    \<and> ((\<forall>h. ev_generate E (bq_Password req) = Some h \<longrightarrow> \<not> ev_compare E' h p) \<longrightarrow>
        handleLogin E' (Some \<lparr>lq_Username = u, lq_Password = p\<rparr>) s'
         = (Inl (writeError 401 (Msg ''invalid username or password'')), s'))
    \<and> handleBootstrapClaim E2 (Some req2) s'
         = (Inl (writeError 409 (Msg ''setup already completed'')), s')
    \<and> (as_Wired s \<and> ev_file E \<longrightarrow> as_setup_file s' = None)"
  using assms(1)
proof (rule bootstrap_InrE)
  fix h a
  assume before: "d_open (as_db s)" "d_admins (as_db s) = []"
      "d_settings (as_db s) setupCodeSettingKey = Some (bq_SetupCode req)"
    and h: "ev_generate E (bq_Password req) = Some h"
    and a: "a = \<lparr>a_ID = ev_uuid E 0, a_Username = bq_Username req, a_PasswordHash = h,
          a_MustChangePassword = False\<rparr>"
    and db: "as_db s' = (as_db s)\<lparr>d_settings := (d_settings (as_db s))(setupCodeSettingKey := None),
       d_admins := [a]\<rparr>"
    and gone: "as_Wired s \<Longrightarrow> ev_file E \<Longrightarrow> as_setup_file s' = None"
  from db before(1) have s': "d_open (as_db s')" "d_admins (as_db s') = [a]" by simp_all
  have "ev_compare E' h (bq_Password req)" using assms(2) h .
  with before gone a login_ok [OF s'] claim_refused(1) [OF s'(1), of E2 req2] s'(2) h show ?thesis
    by auto
qed

theorem bootstrap_then_login_witness:
  "\<exists>r s' c s2. handleBootstrapClaim example_env (Some example_claim) example_installed = (Inr r, s')
     \<and> handleLogin example_env (Some \<lparr>lq_Username = ''admin'', lq_Password = ''password''\<rparr>) s'
         = (Inr (Reply 200 (AdminBody ''admin'' False) (Some c)), s2)"
proof -
  obtain r s' where c: "handleBootstrapClaim example_env (Some example_claim) example_installed = (Inr r, s')"
    using example_claim_ok by blast
  have "ev_compare example_env h p" if "ev_generate example_env p = Some h" for p h
    using that by (simp add: example_env_def)
  from bootstrap_then_login [OF c this, of "[]" "[]" example_env example_claim] c
  show ?thesis by (auto simp: example_claim_def)
qed

text \<open>
  A failed claim burns the setup code. A claim with the right code but a user name of fewer
  than three characters, or a password of fewer than eight, is answered 400 and has consumed the
  code: there is still no admin, and every further claim is answered 401.
\<close>

theorem failed_claim_burns_code:
  assumes "d_open (as_db s)" and "d_admins (as_db s) = []"
    and "d_settings (as_db s) setupCodeSettingKey = Some (bq_SetupCode req)" and "bq_SetupCode req \<noteq> []"
    and "RuneCount (bq_Username req) < 3 \<or> RuneCount (bq_Password req) < 8"
  shows "\<exists>msg s'. handleBootstrapClaim E (Some req) s = (Inl (writeError 400 msg), s')
    \<and> d_admins (as_db s') = []
    \<and> handleBootstrapClaim E2 (Some req2) s'
        = (Inl (writeError 401 (Msg ''invalid or already-used setup code'')), s')"
proof -
  let ?s' = "put_db ((as_db s)\<lparr>d_settings := (d_settings (as_db s))(setupCodeSettingKey := None)\<rparr>) s"
  have "\<exists>msg. handleBootstrapClaim E (Some req) s = (Inl (writeError 400 msg), ?s')"
    using assms by (auto simp: handleBootstrapClaim_def hm_simps HasAdminUser_def callDB_claim)
  moreover have "d_open (as_db ?s')" "d_admins (as_db ?s') = []"
    "d_settings (as_db ?s') setupCodeSettingKey = None" using assms(1,2) by simp_all
  ultimately show ?thesis using claim_refused(2) [of ?s' E2 req2] by blast
qed

theorem failed_claim_burns_code_witness:
  "\<exists>msg s'. handleBootstrapClaim example_env (Some (example_claim\<lparr>bq_Password := ''short''\<rparr>)) example_installed
       = (Inl (writeError 400 msg), s')
     \<and> handleBootstrapClaim example_env (Some example_claim) s'
       = (Inl (writeError 401 (Msg ''invalid or already-used setup code'')), s')"
proof -
  have "d_open (as_db example_installed)" "d_admins (as_db example_installed) = []"
    "d_settings (as_db example_installed) setupCodeSettingKey
       = Some (bq_SetupCode (example_claim\<lparr>bq_Password := ''short''\<rparr>))"
    "bq_SetupCode (example_claim\<lparr>bq_Password := ''short''\<rparr>) \<noteq> []"
    "RuneCount (bq_Username (example_claim\<lparr>bq_Password := ''short''\<rparr>)) < 3
       \<or> RuneCount (bq_Password (example_claim\<lparr>bq_Password := ''short''\<rparr>)) < 8"
    by (simp_all add: example_installed_db fresh_db_def example_claim_def RuneCount_def)
  from failed_claim_burns_code [OF this, of example_env example_env example_claim]
  show ?thesis by blast
qed

text \<open>
  C12. What a factory reset does. Confirmed with \<open>RESET\<close> in a consistent state, it leaves no
  machine, tunnel, sample, enrollment code or admin; every machine's token is revoked, and each
  machine that was connected and could be written to has been sent the uninstall instruction,
  once; no cookie authenticates any longer and no host name passes the certificate policy; and a
  new setup code is in the database and in the setup-code file.
\<close>

theorem factory_reset_complete:
  assumes "api_ok s" and "handleFactoryReset E (Some req) s = (Inr r, s')"
    and "ev_rand E 0 = Some rnd" and "ev_file E"
  shows "fq_Confirm req = ''RESET''
    \<and> d_clients (as_db s') = [] \<and> d_tunnels (as_db s') = [] \<and> d_samples (as_db s') = []
    \<and> d_codes (as_db s') = Map.empty \<and> d_admins (as_db s') = []
    \<and> (\<forall>c \<in> set (d_clients (as_db s)). IsTokenRevoked (c_TokenHash c) (as_db s')
        \<and> (\<forall>i. ts_sessions (as_ts s) (c_ID c) = Some i \<longrightarrow> \<not> cs_closed (ts_heap (as_ts s) ! i)
             \<longrightarrow> ev_wok E (c_ID c)
             \<longrightarrow> cs_control (ts_heap (as_ts s') ! i)
                  = cs_control (ts_heap (as_ts s) ! i) @ [uninstall_frame]))
    \<and> fst (sessionAdminID E' q s') = None \<and> \<not> HostPolicy s' host
    \<and> (\<exists>code. d_settings (as_db s') = [setupCodeSettingKey \<mapsto> code]
         \<and> as_setup_file s' = Some (code @ [CHR 0x0A]))"
  using assms(1,2)
proof (rule reset_InrE)
  fix d f
  let ?cs = "sort_key c_CreatedAt (d_clients (as_db s))"
  assume conf: "fq_Confirm req = ''RESET''"
    and w: "writeSetupCode E (snd (FactoryReset (ev_now E) (as_db s)), as_setup_file s) = (d, f)"
    and ts: "as_ts s' = (push_uninstalls E ?cs (as_ts s))\<lparr>ts_db := d\<rparr>"
    and s': "as_sessions s' = Map.empty" "as_domain s' = []" "as_setup_file s' = f"
  note ok = api_okD [OF assms(1)]
  let ?code = "map code_char (take 12 rnd)"
  have d: "d = fresh_db\<lparr>d_api_keys := d_api_keys (as_db s), d_settings := [setupCodeSettingKey \<mapsto> ?code],
     d_revoked := (\<lambda>h. if h \<in> c_TokenHash ` set (d_clients (as_db s)) then Some (ev_now E)
       else d_revoked (as_db s) h)\<rparr>" "f = Some (?code @ [CHR 0x0A])"
    using w assms(3,4) by (auto simp: FactoryReset_eq [OF ok(2,3)] writeSetupCode_fresh fresh_db_def)
  have dist: "distinct (map c_ID ?cs)"
    using clients_ok_ids [OF db_wfD(2) [OF ok(2)]] by (simp add: distinct_map)
  have "cs_control (ts_heap (as_ts s') ! i) = cs_control (ts_heap (as_ts s) ! i) @ [uninstall_frame]"
    if "c \<in> set (d_clients (as_db s))" "ts_sessions (as_ts s) (c_ID c) = Some i"
      "\<not> cs_closed (ts_heap (as_ts s) ! i)" "ev_wok E (c_ID c)" for c i
    using push_uninstalls_control [OF server_okD(1) [OF ok(1)] that(2,3) dist, of E] that(1,4) ts by simp
  moreover have "IsTokenRevoked (c_TokenHash c) (as_db s')" if "c \<in> set (d_clients (as_db s))" for c
    using that ts d by (simp add: IsTokenRevoked_def fresh_db_def)
  ultimately show ?thesis
    using conf ts s' d by (simp add: fresh_db_def sessionAdminID_def HostPolicy_def split: option.split)
qed

theorem factory_reset_complete_witness:
  "\<exists>r s'. handleFactoryReset example_env (Some \<lparr>fq_Confirm = ''RESET''\<rparr>) (example_site example_db)
       = (Inr r, s')
     \<and> d_clients (as_db s') = [] \<and> IsTokenRevoked ''h1'' (as_db s')
     \<and> (\<exists>code. as_setup_file s' = Some (code @ [CHR 0x0A]))"
proof -
  obtain r s' where c: "handleFactoryReset example_env (Some \<lparr>fq_Confirm = ''RESET''\<rparr>)
      (example_site example_db) = (Inr r, s')"
    using example_reset_ok by blast
  have "ev_rand example_env 0 = Some [0, 1, 2]" "ev_file example_env" by (simp_all add: example_env_def)
  from factory_reset_complete [OF example_db_site c this, of example_env example_request "[]"]
  have "d_clients (as_db s') = []" "IsTokenRevoked ''h1'' (as_db s')"
    "\<exists>code. as_setup_file s' = Some (code @ [CHR 0x0A])"
    by (auto simp: example_db_def)
  with c show ?thesis by blast
qed

end
