(* ===== verification/ClientProps.thy ===== *)
theory ClientProps
imports TunnelClient
begin

text \<open>
  Server and client together: what the server has put on the control stream is what the client
  routes by, a connection to a public port ends at the local target of the tunnel it belongs to,
  removing a machine ends its client, and how the client comes back after failures.
\<close>

section \<open>Frames from the server\<close>

text \<open>A message both sides can handle: within the size limit, and decoded to what was encoded.\<close>

definition frame_of :: "('m \<Rightarrow> byte list) \<Rightarrow> 'm \<Rightarrow> byte list" where
  "frame_of marshal m = (case WriteFrame marshal m of Inr b \<Rightarrow> b | Inl _ \<Rightarrow> [])"

definition sendable :: "('m \<Rightarrow> byte list) \<Rightarrow> (byte list \<Rightarrow> 'm option) \<Rightarrow> 'm \<Rightarrow> bool" where
  "sendable marshal un m \<longleftrightarrow> length (marshal m) \<le> maxFrameSize \<and> un (marshal m) = Some m"

definition frames_of :: "('m \<Rightarrow> byte list) \<Rightarrow> 'm list \<Rightarrow> byte list" where
  "frames_of marshal ms = concat (map (frame_of marshal) ms)"

lemma read_sendable:
  assumes "sendable marshal un m"
  shows "ReadFrame str_ReadByte un (frame_of marshal m @ rest, e) = (Inr m, (rest, e))"
proof -
  from assms have "WriteFrame marshal m = Inr (frame_of marshal m)"
    by (simp add: sendable_def frame_of_def WriteFrame_def Let_def)
  from ReadFrame_str [OF this, of un rest e] assms show ?thesis by (simp add: sendable_def)
qed

lemma last_config_Cons:
  "\<not> tp_Uninstall f \<Longrightarrow> last_config (f # fs) = (case last_config fs of
     None \<Rightarrow> Some (tp_Tunnels f) | Some ts \<Rightarrow> Some ts)"
  by (simp add: last_config_def Let_def)

definition routed :: "TunnelConfigPush list \<Rightarrow> tclient \<Rightarrow> tclient" where
  "routed fs c = c\<lparr>tc_targets := (case last_config fs of None \<Rightarrow> tc_targets c | Some ts \<Rightarrow> targets_of ts)\<rparr>"

lemma control_configs:
  assumes "list_all (sendable marshal un) fs" and "list_all (\<lambda>f. \<not> tp_Uninstall f) fs"
  shows "readControlStream un (frames_of marshal fs @ rest, e) c = readControlStream un (rest, e) (routed fs c)"
  using assms
proof (induction fs arbitrary: c)
  case Nil
  then show ?case by (simp add: frames_of_def routed_def)
next
  case (Cons f fs)
  then have "readControlStream un (frames_of marshal (f # fs) @ rest, e) c
      = readControlStream un (frames_of marshal fs @ rest, e) (c\<lparr>tc_targets := targets_of (tp_Tunnels f)\<rparr>)"
    by (subst readControlStream.simps) (simp add: frames_of_def read_sendable)
  also have "\<dots> = readControlStream un (rest, e) (routed fs (c\<lparr>tc_targets := targets_of (tp_Tunnels f)\<rparr>))"
    using Cons by simp
  also have "routed fs (c\<lparr>tc_targets := targets_of (tp_Tunnels f)\<rparr>) = routed (f # fs) c"
    using Cons.prems(2) by (simp add: routed_def last_config_Cons split: option.split)
  finally show ?case .
qed

lemma control_end: "readControlStream un ([], e) c = (ControlClosed (FrameLengthErr e), c)"
  by (subst readControlStream.simps)
     (simp add: ReadFrame_def stepM_def ReadFull_def numeral_eq_Suc)

lemma control_uninstall:
  assumes "sendable marshal un f" and "tp_Uninstall f"
  shows "readControlStream un (frame_of marshal f @ rest, e) c = (ErrUninstalled, runUninstall c)"
  by (subst readControlStream.simps) (simp add: read_sendable [OF assms(1)] assms(2))

text \<open>An id that occurs once is looked up in the map built from the push.\<close>

lemma targets_of_snoc: "targets_of (ts @ [t]) = (targets_of ts)(sp_ID t \<mapsto> t)"
  by (simp add: targets_of_def)

lemma targets_of_unique:
  "t \<in> set ts \<Longrightarrow> distinct (map sp_ID ts) \<Longrightarrow> targets_of ts (sp_ID t) = Some t"
proof (induction ts rule: rev_induct)
  case (snoc u ts)
  then show ?case by (fastforce simp: targets_of_snoc image_iff)
qed simp

lemma tunnel_ids_distinct:
  assumes "db_wf d" and "ListTunnelsByClient cid d = (Inr tunnels, d')"
  shows "distinct (map t_ID tunnels)"
proof -
  have "distinct (map r_id (d_tunnels d))" using assms(1) by (simp add: db_wf_def tunnels_ok_def)
  then have "distinct (map r_id (sort_key r_created_at (filter (\<lambda>t. r_client_id t = cid) (d_tunnels d))))"
    by (simp add: distinct_map inj_on_def)
  moreover have "tunnels = map scanTunnel (sort_key r_created_at (filter (\<lambda>t. r_client_id t = cid) (d_tunnels d)))"
    using assms(2) by (auto simp: ListTunnelsByClient_def queryM_def split: if_splits)
  ultimately show ?thesis by (simp add: comp_def scanTunnel_def)
qed

text \<open>After a push, the client that has read the stream has each enabled tunnel's target.\<close>

lemma pushed_target:
  assumes "map routing_fields specs = map routing_fields (map spec_of ts)"
    and "t \<in> set ts" and "distinct (map t_ID ts)"
  shows "\<exists>spec. targets_of specs (t_ID t) = Some spec \<and> routing_fields spec = routing_fields (spec_of t)"
proof -
  have "map fst (map routing_fields specs) = map fst (map routing_fields (map spec_of ts))"
    using assms(1) by (rule arg_cong)
  then have ids: "map sp_ID specs = map t_ID ts"
    by (simp add: comp_def routing_fields_def spec_of_def)
  have "routing_fields (spec_of t) \<in> set (map routing_fields (map spec_of ts))" using assms(2) by auto
  then have "routing_fields (spec_of t) \<in> set (map routing_fields specs)" by (simp only: assms(1))
  then obtain spec where spec: "spec \<in> set specs" "routing_fields spec = routing_fields (spec_of t)" by auto
  then have "sp_ID spec = t_ID t" by (simp add: routing_fields_def spec_of_def)
  with targets_of_unique [OF spec(1)] ids assms(3) spec(2) show ?thesis by auto
qed

lemma stream_to_target:
  assumes "sendable mh uh hdr" and "tc_targets c (sh_TunnelID hdr) = Some spec"
    and "sp_Protocol spec \<noteq> ''udp''"
    and "dialok (JoinHostPort (sp_LocalHost spec) (dec_int (sp_LocalPort spec)))" and "sp_ProxyProtocol spec \<longrightarrow> wok"
  shows "handleDataStream uh lookup dialok wok (frame_of mh hdr @ extra, e) c
    = Piped (JoinHostPort (sp_LocalHost spec) (dec_int (sp_LocalPort spec)))
        (if sp_ProxyProtocol spec
         then ProxyProtocolV1Header (sh_RemoteAddr hdr) (publicDstAddr lookup c (sp_PublicPort spec)) else [])"
  using assms by (auto simp: handleDataStream_def read_sendable Let_def)

section \<open>Reconnecting\<close>

text \<open>
  What a turn does when the client goes on, and the number of turns since the last connection
  (counted from the start before there was one).
\<close>

definition goes_on :: "codecs \<Rightarrow> turn \<Rightarrow> tclient \<Rightarrow> bool" where
  "goes_on J u c \<longleftrightarrow> \<not> tu_done_head u \<and> fst (fst (runOnce J (tu_attempt u) c)) \<noteq> ErrUninstalled
     \<and> \<not> tu_done_after u \<and> \<not> tu_done_wait u"

text \<open>The connections made, turn by turn, as long as the client goes on.\<close>

fun connections :: "codecs \<Rightarrow> turn list \<Rightarrow> tclient \<Rightarrow> bool list" where
  "connections J [] c = []"
| "connections J (u # us) c =
     (if goes_on J u c
      then snd (fst (runOnce J (tu_attempt u) c)) # connections J us (snd (runOnce J (tu_attempt u) c))
      else [])"

fun failures :: "nat \<Rightarrow> bool list \<Rightarrow> nat list" where
  "failures k [] = []"
| "failures k (True # cs) = 0 # failures 1 cs"
| "failures k (False # cs) = k # failures (Suc k) cs"

definition waits_after :: "nat \<Rightarrow> nat" where
  "waits_after k = min maxBackoff (2 ^ k * minBackoff)"

lemma waits_after_Suc: "(if 2 * waits_after k > maxBackoff then maxBackoff else 2 * waits_after k) = waits_after (Suc k)"
  by (auto simp: waits_after_def)

lemma waits_after_0: "waits_after 0 = minBackoff"
  by (simp add: waits_after_def maxBackoff_def minBackoff_def)

lemma waits_after_bounds: "minBackoff \<le> waits_after k \<and> waits_after k \<le> maxBackoff"
  by (simp add: waits_after_def maxBackoff_def minBackoff_def)

lemma Run_step:
  "goes_on J u c \<Longrightarrow> runOnce J (tu_attempt u) c = ((err, connected), c1) \<Longrightarrow>
   Run J (u # us) backoff c =
     (let b = (if connected then minBackoff else backoff);
          r = Run J us (if 2 * b > maxBackoff then maxBackoff else 2 * b) c1
      in ((fst (fst r), b # snd (fst r)), snd r))"
  by (simp add: goes_on_def Let_def case_prod_unfold)

lemma Run_step_waits:
  assumes "goes_on J u c" and "runOnce J (tu_attempt u) c = ((err, connected), c1)"
    and "j = (if connected then 0 else k)"
  shows "Run J (u # us) (waits_after k) c =
     (let r = Run J us (waits_after (Suc j)) c1 in ((fst (fst r), waits_after j # snd (fst r)), snd r))"
proof -
  have "(if connected then minBackoff else waits_after k) = waits_after j"
    using assms(3) by (simp add: waits_after_0)
  then show ?thesis
    unfolding Run_step [OF assms(1,2)] Let_def by (simp only: waits_after_Suc)
qed

lemma Run_waits:
  assumes "fst (fst (Run J us (waits_after k) c)) = None"
  shows "snd (fst (Run J us (waits_after k) c)) = map waits_after (failures k (connections J us c))"
    and "length (connections J us c) = length us"
proof -
  have "snd (fst (Run J us (waits_after k) c)) = map waits_after (failures k (connections J us c))
      \<and> length (connections J us c) = length us"
    using assms
  proof (induction us arbitrary: k c)
    case (Cons u us)
    obtain err connected c1 where r: "runOnce J (tu_attempt u) c = ((err, connected), c1)"
      by (metis prod.collapse)
    have g: "goes_on J u c"
      using Cons.prems r by (auto simp: goes_on_def Let_def split: if_splits)
    define j where "j = (if connected then 0 else k)"
    note run = Run_step_waits [OF g r j_def, of us]
    have "failures k (connected # cs) = j # failures (Suc j) cs" for cs
      by (cases connected) (simp_all add: j_def)
    then show ?case
      using Cons.prems Cons.IH [of "Suc j" c1] by (simp add: run Let_def g r del: Run.simps)
  qed simp
  then show "snd (fst (Run J us (waits_after k) c)) = map waits_after (failures k (connections J us c))"
    "length (connections J us c) = length us" by blast+
qed

lemma length_failures: "length (failures k cs) = length cs"
  by (induction k cs rule: failures.induct) auto

text \<open>Turns that fail to connect leave the client as it is.\<close>

definition unreachable :: "turn \<Rightarrow> bool" where
  "unreachable u \<longleftrightarrow> \<not> tu_done_head u \<and> \<not> tu_done_after u \<and> \<not> tu_done_wait u
     \<and> (\<not> at_dial (tu_attempt u) \<or> \<not> at_send (tu_attempt u))"

lemma unreachable_step:
  assumes "unreachable u"
  obtains err where "err \<noteq> ErrUninstalled" "runOnce J (tu_attempt u) c = ((err, False), c)"
proof -
  from assms have "fst (fst (runOnce J (tu_attempt u) c)) \<noteq> ErrUninstalled
      \<and> runOnce J (tu_attempt u) c = ((fst (fst (runOnce J (tu_attempt u) c)), False), c)"
    by (auto simp: unreachable_def runOnce_def)
  with that show thesis by blast
qed

lemma Run_unreachable:
  assumes "list_all unreachable us"
  shows "\<exists>ws. Run J (us @ vs) (waits_after k) c
      = (let r = Run J vs (waits_after (k + length us)) c in ((fst (fst r), ws @ snd (fst r)), snd r))
    \<and> length ws = length us \<and> list_all (\<lambda>w. minBackoff \<le> w \<and> w \<le> maxBackoff) ws"
  using assms
proof (induction us arbitrary: k)
  case (Cons u us)
  from Cons.prems have u: "unreachable u" by simp
  then obtain err where err: "err \<noteq> ErrUninstalled" "runOnce J (tu_attempt u) c = ((err, False), c)"
    by (rule unreachable_step)
  then have g: "goes_on J u c" using u by (simp add: goes_on_def unreachable_def)
  obtain ws where ws: "Run J (us @ vs) (waits_after (Suc k)) c
      = (let r = Run J vs (waits_after (Suc k + length us)) c in ((fst (fst r), ws @ snd (fst r)), snd r))"
    "length ws = length us" "list_all (\<lambda>w. minBackoff \<le> w \<and> w \<le> maxBackoff) ws"
    using Cons.IH [of "Suc k"] Cons.prems by auto
  have "Run J (u # us @ vs) (waits_after k) c
      = (let r = Run J (us @ vs) (waits_after (Suc k)) c in ((fst (fst r), waits_after k # snd (fst r)), snd r))"
    using Run_step_waits [OF g err(2) refl] by simp
  with ws waits_after_bounds [of k] show ?case
    by (intro exI [of _ "waits_after k # ws"]) (simp add: Let_def)
qed (simp add: Let_def)

text \<open>A turn in which the server answers that the machine was removed.\<close>

lemma runOnce_removed:
  assumes "at_dial a" "at_send a" "at_reply a = (frame_of ma resp @ extra, e)"
    and "sendable ma (un_auth J) resp" and "\<not> rs_OK resp" "rs_Uninstall resp"
  shows "runOnce J a c = ((ErrUninstalled, False), runUninstall c)"
  using assms by (simp add: runOnce_def read_sendable)

section \<open>Properties\<close>

text \<open>
  C7. From the public port to the local service. When the server has brought the control stream of
  a machine's open session up to date and the client has read that stream, a public connection to
  one of the machine's enabled TCP tunnels opens a data stream on this very session, and the client
  answers it by dialling the local host and port the database has for this tunnel, and, when the
  tunnel is so configured, sends the PROXY header with the visitor's address first; whatever the
  client's targets were before.
\<close>

theorem tunnel_end_to_end:
  assumes "sessions_ok s" and "db_wf (ts_db s)"
    and "ts_sessions s cid = Some i" and "\<not> cs_closed (ts_heap s ! i)"
    and "ListTunnelsByClient cid (ts_db s) = (Inr tunnels, ts_db s)"
    and "t \<in> set tunnels" and "t_Enabled t" and "t_Protocol t = ''tcp''" and "t_ClientID t = cid"
    and "list_all plain_spec (map spec_of tunnels)"
    and "\<And>specs. last_config (cs_control (ts_heap s ! i)) = Some specs \<Longrightarrow> list_all plain_spec specs"
    and "control = cs_control (ts_heap (pushTunnelConfig now True i s) ! i)"
    and "list_all (sendable marshal un) control" and "list_all (\<lambda>f. \<not> tp_Uninstall f) control"
    and "hdr = \<lparr>sh_TunnelID = t_ID t, sh_RemoteAddr = remote\<rparr>" and "sendable mh uh hdr"
    and "dialok (JoinHostPort (t_LocalHost t) (dec_int (t_LocalPort t)))"
  shows "let local = JoinHostPort (t_LocalHost t) (dec_int (t_LocalPort t));
             (ok, s') = proxyConn True True t remote (pushTunnelConfig now True i s);
             c' = snd (readControlStream un (frames_of marshal control, e) c)
         in ok \<and> last (cs_streams (ts_heap s' ! i)) = hdr
            \<and> (\<exists>port. handleDataStream uh lookup dialok True (frame_of mh hdr @ extra, e) c'
                = Piped local (if t_ProxyProtocol t
                    then ProxyProtocolV1Header remote (publicDstAddr lookup c' port) else []))"
proof -
  let ?s1 = "pushTunnelConfig now True i s" and ?local = "JoinHostPort (t_LocalHost t) (dec_int (t_LocalPort t))"
  let ?s2 = "snd (proxyConn True True t remote ?s1)"
  let ?c = "snd (readControlStream un (frames_of marshal control, e) c)"
  have i: "i < length (ts_heap s)" "cs_clientID (ts_heap s ! i) = cid"
    using sessions_okD(1) [OF assms(1,3)] by simp_all
  have sync: "case last_config control of None \<Rightarrow> filter t_Enabled tunnels = []
      | Some specs \<Rightarrow> map routing_fields specs = map routing_fields (map spec_of (filter t_Enabled tunnels))"
    unfolding assms(12)
    by (rule push_in_sync [OF assms(1) i(1) assms(4) _ assms(10,11)]) (simp_all add: i(2) assms(5))
  have t: "t \<in> set (filter t_Enabled tunnels)" using assms(6,7) by simp
  then obtain specs where specs: "last_config control = Some specs"
    "map routing_fields specs = map routing_fields (map spec_of (filter t_Enabled tunnels))"
    using sync by (cases "last_config control") (auto simp: filter_empty_conv)
  have "distinct (map t_ID (filter t_Enabled tunnels))"
    using tunnel_ids_distinct [OF assms(2,5)] by (rule distinct_map_filter)
  from pushed_target [OF specs(2) t this] obtain spec where spec: "targets_of specs (t_ID t) = Some spec"
    "routing_fields spec = routing_fields (spec_of t)" by blast
  have "tc_targets ?c = targets_of specs"
    using control_configs [OF assms(13,14), of "[]" e c] specs(1) by (simp add: control_end routed_def)
  then have "tc_targets ?c (sh_TunnelID hdr) = Some spec" using spec(1) assms(15) by simp
  note piped = stream_to_target [OF assms(16) this, of dialok True lookup extra e]
  have fields: "sp_LocalHost spec = t_LocalHost t" "sp_LocalPort spec = t_LocalPort t"
    "sp_Protocol spec = ''tcp''" "sp_ProxyProtocol spec = t_ProxyProtocol t"
    using spec(2) assms(8) by (simp_all add: routing_fields_def spec_of_def)
  have handled: "\<exists>port. handleDataStream uh lookup dialok True (frame_of mh hdr @ extra, e) ?c
      = Piped ?local (if t_ProxyProtocol t then ProxyProtocolV1Header remote (publicDstAddr lookup ?c port) else [])"
    using piped assms(15,17) by (intro exI [of _ "sp_PublicPort spec"]) (simp add: fields)
  have s1: "ts_sessions ?s1 = ts_sessions s" "length (ts_heap ?s1) = length (ts_heap s)"
    "\<not> cs_closed (ts_heap ?s1 ! i)"
    using i(1) assms(4) by (simp_all add: pushTunnelConfig_def Let_def split: sum.split)
  then have "fst (proxyConn True True t remote ?s1)" "last (cs_streams (ts_heap ?s2 ! i)) = hdr"
    using assms(3,9,15) i(1) by (simp_all add: proxyConn_def Let_def getLiveCounter_def split: option.split)
  with handled show ?thesis by (simp add: case_prod_unfold Let_def)
qed

text \<open>
  C34. The waits between reconnects. As long as the client is still trying, the wait after a turn
  is one second doubled once for every turn since the last connection (or since the start), and
  never more than thirty: always between one and thirty seconds, and one second again after each
  connection.
\<close>

theorem reconnect_backoff:
  assumes "Run J us minBackoff c = ((None, waits), c')"
  shows "waits = map (\<lambda>k. min 30 (2 ^ k)) (failures 0 (connections J us c))
    \<and> length waits = length us \<and> (\<forall>w \<in> set waits. 1 \<le> w \<and> w \<le> 30)"
proof -
  have run: "fst (fst (Run J us (waits_after 0) c)) = None" "snd (fst (Run J us (waits_after 0) c)) = waits"
    using assms by (simp_all add: waits_after_0)
  then have w: "waits = map waits_after (failures 0 (connections J us c))"
    using Run_waits(1) [OF run(1)] by simp
  have "length waits = length us"
    using Run_waits(2) [OF run(1)] by (simp add: w length_failures)
  with waits_after_bounds show ?thesis
    by (auto simp: w waits_after_def minBackoff_def maxBackoff_def)
qed

lemma Run_removed:
  assumes "list_all unreachable us" and "\<not> tu_done_head v"
    and "\<And>c. runOnce J (tu_attempt v) c = ((ErrUninstalled, False), runUninstall c)"
  shows "\<exists>ws. Run J (us @ v # rest) (waits_after k) c = ((Some ErrUninstalled, ws), runUninstall c)
    \<and> length ws = length us \<and> (\<forall>w \<in> set ws. 1 \<le> w \<and> w \<le> 30)"
proof -
  have "Run J (v # rest) b c = ((Some ErrUninstalled, []), runUninstall c)" for b
    using assms(2,3) by simp
  with Run_unreachable [OF assms(1), of J "v # rest" k c] show ?thesis
    by (auto simp: Let_def minBackoff_def maxBackoff_def list_all_iff)
qed

text \<open>A session in which the uninstall frame was read, by what reported the end of the session.\<close>

definition told :: "codecs \<Rightarrow> (AuthResponse \<Rightarrow> byte list) \<Rightarrow> (TunnelConfigPush \<Rightarrow> byte list) \<Rightarrow> turn \<Rightarrow> bool" where
  "told J ma mp u \<longleftrightarrow> \<not> tu_done_head u \<and> \<not> tu_done_after u \<and> \<not> tu_done_wait u
     \<and> at_dial (tu_attempt u) \<and> at_send (tu_attempt u) \<and> at_yamux (tu_attempt u) \<and> at_accept (tu_attempt u)
     \<and> at_end (tu_attempt u) \<noteq> EndCancel
     \<and> (\<exists>resp extra e. at_reply (tu_attempt u) = (frame_of ma resp @ extra, e) \<and> sendable ma (un_auth J) resp \<and> rs_OK resp)
     \<and> (\<exists>configs push more e. at_control (tu_attempt u) = (frames_of mp (configs @ [push]) @ more, e)
         \<and> list_all (sendable mp (un_push J)) (configs @ [push]) \<and> tp_Uninstall push
         \<and> list_all (\<lambda>f. \<not> tp_Uninstall f) configs)"

lemma told_run:
  assumes "told J ma mp u"
  obtains configs where "runOnce J (tu_attempt u) c
    = ((if at_end (tu_attempt u) = EndControl then ErrUninstalled else SessionClosed, True), runUninstall (routed configs c))"
proof -
  obtain resp extra e where reply: "at_reply (tu_attempt u) = (frame_of ma resp @ extra, e)"
      "sendable ma (un_auth J) resp" "rs_OK resp"
    using assms unfolding told_def by blast
  obtain configs push more e' where control: "at_control (tu_attempt u) = (frames_of mp (configs @ [push]) @ more, e')"
      "list_all (sendable mp (un_push J)) (configs @ [push])" "tp_Uninstall push"
      "list_all (\<lambda>f. \<not> tp_Uninstall f) configs"
    using assms unfolding told_def by blast
  have "readControlStream (un_push J) (at_control (tu_attempt u)) c = (ErrUninstalled, runUninstall (routed configs c))"
    using control_configs [of mp "un_push J" configs "frame_of mp push @ more" e' c]
      control_uninstall [of mp "un_push J" push more e'] control by (simp add: frames_of_def)
  then show thesis
    using assms reply by (intro that) (cases "at_end (tu_attempt u)"; simp add: told_def runOnce_def read_sendable)
qed

text \<open>
  C13. Removing a machine ends its client. Once its row is deleted, a client with the machine's
  token stops, whatever time the server cannot be reached before: at the first turn in which the
  server can answer, \<open>Run\<close> returns \<open>ErrUninstalled\<close>, having called \<open>OnUninstall\<close> once, and every
  wait before was between one and thirty seconds. A client that is connected and reads the pushed
  uninstall frame stops too: when the control reader is the first to report, \<open>Run\<close> returns at once,
  having called \<open>OnUninstall\<close> once. When the acceptor of data streams is the first to report the end of
  the session, \<open>Run\<close> connects again, is told again, and has called \<open>OnUninstall\<close> twice, which its
  comment excludes.
\<close>

theorem removal_ends_client:
  assumes "db_wf d" and "DeleteClient now (c_ID m) d = (Inr u, d')"
    and "fst (GetClientByTokenHash (HashToken sha (tc_Token c)) d) = Inr m"
    and "tc_OnUninstall c" and "list_all unreachable us"
    and "\<not> tu_done_head v" and "at_dial (tu_attempt v)" and "at_send (tu_attempt v)"
    and "resp = fst (auth_response sha (tc_Token c) d')"
    and "at_reply (tu_attempt v) = (frame_of ma resp @ extra, e)" and "sendable ma (un_auth J) resp"
    and "told J ma mp w"
  shows "(\<exists>waits. Run J (us @ v # rest) minBackoff c
        = ((Some ErrUninstalled, waits), c\<lparr>tc_uninstalls := tc_uninstalls c + 1\<rparr>)
      \<and> length waits = length us \<and> (\<forall>w \<in> set waits. 1 \<le> w \<and> w \<le> 30))
    \<and> (\<exists>waits c'. Run J (w # us @ v # rest) minBackoff c = ((Some ErrUninstalled, waits), c')
      \<and> (if at_end (tu_attempt w) = EndControl then waits = [] \<and> tc_uninstalls c' = tc_uninstalls c + 1
         else length waits = length us + 1 \<and> tc_uninstalls c' = tc_uninstalls c + 2)
      \<and> (\<forall>w \<in> set waits. 1 \<le> w \<and> w \<le> 30))"
proof
  have resp: "\<not> rs_OK resp" "rs_Uninstall resp"
    using deleted_lookup [OF assms(1,2,3) refl] by (simp_all add: assms(9) auth_response_def Let_def)
  note ends = Run_removed [OF assms(5,6) runOnce_removed [OF assms(7,8,10,11) resp], of rest]
  show "\<exists>waits. Run J (us @ v # rest) minBackoff c
        = ((Some ErrUninstalled, waits), c\<lparr>tc_uninstalls := tc_uninstalls c + 1\<rparr>)
      \<and> length waits = length us \<and> (\<forall>w \<in> set waits. 1 \<le> w \<and> w \<le> 30)"
    using ends [of 0 c] assms(4) by (simp add: waits_after_0 runUninstall_def)
  obtain configs where once: "runOnce J (tu_attempt w) c = ((if at_end (tu_attempt w) = EndControl then ErrUninstalled
      else SessionClosed, True), runUninstall (routed configs c))"
    by (rule told_run [OF assms(12)])
  have w: "\<not> tu_done_head w" "\<not> tu_done_after w" "\<not> tu_done_wait w" using assms(12) by (simp_all add: told_def)
  let ?c1 = "runUninstall (routed configs c)"
  obtain ws where ws: "Run J (us @ v # rest) 2 ?c1 = ((Some ErrUninstalled, ws), runUninstall ?c1)"
      "length ws = length us" "\<forall>w \<in> set ws. 1 \<le> w \<and> w \<le> 30"
    using ends [of 1 ?c1] by (auto simp: waits_after_def minBackoff_def maxBackoff_def)
  have "tc_uninstalls (runUninstall ?c1) = tc_uninstalls c + 2" "tc_uninstalls ?c1 = tc_uninstalls c + 1"
    using assms(4) by (simp_all add: runUninstall_def routed_def)
  with ws w show "\<exists>waits c'. Run J (w # us @ v # rest) minBackoff c = ((Some ErrUninstalled, waits), c')
      \<and> (if at_end (tu_attempt w) = EndControl then waits = [] \<and> tc_uninstalls c' = tc_uninstalls c + 1
         else length waits = length us + 1 \<and> tc_uninstalls c' = tc_uninstalls c + 2)
      \<and> (\<forall>w \<in> set waits. 1 \<le> w \<and> w \<le> 30)"
    by (simp add: once Let_def minBackoff_def maxBackoff_def)
qed

section \<open>Witnesses\<close>

text \<open>Codecs that know the one message of an example.\<close>

definition ex_push :: TunnelConfigPush where
  "ex_push = \<lparr>tp_Tunnels = map spec_of (map scanTunnel [example_tunnel ''t1'' 8080, example_tunnel ''t2'' 8081]),
     tp_Uninstall = False\<rparr>"

definition ex_uninstall :: TunnelConfigPush where
  "ex_uninstall = \<lparr>tp_Tunnels = [], tp_Uninstall = True\<rparr>"

definition ex_header :: StreamHeader where
  "ex_header = \<lparr>sh_TunnelID = ''t1'', sh_RemoteAddr = ''9.9.9.9:5''\<rparr>"

definition ex_accepted :: AuthResponse where
  "ex_accepted = \<lparr>rs_OK = True, rs_Error = [], rs_ClientID = ''c1'', rs_Name = ''nas'', rs_Uninstall = False\<rparr>"

definition ex_removed :: AuthResponse where
  "ex_removed = \<lparr>rs_OK = False, rs_Error = ''this machine was removed in the Portly UI'', rs_ClientID = [],
     rs_Name = [], rs_Uninstall = True\<rparr>"

definition ex_ma :: "AuthResponse \<Rightarrow> byte list" where
  "ex_ma m = (if rs_OK m then [1] else [2])"

definition ex_codecs :: codecs where
  "ex_codecs = \<lparr>un_auth = (\<lambda>b. if b = [1] then Some ex_accepted else if b = [2] then Some ex_removed else None),
     un_push = (\<lambda>b. if b = [] then Some ex_uninstall else None)\<rparr>"

definition ex_turn :: "bool \<Rightarrow> AuthResponse \<Rightarrow> byte list \<Rightarrow> turn" where
  "ex_turn reachable resp control = \<lparr>tu_done_head = False, tu_attempt = \<lparr>at_dial = reachable, at_send = True,
     at_reply = (frame_of ex_ma resp, EOF), at_yamux = True, at_accept = True,
     at_control = (control, EOF), at_end = EndData\<rparr>, tu_done_after = False, tu_done_wait = False\<rparr>"

lemma ex_sendable:
  "sendable ex_ma (un_auth ex_codecs) ex_accepted" "sendable ex_ma (un_auth ex_codecs) ex_removed"
  "sendable (\<lambda>_. []) (un_push ex_codecs) ex_uninstall"
  by (simp_all add: sendable_def ex_ma_def ex_codecs_def ex_accepted_def ex_removed_def maxFrameSize_def)

lemma ex_control: "cs_control (ts_heap (pushTunnelConfig 9 True 0 example_server) ! 0) = [ex_push]"
proof -
  have "fst (ListTunnelsByClient ''c1'' (snd (UpdateClientLastSeen 9 ''c1'' example_db)))
      = Inr (map scanTunnel [example_tunnel ''t1'' 8080, example_tunnel ''t2'' 8081])"
    by (simp add: ListTunnelsByClient_def UpdateClientLastSeen_def update_clients_def bindM_def execM_def
        retM_def queryM_def example_db_def fresh_db_def example_tunnel_def)
  then show ?thesis
    by (simp add: pushTunnelConfig_def example_server_session Let_def ex_push_def fingerprint_def
        fingerprint1_def scanTunnel_def example_tunnel_def)
qed

theorem tunnel_end_to_end_witness:
  "let c' = snd (readControlStream (\<lambda>_. Some ex_push) (frames_of (\<lambda>_. []) [ex_push], EOF) (NewClient ''h:7000'' ''t'' True))
   in handleDataStream (\<lambda>_. Some ex_header) (\<lambda>_. None) (\<lambda>_. True) True (frame_of (\<lambda>_. []) ex_header @ [1, 2], EOF) c'
      = Piped ''127.0.0.1:80'' []"
proof -
  let ?t = "scanTunnel (example_tunnel ''t1'' 8080)"
  have l: "JoinHostPort (t_LocalHost ?t) (dec_int (t_LocalPort ?t)) = ''127.0.0.1:80''"
    by (simp add: scanTunnel_def example_tunnel_def JoinHostPort_def) code_simp
  have "let local = JoinHostPort (t_LocalHost ?t) (dec_int (t_LocalPort ?t));
          (ok, s') = proxyConn True True ?t ''9.9.9.9:5'' (pushTunnelConfig 9 True 0 example_server);
          c' = snd (readControlStream (\<lambda>_. Some ex_push) (frames_of (\<lambda>_. []) [ex_push], EOF) (NewClient ''h:7000'' ''t'' True))
      in ok \<and> last (cs_streams (ts_heap s' ! 0)) = ex_header
         \<and> (\<exists>port. handleDataStream (\<lambda>_. Some ex_header) (\<lambda>_. None) (\<lambda>_. True) True
               (frame_of (\<lambda>_. []) ex_header @ [1, 2], EOF) c'
             = Piped local (if t_ProxyProtocol ?t
                 then ProxyProtocolV1Header ''9.9.9.9:5'' (publicDstAddr (\<lambda>_. None) c' port) else []))"
    by (rule tunnel_end_to_end [where cid = "''c1''" and tunnels = "map scanTunnel [example_tunnel ''t1'' 8080, example_tunnel ''t2'' 8081]"])
       (simp_all add: example_server_ok example_server_session example_db_wf example_tunnels ex_control
          sendable_def maxFrameSize_def ex_push_def ex_header_def scanTunnel_def example_tunnel_def plain_spec_def spec_of_def,
        simp_all add: example_server_def register_session_def NewServer_def example_client_def example_db_def)
  then show ?thesis
    by (simp only: l) (simp add: Let_def case_prod_unfold scanTunnel_def example_tunnel_def)
qed

theorem reconnect_backoff_witness:
  "snd (fst (Run ex_codecs [ex_turn False ex_accepted [], ex_turn False ex_accepted [],
      ex_turn True ex_accepted [], ex_turn False ex_accepted []] minBackoff (NewClient ''h:7000'' ''t'' True)))
    = [1, 2, 1, 2]"
proof -
  let ?us = "[ex_turn False ex_accepted [], ex_turn False ex_accepted [],
      ex_turn True ex_accepted [], ex_turn False ex_accepted []]" and ?c = "NewClient ''h:7000'' ''t'' True"
  note read = read_sendable [OF ex_sendable(1), where rest = "[]", simplified]
  have once: "runOnce ex_codecs (tu_attempt (ex_turn False ex_accepted [])) ?c = ((DialErr, False), ?c)"
    "runOnce ex_codecs (tu_attempt (ex_turn True ex_accepted [])) ?c = ((SessionClosed, True), ?c)"
    by (simp_all add: runOnce_def ex_turn_def read control_end) (simp add: ex_accepted_def)
  have head: "\<not> tu_done_head (ex_turn b r x)" "\<not> tu_done_after (ex_turn b r x)" "\<not> tu_done_wait (ex_turn b r x)" for b r x
    by (simp_all add: ex_turn_def)
  have "fst (fst (Run ex_codecs ?us minBackoff ?c)) = None"
    by (simp add: once head Let_def)
  then have "Run ex_codecs ?us minBackoff ?c
      = ((None, snd (fst (Run ex_codecs ?us minBackoff ?c))), snd (Run ex_codecs ?us minBackoff ?c))"
    by (simp add: prod_eq_iff)
  from reconnect_backoff [OF this] show ?thesis by (simp add: once head goes_on_def)
qed

theorem removal_ends_client_witness:
  "(\<exists>waits. Run ex_codecs [ex_turn False ex_accepted [], ex_turn True ex_removed []] minBackoff
      (NewClient ''h:7000'' ''ptly_01'' True)
    = ((Some ErrUninstalled, waits), (NewClient ''h:7000'' ''ptly_01'' True)\<lparr>tc_uninstalls := 1\<rparr>))
   \<and> tc_uninstalls (snd (Run ex_codecs [ex_turn True ex_accepted (frame_of (\<lambda>_. []) ex_uninstall),
      ex_turn False ex_accepted [], ex_turn True ex_removed []] minBackoff (NewClient ''h:7000'' ''ptly_01'' True))) = 2"
proof -
  let ?d = "snd (DeleteClient 9 ''c2'' ex_created)" and ?c = "NewClient ''h:7000'' ''ptly_01'' True"
    and ?w = "ex_turn True ex_accepted (frame_of (\<lambda>_. []) ex_uninstall)"
  have wf: "db_wf ex_created"
    by (simp add: db_wf_def ex_created_def fresh_db_def admins_ok_def clients_ok_def tunnels_ok_def
        ports_ok_def samples_ok_def codes_ok_def keys_ok_def)
  have del: "DeleteClient 9 (c_ID ex_client) ex_created = (Inr (), ?d)"
    by (simp add: DeleteClient_eq ex_created_def fresh_db_def ex_client_def)
  have found: "fst (GetClientByTokenHash (HashToken id (tc_Token ?c)) ex_created) = Inr ex_client"
    by (simp add: GetClientByTokenHash_def queryM_def row_or_err_def ex_created_def fresh_db_def NewClient_def
        ex_client_def)
  have resp: "ex_removed = fst (auth_response id (tc_Token ?c) ?d)"
    using deleted_lookup [OF wf del found refl] by (simp add: auth_response_def ex_removed_def)
  have ok: "rs_OK ex_accepted" "tp_Uninstall ex_uninstall" by (simp_all add: ex_accepted_def ex_uninstall_def)
  have told: "told ex_codecs ex_ma (\<lambda>_. []) ?w"
    unfolding told_def
  proof (intro conjI)
    show "\<exists>resp extra e. at_reply (tu_attempt ?w) = (frame_of ex_ma resp @ extra, e)
        \<and> sendable ex_ma (un_auth ex_codecs) resp \<and> rs_OK resp"
      using ex_sendable(1) ok by (intro exI [of _ ex_accepted] exI [of _ "[]"]) (simp add: ex_turn_def)
    show "\<exists>configs push more e. at_control (tu_attempt ?w) = (frames_of (\<lambda>_. []) (configs @ [push]) @ more, e)
         \<and> list_all (sendable (\<lambda>_. []) (un_push ex_codecs)) (configs @ [push]) \<and> tp_Uninstall push
         \<and> list_all (\<lambda>f. \<not> tp_Uninstall f) configs"
      using ex_sendable(3) ok
      by (intro exI [of _ "[]"] exI [of _ ex_uninstall] exI [of _ EOF]) (simp add: ex_turn_def frames_of_def)
  qed (simp_all add: ex_turn_def)
  have "(\<exists>waits. Run ex_codecs ([ex_turn False ex_accepted []] @ ex_turn True ex_removed [] # []) minBackoff ?c
        = ((Some ErrUninstalled, waits), ?c\<lparr>tc_uninstalls := tc_uninstalls ?c + 1\<rparr>)
      \<and> length waits = length [ex_turn False ex_accepted []] \<and> (\<forall>w \<in> set waits. 1 \<le> w \<and> w \<le> 30))
    \<and> (\<exists>waits c'. Run ex_codecs (?w # [ex_turn False ex_accepted []] @ ex_turn True ex_removed [] # []) minBackoff ?c
          = ((Some ErrUninstalled, waits), c')
      \<and> (if at_end (tu_attempt ?w) = EndControl then waits = [] \<and> tc_uninstalls c' = tc_uninstalls ?c + 1
         else length waits = length [ex_turn False ex_accepted []] + 1 \<and> tc_uninstalls c' = tc_uninstalls ?c + 2)
      \<and> (\<forall>w \<in> set waits. 1 \<le> w \<and> w \<le> 30))"
    by (rule removal_ends_client [where extra = "[]" and e = EOF, OF wf del found _ _ _ _ _ resp _ ex_sendable(2) told])
       (simp_all add: NewClient_def ex_turn_def unreachable_def)
  moreover have "at_end (tu_attempt ?w) \<noteq> EndControl" "tc_uninstalls ?c = 0"
    by (simp_all add: ex_turn_def NewClient_def)
  ultimately show ?thesis by (auto simp del: Run.simps)
qed

end
