(* ===== verification/MachineProps.thy ===== *)
theory MachineProps
imports ApiLifecycle ClientProps ClientMachine
begin

text \<open>
  A machine from its installation to its removal: what the API's enrollment leaves on the machine
  that runs the install command, whom the installed client trusts, and what is left when the
  machine is removed.
\<close>

section \<open>Enrolling through the API\<close>

lemma alnum_ascii: "alnum c \<Longrightarrow> (of_char c :: nat) < 128"
  by (auto simp: alnum_def letter_def is_digit_def)

lemma clientNamePattern_ascii: "clientNamePattern n \<Longrightarrow> is_ascii n"
  by (cases n) (auto simp: clientNamePattern_def is_ascii_def list_all_iff alnum_ascii)

lemma is_ascii_hex: "is_ascii (hex_encode bs)"
  using hex_encode_hex [of bs] by (auto simp: is_ascii_def list_all_iff is_hex_def)

lemma CreateClient_token:
  assumes "CreateClient sha r uuid now name d = (Inr (c, token), d')"
  shows "\<exists>raw. r = Some raw \<and> token = ''ptly_'' @ hex_encode raw"
  using assms
  by (auto simp: CreateClient_def tokM_def liftM_def bindM_def retM_def Let_def GenerateToken_def
      split: sum.splits prod.splits option.splits)

lemma is_ascii_Cons: "is_ascii (c # s) \<longleftrightarrow> (of_char c :: nat) < 128 \<and> is_ascii s"
  by (simp add: is_ascii_def)

lemma is_ascii_dec: "is_ascii (dec_int i)"
  by (auto simp: is_ascii_def list_all_iff is_digit_def dest!: dec_int_chars)

text \<open>The machine that \<open>handleCreateClient\<close> made, as the exchange of its code shows it.\<close>

lemma created_machine:
  assumes "handleCreateClient E (Some req) s = (Inr r, s1)"
    and "ev_sha E2 = ev_sha E" and "ev_now E2 \<le> ev_now E + 900" and "ev_sha E3 = ev_sha E"
  obtains v code raw s2 c where "clientNamePattern (nq_Name req)" "cv_Name v = nq_Name req"
    "r = writeJSON 201 (InstallBody v (installCommand code s1) code (ev_now E + 900))"
    "handleEnrollExchange E2 (Some \<lparr>eq_Code = code\<rparr>) s1
      = (Inr (writeJSON 200 (EnrollBody (nq_Name req) (''ptly_'' @ hex_encode raw)
           (as_AdvertiseHost s @ '':'' @ dec_int (as_ControlPort s)) (as_CAFingerprint s))), s2)"
    "auth_response (ev_sha E) (''ptly_'' @ hex_encode raw) (as_db s2)
      = (\<lparr>rs_OK = True, rs_Error = [], rs_ClientID = cv_ID v, rs_Name = nq_Name req, rs_Uninstall = False\<rparr>, Some c)"
    "c_ID c = cv_ID v"
    "handleEnrollExchange E3 (Some \<lparr>eq_Code = code\<rparr>) s2
      = (Inl (writeError 401 (DbMsg InvalidEnrollmentCode)), s2)"
proof -
  from assms(1) obtain c token d1 code d2 where name: "clientNamePattern (nq_Name req)"
    and c: "CreateClient (ev_sha E) (ev_rand E 0) (ev_uuid E 0) (ev_now E) (nq_Name req) (as_db s)
      = (Inr (c, token), d1)"
    and code: "CreateEnrollmentCode (ev_sha E) (ev_rand E 1) (ev_now E) (c_ID c) token 900 d1
      = (Inr code, d2)"
    and s1: "s1 = put_db d2 s"
    and r: "r = writeJSON 201 (InstallBody (toClientView c False) (installCommand code s1) code
      (ev_now E + 900))"
    unfolding handleCreateClient_def issueInstall_def
    by (elim bindM_InrE) (auto simp: went enrollCodeTTL_def elim!: bindM_InrE split: prod.splits)
  obtain raw where token: "token = ''ptly_'' @ hex_encode raw" using CreateClient_token [OF c] by blast
  note x = issued_exchange [OF c code]
  let ?d3 = "d2\<lparr>d_codes := (d_codes d2)(HashToken (ev_sha E) code := None)\<rparr>"
  have exch: "handleEnrollExchange E2 (Some \<lparr>eq_Code = code\<rparr>) s1
      = (Inr (writeJSON 200 (EnrollBody (nq_Name req) token
           (as_AdvertiseHost s @ '':'' @ dec_int (as_ControlPort s)) (as_CAFingerprint s))), put_db ?d3 s)"
    using x assms(2,3) by (simp add: handleEnrollExchange_def hm_simps callDB_def s1)
  have again: "handleEnrollExchange E3 (Some \<lparr>eq_Code = code\<rparr>) (put_db ?d3 s)
      = (Inl (writeError 401 (DbMsg InvalidEnrollmentCode)), put_db ?d3 s)"
    using x(2) assms(4) by (simp add: handleEnrollExchange_def hm_simps callDB_def Exchange_eq)
  have auth: "auth_response (ev_sha E) token (as_db (put_db ?d3 s))
      = (\<lparr>rs_OK = True, rs_Error = [], rs_ClientID = c_ID c, rs_Name = nq_Name req,
          rs_Uninstall = False\<rparr>, Some c)"
    using x by (simp add: auth_response_def GetClientByTokenHash_def queryM_def row_or_err_def Let_def)
  show thesis
    by (rule that [of "toClientView c False" code raw "put_db ?d3 s" c])
       (use name r exch again auth x(4) token in \<open>simp_all add: toClientView_def\<close>)
qed

section \<open>The installed client\<close>

text \<open>What \<open>enroll\<close> leaves on a machine that runs it as root under systemd and grants every step.\<close>

definition installed :: "bool \<Rightarrow> (ClientConfig \<Rightarrow> byte list) \<Rightarrow> ClientConfig \<Rightarrow> machine \<Rightarrow> machine" where
  "installed start yaml cfg m = m\<lparr>mc_files := (mc_files m)(systemConfigPath \<mapsto> yaml cfg,
       systemUnitPath \<mapsto> bytes_of (unit_file systemConfigPath)),
     mc_enabled := True, mc_active := mc_active m \<or> start\<rparr>"

definition grants :: "os \<Rightarrow> bool" where
  "grants S \<longleftrightarrow> os_mkdir S \<and> os_write S systemConfigPath = Written \<and> os_write S systemUnitPath = Written
     \<and> os_ctl S [''daemon-reload''] \<and> os_ctl S [''enable'', ''portly-client'']
     \<and> os_ctl S [''enable'', ''--now'', ''portly-client'']"

lemma paths_distinct: "systemConfigPath \<noteq> systemUnitPath"
  by (simp add: systemConfigPath_def systemUnitPath_def)

lemma runEnroll_installs:
  assumes "grants S" and "mc_root m" and "hasSystemd m"
    and "unjson content = Some resp" and "cfg = \<lparr>cc_ServerAddr = xr_ControlAddr resp, cc_Token = xr_Token resp,
      cc_CAFingerprint = xr_CAFingerprint resp, cc_APIBase = apiBase\<rparr>"
  shows "runEnroll S unjson yaml apiBase noStart (Some (200, content)) m
    = (Inr (), installed (\<not> noStart) yaml cfg m)"
  using assms
  by (cases noStart) (simp_all add: runEnroll_def exchangeEnrollCode_def SaveClientConfig_def WriteFile_def
      installSystemdService_def systemctl_def Let_def grants_def hasSystemd_def installed_def)

lemma load_installed:
  assumes "unyaml (yaml cfg) = Some cfg"
    and "cc_ServerAddr cfg \<noteq> []" "cc_Token cfg \<noteq> []" "cc_CAFingerprint cfg \<noteq> []"
  shows "LoadClientConfig unyaml systemConfigPath (installed start yaml cfg m) = Inr cfg"
  using assms by (simp add: LoadClientConfig_def installed_def paths_distinct)

lemma DialPinned_leaf:
  "DialPinned sha (Fingerprint sha der) (Some (leaf # chain)) \<longleftrightarrow> sha leaf = sha der"
  by (simp add: DialPinned_def Fingerprint_def hex_encode_inject)

text \<open>The control address of the exchange, as the dialler splits it.\<close>

lemma SplitHostPort_control:
  assumes "CHR ''['' \<notin> set host" "CHR '']'' \<notin> set host"
  shows "SplitHostPort (host @ '':'' @ dec_int port)
    = (if CHR '':'' \<in> set host then None else Some (host, dec_int port))"
proof (cases "CHR '':'' \<in> set host")
  case True
  have "LastIndexByte (host @ CHR '':'' # dec_int port) (CHR '':'') = Some (length host)"
    by (rule LastIndexByte_append [OF dec_int_no_sep(1)])
  moreover have "(host @ CHR '':'' # dec_int port) ! 0 \<noteq> CHR ''[''"
    using True assms(1) by (cases host) auto
  ultimately show ?thesis using True by (simp add: SplitHostPort_def)
next
  case False
  have "CHR ''['' \<notin> set (dec_int port)" "CHR '']'' \<notin> set (dec_int port)"
    by (auto dest!: dec_int_chars simp: is_digit_def)
  from SplitHostPort_Join [OF assms this dec_int_no_sep(1)] False show ?thesis
    by (simp add: JoinHostPort_def)
qed

section \<open>Example codecs\<close>

text \<open>Fields of ASCII text with a separator between them: the round trips the properties ask for.\<close>

definition ex_sep :: char where
  "ex_sep = CHR 0xFF"

fun ex_json :: "body \<Rightarrow> byte list" where
  "ex_json (EnrollBody n t a f) = bytes_of (n @ ex_sep # t @ ex_sep # a @ ex_sep # f)"
| "ex_json _ = []"

definition ex_unjson :: "byte list \<Rightarrow> exchangeResponse option" where
  "ex_unjson bs = (case Split ex_sep (string_of bs) of
     [n, t, a, f] \<Rightarrow> Some \<lparr>xr_Name = n, xr_Token = t, xr_ControlAddr = a, xr_CAFingerprint = f, xr_Error = []\<rparr>
   | _ \<Rightarrow> None)"

definition ex_yaml :: "ClientConfig \<Rightarrow> byte list" where
  "ex_yaml c = bytes_of (cc_ServerAddr c @ ex_sep # cc_Token c @ ex_sep # cc_CAFingerprint c @ ex_sep # cc_APIBase c)"

definition ex_unyaml :: "byte list \<Rightarrow> ClientConfig option" where
  "ex_unyaml bs = (case Split ex_sep (string_of bs) of
     [s, t, f, a] \<Rightarrow> Some \<lparr>cc_ServerAddr = s, cc_Token = t, cc_CAFingerprint = f, cc_APIBase = a\<rparr>
   | _ \<Rightarrow> None)"

lemma ex_sep_not_ascii [simp]: "is_ascii s \<Longrightarrow> ex_sep \<notin> set s"
  by (auto simp: is_ascii_def list_all_iff ex_sep_def)

lemma ex_codecs_round_trip:
  "is_ascii n \<Longrightarrow> is_ascii t \<Longrightarrow> is_ascii a \<Longrightarrow> is_ascii f \<Longrightarrow> ex_unjson (ex_json (EnrollBody n t a f))
     = Some \<lparr>xr_Name = n, xr_Token = t, xr_ControlAddr = a, xr_CAFingerprint = f, xr_Error = []\<rparr>"
  "is_ascii (cc_ServerAddr c) \<Longrightarrow> is_ascii (cc_Token c) \<Longrightarrow> is_ascii (cc_CAFingerprint c) \<Longrightarrow>
     is_ascii (cc_APIBase c) \<Longrightarrow> ex_unyaml (ex_yaml c) = Some c"
  by (simp_all add: ex_unjson_def ex_yaml_def ex_unyaml_def)

definition ex_os :: os where
  "ex_os = \<lparr>os_mkdir = True, os_write = (\<lambda>_. Written), os_remove = (\<lambda>_. True), os_ctl = (\<lambda>_. True), os_start = True\<rparr>"

definition ex_machine :: machine where
  "ex_machine = \<lparr>mc_files = [systemBinaryPath \<mapsto> [1]], mc_linux = True, mc_systemd = True, mc_root = True,
     mc_exe = Some systemBinaryPath, mc_enabled = False, mc_active = False\<rparr>"

section \<open>Properties\<close>

text \<open>
  C5. From the Add-machine dialog to an installed client. A machine created through the API gets a
  name of the documented form and an install command that carries its code. \<open>enroll\<close>, run as root
  under systemd within fifteen minutes, exchanges the code and leaves the configuration file, the
  unit and the enabled service (started unless told not to). The configuration loads, with the
  server's address and the API's base URL; its token authenticates exactly this machine; and its
  pin accepts exactly the servers whose certificate has the hash of the one announced. The address
  can be split into host and port unless the advertised host is an IPv6 address. A second exchange
  of the code is answered 401. (The JSON and YAML codecs are assumed to round-trip ASCII text.)
\<close>

theorem machine_installs:
  assumes "handleCreateClient E (Some req) s = (Inr r, s1)"
    and "ev_sha E2 = ev_sha E" and "ev_now E2 \<le> ev_now E + 900" and "ev_sha E3 = ev_sha E"
    and "as_CAFingerprint s = Fingerprint (ev_sha E) der" and "ev_sha E der \<noteq> []"
    and "host = as_AdvertiseHost s" and "is_ascii host" and "is_ascii apiBase"
    and json: "\<And>n t a f. is_ascii n \<Longrightarrow> is_ascii t \<Longrightarrow> is_ascii a \<Longrightarrow> is_ascii f \<Longrightarrow>
        unjson (json (EnrollBody n t a f))
          = Some \<lparr>xr_Name = n, xr_Token = t, xr_ControlAddr = a, xr_CAFingerprint = f, xr_Error = []\<rparr>"
    and yaml: "\<And>c. is_ascii (cc_ServerAddr c) \<Longrightarrow> is_ascii (cc_Token c) \<Longrightarrow> is_ascii (cc_CAFingerprint c) \<Longrightarrow>
        is_ascii (cc_APIBase c) \<Longrightarrow> unyaml (yaml c) = Some c"
    and "grants S" and "mc_root m" and "hasSystemd m"
  shows "\<exists>v code reply s2 cfg. clientNamePattern (nq_Name req) \<and> cv_Name v = nq_Name req
    \<and> r = writeJSON 201 (InstallBody v (installCommand code s1) code (ev_now E + 900))
    \<and> handleEnrollExchange E2 (Some \<lparr>eq_Code = code\<rparr>) s1 = (Inr (writeJSON 200 reply), s2)
    \<and> runEnroll S unjson yaml apiBase noStart (Some (200, json reply)) m
        = (Inr (), installed (\<not> noStart) yaml cfg m)
    \<and> LoadClientConfig unyaml systemConfigPath (installed (\<not> noStart) yaml cfg m) = Inr cfg
    \<and> cc_ServerAddr cfg = host @ '':'' @ dec_int (as_ControlPort s) \<and> cc_APIBase cfg = apiBase
    \<and> (CHR ''['' \<notin> set host \<longrightarrow> CHR '']'' \<notin> set host \<longrightarrow> SplitHostPort (cc_ServerAddr cfg)
        = (if CHR '':'' \<in> set host then None else Some (host, dec_int (as_ControlPort s))))
    \<and> (\<exists>c. auth_response (ev_sha E) (cc_Token cfg) (as_db s2)
          = (\<lparr>rs_OK = True, rs_Error = [], rs_ClientID = cv_ID v, rs_Name = nq_Name req,
              rs_Uninstall = False\<rparr>, Some c) \<and> c_ID c = cv_ID v)
    \<and> (\<forall>leaf chain. DialPinned (ev_sha E) (cc_CAFingerprint cfg) (Some (leaf # chain))
          \<longleftrightarrow> ev_sha E leaf = ev_sha E der)
    \<and> handleEnrollExchange E3 (Some \<lparr>eq_Code = code\<rparr>) s2
        = (Inl (writeError 401 (DbMsg InvalidEnrollmentCode)), s2)"
  using assms(1-4)
proof (rule created_machine)
  fix v code raw s2 c
  assume name: "clientNamePattern (nq_Name req)" "cv_Name v = nq_Name req"
    and r: "r = writeJSON 201 (InstallBody v (installCommand code s1) code (ev_now E + 900))"
    and exch: "handleEnrollExchange E2 (Some \<lparr>eq_Code = code\<rparr>) s1
      = (Inr (writeJSON 200 (EnrollBody (nq_Name req) (''ptly_'' @ hex_encode raw)
           (as_AdvertiseHost s @ '':'' @ dec_int (as_ControlPort s)) (as_CAFingerprint s))), s2)"
    and auth: "auth_response (ev_sha E) (''ptly_'' @ hex_encode raw) (as_db s2)
      = (\<lparr>rs_OK = True, rs_Error = [], rs_ClientID = cv_ID v, rs_Name = nq_Name req, rs_Uninstall = False\<rparr>, Some c)"
      "c_ID c = cv_ID v"
    and again: "handleEnrollExchange E3 (Some \<lparr>eq_Code = code\<rparr>) s2
      = (Inl (writeError 401 (DbMsg InvalidEnrollmentCode)), s2)"
  let ?addr = "host @ '':'' @ dec_int (as_ControlPort s)"
  let ?cfg = "\<lparr>cc_ServerAddr = ?addr, cc_Token = ''ptly_'' @ hex_encode raw,
    cc_CAFingerprint = as_CAFingerprint s, cc_APIBase = apiBase\<rparr>"
  have ascii: "is_ascii (nq_Name req)" "is_ascii (''ptly_'' @ hex_encode raw)" "is_ascii ?addr"
    "is_ascii (as_CAFingerprint s)"
    using clientNamePattern_ascii [OF name(1)] assms(5,8)
    by (simp_all add: is_ascii_Cons is_ascii_hex is_ascii_dec Fingerprint_def)
  have run: "runEnroll S unjson yaml apiBase noStart (Some (200, json (EnrollBody (nq_Name req)
      (''ptly_'' @ hex_encode raw) ?addr (as_CAFingerprint s)))) m = (Inr (), installed (\<not> noStart) yaml ?cfg m)"
    by (rule runEnroll_installs, rule assms(12), rule assms(13), rule assms(14), rule json [OF ascii]) simp
  have "unyaml (yaml ?cfg) = Some ?cfg"
    by (rule yaml) (use ascii assms(9) in simp_all)
  moreover have "as_CAFingerprint s \<noteq> []" using assms(5,6) by (cases "ev_sha E der") (simp_all add: Fingerprint_def)
  ultimately have load: "LoadClientConfig unyaml systemConfigPath (installed (\<not> noStart) yaml ?cfg m) = Inr ?cfg"
    by (intro load_installed) simp_all
  show ?thesis
    by (rule exI [of _ v], rule exI [of _ code], rule exI, rule exI [of _ s2], rule exI [of _ ?cfg], intro conjI,
        (rule name r exch [folded assms(7)] run load again)+)
      (use auth again in \<open>auto simp: SplitHostPort_control [simplified] DialPinned_leaf assms(5)\<close>)
qed


text \<open>What is left of a machine that removes its installation, and with what it was started.\<close>

lemma performSelfUninstall_all:
  assumes "hasSystemd m" and "os_remove S = (\<lambda>_. True)" and "os_ctl S [''disable'', ''portly-client'']"
    and "mc_exe m = Some exe"
  shows "performSelfUninstall S path m
    = m\<lparr>mc_files := (mc_files m)(systemUnitPath := None, path := None, exe := None), mc_enabled := False\<rparr>"
  using assms by (simp add: performSelfUninstall_def systemctl_def RemoveFile_def hasSystemd_def Let_def)

text \<open>
  C14. A removed machine cleans up and stays down. When a machine's row is deleted, its installed
  client ends at the first turn in which the server can answer, however long it was unreachable
  before: the process exits with success (so that systemd, which restarts it on failure only, does
  not), the unit, the configuration and the program are gone and the service is disabled, all other
  files are as they were, and a client started again on this configuration refuses to run. The
  uninstall command leaves the same files, with the service stopped as well.
\<close>

theorem removal_uninstalls_machine:
  assumes "db_wf d" and "DeleteClient now (c_ID row) d = (Inr u, d')"
    and "fst (GetClientByTokenHash (HashToken sha (cc_Token cfg)) d) = Inr row"
    and "LoadClientConfig unyaml path m = Inr cfg" and "list_all unreachable us"
    and "\<not> tu_done_head v" and "at_dial (tu_attempt v)" and "at_send (tu_attempt v)"
    and "resp = fst (auth_response sha (cc_Token cfg) d')"
    and "at_reply (tu_attempt v) = (frame_of ma resp @ extra, e)" and "sendable ma (un_auth J) resp"
    and "hasSystemd m" and "os_remove S = (\<lambda>_. True)" and "os_ctl S = (\<lambda>_. True)" and "mc_exe m = Some exe"
    and "path \<noteq> ''portly-client.yaml''"
  shows "\<exists>waits m'. runClient S unyaml J (us @ v # rest) path m = ((Some ExitOK, waits), m')
    \<and> length waits = length us
    \<and> mc_files m' = (mc_files m)(systemUnitPath := None, path := None, exe := None)
    \<and> \<not> mc_enabled m' \<and> mc_active m' = mc_active m
    \<and> runClient S2 unyaml J2 us2 path m' = ((Some (ConfigError ReadConfig), []), m')
    \<and> uninstallCmd S lower path True answer m = m'\<lparr>mc_active := False\<rparr>"
proof -
  let ?c = "NewClient (cc_ServerAddr cfg) (cc_Token cfg) True"
  let ?m = "performSelfUninstall S path m"
  have resp: "\<not> rs_OK resp" "rs_Uninstall resp"
    using deleted_lookup [OF assms(1,2,3) refl] by (simp_all add: assms(9) auth_response_def Let_def)
  have "runOnce J (tu_attempt v) ?c = ((ErrUninstalled, False), runUninstall ?c)"
    using runOnce_removed [OF assms(7,8,10,11) resp] .
  then have "Run J (v # rest) b ?c = ((Some ErrUninstalled, []), runUninstall ?c)" for b
    using assms(6) by simp
  with Run_unreachable [OF assms(5), of J "v # rest" 0 ?c] obtain ws where
    run: "Run J (us @ v # rest) minBackoff ?c = ((Some ErrUninstalled, ws), runUninstall ?c)"
    and ws: "length ws = length us"
    by (auto simp: waits_after_0 Let_def)
  have m': "?m = m\<lparr>mc_files := (mc_files m)(systemUnitPath := None, path := None, exe := None), mc_enabled := False\<rparr>"
    using performSelfUninstall_all assms(12-15) by simp
  have once: "tc_uninstalls (runUninstall ?c) = 1" by (simp add: runUninstall_def NewClient_def)
  have "runClient S unyaml J (us @ v # rest) path m = ((Some ExitOK, ws), ?m)"
    by (simp add: runClient_def assms(4) run once del: Run.simps)
  moreover have "mc_files ?m path = None" by (simp add: m')
  then have "runClient S2 unyaml J2 us2 path ?m = ((Some (ConfigError ReadConfig), []), ?m)"
    by (simp add: runClient_def LoadClientConfig_def)
  moreover have "uninstallCmd S lower path True answer m = ?m\<lparr>mc_active := False\<rparr>"
    using assms(12-16)
    by (simp add: uninstallCmd_def systemctl_def m' performSelfUninstall_all hasSystemd_def Let_def)
  ultimately show ?thesis using ws m' by (intro exI [of _ ws] exI [of _ ?m]) simp
qed

section \<open>Witnesses\<close>

lemma example_pinned_ok:
  "\<exists>r s1. handleCreateClient example_env (Some \<lparr>nq_Name = ''nas2''\<rparr>)
     (example_installed\<lparr>as_CAFingerprint := Fingerprint id [7]\<rparr>) = (Inr r, s1)"
  by (simp add: handleCreateClient_def hm_simps call_simps clientNamePattern_def alnum_def letter_def
      is_digit_def CreateClient_def tokM_def GenerateToken_def insert_client_def
      issueInstall_def CreateEnrollmentCode_def randomCode_def insert_code_def Let_def
      example_installed_db example_env_def fresh_db_def)

theorem machine_installs_witness:
  "\<exists>cfg. fst (runEnroll ex_os (\<lambda>_. Some \<lparr>xr_Name = ''nas2'', xr_Token = cc_Token cfg,
        xr_ControlAddr = cc_ServerAddr cfg, xr_CAFingerprint = cc_CAFingerprint cfg, xr_Error = []\<rparr>) ex_yaml
        ''http://h'' False (Some (200, [])) ex_machine) = Inr ()
    \<and> LoadClientConfig ex_unyaml systemConfigPath (installed True ex_yaml cfg ex_machine) = Inr cfg
    \<and> DialPinned id (cc_CAFingerprint cfg) (Some [[7]]) \<and> \<not> DialPinned id (cc_CAFingerprint cfg) (Some [[8]])"
proof -
  let ?s = "example_installed\<lparr>as_CAFingerprint := Fingerprint id [7]\<rparr>"
  obtain r s1 where c: "handleCreateClient example_env (Some \<lparr>nq_Name = ''nas2''\<rparr>) ?s = (Inr r, s1)"
    using example_pinned_ok by blast
  have host: "as_AdvertiseHost ?s = ''198.51.100.7''"
    by (simp add: example_installed_def runServer_def example_cfg_def NewApiServer_def Let_def split: prod.split)
  have root: "mc_root ex_machine" "hasSystemd ex_machine" "grants ex_os"
    by (simp_all add: ex_machine_def ex_os_def hasSystemd_def grants_def)
  have "\<exists>v code reply s2 cfg. clientNamePattern (nq_Name \<lparr>nq_Name = ''nas2''\<rparr>) \<and> cv_Name v = nq_Name \<lparr>nq_Name = ''nas2''\<rparr>
    \<and> r = writeJSON 201 (InstallBody v (installCommand code s1) code (ev_now example_env + 900))
    \<and> handleEnrollExchange example_env (Some \<lparr>eq_Code = code\<rparr>) s1 = (Inr (writeJSON 200 reply), s2)
    \<and> runEnroll ex_os ex_unjson ex_yaml ''http://h'' False (Some (200, ex_json reply)) ex_machine
        = (Inr (), installed (\<not> False) ex_yaml cfg ex_machine)
    \<and> LoadClientConfig ex_unyaml systemConfigPath (installed (\<not> False) ex_yaml cfg ex_machine) = Inr cfg
    \<and> cc_ServerAddr cfg = ''198.51.100.7'' @ '':'' @ dec_int (as_ControlPort ?s) \<and> cc_APIBase cfg = ''http://h''
    \<and> (CHR ''['' \<notin> set ''198.51.100.7'' \<longrightarrow> CHR '']'' \<notin> set ''198.51.100.7'' \<longrightarrow> SplitHostPort (cc_ServerAddr cfg)
        = (if CHR '':'' \<in> set ''198.51.100.7'' then None else Some (''198.51.100.7'', dec_int (as_ControlPort ?s))))
    \<and> (\<exists>c. auth_response (ev_sha example_env) (cc_Token cfg) (as_db s2)
          = (\<lparr>rs_OK = True, rs_Error = [], rs_ClientID = cv_ID v, rs_Name = nq_Name \<lparr>nq_Name = ''nas2''\<rparr>,
              rs_Uninstall = False\<rparr>, Some c) \<and> c_ID c = cv_ID v)
    \<and> (\<forall>leaf chain. DialPinned (ev_sha example_env) (cc_CAFingerprint cfg) (Some (leaf # chain))
          \<longleftrightarrow> ev_sha example_env leaf = ev_sha example_env [7])
    \<and> handleEnrollExchange example_env (Some \<lparr>eq_Code = code\<rparr>) s2
        = (Inl (writeError 401 (DbMsg InvalidEnrollmentCode)), s2)"
    by (rule machine_installs [OF c refl _ refl _ _ _ _ _ ex_codecs_round_trip(1) ex_codecs_round_trip(2) root(3,1,2)])
       (simp_all add: host, simp_all add: example_env_def is_ascii_def)
  then obtain cfg where cfg: "LoadClientConfig ex_unyaml systemConfigPath (installed True ex_yaml cfg ex_machine) = Inr cfg"
    and pin: "\<And>leaf. DialPinned id (cc_CAFingerprint cfg) (Some [leaf]) \<longleftrightarrow> leaf = [7]"
    by (auto simp: example_env_def)
  have "runEnroll ex_os (\<lambda>_. Some \<lparr>xr_Name = ''nas2'', xr_Token = cc_Token cfg,
        xr_ControlAddr = cc_ServerAddr cfg, xr_CAFingerprint = cc_CAFingerprint cfg, xr_Error = []\<rparr>) ex_yaml
        ''http://h'' False (Some (200, [])) ex_machine
      = (Inr (), installed (\<not> False) ex_yaml (cfg\<lparr>cc_APIBase := ''http://h''\<rparr>) ex_machine)"
    by (rule runEnroll_installs [OF root(3,1,2) refl]) simp
  with cfg pin show ?thesis by (intro exI [of _ cfg]) simp
qed

theorem removal_uninstalls_machine_witness:
  "\<exists>waits m'. runClient ex_os (\<lambda>_. Some \<lparr>cc_ServerAddr = ''h:7000'', cc_Token = ''ptly_01'', cc_CAFingerprint = ''00'',
        cc_APIBase = []\<rparr>) ex_codecs [ex_turn False ex_accepted [], ex_turn True ex_removed []] systemConfigPath
        (ex_machine\<lparr>mc_files := [systemConfigPath \<mapsto> []]\<rparr>) = ((Some ExitOK, waits), m')
    \<and> mc_files m' = Map.empty"
proof -
  let ?d = "snd (DeleteClient 9 ''c2'' ex_created)"
  let ?cfg = "\<lparr>cc_ServerAddr = ''h:7000'', cc_Token = ''ptly_01'', cc_CAFingerprint = ''00'', cc_APIBase = []\<rparr>"
  let ?m = "ex_machine\<lparr>mc_files := [systemConfigPath \<mapsto> []]\<rparr>"
  have wf: "db_wf ex_created"
    by (simp add: db_wf_def ex_created_def fresh_db_def admins_ok_def clients_ok_def tunnels_ok_def
        ports_ok_def samples_ok_def codes_ok_def keys_ok_def)
  have del: "DeleteClient 9 (c_ID ex_client) ex_created = (Inr (), ?d)"
    by (simp add: DeleteClient_eq ex_created_def fresh_db_def ex_client_def)
  have found: "fst (GetClientByTokenHash (HashToken id (cc_Token ?cfg)) ex_created) = Inr ex_client"
    by (simp add: GetClientByTokenHash_def queryM_def row_or_err_def ex_created_def fresh_db_def ex_client_def)
  have load: "LoadClientConfig (\<lambda>_. Some ?cfg) systemConfigPath ?m = Inr ?cfg"
    by (simp add: LoadClientConfig_def)
  have resp: "ex_removed = fst (auth_response id (cc_Token ?cfg) ?d)"
    using deleted_lookup [OF wf del found refl] by (simp add: auth_response_def ex_removed_def)
  have os: "hasSystemd ?m" "os_remove ex_os = (\<lambda>_. True)" "os_ctl ex_os = (\<lambda>_. True)" "mc_exe ?m = Some systemBinaryPath"
    by (simp_all add: hasSystemd_def ex_machine_def ex_os_def)
  have "\<exists>waits m'. runClient ex_os (\<lambda>_. Some ?cfg) ex_codecs ([ex_turn False ex_accepted []] @ ex_turn True ex_removed [] # [])
        systemConfigPath ?m = ((Some ExitOK, waits), m')
    \<and> length waits = length [ex_turn False ex_accepted []]
    \<and> mc_files m' = (mc_files ?m)(systemUnitPath := None, systemConfigPath := None, systemBinaryPath := None)
    \<and> \<not> mc_enabled m' \<and> mc_active m' = mc_active ?m
    \<and> runClient ex_os (\<lambda>_. Some ?cfg) ex_codecs [] systemConfigPath m' = ((Some (ConfigError ReadConfig), []), m')
    \<and> uninstallCmd ex_os id systemConfigPath True [] ?m = m'\<lparr>mc_active := False\<rparr>"
    by (rule removal_uninstalls_machine [where extra = "[]" and e = EOF, OF wf del found load _ _ _ _ resp _ ex_sendable(2) os])
       (simp_all add: ex_turn_def unreachable_def ex_sendable(3) systemConfigPath_def)
  then obtain waits m' where "runClient ex_os (\<lambda>_. Some ?cfg) ex_codecs
      [ex_turn False ex_accepted [], ex_turn True ex_removed []] systemConfigPath ?m = ((Some ExitOK, waits), m')"
    "mc_files m' = (mc_files ?m)(systemUnitPath := None, systemConfigPath := None, systemBinaryPath := None)"
    by auto
  moreover have "(mc_files ?m)(systemUnitPath := None, systemConfigPath := None, systemBinaryPath := None) = Map.empty"
    by (simp add: fun_eq_iff)
  ultimately show ?thesis by metis
qed

end
