(* ===== verification/ServerMainProps.thy ===== *)
theory ServerMainProps
imports ServerMain MachineProps
begin

text \<open>
  The server's identity over its restarts, the names its certificate carries, and machines added
  on the command line.
\<close>

section \<open>Addresses\<close>

lemma split_from_found:
  "CHR '':'' \<notin> set q \<Longrightarrow> i \<le> length q \<Longrightarrow> split_from (p @ CHR '':'' # q) (Suc (length p) + i) = Some (p, q)"
proof (induction i)
  case (Suc i)
  then have "q ! i \<noteq> CHR '':''" using nth_mem [of i q] by (metis Suc_le_lessD)
  with Suc show ?case by (simp add: nth_append)
qed simp

lemma splitHostPort_append:
  "CHR '':'' \<notin> set q \<Longrightarrow> splitHostPort (p @ CHR '':'' # q) = Some (p, q)"
  using split_from_found [of q "length q" p] by (simp add: splitHostPort_def)

lemma mustPort_dec:
  "in_int64 port \<Longrightarrow> mustPort (p @ '':'' @ dec_int port) = port"
  by (simp add: mustPort_def splitHostPort_append dec_int_no_sep(1) Atoi_dec_int)

lemma controlAddrPortSuffix_dec:
  "controlAddrPortSuffix (p @ '':'' @ dec_int port) = '':'' @ dec_int port"
  by (simp add: controlAddrPortSuffix_def splitHostPort_append dec_int_no_sep(1))

lemma containsString_iff [simp]: "containsString ss v \<longleftrightarrow> v \<in> set ss"
  by (induction ss) auto

lemma set_certHostsFor: "set (certHostsFor hosts) = set hosts \<union> {''localhost'', ''127.0.0.1''}"
  by (auto simp: certHostsFor_def)

lemma certHostsFor_nonempty: "certHostsFor hosts \<noteq> []"
proof -
  have "''localhost'' \<in> set (certHostsFor hosts)" unfolding set_certHostsFor by blast
  then show ?thesis by fastforce
qed

lemma resolveAdvertiseHosts_nonempty: "resolveAdvertiseHosts adv get4 \<noteq> []"
  by (simp add: resolveAdvertiseHosts_def split: option.split)

lemma firstNonEmpty_fallback: "hosts \<noteq> [] \<Longrightarrow> firstNonEmpty hosts a = firstNonEmpty hosts b"
  by (cases hosts) (auto simp: firstNonEmpty_def split: option.split)

section \<open>Certificate files\<close>

lemma WriteFile_True: "WriteFile S p data m = (True, m') \<Longrightarrow> m' = m\<lparr>mc_files := (mc_files m)(p \<mapsto> data)\<rparr>"
  by (auto simp: WriteFile_def split: write_result.splits)

lemma writeKeyPair_True:
  assumes "writeKeyPair P S c k der key m = (True, m')"
  obtains kb where "pk_marshal_key P key = Some kb"
    "m' = m\<lparr>mc_files := (mc_files m)(c \<mapsto> pk_pem P ''CERTIFICATE'' der, k \<mapsto> pk_pem P ''EC PRIVATE KEY'' kb)\<rparr>"
  using assms by (auto simp: writeKeyPair_def dest!: WriteFile_True split: prod.splits bool.splits option.splits)

lemma generateCA_True:
  assumes "generateCA P S c k m = (True, m')"
  obtains x y where "m' = m\<lparr>mc_files := (mc_files m)(c \<mapsto> x, k \<mapsto> y)\<rparr>"
  using assms by (auto simp: generateCA_def elim!: writeKeyPair_True split: option.splits)

lemma generateServerCert_None:
  assumes "generateServerCert P S cc ck c k hosts m = (None, m')"
  obtains serial ca key caKey der kb where
    "pk_create P serial (server_template P hosts) (Some ca) key caKey = Some der"
    "pk_marshal_key P key = Some kb"
    "m' = m\<lparr>mc_files := (mc_files m)(c \<mapsto> pk_pem P ''CERTIFICATE'' der, k \<mapsto> pk_pem P ''EC PRIVATE KEY'' kb)\<rparr>"
  using assms
  by (auto simp: generateServerCert_def elim!: writeKeyPair_True split: option.splits if_splits prod.splits bool.splits)

lemma dir_files_distinct:
  "distinct (map (in_dir dataDir) [caCertFile, caKeyFile, serverCertFile, serverKeyFile])"
  by (simp add: in_dir_def caCertFile_def caKeyFile_def serverCertFile_def serverKeyFile_def)

text \<open>What a successful start has read, and what it has written before.\<close>

definition serving :: "pki \<Rightarrow> string \<Rightarrow> byte list \<Rightarrow> machine \<Rightarrow> bool" where
  "serving P dataDir leaf m \<longleftrightarrow> (\<exists>certPEM keyPEM. mc_files m (in_dir dataDir serverCertFile) = Some certPEM
     \<and> mc_files m (in_dir dataDir serverKeyFile) = Some keyPEM \<and> pk_load_pair P certPEM keyPEM = Some leaf)
     \<and> pk_parse P leaf"

lemma Ensure_serves:
  assumes "EnsureServerCert sha P S dataDir hosts m = (Inr (leaf, fp), m1)"
  shows "serving P dataDir leaf m1" "fp = Fingerprint sha leaf"
    "fileExists (in_dir dataDir caCertFile) m1" "fileExists (in_dir dataDir caKeyFile) m1"
    "os_mkdir S"
  using assms dir_files_distinct [of dataDir]
  by (auto simp: EnsureServerCert_def serving_def Let_def fileExists_def
      elim!: generateCA_True generateServerCert_None split: if_splits prod.splits bool.splits option.splits)

text \<open>The authority's pair of files: kept when both exist, else made.\<close>

definition authority :: "pki \<Rightarrow> os \<Rightarrow> string \<Rightarrow> machine \<Rightarrow> bool \<times> machine" where
  "authority P S dataDir m =
     (if fileExists (in_dir dataDir caCertFile) m \<and> fileExists (in_dir dataDir caKeyFile) m then (True, m)
      else generateCA P S (in_dir dataDir caCertFile) (in_dir dataDir caKeyFile) m)"

lemma generateCA_files:
  assumes "generateCA P S c k m = (ok, m')" and "p \<noteq> c" and "p \<noteq> k"
  shows "mc_files m' p = mc_files m p"
  using assms by (auto simp: generateCA_def writeKeyPair_def WriteFile_def
      split: option.splits prod.splits bool.splits write_result.splits)

lemma authority_files:
  assumes "authority P S dataDir m = (ok, m')" and "p \<noteq> in_dir dataDir caCertFile" and "p \<noteq> in_dir dataDir caKeyFile"
  shows "mc_files m' p = mc_files m p"
  using assms generateCA_files by (auto simp: authority_def split: if_splits)

lemma Ensure_later:
  assumes "serving P dataDir leaf m" and "pk_load_pair P2 = pk_load_pair P" and "pk_parse P2 = pk_parse P"
  shows "os_mkdir S \<Longrightarrow> fileExists (in_dir dataDir caCertFile) m \<Longrightarrow> fileExists (in_dir dataDir caKeyFile) m \<Longrightarrow>
      EnsureServerCert sha P2 S dataDir hosts m = (Inr (leaf, Fingerprint sha leaf), m)"
    and "os_mkdir S \<Longrightarrow> EnsureServerCert sha P2 S dataDir hosts m = (case authority P2 S dataDir m of
      (True, m1) \<Rightarrow> (Inr (leaf, Fingerprint sha leaf), m1) | (False, m1) \<Rightarrow> (Inl GenerateCA, m1))"
    and "EnsureServerCert sha P2 S dataDir hosts m = (Inr r, m1) \<Longrightarrow> r = (leaf, Fingerprint sha leaf)"
proof -
  obtain certPEM keyPEM where pem: "mc_files m (in_dir dataDir serverCertFile) = Some certPEM"
    "mc_files m (in_dir dataDir serverKeyFile) = Some keyPEM" "pk_load_pair P certPEM keyPEM = Some leaf"
    "pk_parse P leaf"
    using assms(1) by (auto simp: serving_def)
  show "os_mkdir S \<Longrightarrow> fileExists (in_dir dataDir caCertFile) m \<Longrightarrow> fileExists (in_dir dataDir caKeyFile) m \<Longrightarrow>
      EnsureServerCert sha P2 S dataDir hosts m = (Inr (leaf, Fingerprint sha leaf), m)"
    using pem assms(2,3) by (simp add: EnsureServerCert_def fileExists_def Let_def)
  have ca: "mc_files m2 (in_dir dataDir serverCertFile) = Some certPEM \<and> mc_files m2 (in_dir dataDir serverKeyFile) = Some keyPEM"
    if "generateCA P2 S (in_dir dataDir caCertFile) (in_dir dataDir caKeyFile) m = (True, m2)" for m2
    using that pem dir_files_distinct [of dataDir] by (auto elim!: generateCA_True)
  show "os_mkdir S \<Longrightarrow> EnsureServerCert sha P2 S dataDir hosts m = (case authority P2 S dataDir m of
      (True, m1) \<Rightarrow> (Inr (leaf, Fingerprint sha leaf), m1) | (False, m1) \<Rightarrow> (Inl GenerateCA, m1))"
    using pem assms(2,3)
    by (auto simp: EnsureServerCert_def authority_def fileExists_def Let_def dest!: ca
        split: prod.splits bool.splits option.splits)
  then show "EnsureServerCert sha P2 S dataDir hosts m = (Inr r, m1) \<Longrightarrow> r = (leaf, Fingerprint sha leaf)"
    by (cases "os_mkdir S") (auto simp: EnsureServerCert_def split: prod.splits bool.splits)
qed

lemma Ensure_fresh:
  assumes "EnsureServerCert sha P S dataDir hosts m = (Inr (leaf, fp), m1)"
    and "\<not> fileExists (in_dir dataDir serverCertFile) m"
    and load: "\<And>der key kb. pk_marshal_key P key = Some kb \<Longrightarrow>
      pk_load_pair P (pk_pem P ''CERTIFICATE'' der) (pk_pem P ''EC PRIVATE KEY'' kb) \<in> {None, Some der}"
  shows "\<exists>serial ca key caKey. pk_create P serial (server_template P hosts) (Some ca) key caKey = Some leaf"
proof -
  have ca: "\<not> fileExists (in_dir dataDir serverCertFile) m2"
    if "generateCA P S (in_dir dataDir caCertFile) (in_dir dataDir caKeyFile) m = (True, m2)" for m2
    using that assms(2) dir_files_distinct [of dataDir] by (auto simp: fileExists_def elim!: generateCA_True)
  obtain m2 m3 where "\<not> fileExists (in_dir dataDir serverCertFile) m2"
    and gen: "generateServerCert P S (in_dir dataDir caCertFile) (in_dir dataDir caKeyFile)
      (in_dir dataDir serverCertFile) (in_dir dataDir serverKeyFile) hosts m2 = (None, m3)"
    and loaded: "\<exists>c k. mc_files m3 (in_dir dataDir serverCertFile) = Some c
      \<and> mc_files m3 (in_dir dataDir serverKeyFile) = Some k \<and> pk_load_pair P c k = Some leaf"
    using assms(1,2) ca
    by (auto simp: EnsureServerCert_def Let_def split: if_splits prod.splits bool.splits option.splits)
  from gen obtain serial ca key caKey der kb where
      der: "pk_create P serial (server_template P hosts) (Some ca) key caKey = Some der" "pk_marshal_key P key = Some kb"
    and m3: "m3 = m2\<lparr>mc_files := (mc_files m2)(in_dir dataDir serverCertFile \<mapsto> pk_pem P ''CERTIFICATE'' der,
      in_dir dataDir serverKeyFile \<mapsto> pk_pem P ''EC PRIVATE KEY'' kb)\<rparr>"
    by (rule generateServerCert_None)
  have "leaf = der" using loaded m3 load [OF der(2), of der] dir_files_distinct [of dataDir] by auto
  with der(1) show ?thesis by blast
qed

section \<open>The names of the certificate\<close>

lemma server_template_fold:
  fixes t :: template
  shows "fold (\<lambda>h t. case ParseIP h of
        Some ip \<Rightarrow> t\<lparr>tp_IPAddresses := tp_IPAddresses t @ [ip]\<rparr>
      | None \<Rightarrow> t\<lparr>tp_DNSNames := tp_DNSNames t @ [h]\<rparr>) hs t
    = t\<lparr>tp_IPAddresses := tp_IPAddresses t @ List.map_filter ParseIP hs,
        tp_DNSNames := tp_DNSNames t @ filter (\<lambda>h. ParseIP h = None) hs\<rparr>"
  by (induction hs arbitrary: t) (auto simp: map_filter_simps split: option.split)

lemma set_map_filter: "set (List.map_filter f xs) = {y. \<exists>x\<in>set xs. f x = Some y}"
  by (induction xs) (auto simp: map_filter_simps split: option.split)

lemma server_template_names:
  "hosts \<noteq> [] \<Longrightarrow> tp_IPAddresses (server_template P hosts) = List.map_filter ParseIP hosts"
  "hosts \<noteq> [] \<Longrightarrow> tp_DNSNames (server_template P hosts) = filter (\<lambda>h. ParseIP h = None) hosts"
  "\<not> tp_IsCA (server_template P hosts)" "tp_ExtKeyUsage (server_template P hosts) = [ServerAuth]"
  "set (tp_KeyUsage (server_template P hosts)) = {DigitalSignature, KeyEncipherment}"
  "tp_NotBefore (server_template P hosts) = pk_now P - 3600"
  "tp_NotAfter (server_template P hosts) = pk_now P + 10 * 365 * 24 * 3600"
  by (simp_all add: server_template_def server_template_fold host_names_def certValidity_def)

section \<open>Properties\<close>

lemma startServer_SomeE:
  assumes "startServer E P S F get4 get6 dir d0 file0 m = (Some (leaf, s), setup, m1)"
  obtains fp where "EnsureServerCert (ev_sha E) P S (fl_dataDir F)
      (certHostsFor (resolveAdvertiseHosts (fl_advertiseHost F) get4)) m = (Inr (leaf, fp), m1)"
    "s = runServer E (configure F (resolveAdvertiseHosts (fl_advertiseHost F) get4) (DetectPublicIPv6 get6) fp
        (LoadEmbeddedClientBinaries dir) m1 (NewApiServer (NewServer d0))) d0 file0" "setup = writeSetupCode E (d0, file0)"
  using assms by (auto simp: startServer_def Let_def split: prod.splits sum.splits)

lemma runServer_configured [simp]:
  "as_CAFingerprint (runServer E cfg d f) = as_CAFingerprint cfg"
  "as_AdvertiseHost (runServer E cfg d f) = as_AdvertiseHost cfg"
  "as_ControlPort (runServer E cfg d f) = as_ControlPort cfg"
  by (simp_all add: runServer_def Let_def split: prod.split)

lemma configure_simps [simp]:
  "as_CAFingerprint (configure F hosts ip6 fp bins mm s) = fp"
  "as_AdvertiseHost (configure F hosts ip6 fp bins mm s) = firstNonEmpty hosts ''localhost''"
  "as_ControlPort (configure F hosts ip6 fp bins mm s) = mustPort (fl_controlAddr F)"
  by (simp_all add: configure_def Let_def)

text \<open>
  C38. The server keeps its identity. Once a start has succeeded, every later one on the same data
  directory, whatever its other flags, detected addresses, randomness and database, succeeds, presents
  the same certificate and announces the same fingerprint, and a client that pinned it accepts the
  certificate; it changes no file, apart from the setup code that it makes or keeps. If the authority's
  two files were lost or replaced before, it still presents this certificate, unless the authority has to
  be made anew and cannot be, when the start fails; and then these two are the only files it writes
  besides the setup code. (Reading a key pair from files is assumed to depend on the files only; the
  data directory can be made or exists.)
\<close>

theorem server_identity_stable:
  assumes "startServer E P S F get4 get6 dir d0 file0 m = (Some (leaf, s), setup, m1)"
    and "ev_sha E2 = ev_sha E" and "pk_load_pair P2 = pk_load_pair P" and "pk_parse P2 = pk_parse P"
    and "os_mkdir S2" and "fl_dataDir F2 = fl_dataDir F"
    and "caCert = in_dir (fl_dataDir F) caCertFile" and "caKey = in_dir (fl_dataDir F) caKeyFile"
    and "m1' = m1\<lparr>mc_files := (mc_files m1)(caCert := ca, caKey := key)\<rparr>"
    and "(renewed, m2) = (if ca \<noteq> None \<and> key \<noteq> None then (True, m1') else generateCA P2 S2 caCert caKey m1')"
  shows "(\<exists>s2. startServer E2 P2 S2 F2 get4b get6b dir2 d2 file2 m1
        = (Some (leaf, s2), writeSetupCode E2 (d2, file2), m1)
      \<and> as_CAFingerprint s2 = as_CAFingerprint s)
    \<and> DialPinned (ev_sha E) (as_CAFingerprint s) (Some (leaf # chain))
    \<and> (if renewed then (\<exists>s2. startServer E2 P2 S2 F2 get4b get6b dir2 d2 file2 m1'
          = (Some (leaf, s2), writeSetupCode E2 (d2, file2), m2) \<and> as_CAFingerprint s2 = as_CAFingerprint s)
       else startServer E2 P2 S2 F2 get4b get6b dir2 d2 file2 m1' = (None, writeSetupCode E2 (d2, file2), m2))
    \<and> (\<forall>p. p \<noteq> caCert \<longrightarrow> p \<noteq> caKey \<longrightarrow> mc_files m2 p = mc_files m1 p)"
  using assms(1)
proof (rule startServer_SomeE)
  fix fp
  assume ens: "EnsureServerCert (ev_sha E) P S (fl_dataDir F)
      (certHostsFor (resolveAdvertiseHosts (fl_advertiseHost F) get4)) m = (Inr (leaf, fp), m1)"
    and s: "s = runServer E (configure F (resolveAdvertiseHosts (fl_advertiseHost F) get4) (DetectPublicIPv6 get6) fp
        (LoadEmbeddedClientBinaries dir) m1 (NewApiServer (NewServer d0))) d0 file0"
  note e = Ensure_serves [OF ens]
  have fp: "as_CAFingerprint s = Fingerprint (ev_sha E) leaf" by (simp add: s e(2))
  have ok: "serving P (fl_dataDir F) leaf m1'"
    using e(1) dir_files_distinct [of "fl_dataDir F"] by (auto simp: serving_def assms(7-9))
  have auth: "authority P2 S2 (fl_dataDir F) m1' = (renewed, m2)"
    using assms(10) dir_files_distinct [of "fl_dataDir F"] by (auto simp: authority_def assms(7-9) fileExists_def)
  have files: "\<forall>p. p \<noteq> caCert \<longrightarrow> p \<noteq> caKey \<longrightarrow> mc_files m2 p = mc_files m1 p"
    using authority_files [OF auth] by (simp add: assms(7-9))
  note later = Ensure_later(1) [OF e(1) assms(3,4,5) e(3,4)] Ensure_later(2) [OF ok assms(3,4,5)]
  have "\<exists>s2. startServer E2 P2 S2 F2 get4b get6b dir2 d2 file2 m1 = (Some (leaf, s2), writeSetupCode E2 (d2, file2), m1)
      \<and> as_CAFingerprint s2 = as_CAFingerprint s"
    using later(1) by (simp add: startServer_def assms(2,6) fp)
  moreover have "if renewed then (\<exists>s2. startServer E2 P2 S2 F2 get4b get6b dir2 d2 file2 m1'
          = (Some (leaf, s2), writeSetupCode E2 (d2, file2), m2) \<and> as_CAFingerprint s2 = as_CAFingerprint s)
       else startServer E2 P2 S2 F2 get4b get6b dir2 d2 file2 m1' = (None, writeSetupCode E2 (d2, file2), m2)"
    using later(2) by (simp add: startServer_def assms(2,6) fp auth)
  ultimately show ?thesis using files by (simp add: fp DialPinned_leaf)
qed

text \<open>
  C39. The certificate of a first start is one for TLS servers (its extended usage is server
  authentication and nothing else, it is no authority, its key signs and enciphers keys), valid from an
  hour before for ten years, for exactly the advertised hosts and the local names, addresses as IP
  addresses and all other names as DNS names; and the host that install commands and enrollments name is
  one of them.
\<close>

theorem certificate_covers_hosts:
  assumes "startServer E P S F get4 get6 dir d0 file0 m = (Some (leaf, s), setup, m1)"
    and "\<not> fileExists (in_dir (fl_dataDir F) serverCertFile) m"
    and "\<And>der key kb. pk_marshal_key P key = Some kb \<Longrightarrow>
      pk_load_pair P (pk_pem P ''CERTIFICATE'' der) (pk_pem P ''EC PRIVATE KEY'' kb) \<in> {None, Some der}"
    and "names = set (resolveAdvertiseHosts (fl_advertiseHost F) get4) \<union> {''localhost'', ''127.0.0.1''}"
  shows "\<exists>serial T ca key caKey. pk_create P serial T (Some ca) key caKey = Some leaf \<and> \<not> tp_IsCA T
    \<and> tp_ExtKeyUsage T = [ServerAuth] \<and> set (tp_KeyUsage T) = {DigitalSignature, KeyEncipherment}
    \<and> tp_NotBefore T = pk_now P - 3600 \<and> tp_NotAfter T = pk_now P + 10 * 365 * 24 * 3600
    \<and> set (tp_IPAddresses T) = {ip. \<exists>h\<in>names. ParseIP h = Some ip}
    \<and> set (tp_DNSNames T) = {h \<in> names. ParseIP h = None}
    \<and> as_AdvertiseHost s \<in> names"
  using assms(1)
proof (rule startServer_SomeE)
  let ?hosts = "resolveAdvertiseHosts (fl_advertiseHost F) get4"
  fix fp
  assume ens: "EnsureServerCert (ev_sha E) P S (fl_dataDir F) (certHostsFor ?hosts) m = (Inr (leaf, fp), m1)"
    and s: "s = runServer E (configure F ?hosts (DetectPublicIPv6 get6) fp
        (LoadEmbeddedClientBinaries dir) m1 (NewApiServer (NewServer d0))) d0 file0"
  have "\<exists>serial ca key caKey. pk_create P serial (server_template P (certHostsFor ?hosts)) (Some ca) key caKey = Some leaf"
    by (rule Ensure_fresh [OF ens assms(2)], rule assms(3))
  moreover have "certHostsFor ?hosts \<noteq> []" by (rule certHostsFor_nonempty)
  note t = server_template_names(1,2) [OF this, of P] server_template_names(3-7) [of P "certHostsFor ?hosts"]
  have names: "set (certHostsFor ?hosts) = names" by (simp only: set_certHostsFor assms(4))
  have "set (tp_IPAddresses (server_template P (certHostsFor ?hosts))) = {ip. \<exists>h\<in>names. ParseIP h = Some ip}"
    unfolding t(1) set_map_filter names ..
  moreover have "set (tp_DNSNames (server_template P (certHostsFor ?hosts))) = {h \<in> names. ParseIP h = None}"
    unfolding t(2) set_filter names ..
  moreover have "firstNonEmpty ?hosts ''localhost'' \<in> set ?hosts"
    using resolveAdvertiseHosts_nonempty [of "fl_advertiseHost F" get4]
    by (cases ?hosts) (auto simp: firstNonEmpty_def dest: find_Some_in split: option.split)
  then have "as_AdvertiseHost s \<in> names" by (simp add: s assms(4))
  ultimately show ?thesis using t(3-7) by blast
qed


text \<open>
  C40. A machine added on the command line. The three values that \<open>client add\<close> prints, typed into
  \<open>init\<close> on the machine, give a configuration that loads, whose token authenticates exactly the new
  machine, whose pin accepts the certificate of a server started on the same data directory, and
  whose server address is the one that this server gives to machines enrolled over the API. (For
  flags with a control address that ends in a decimal port, and a codec that reads back what it
  wrote.)
\<close>

theorem cli_onboarding:
  assumes "clientAddCmd E P S F get4 name (d, m) = (Inr (client, cx), d1, m1)"
    and "startServer E2 P2 S2 F get4 get6 dir d0 file0 m1 = (Some (leaf, s), setup, m2)"
    and "ev_sha E2 = ev_sha E" and "pk_load_pair P2 = pk_load_pair P" and "pk_parse P2 = pk_parse P"
    and "fl_controlAddr F = p @ '':'' @ dec_int port" and "in_int64 port" and "ev_sha E leaf \<noteq> []"
    and "initCmd S3 yaml path (cx_server_addr cx) (cx_token cx) (cx_ca_fingerprint cx) h = (True, h1)"
    and "\<And>cfg. cfg = \<lparr>cc_ServerAddr = cx_server_addr cx, cc_Token = cx_token cx,
      cc_CAFingerprint = cx_ca_fingerprint cx, cc_APIBase = []\<rparr> \<Longrightarrow> unyaml (yaml cfg) = Some cfg"
  shows "\<exists>cfg. LoadClientConfig unyaml path h1 = Inr cfg
    \<and> cc_ServerAddr cfg = as_AdvertiseHost s @ '':'' @ dec_int (as_ControlPort s)
    \<and> DialPinned (ev_sha E) (cc_CAFingerprint cfg) (Some (leaf # chain))
    \<and> auth_response (ev_sha E) (cc_Token cfg) d1
        = (\<lparr>rs_OK = True, rs_Error = [], rs_ClientID = c_ID client, rs_Name = name, rs_Uninstall = False\<rparr>, Some client)"
proof -
  let ?hosts = "resolveAdvertiseHosts (fl_advertiseHost F) get4"
  obtain leaf0 fp token where
    ens: "EnsureServerCert (ev_sha E) P S (fl_dataDir F) (certHostsFor ?hosts) m = (Inr (leaf0, fp), m1)"
    and create: "CreateClient (ev_sha E) (ev_rand E 0) (ev_uuid E 0) (ev_now E) name d = (Inr (client, token), d1)"
    and cx: "cx = \<lparr>cx_server_addr = firstNonEmpty ?hosts ''YOUR_VPS_HOST'' @ controlAddrPortSuffix (fl_controlAddr F),
      cx_token = token, cx_ca_fingerprint = fp\<rparr>"
    using assms(1) by (auto simp: clientAddCmd_def Let_def split: sum.splits prod.splits)
  note e = Ensure_serves [OF ens]
  obtain fp2 where "EnsureServerCert (ev_sha E2) P2 S2 (fl_dataDir F) (certHostsFor ?hosts) m1 = (Inr (leaf, fp2), m2)"
    and s: "s = runServer E2 (configure F ?hosts (DetectPublicIPv6 get6) fp2
        (LoadEmbeddedClientBinaries dir) m2 (NewApiServer (NewServer d0))) d0 file0"
    using assms(2) by (rule startServer_SomeE)
  from Ensure_later(3) [OF e(1) assms(4,5) this(1)] have leaf: "leaf0 = leaf" by simp
  have host: "firstNonEmpty ?hosts ''YOUR_VPS_HOST'' = as_AdvertiseHost s"
    using firstNonEmpty_fallback [OF resolveAdvertiseHosts_nonempty] by (simp add: s)
  have port: "as_ControlPort s = port" "controlAddrPortSuffix (fl_controlAddr F) = '':'' @ dec_int port"
    using mustPort_dec [OF assms(7), of p] controlAddrPortSuffix_dec [of p port] by (simp_all add: s assms(6))
  let ?cfg = "\<lparr>cc_ServerAddr = cx_server_addr cx, cc_Token = cx_token cx, cc_CAFingerprint = cx_ca_fingerprint cx,
    cc_APIBase = []\<rparr>"
  have "token \<noteq> []" using CreateClient_token [OF create] by auto
  moreover have "fp \<noteq> []" using e(2) leaf assms(8) by (cases "ev_sha E leaf") (simp_all add: Fingerprint_def)
  ultimately have load: "LoadClientConfig unyaml path h1 = Inr ?cfg"
    using assms(9,10) port by (auto simp: initCmd_def SaveClientConfig_def LoadClientConfig_def cx dest!: WriteFile_True)
  obtain n where n: "insert_client client d = (Inr n, d1)" "c_TokenHash client = HashToken (ev_sha E) token" "c_Name client = name"
    using create by (rule CreateClient_InrE)
  have "fst (GetClientByTokenHash (HashToken (ev_sha E) token) d1) = Inr client"
    using machines.lookup_issue [OF n(1)] n(2) by simp
  then have "auth_response (ev_sha E) token d1
      = (\<lparr>rs_OK = True, rs_Error = [], rs_ClientID = c_ID client, rs_Name = name, rs_Uninstall = False\<rparr>, Some client)"
    using n(3) by (simp add: auth_response_def Let_def)
  with load show ?thesis
    by (intro exI [of _ ?cfg]) (simp add: cx host port e(2) leaf DialPinned_leaf)
qed

section \<open>Witnesses\<close>

definition ex_pki :: pki where
  "ex_pki = \<lparr>pk_now = 0, pk_key = (\<lambda>n. Some [word_of_nat n]), pk_serial = (\<lambda>n. Some (int n)),
     pk_create = (\<lambda>_ _ parent pub _. Some (case parent of None \<Rightarrow> [7] | Some _ \<Rightarrow> pub)), pk_parse = (\<lambda>_. True),
     pk_marshal_key = Some, pk_parse_key = Some, pk_pem = (\<lambda>_ b. b), pk_unpem = Some, pk_load_pair = (\<lambda>c _. Some c)\<rparr>"

definition ex_flags :: flags where
  "ex_flags = \<lparr>fl_buildCommit = ''dev'', fl_dataDir = ''/d'', fl_controlAddr = '':7000'', fl_apiAddr = '':8080'', fl_webAddr = '':80'',
     fl_httpsAddr = '':443'', fl_advertiseHost = [''vps''], fl_allowedOrigins = []\<rparr>"

definition ex_host :: machine where
  "ex_host = ex_machine\<lparr>mc_files := Map.empty\<rparr>"

definition ex_certified :: machine where
  "ex_certified = ex_host\<lparr>mc_files := [in_dir ''/d'' caCertFile \<mapsto> [7], in_dir ''/d'' caKeyFile \<mapsto> [0],
     in_dir ''/d'' serverCertFile \<mapsto> [1], in_dir ''/d'' serverKeyFile \<mapsto> [1]]\<rparr>"

lemma ex_ensured: "EnsureServerCert sha ex_pki ex_os ''/d'' hosts ex_host = (Inr ([1], Fingerprint sha [1]), ex_certified)"
  by (simp add: EnsureServerCert_def fileExists_def ex_host_def ex_certified_def ex_os_def generateCA_def
      generateServerCert_def writeKeyPair_def WriteFile_def ex_pki_def Let_def in_dir_def
      caCertFile_def caKeyFile_def serverCertFile_def serverKeyFile_def)

lemma ex_started:
  "\<exists>s. startServer example_env ex_pki ex_os ex_flags (\<lambda>_. None) (\<lambda>_. None) None fresh_db None ex_host
    = (Some ([1], s), writeSetupCode example_env (fresh_db, None), ex_certified)"
  by (simp add: startServer_def ex_flags_def ex_ensured)

text \<open>A later start with other keys, after both files of the authority were deleted.\<close>

theorem server_identity_stable_witness:
  "let P2 = ex_pki\<lparr>pk_key := (\<lambda>_. Some [9])\<rparr>; caCert = in_dir ''/d'' caCertFile; caKey = in_dir ''/d'' caKeyFile;
       lost = ex_certified\<lparr>mc_files := (mc_files ex_certified)(caCert := None, caKey := None)\<rparr>
   in \<exists>s2 m2. startServer example_env P2 ex_os ex_flags (\<lambda>_. None) (\<lambda>_. None) None fresh_db None lost
        = (Some ([1], s2), writeSetupCode example_env (fresh_db, None), m2)
      \<and> as_CAFingerprint s2 = Fingerprint id [1] \<and> mc_files m2 caKey = Some [9]
      \<and> mc_files m2 (in_dir ''/d'' serverKeyFile) = Some [1]"
proof -
  let ?P = "ex_pki\<lparr>pk_key := (\<lambda>_. Some [9])\<rparr>" and ?c = "in_dir ''/d'' caCertFile" and ?k = "in_dir ''/d'' caKeyFile"
  let ?lost = "ex_certified\<lparr>mc_files := (mc_files ex_certified)(?c := None, ?k := None)\<rparr>"
  let ?m2 = "?lost\<lparr>mc_files := (mc_files ?lost)(?c \<mapsto> [7], ?k \<mapsto> [9])\<rparr>"
  obtain s where s: "startServer example_env ex_pki ex_os ex_flags (\<lambda>_. None) (\<lambda>_. None) None fresh_db None ex_host
      = (Some ([1], s), writeSetupCode example_env (fresh_db, None), ex_certified)"
    using ex_started by blast
  have "os_mkdir ex_os" by (simp add: ex_os_def)
  have dir: "fl_dataDir ex_flags = ''/d''" by (simp add: ex_flags_def)
  have made: "generateCA ?P ex_os ?c ?k ?lost = (True, ?m2)"
    by (simp add: generateCA_def writeKeyPair_def WriteFile_def ex_pki_def ex_os_def)
  have fp: "as_CAFingerprint s = Fingerprint id [1]"
    using s by (auto simp: dir ex_ensured example_env_def elim!: startServer_SomeE)
  from server_identity_stable [OF s, of example_env ?P ex_os ex_flags ?c ?k ?lost None None True ?m2 "\<lambda>_. None" "\<lambda>_. None"
      None fresh_db None "[]", OF refl _ _ \<open>os_mkdir ex_os\<close> refl] made dir fp
  have "\<exists>s2. startServer example_env ?P ex_os ex_flags (\<lambda>_. None) (\<lambda>_. None) None fresh_db None ?lost
        = (Some ([1], s2), writeSetupCode example_env (fresh_db, None), ?m2)
      \<and> as_CAFingerprint s2 = Fingerprint id [1]"
    by simp
  moreover have "mc_files ?m2 ?k = Some [9]" "mc_files ?m2 (in_dir ''/d'' serverKeyFile) = Some [1]"
    by (simp_all add: ex_certified_def in_dir_def caCertFile_def caKeyFile_def serverCertFile_def serverKeyFile_def)
  ultimately show ?thesis unfolding Let_def by blast
qed

theorem certificate_covers_hosts_witness:
  "\<exists>serial T ca key caKey. pk_create ex_pki serial T (Some ca) key caKey = Some [1] \<and> \<not> tp_IsCA T
    \<and> tp_ExtKeyUsage T = [ServerAuth] \<and> set (tp_KeyUsage T) = {DigitalSignature, KeyEncipherment}
    \<and> tp_NotAfter T = 315360000
    \<and> set (tp_IPAddresses T) = {ip. \<exists>h\<in>{''vps'', ''localhost'', ''127.0.0.1''}. ParseIP h = Some ip}
    \<and> set (tp_DNSNames T) = {h \<in> {''vps'', ''localhost'', ''127.0.0.1''}. ParseIP h = None}"
proof -
  obtain s where s: "startServer example_env ex_pki ex_os ex_flags (\<lambda>_. None) (\<lambda>_. None) None fresh_db None ex_host
      = (Some ([1], s), writeSetupCode example_env (fresh_db, None), ex_certified)"
    using ex_started by blast
  have hosts: "{''vps'', ''localhost'', ''127.0.0.1''}
      = set (resolveAdvertiseHosts (fl_advertiseHost ex_flags) (\<lambda>_. None)) \<union> {''localhost'', ''127.0.0.1''}"
    by (auto simp: resolveAdvertiseHosts_def ex_flags_def)
  have absent: "\<not> fileExists (in_dir (fl_dataDir ex_flags) serverCertFile) ex_host"
    by (simp add: fileExists_def ex_host_def)
  have load: "pk_load_pair ex_pki (pk_pem ex_pki ''CERTIFICATE'' der) (pk_pem ex_pki ''EC PRIVATE KEY'' kb) \<in> {None, Some der}"
    for der kb
    by (simp add: ex_pki_def)
  have now: "pk_now ex_pki = 0" by (simp add: ex_pki_def)
  from certificate_covers_hosts [OF s absent load hosts] show ?thesis
    unfolding now by (elim exE conjE) (intro exI conjI; (assumption | simp))
qed

theorem cli_onboarding_witness:
  "\<exists>client cx d1 s cfg. clientAddCmd example_env ex_pki ex_os ex_flags (\<lambda>_. None) ''nas'' (fresh_db, ex_host)
      = (Inr (client, cx), d1, ex_certified)
    \<and> startServer example_env ex_pki ex_os ex_flags (\<lambda>_. None) (\<lambda>_. None) None fresh_db None ex_certified
      = (Some ([1], s), writeSetupCode example_env (fresh_db, None), ex_certified)
    \<and> LoadClientConfig (\<lambda>_. Some \<lparr>cc_ServerAddr = cx_server_addr cx, cc_Token = cx_token cx,
        cc_CAFingerprint = cx_ca_fingerprint cx, cc_APIBase = []\<rparr>) ''c.yaml''
        (snd (initCmd ex_os (\<lambda>_. []) ''c.yaml'' (cx_server_addr cx) (cx_token cx) (cx_ca_fingerprint cx) ex_machine)) = Inr cfg
    \<and> cc_ServerAddr cfg = as_AdvertiseHost s @ '':7000'' \<and> DialPinned id (cc_CAFingerprint cfg) (Some [[1]])"
proof -
  have "\<exists>client cx d1. clientAddCmd example_env ex_pki ex_os ex_flags (\<lambda>_. None) ''nas'' (fresh_db, ex_host)
      = (Inr (client, cx), d1, ex_certified)"
    by (simp add: clientAddCmd_def ex_flags_def ex_ensured CreateClient_def dbm_simps GenerateToken_def
        insert_client_def Let_def example_env_def fresh_db_def)
  then obtain client cx d1 where add: "clientAddCmd example_env ex_pki ex_os ex_flags (\<lambda>_. None) ''nas'' (fresh_db, ex_host)
      = (Inr (client, cx), d1, ex_certified)" by blast
  let ?cfg = "\<lparr>cc_ServerAddr = cx_server_addr cx, cc_Token = cx_token cx,
        cc_CAFingerprint = cx_ca_fingerprint cx, cc_APIBase = []\<rparr>"
  let ?h1 = "snd (initCmd ex_os (\<lambda>_. []) ''c.yaml'' (cx_server_addr cx) (cx_token cx) (cx_ca_fingerprint cx) ex_machine)"
  have "os_mkdir ex_os" by (simp add: ex_os_def)
  then obtain s where started: "startServer example_env ex_pki ex_os ex_flags (\<lambda>_. None) (\<lambda>_. None) None fresh_db None
      ex_certified = (Some ([1], s), writeSetupCode example_env (fresh_db, None), ex_certified)"
    using Ensure_later(1) [OF Ensure_serves(1) [OF ex_ensured] refl refl _ Ensure_serves(3,4) [OF ex_ensured]]
    by (simp add: startServer_def ex_flags_def)
  have h1: "initCmd ex_os (\<lambda>_. []) ''c.yaml'' (cx_server_addr cx) (cx_token cx) (cx_ca_fingerprint cx) ex_machine
      = (True, ?h1)"
    by (simp add: initCmd_def SaveClientConfig_def WriteFile_def ex_os_def)
  have "dec_int 7000 = ''7000''" by (simp add: dec_int_def dec_nat.simps digit_char_def char_of_eq_iff)
  then have addr: "fl_controlAddr ex_flags = [] @ '':'' @ dec_int 7000" "in_int64 7000"
    by (simp_all add: ex_flags_def in_int64_def)
  have sha: "ev_sha example_env [1] \<noteq> []" by (simp add: example_env_def)
  have "\<exists>cfg. LoadClientConfig (\<lambda>_. Some ?cfg) ''c.yaml'' ?h1 = Inr cfg
    \<and> cc_ServerAddr cfg = as_AdvertiseHost s @ '':'' @ dec_int (as_ControlPort s)
    \<and> DialPinned (ev_sha example_env) (cc_CAFingerprint cfg) (Some ([1] # []))
    \<and> auth_response (ev_sha example_env) (cc_Token cfg) d1
        = (\<lparr>rs_OK = True, rs_Error = [], rs_ClientID = c_ID client, rs_Name = ''nas'', rs_Uninstall = False\<rparr>, Some client)"
    by (rule cli_onboarding [OF add started refl refl refl addr sha h1]) (rule arg_cong [of _ _ Some], erule sym)
  then obtain cfg where cfg: "LoadClientConfig (\<lambda>_. Some ?cfg) ''c.yaml'' ?h1 = Inr cfg"
    "cc_ServerAddr cfg = as_AdvertiseHost s @ '':'' @ dec_int (as_ControlPort s)"
    "DialPinned (ev_sha example_env) (cc_CAFingerprint cfg) (Some [[1]])"
    by (elim exE conjE) (rule that; assumption)
  have "as_ControlPort s = 7000"
    using started mustPort_dec [OF addr(2), of "[]"] addr(1) by (auto elim!: startServer_SomeE)
  then have "cc_ServerAddr cfg = as_AdvertiseHost s @ '':7000''" "DialPinned id (cc_CAFingerprint cfg) (Some [[1]])"
    using cfg(2,3) \<open>dec_int 7000 = ''7000''\<close> by (simp_all add: example_env_def)
  with add started cfg(1) show ?thesis by (intro exI conjI)
qed

end
