(* ===== verification/ServerRun.thy ===== *)
theory ServerRun
imports ServerMainProps
begin

text \<open>
  The rest of \<open>run\<close> in \<open>cmd/portly-server/main.go\<close>: the defaults of the flags, the request for a
  certificate, and what ends the program.
\<close>

section \<open>Flags\<close>

text \<open>The flags without any on the command line; \<open>dev\<close> is the commit of a build without one.\<close>

definition default_flags :: flags where
  "default_flags = \<lparr>fl_buildCommit = ''dev'', fl_dataDir = ''/var/lib/portly'', fl_controlAddr = '':7000'',
     fl_apiAddr = '':8080'', fl_webAddr = '':80'', fl_httpsAddr = '':443'', fl_advertiseHost = [],
     fl_allowedOrigins = [''http://localhost:3000'']\<rparr>"

text \<open>A server started without flags announces the ports it listens on.\<close>

lemma default_ports:
  "as_ControlPort (configure default_flags hosts ip6 fp bins m s) = 7000"
  "as_APIPort (configure default_flags hosts ip6 fp bins m s) = 8080"
  "as_PublicHTTPPort (configure default_flags hosts ip6 fp bins m s) = 80"
  "as_PublicHTTPSPort (configure default_flags hosts ip6 fp bins m s) = 443"
proof -
  have "dec_int 7000 = ''7000''" "dec_int 8080 = ''8080''" "dec_int 80 = ''80''" "dec_int 443 = ''443''"
    by (simp_all add: dec_int_def dec_nat.simps digit_char_def char_of_eq_iff)
  then have "mustPort '':7000'' = 7000" "mustPort '':8080'' = 8080" "mustPort '':80'' = 80" "mustPort '':443'' = 443"
    using mustPort_dec [of 7000 "[]"] mustPort_dec [of 8080 "[]"] mustPort_dec [of 80 "[]"] mustPort_dec [of 443 "[]"]
    by (simp_all add: in_int64_def)
  then show "as_ControlPort (configure default_flags hosts ip6 fp bins m s) = 7000"
    "as_APIPort (configure default_flags hosts ip6 fp bins m s) = 8080"
    "as_PublicHTTPPort (configure default_flags hosts ip6 fp bins m s) = 80"
    "as_PublicHTTPSPort (configure default_flags hosts ip6 fp bins m s) = 443"
    by (simp_all add: configure_def default_flags_def)
qed

section \<open>The certificate of the domain\<close>

text \<open>
  \<open>fetchCert\<close>, with the result of \<open>GetCertificate\<close> (the text of an error, if any). It runs beside the
  requests: the domain may have changed since it was started.
\<close>

definition fetchCert :: "(string \<Rightarrow> string option) \<Rightarrow> string \<Rightarrow> apiserver \<Rightarrow> apiserver" where
  "fetchCert getCertificate domain s =
     (case getCertificate domain of Some e \<Rightarrow> SetCertState ''error'' e s | None \<Rightarrow> SetCertState ''ready'' [] s)"

lemma fetchCert_step: "api_step sha s (fetchCert get domain s)"
  by (simp add: fetchCert_def api_step.cert split: option.split)

text \<open>Whatever the domain is by then, the outcome for the old one is what the panel shows.\<close>

lemma stale_fetch_reported:
  assumes "get old = None"
  shows "as_domain (fetchCert get old (SetCertState ''pending'' [] (setDomain new s))) = new
    \<and> as_cert (fetchCert get old (SetCertState ''pending'' [] (setDomain new s))) = (''ready'', [])"
  using assms by (simp add: fetchCert_def SetCertState_def setDomain_def)

section \<open>The end of the program\<close>

text \<open>
  \<open>run\<close> waits for the control listener to return (with its result) or for a signal; after a signal it
  shuts the tunnel server down, waits for the connections at most \<open>gracefulShutdownTimeout\<close>, and ends
  without an error either way.
\<close>

definition gracefulShutdownTimeout :: int where "gracefulShutdownTimeout = 25 * 10 ^ 9"

definition run_end :: "('e + unit) option \<Rightarrow> tserver \<Rightarrow> ('e + unit) \<times> tserver" where
  "run_end tunnelErr s = (case tunnelErr of Some r \<Rightarrow> (r, s) | None \<Rightarrow> (Inr (), Shutdown s))"

lemma run_end_signal:
  "fst (run_end None s) = Inr ()" "ts_listeners (snd (run_end None s)) = []" "\<not> ts_control_up (snd (run_end None s))"
  "ts_heap (snd (run_end None s)) = ts_heap s" "ts_sessions (snd (run_end None s)) = ts_sessions s"
  "ts_active (snd (run_end None s)) = ts_active s" "ts_db (snd (run_end None s)) = ts_db s"
  by (simp_all add: run_end_def Shutdown_def)

end
