(* ===== verification/PanelProps.thy ===== *)
theory PanelProps
imports ApiAuthProps ApiTunnelProps
begin

text \<open>
  The panel's requests for updates and its live statistics.
\<close>

section \<open>Updates\<close>

lemma requireAuth_live:
  assumes "live_session E q s"
  shows "requireAuth E q m s = finish m s"
proof -
  have "sessionAdminID E q s = (fst (sessionAdminID E q s), s)"
    using assms by (auto simp: live_session_def sessionAdminID_def)
  with assms show ?thesis
    by (cases "fst (sessionAdminID E q s)") (simp_all add: requireAuth_def live_session_iff split: prod.split)
qed

lemma tailFile_suffix:
  assumes "mc_files m path = Some content"
  shows "\<exists>pre. string_of content = pre @ tailFile path n m" and "length (tailFile path n m) = min n (length content)"
proof -
  have "string_of content = string_of (take k content) @ string_of (drop k content)" for k
    by (simp add: string_of_def flip: map_append)
  with assms show "\<exists>pre. string_of content = pre @ tailFile path n m"
    by (auto simp: tailFile_def Let_def intro: exI [of _ "[]"])
  show "length (tailFile path n m) = min n (length content)"
    using assms by (simp add: tailFile_def Let_def)
qed

lemma handleApplyUpdate_finish:
  assumes "as_Wired s"
    and "triggerUpdate (ev_os E) (ev_rfc3339 E) (ev_now E) (as_DataDir s) (as_host s) = (x, h)"
  shows "finish (handleApplyUpdate E) s
    = (case x of Inl e \<Rightarrow> writeError 409 (TriggerErr e) | Inr _ \<Rightarrow> Reply 202 Empty None, s\<lparr>as_host := h\<rparr>)"
  using assms by (cases x) (simp_all add: finish_def handleApplyUpdate_def ApplyUpdate_def hm_simps)

definition update_marker :: "env \<Rightarrow> apiserver \<Rightarrow> apiserver" where
  "update_marker E s = s\<lparr>as_host := (as_host s)\<lparr>mc_files := (mc_files (as_host s))
     (in_dir (as_DataDir s) ''update-requested'' \<mapsto> bytes_of (ev_rfc3339 E (ev_now E) @ [CHR 0x0A]))\<rparr>\<rparr>"

text \<open>
  C27. Updating from the panel. On a server with its hooks set, an admin's request to update is
  accepted exactly when the host runs systemd, has the updater unit and lets the marker file be
  written, and its whole effect is that file with the time in it; otherwise it is answered 409, and
  when nothing was written nothing has changed. Whoever asks for the progress, with a session or
  without, changes nothing and gets of an existing log exactly its last bytes, at most 8192.
\<close>

theorem panel_update:
  assumes "live_session E q s" and "as_Wired s"
    and "trigger = in_dir (as_DataDir s) ''update-requested''"
    and "ready \<longleftrightarrow> mc_systemd (as_host s) \<and> fileExists updatePathUnitPath (as_host s)"
    and "mux E q PostApplyUpdate s = (r, s')"
  shows "(if ready \<and> os_write (ev_os E) trigger = Written then r = Reply 202 Empty None \<and> s' = update_marker E s
      else (\<exists>e. r = writeError 409 (TriggerErr e))
        \<and> (ready \<longrightarrow> os_write (ev_os E) trigger = NotOpened \<longrightarrow> s' = s) \<and> (\<not> ready \<longrightarrow> s' = s))
    \<and> (\<exists>p. mux E2 q2 GetUpdateProgress s' = (writeJSON 200 (ProgressBody p), s')
        \<and> (\<forall>log. as_DataDir s' \<noteq> [] \<longrightarrow> mc_files (as_host s') (in_dir (as_DataDir s') ''update.log'') = Some log \<longrightarrow>
            (\<exists>pre. string_of log = pre @ pg_LogTail p) \<and> length (pg_LogTail p) = min 8192 (length log)))"
proof
  have r: "(r, s') = finish (handleApplyUpdate E) s"
    using assms(5) requireAuth_live [OF assms(1)] by simp
  show "if ready \<and> os_write (ev_os E) trigger = Written then r = Reply 202 Empty None \<and> s' = update_marker E s
      else (\<exists>e. r = writeError 409 (TriggerErr e))
        \<and> (ready \<longrightarrow> os_write (ev_os E) trigger = NotOpened \<longrightarrow> s' = s) \<and> (\<not> ready \<longrightarrow> s' = s)"
  proof -
    obtain x h where t: "triggerUpdate (ev_os E) (ev_rfc3339 E) (ev_now E) (as_DataDir s) (as_host s) = (x, h)"
      by fastforce
    have "if ready \<and> os_write (ev_os E) trigger = Written then x = Inr () \<and> s\<lparr>as_host := h\<rparr> = update_marker E s
      else isl x \<and> (ready \<longrightarrow> os_write (ev_os E) trigger = NotOpened \<longrightarrow> h = as_host s) \<and> (\<not> ready \<longrightarrow> h = as_host s)"
      using t assms(3,4)
      by (auto simp: triggerUpdate_def WriteFile_def update_marker_def split: if_splits write_result.splits)
    with r handleApplyUpdate_finish [OF assms(2) t] show ?thesis by (auto split: if_splits sum.splits)
  qed
  show "\<exists>p. mux E2 q2 GetUpdateProgress s' = (writeJSON 200 (ProgressBody p), s')
        \<and> (\<forall>log. as_DataDir s' \<noteq> [] \<longrightarrow> mc_files (as_host s') (in_dir (as_DataDir s') ''update.log'') = Some log \<longrightarrow>
            (\<exists>pre. string_of log = pre @ pg_LogTail p) \<and> length (pg_LogTail p) = min 8192 (length log))"
    by (rule exI [of _ "readUpdateProgress E2 s'"])
       (simp add: finish_def handleUpdateProgress_def getS_def readUpdateProgress_def updateLogTailBytes_def
         tailFile_suffix Let_def)
qed

text \<open>A server under systemd with the updater unit, asked by a logged-in admin.\<close>

definition example_updatable :: apiserver where
  "example_updatable = example_installed\<lparr>as_sessions := [''s'' \<mapsto> \<lparr>si_adminID = ''a1'', si_expires = 500\<rparr>],
     as_DataDir := ''/data'',
     as_host := \<lparr>mc_files = [updatePathUnitPath \<mapsto> []], mc_linux = True, mc_systemd = True, mc_root = False,
       mc_exe = None, mc_enabled = True, mc_active = True\<rparr>\<rparr>"

theorem panel_update_witness:
  "fst (mux example_env (example_request\<lparr>hq_Cookie := Some ''s''\<rparr>) PostApplyUpdate example_updatable) = Reply 202 Empty None"
proof -
  let ?q = "example_request\<lparr>hq_Cookie := Some ''s''\<rparr>"
  have live: "live_session example_env ?q example_updatable"
    by (simp add: live_session_def example_updatable_def example_env_def)
  have wired: "as_Wired example_updatable" by (simp add: example_updatable_def example_installed_db)
  have ready: "mc_systemd (as_host example_updatable) \<and> fileExists updatePathUnitPath (as_host example_updatable)"
    "os_write (ev_os example_env) t = Written" for t
    by (simp_all add: example_updatable_def fileExists_def example_env_def)
  show ?thesis
    using panel_update [OF live wired refl refl prod.collapse [symmetric]] ready by simp
qed

section \<open>Live statistics\<close>

definition live_mark :: "int \<Rightarrow> apiserver \<Rightarrow> Tunnel \<Rightarrow> livePrev" where
  "live_mark now s t = \<lparr>lp_bytesIn = fst (live_bytes s t), lp_bytesOut = snd (live_bytes s t), lp_at = now\<rparr>"

lemma live_stat_simps [simp]:
  "lt_ID (live_stat rate now s prev t) = t_ID t"
  "lt_BytesInTotal (live_stat rate now s prev t) = fst (live_bytes s t)"
  "lt_BytesOutTotal (live_stat rate now s prev t) = snd (live_bytes s t)"
  by (simp_all add: live_stat_def Let_def split: prod.split option.split)

lemma live_stat_other: "t_ID t \<noteq> i \<Longrightarrow> live_stat rate now s (prev(i \<mapsto> p)) t = live_stat rate now s prev t"
  by (simp add: live_stat_def)

lemma live_loop_map:
  assumes "distinct (map t_ID ts)"
  shows "live_loop rate now s prev ts = (map (live_stat rate now s prev) ts,
    \<lambda>i. case find (\<lambda>t. t_ID t = i) ts of Some t \<Rightarrow> Some (live_mark now s t) | None \<Rightarrow> prev i)"
  using assms
proof (induction ts arbitrary: prev)
  case (Cons t ts)
  let ?Q = "prev(t_ID t \<mapsto> live_mark now s t)"
  have step: "live_loop rate now s prev (t # ts)
    = (case live_loop rate now s ?Q ts of (stats, p) \<Rightarrow> (live_stat rate now s prev t # stats, p))"
    by (simp add: Let_def live_mark_def)
  have fresh: "t_ID t \<notin> t_ID ` set ts" and rest: "distinct (map t_ID ts)" using Cons.prems by simp_all
  have stats: "map (live_stat rate now s ?Q) ts = map (live_stat rate now s prev) ts"
  proof (rule map_cong [OF refl])
    fix u assume "u \<in> set ts"
    with fresh have "t_ID u \<noteq> t_ID t" by (metis image_eqI)
    then show "live_stat rate now s ?Q u = live_stat rate now s prev u" by (rule live_stat_other)
  qed
  have none: "find (\<lambda>u. t_ID u = t_ID t) ts = None" unfolding find_None_iff using fresh by (metis image_eqI)
  show ?case unfolding step Cons.IH [OF rest] stats
    by (auto simp: fun_eq_iff none split: option.split)
qed simp

lemma live_tick_SomeE:
  assumes "live_tick rate now s prev = (Some stats, prev')" and "db_wf (as_db s)"
  obtains ts where "fst (ListAllTunnels (as_db s)) = Inr ts" "stats = map (live_stat rate now s prev) ts"
    "\<And>t. t \<in> set ts \<Longrightarrow> prev' (t_ID t) = Some (live_mark now s t)"
    "set ts = scanTunnel ` set (d_tunnels (as_db s))" "distinct (map t_ID ts)"
proof -
  from assms(1) obtain ts where ts: "fst (ListAllTunnels (as_db s)) = Inr ts"
    "live_loop rate now s prev ts = (stats, prev')"
    by (auto simp: live_tick_def split: sum.splits prod.splits)
  have "ts = map scanTunnel (sort_key r_created_at (d_tunnels (as_db s)))"
    using ts(1) by (auto simp: ListAllTunnels_def queryM_def split: if_splits)
  moreover have "distinct (map r_id (d_tunnels (as_db s)))"
    using tunnels_ok_ids [OF db_wfD(3) [OF assms(2)]] .
  ultimately have set: "set ts = scanTunnel ` set (d_tunnels (as_db s))" "distinct (map t_ID ts)"
    by (simp_all add: scanTunnel_def comp_def distinct_map inj_on_def)
  have marks: "prev' (t_ID t) = Some (live_mark now s t)" if t: "t \<in> set ts" for t
  proof -
    have "find (\<lambda>u. t_ID u = t_ID t) ts = Some t"
      by (rule find_unique [OF t refl]) (rule inj_onD [OF set(2) [unfolded distinct_map, THEN conjunct2] _ _ t])
    then show ?thesis using ts(2) live_loop_map [OF set(2)] by auto
  qed
  show thesis by (rule that [OF ts(1) _ marks set]) (use ts(2) live_loop_map [OF set(2)] in simp_all)
qed


text \<open>A tunnel with 900 stored bytes; a second later the restarted server has counted 40 of them.\<close>

definition example_before :: apiserver where
  "example_before = example_site (example_db\<lparr>d_tunnels := [(example_tunnel ''t1'' 8080)\<lparr>r_bytes_in := 900\<rparr>]\<rparr>)"

definition example_after :: apiserver where
  "example_after = example_before\<lparr>as_ts := (as_ts example_before)\<lparr>ts_live := [''t1'' \<mapsto> (40, 0)]\<rparr>\<rparr>"


end
