(* ===== verification/McProps.thy ===== *)
theory McProps
imports McRouter
begin

text \<open>
  How much of a connection the Minecraft router looks at: a routine that reads a byte string is
  bounded by \<open>n\<close> when any \<open>n\<close> bytes decide its result, whatever follows them.
\<close>

definition decides :: "nat \<Rightarrow> (byte list \<times> ioerr \<Rightarrow> ('e + 'a) \<times> byte list \<times> ioerr) \<Rightarrow> bool" where
  "decides n m \<longleftrightarrow> (\<forall>p. n \<le> length p \<longrightarrow>
     (\<exists>r k. k \<le> n \<and> (\<forall>x e. m (p @ x, e) = (r, (drop k p @ x, e)))))"

named_theorems decides_intros \<open>bounds of the parser's steps\<close>

lemma decidesE:
  assumes "decides n m" and "n \<le> length p"
  obtains r k where "k \<le> n" "\<And>x e. m (p @ x, e) = (r, (drop k p @ x, e))"
  using assms unfolding decides_def by meson

lemma decides_mono: "decides n m \<Longrightarrow> n \<le> n' \<Longrightarrow> decides n' m"
  unfolding decides_def by (meson le_trans)

lemma decides_ret [decides_intros]: "decides n (retM x)"
  unfolding decides_def retM_def by (intro allI impI exI [of _ "Inr x"] exI [of _ 0]) simp

lemma decides_fail [decides_intros]: "decides n (failM x)"
  unfolding decides_def failM_def by (intro allI impI exI [of _ "Inl x"] exI [of _ 0]) simp

lemma decides_if [decides_intros]:
  "(c \<Longrightarrow> decides n a) \<Longrightarrow> (\<not> c \<Longrightarrow> decides n b) \<Longrightarrow> decides n (if c then a else b)"
  by simp

lemma decides_step:
  assumes "decides a m" and "\<And>x. decides b (f x)"
  shows "decides (a + b) (stepM m w f)"
  unfolding decides_def
proof (intro allI impI)
  fix p :: "byte list"
  assume p: "a + b \<le> length p"
  then have "a \<le> length p" by simp
  with assms(1) obtain r k where m: "k \<le> a" "\<And>x e. m (p @ x, e) = (r, (drop k p @ x, e))"
    by (rule decidesE) blast
  show "\<exists>r k. k \<le> a + b \<and> (\<forall>x e. stepM m w f (p @ x, e) = (r, (drop k p @ x, e)))"
  proof (cases r)
    case (Inl err)
    with m show ?thesis by (intro exI [of _ "Inl (w err)"] exI [of _ k]) (simp add: stepM_def)
  next
    case (Inr v)
    have "b \<le> length (drop k p)" using p m(1) by simp
    with assms(2) [of v] obtain r' k' where f: "k' \<le> b"
        "\<And>x e. f v (drop k p @ x, e) = (r', (drop k' (drop k p) @ x, e))"
      by (rule decidesE) blast
    with m Inr show ?thesis
      by (intro exI [of _ r'] exI [of _ "k' + k"]) (simp add: stepM_def)
  qed
qed

lemma decides_ReadFull: "decides n (ReadFull str_ReadByte n)"
  unfolding decides_def
  by (intro allI impI) (auto simp: ReadFull_str intro!: exI [of _ n])

text \<open>A VarInt is over after five bytes.\<close>

lemma readVarInt_loop_decides:
  "32 \<le> position + 7 * Suc n \<Longrightarrow> decides (Suc n) (readVarInt_loop str_ReadByte v position)"
proof (induction n arbitrary: position v)
  case 0
  show ?case
    unfolding decides_def
  proof (intro allI impI)
    fix p :: "byte list"
    assume "Suc 0 \<le> length p"
    then obtain b q where "p = b # q" by (cases p) auto
    with 0 show "\<exists>r k. k \<le> Suc 0 \<and> (\<forall>x e. readVarInt_loop str_ReadByte v position (p @ x, e) = (r, drop k p @ x, e))"
      by (cases "b AND 0x80 = 0")
        (auto simp: readVarInt_loop.simps [of _ v position] Let_def intro!: exI [of _ "Suc 0"])
  qed
next
  case (Suc n)
  show ?case
    unfolding decides_def
  proof (intro allI impI)
    fix p :: "byte list"
    assume p: "Suc (Suc n) \<le> length p"
    then obtain b q where q: "p = b # q" "Suc n \<le> length q" by (cases p) auto
    let ?v = "v OR push_bit position (ucast (b AND 0x7F))"
    have "decides (Suc n) (readVarInt_loop str_ReadByte ?v (position + 7))" using Suc by simp
    from this q(2) obtain r k where rec: "k \<le> Suc n"
        "\<And>x e. readVarInt_loop str_ReadByte ?v (position + 7) (q @ x, e) = (r, (drop k q @ x, e))"
      by (rule decidesE) blast
    show "\<exists>r k. k \<le> Suc (Suc n) \<and> (\<forall>x e. readVarInt_loop str_ReadByte v position (p @ x, e) = (r, drop k p @ x, e))"
    proof (cases "b AND 0x80 = 0 \<or> 32 \<le> position + 7")
      case True
      then show ?thesis
        by (cases "b AND 0x80 = 0") (auto simp: q(1) readVarInt_loop.simps [of _ v position] Let_def intro!: exI [of _ "Suc 0"])
    next
      case False
      with rec show ?thesis
        by (intro exI [of _ r] exI [of _ "Suc k"]) (simp add: q(1) readVarInt_loop.simps [of _ v position] Let_def)
    qed
  qed
qed

lemma decides_readVarInt: "decides 5 (readVarInt str_ReadByte)"
  using readVarInt_loop_decides [of 0 4 0] by (simp add: decides_def readVarInt_def)

lemma decides_handshake: "decides 275 (readHandshakeAddress str_ReadByte)"
proof -
  have full: "decides 255 (stepM (ReadFull str_ReadByte (nat (sint (n :: 32 word)))) AddressErr retM)"
    if "\<not> (sint n < 0 \<or> mcMaxAddressLen < sint n)" for n
    using decides_step [OF decides_ReadFull, of 0 retM "nat (sint n)" AddressErr] that
    by (auto simp: decides_ret mcMaxAddressLen_def intro: decides_mono)
  have varint: "decides (5 + n) (stepM (readVarInt str_ReadByte) w f)" if "\<And>x. decides n (f x)" for n w f
    by (rule decides_step [OF decides_readVarInt that])
  have "decides (5 + (5 + (5 + (5 + 255)))) (readHandshakeAddress str_ReadByte)"
    unfolding readHandshakeAddress_def
    by (rule varint decides_if decides_fail full | assumption)+
  then show ?thesis by simp
qed

section \<open>Properties\<close>

text \<open>
  C25. The router's decision terminates. After at most 275 bytes of a connection the handshake has
  been parsed or rejected, whatever comes later and however the bytes are split: two connections
  with the same first 275 bytes are both dropped, or both proxied to the same tunnel, each with
  its own stream.
\<close>

theorem mc_peek_terminates:
  assumes "275 \<le> length p" and "stream c = p @ x" and "stream c' = p @ y"
  shows "(handleMinecraftConn ul c d = McDropped \<and> handleMinecraftConn ul c' d = McDropped)
    \<or> (\<exists>t rep rep'. handleMinecraftConn ul c d = McProxied t rep \<and> stream rep = stream c
        \<and> handleMinecraftConn ul c' d = McProxied t rep' \<and> stream rep' = stream c')"
proof -
  from decides_handshake assms(1) obtain r k where
      "\<And>x e. readHandshakeAddress str_ReadByte (p @ x, e) = (r, (drop k p @ x, e))"
    by (rule decidesE) blast
  then have r: "fst (readHandshakeAddress str_ReadByte (stream c, conn_end c)) = r"
    "fst (readHandshakeAddress str_ReadByte (stream c', conn_end c')) = r"
    by (simp_all add: assms(2,3))
  show ?thesis
  proof (cases r)
    case (Inl e)
    with peek_stream [of ul c] peek_stream [of ul c'] r show ?thesis by (simp add: handleMinecraftConn_def)
  next
    case (Inr a)
    show ?thesis
    proof (cases "handshake_hostname ul a = []")
      case True
      with Inr peek_stream [of ul c] peek_stream [of ul c'] r show ?thesis by (simp add: handleMinecraftConn_def)
    next
      case False
      with Inr peek_stream [of ul c] peek_stream [of ul c'] r obtain rep rep' where
        "peekMinecraftHostname ul c = Inr (handshake_hostname ul a, rep)" "stream rep = stream c"
        "peekMinecraftHostname ul c' = Inr (handshake_hostname ul a, rep')" "stream rep' = stream c'"
        by auto
      then show ?thesis by (auto simp: handleMinecraftConn_def split: sum.split)
    qed
  qed
qed

theorem mc_peek_terminates_witness:
  "handleMinecraftConn id \<lparr>chunks = [replicate 275 0, [1]], conn_end = EOF\<rparr> fresh_db = McDropped
   \<or> (\<exists>t rep. handleMinecraftConn id \<lparr>chunks = [replicate 275 0, [1]], conn_end = EOF\<rparr> fresh_db = McProxied t rep
       \<and> stream rep = replicate 275 0 @ [1])"
proof -
  have "275 \<le> length (replicate 275 (0 :: byte))" by simp
  from mc_peek_terminates [OF this, of "\<lparr>chunks = [replicate 275 0, [1]], conn_end = EOF\<rparr>" "[1]"
      "\<lparr>chunks = [replicate 275 0], conn_end = ConnReset\<rparr>" "[]" id fresh_db]
  show ?thesis by (auto simp: stream_def)
qed

end
