(* ===== verification/ApiTypes.thy ===== *)
theory ApiTypes
imports ApiInvariant
begin

text \<open>
  The types of the management API: which status, body and cookie each route may answer with. The
  judgement \<open>answers e r\<close> is the contract of the panel and of API-key clients; a handler is checked
  against it statement by statement, by the rules \<open>reply_intros\<close>.
\<close>

section \<open>The contract\<close>

text \<open>The statuses of a route's JSON errors, the 401 of its wrapper included.\<close>

fun error_codes :: "endpoint \<Rightarrow> nat list" where
  "error_codes (PostLogin b) = [400, 401, 500]"
| "error_codes PostLogout = []"
| "error_codes GetMe = [401, 500]"
| "error_codes (PostChangeCredentials b) = [400, 401, 500]"
| "error_codes GetBootstrapStatus = [500]"
| "error_codes (PostBootstrapClaim b) = [400, 401, 409, 500]"
| "error_codes GetServerInfo = [401]"
| "error_codes GetClients = [401, 500]"
| "error_codes (PostClients b) = [400, 401, 409, 500]"
| "error_codes (DeleteClientAt i) = [401, 500]"
| "error_codes (PatchClientSettings i b) = [400, 401, 404, 500]"
| "error_codes (GetClientDevices i) = [401, 404]"
| "error_codes (PostReissueInstall i) = [401, 404, 409, 500]"
| "error_codes (GetTunnels c) = [401, 500]"
| "error_codes (PostTunnels b) = [400, 401, 404, 409]"
| "error_codes (PatchTunnel i b) = [400, 401, 404, 409, 500]"
| "error_codes (PatchTunnelSettings i b) = [400, 401, 404, 409, 500]"
| "error_codes (DeleteTunnelAt i) = [401, 500]"
| "error_codes (GetTunnelTraffic i v) = [401, 500]"
| "error_codes GetAPIKeys = [401, 500]"
| "error_codes (PostAPIKeys b) = [400, 401, 500]"
| "error_codes (DeleteAPIKeyAt i) = [401, 500]"
| "error_codes (GetInstallScript c) = []"
| "error_codes (GetDownload k) = [404]"
| "error_codes (GetDownloadChecksum k) = [404]"
| "error_codes (PostEnrollExchange b) = [400, 401]"
| "error_codes GetSetup = [401]"
| "error_codes (PostSetupDomain b) = [400, 401, 500]"
| "error_codes (PostFactoryReset b) = [400, 401, 500]"
| "error_codes GetLiveWS = [401]"
| "error_codes GetUpdateStatus = [401]"
| "error_codes PostCheckUpdate = [401]"
| "error_codes PostApplyUpdate = [401, 409, 501]"
| "error_codes GetUpdateProgress = []"

inductive answers :: "endpoint \<Rightarrow> response \<Rightarrow> bool" where
  "answers (PostLogin b) (Reply 200 (AdminBody u m) (Some (SetCookie t x)))"
| "answers PostLogout (Reply 204 Empty (Some ClearCookie))"
| "answers GetMe (writeJSON 200 (AdminBody u m))"
| "answers (PostChangeCredentials b) (writeJSON 200 (AdminBody u False))"
| "answers GetBootstrapStatus (writeJSON 200 (NeedsSetup n))"
| "answers (PostBootstrapClaim b) (Reply 200 (AdminBody u False) (Some (SetCookie t x)))"
| "answers GetServerInfo (writeJSON 200 (InfoBody h c a f))"
| "answers GetClients (writeJSON 200 (ClientsBody cs))"
| "answers (PostClients b) (writeJSON 201 (InstallBody v cmd code x))"
| "answers (DeleteClientAt i) (Reply 204 Empty None)"
| "answers (PatchClientSettings i b) (writeJSON 200 (ClientBody v))"
| "answers (GetClientDevices i) (writeJSON 200 (DevicesBody ds))"
| "answers (PostReissueInstall i) (writeJSON 200 (InstallBody v cmd code x))"
| "answers (GetTunnels c) (writeJSON 200 (TunnelsBody ts))"
| "answers (PostTunnels b) (writeJSON 201 (TunnelBody t))"
| "answers (PostTunnels b) (writeJSON 201 (TunnelsBody ts))"
| "answers (PostTunnels b) Panicked"
| "answers (PatchTunnel i p) (Reply 204 Empty None)"
| "answers (PatchTunnelSettings i b') (writeJSON 200 (TunnelBody t))"
| "answers (DeleteTunnelAt i) (Reply 204 Empty None)"
| "answers (GetTunnelTraffic i v) (writeJSON 200 (SamplesBody xs))"
| "answers GetAPIKeys (writeJSON 200 (KeysBody ks))"
| "answers (PostAPIKeys b) (writeJSON 201 (KeyBody k token))"
| "answers (DeleteAPIKeyAt i) (Reply 204 Empty None)"
| "answers (GetInstallScript c) (Reply 200 (ScriptBody url c) None)"
| "c \<noteq> [] \<Longrightarrow> answers (GetInstallScript c) (Reply 403 (BlockedBody cmd) None)"
| "answers (GetInstallScript []) (Reply 400 (TextBody msg) None)"
| "answers (GetDownload k) (Reply 200 (FileBody bin) None)"
| "answers (GetDownloadChecksum k) (Reply 200 (TextBody (digest @ [CHR 0x0A])) None)"
| "answers (PostEnrollExchange b) (writeJSON 200 (EnrollBody n token addr fp))"
| "answers GetSetup (writeJSON 200 (SetupBody h h6 c d st err))"
| "answers (PostSetupDomain b) (writeJSON 200 (DomainBody d))"
| "answers (PostFactoryReset b) (Reply 204 Empty None)"
| "answers GetLiveWS (Reply 101 Empty None)"
| "400 \<le> n \<Longrightarrow> answers GetLiveWS (Reply n (TextBody msg) None)"
| "answers GetUpdateStatus (writeJSON 200 (UpdateStatusBody st can))"
| "answers PostCheckUpdate (writeJSON 200 (UpdateStatusBody st can))"
| "answers PostApplyUpdate (Reply 202 Empty None)"
| "answers GetUpdateProgress (writeJSON 200 (ProgressBody p))"
| refuse: "n \<in> set (error_codes e) \<Longrightarrow> answers e (writeError n m)"

inductive_simps answers_error: "answers e (writeError n m)"

section \<open>Checking a handler\<close>

text \<open>Every early return of \<open>m\<close> satisfies \<open>Q\<close>; every response of the handler \<open>m\<close> does.\<close>

definition fails :: "(response \<Rightarrow> bool) \<Rightarrow> 'a hm \<Rightarrow> bool" where
  "fails Q m \<longleftrightarrow> (\<forall>s r. fst (m s) = Inl r \<longrightarrow> Q r)"

definition replies :: "(response \<Rightarrow> bool) \<Rightarrow> response hm \<Rightarrow> bool" where
  "replies Q m \<longleftrightarrow> (\<forall>s. Q (fst (finish m s)))"

named_theorems reply_intros \<open>what a handler answers, statement by statement\<close>

lemma fails_simps:
  "fails Q (retM x) \<longleftrightarrow> True" "fails Q (getS f) \<longleftrightarrow> True" "fails Q (modS g) \<longleftrightarrow> True"
  "fails Q (tsM h) \<longleftrightarrow> True" "fails Q (tryDB m) \<longleftrightarrow> True" "fails Q (failM r) \<longleftrightarrow> Q r"
  by (auto simp: fails_def hm_simps tryDB_def)

lemmas fails_total [reply_intros] = fails_simps(1-5) [THEN iffD2, OF TrueI]
lemmas fails_fail [reply_intros] = fails_simps(6) [THEN iffD2]

lemma fails_bind [reply_intros]:
  assumes "fails Q m" and "\<And>x. fails Q (f x)"
  shows "fails Q (bindM m f)"
  using assms by (auto simp: fails_def bindM_def split: prod.splits sum.splits) (metis fst_conv)+

lemma fails_guard [reply_intros]: "(c \<Longrightarrow> Q r) \<Longrightarrow> fails Q (guardM c r)"
  by (simp add: fails_def hm_simps)

lemma fails_read [reply_intros]: "Q (writeError 400 BadBody) \<Longrightarrow> fails Q (readJSON b)"
  by (simp add: fails_def hm_simps split: option.split)

lemma fails_call [reply_intros]: "(\<And>e. Q (err e)) \<Longrightarrow> fails Q (callDB err m)"
  by (auto simp: fails_def callDB_def split: prod.splits sum.splits)

lemma replies_bind [reply_intros]:
  assumes "fails Q m" and "\<And>x. replies Q (f x)"
  shows "replies Q (bindM m f)"
  unfolding replies_def
proof
  fix s
  show "Q (fst (finish (bindM m f) s))"
  proof (cases "m s")
    case (Pair r s')
    with assms show ?thesis
      by (cases r) (auto simp: fails_def replies_def finish_def bindM_def, metis fst_conv)
  qed
qed

lemma replies_bind_guard [reply_intros]:
  assumes "c \<Longrightarrow> Q r" and "\<not> c \<Longrightarrow> replies Q (f ())"
  shows "replies Q (bindM (guardM c r) f)"
  using assms by (simp add: replies_def finish_def hm_simps)

lemma replies_return [reply_intros]: "Q r \<Longrightarrow> replies Q (retM r)" "Q r \<Longrightarrow> replies Q (failM r)"
  "(\<And>s. Q (f s)) \<Longrightarrow> replies Q (getS f)"
  by (simp_all add: replies_def finish_def hm_simps)

lemma fails_create_tunnels:
  assumes "Q Panicked" and "\<And>m. Q (writeError 409 m)"
  shows "fails Q (create_tunnels E req base isRange i lps created)"
proof (induction lps arbitrary: i created isRange)
  case (Cons lp lps)
  show ?case
    by (auto simp: Let_def intro!: reply_intros assms Cons.IH split: sum.split)
qed (auto intro: reply_intros)

lemmas handler_defs = handleLogin_def handleLogout_def handleMe_def handleChangeCredentials_def
  handleBootstrapStatus_def handleBootstrapClaim_def handleServerInfo_def handleListAPIKeys_def
  handleCreateAPIKey_def handleDeleteAPIKey_def handleSetupStatus_def handleSetDomain_def
  handleFactoryReset_def handleListTunnels_def handleUpdateTunnel_def
  handleUpdateTunnelSettings_def handleDeleteTunnel_def handleTunnelTraffic_def handleListClients_def
  handleCreateClient_def handleReissueInstall_def handleListClientDevices_def
  handleUpdateClientSettings_def handleDeleteClient_def
  handleEnrollExchange_def issueInstall_def
  handleUpdateStatus_def handleCheckUpdate_def
  handleUpdateProgress_def noAdmin_def

lemma replies_split [reply_intros]:
  "(\<And>x y. replies Q (f x y)) \<Longrightarrow> replies Q (case p of (x, y) \<Rightarrow> f x y)"
  "replies Q m \<Longrightarrow> (\<And>x. replies Q (g x)) \<Longrightarrow> replies Q (case z of None \<Rightarrow> m | Some x \<Rightarrow> g x)"
  "(c \<Longrightarrow> replies Q m) \<Longrightarrow> (\<not> c \<Longrightarrow> replies Q m') \<Longrightarrow> replies Q (if c then m else m')"
  "(c \<Longrightarrow> fails Q n) \<Longrightarrow> (\<not> c \<Longrightarrow> fails Q n') \<Longrightarrow> fails Q (if c then n else n')"
  by (simp_all split: prod.split option.split)

lemma requireAuth_answers:
  assumes "replies (answers e) m" and "401 \<in> set (error_codes e)"
  shows "answers e (fst (requireAuth E q m s))" "answers e (fst (requireAuthOrAPIKey E q m s))"
  using assms answers.refuse [of 401 e]
  by (auto simp: replies_def requireAuth_def requireAuthOrAPIKey_def split: prod.splits option.splits)

lemma finish_answers: "replies Q m \<Longrightarrow> Q (fst (finish m s))"
  by (simp add: replies_def)

lemma replies_create [reply_intros]:
  assumes "\<And>created. Q (writeJSON 201 (TunnelsBody created))" "\<And>c. Q (writeJSON 201 (TunnelBody c))"
    and "Q Panicked" "\<And>m. Q (writeError 400 m)" "\<And>m. Q (writeError 404 m)" "\<And>m. Q (writeError 409 m)"
  shows "replies Q (handleCreateTunnel E b)"
  unfolding handleCreateTunnel_def
  by (intro reply_intros fails_create_tunnels)
     (auto intro!: assms reply_intros split: option.split list.split)

lemma replies_apply [reply_intros]:
  assumes "Q (Reply 202 Empty None)" and "\<And>m. Q (writeError 409 m)" "\<And>m. Q (writeError 501 m)"
  shows "replies Q (handleApplyUpdate E)"
  using assms by (auto simp: replies_def finish_def handleApplyUpdate_def ApplyUpdate_def hm_simps split: prod.split sum.split)

lemma replies_install [reply_intros]:
  "replies (answers (GetInstallScript c)) (handleInstallScript E q c)"
  "replies (answers (GetDownload k)) (handleDownloadClient k)"
  "replies (answers (GetDownloadChecksum k)) (handleDownloadClientChecksum k)"
  by (auto simp: replies_def finish_def handleInstallScript_def writeInstallBlockedPage_def hm_simps
      handleDownloadClient_def handleDownloadClientChecksum_def intro: answers.intros split: option.split)

text \<open>\<open>websocket.Accept\<close> documents that it writes an error response when it refuses a request.\<close>

definition ws_refuses :: "env \<Rightarrow> bool" where
  "ws_refuses E \<longleftrightarrow> (\<forall>n msg. ev_ws E = Some (n, msg) \<longrightarrow> 400 \<le> n)"

lemma replies_live:
  assumes "ws_refuses E"
  shows "replies (answers GetLiveWS) (handleLiveWS E)"
  using assms answers.intros
  by (auto simp: handleLiveWS_def ws_refuses_def split: option.split intro!: replies_return)

lemma mux_answers: "ws_refuses E \<Longrightarrow> answers e (fst (mux E q e s))"
  by (cases e; simp only: mux.simps; (rule requireAuth_answers finish_answers)?; (rule replies_live, assumption)?;
      (simp only: handler_defs)?;
      (intro reply_intros)?; (rule answers.intros; (simp; fail)?)?; simp)

section \<open>Property\<close>

text \<open>
  C3. Every reply has its route's type. A preflight request is answered 204 with nothing; any other
  request is answered with its route's status, kind of body and cookie, or with a JSON error whose
  status is one of the few the route may give, or, at the live statistics, with the text of the error with
  which \<open>websocket.Accept\<close> refuses to switch protocols. Only creating a tunnel can panic, and only a login
  or the first claim sets a session cookie.
\<close>

theorem api_responses_typed:
  assumes "ws_refuses E"
  shows "if hq_Options q then Router E q e s = ((fst (fst (Router E q e s)), Reply 204 Empty None), s)
   else answers e (snd (fst (Router E q e s)))"
  using mux_answers [OF assms, of e q s] by (cases "mux E q e s") (simp add: Router_def withCORS_def Let_def)

text \<open>An admin's request for the live statistics that is no WebSocket handshake.\<close>

theorem api_responses_typed_witness:
  "let E = example_env\<lparr>ev_ws := Some (426, ''upgrade'')\<rparr>; q = example_request\<lparr>hq_Cookie := Some ''t''\<rparr>;
       s = example_installed\<lparr>as_sessions := [''t'' \<mapsto> \<lparr>si_adminID = ''a1'', si_expires = 200\<rparr>]\<rparr>
   in snd (fst (Router E q GetLiveWS s)) = Reply 426 (TextBody ''upgrade'') None
      \<and> answers GetLiveWS (snd (fst (Router E q GetLiveWS s)))"
proof -
  let ?E = "example_env\<lparr>ev_ws := Some (426, ''upgrade'')\<rparr>" and ?q = "example_request\<lparr>hq_Cookie := Some ''t''\<rparr>"
    and ?s = "example_installed\<lparr>as_sessions := [''t'' \<mapsto> \<lparr>si_adminID = ''a1'', si_expires = 200\<rparr>]\<rparr>"
  have "ws_refuses ?E" by (simp add: ws_refuses_def)
  moreover have "\<not> hq_Options ?q" by (simp add: example_request_def)
  moreover have "snd (fst (Router ?E ?q GetLiveWS ?s)) = Reply 426 (TextBody ''upgrade'') None"
    by (simp add: Router_def withCORS_def requireAuth_def sessionAdminID_def finish_def handleLiveWS_def hm_simps
        example_request_def example_env_def Let_def)
  ultimately show ?thesis using api_responses_typed [of ?E ?q GetLiveWS ?s] by (simp add: Let_def)
qed

end
