(* ===== verification/ApiRaces.thy ===== *)
theory ApiRaces
imports ApiLifecycle
begin

text \<open>
  Requests that overlap. \<open>net/http\<close> runs every handler in a goroutine of its own, so between two
  statements of one handler those of others may run. The two handlers that keep the rules on accounts and
  hostnames by looking before they write, the claim of the setup code (\<open>internal/api/auth.go\<close>) and the
  settings of a tunnel (\<open>internal/api/tunnels.go\<close>), are modelled here as jobs that are interrupted between
  their statements.
\<close>

section \<open>Jobs\<close>

text \<open>What is left of a handler: its response, or a statement that gives the rest.\<close>

datatype job = Finished response | Stmt "apiserver \<Rightarrow> job \<times> apiserver"

text \<open>A statement that returns early ends the job, as in \<open>bindM\<close>.\<close>

definition andthen :: "'a hm \<Rightarrow> ('a \<Rightarrow> job) \<Rightarrow> job" where
  "andthen m k = Stmt (\<lambda>s. case m s of (Inl r, s') \<Rightarrow> (Finished r, s') | (Inr x, s') \<Rightarrow> (k x, s'))"

primrec alone :: "job \<Rightarrow> apiserver \<Rightarrow> response \<times> apiserver" where
  "alone (Finished r) = (\<lambda>s. (r, s))"
| "alone (Stmt f) = (\<lambda>s. case (map_prod alone id \<circ> f) s of (g, s') \<Rightarrow> g s')"

text \<open>One statement of one of the requests in progress.\<close>

inductive jobs_step :: "job list \<times> apiserver \<Rightarrow> job list \<times> apiserver \<Rightarrow> bool" where
  "i < length js \<Longrightarrow> js ! i = Stmt f \<Longrightarrow> f s = (j, s') \<Longrightarrow> jobs_step (js, s) (js[i := j], s')"

section \<open>The two handlers\<close>

text \<open>\<open>ClaimSetupCode\<close> is itself two calls, a read and a deletion, in no transaction.\<close>

definition badCode :: response where
  "badCode = writeError 401 (Msg ''invalid or already-used setup code'')"

definition claim_tail :: "env \<Rightarrow> bootstrapClaimRequest \<Rightarrow> job" where
  "claim_tail E req =
     andthen (callDB (\<lambda>_. badCode) (DeleteSetting setupCodeSettingKey)) (\<lambda>_.
     andthen (guardM (RuneCount (bq_Username req) < 3)
              (writeError 400 (Msg ''username must be at least 3 characters''))) (\<lambda>_.
     andthen (guardM (RuneCount (bq_Password req) < 8)
              (writeError 400 (Msg ''password must be at least 8 characters''))) (\<lambda>_.
     (case ev_generate E (bq_Password req) of
        None \<Rightarrow> Finished (writeError 500 (Msg ''failed to hash password''))
      | Some hash \<Rightarrow>
          andthen (callDB (\<lambda>_. writeError 409 (Msg ''could not create admin account''))
                   (CreateAdminUser (ev_uuid E 0) (bq_Username req) hash)) (\<lambda>admin.
          andthen (modS (OnAdminClaimed E)) (\<lambda>_.
          andthen (getS (\<lambda>s. fst (createSession E (a_ID admin) s))) (\<lambda>token.
          andthen (modS (\<lambda>s. snd (createSession E (a_ID admin) s))) (\<lambda>_.
          Finished (Reply 200 (AdminBody (a_Username admin) False)
                  (Some (SetCookie token (ev_now E + sessionTTL))))))))))))"

definition claim_job :: "env \<Rightarrow> bootstrapClaimRequest option \<Rightarrow> job" where
  "claim_job E body =
     andthen (readJSON body) (\<lambda>req.
     andthen (callDB (\<lambda>e. writeError 500 (DbMsg e)) HasAdminUser) (\<lambda>hasAdmin.
     andthen (guardM hasAdmin (writeError 409 (Msg ''setup already completed''))) (\<lambda>_.
     andthen (callDB (\<lambda>_. badCode) (GetSetting setupCodeSettingKey)) (\<lambda>stored.
     andthen (guardM (bq_SetupCode req = [] \<or> stored \<noteq> Some (bq_SetupCode req)) badCode) (\<lambda>_.
     claim_tail E req)))))"

text \<open>The tail of the settings handler: the row is written, then read back.\<close>

definition settings_tail :: "string \<Rightarrow> updateTunnelSettingsRequest \<Rightarrow> string \<Rightarrow> job" where
  "settings_tail tid req hostname =
     andthen (callDB (\<lambda>_. writeError 404 (Msg ''tunnel not found''))
              (UpdateTunnelSettings tid (sq_TrafficLimitBytes req) hostname
                 (sq_ProxyProtocol req))) (\<lambda>_.
     andthen (callDB (\<lambda>e. writeError 500 (DbMsg e)) (GetTunnelByID tid)) (\<lambda>t.
     Finished (writeJSON 200 (TunnelBody (toTunnelView t)))))"

definition settings_job :: "env \<Rightarrow> string \<Rightarrow> updateTunnelSettingsRequest option \<Rightarrow> job" where
  "settings_job E tid body =
     andthen (readJSON body) (\<lambda>req.
     andthen (guardM (case sq_TrafficLimitBytes req of None \<Rightarrow> False | Some l \<Rightarrow> l \<le> 0)
              (writeError 400
                (Msg ''traffic_limit_bytes must be positive, or omitted/null for unlimited''))) (\<lambda>_.
     andthen (retM (TrimSpace (ToLower (ev_lower E) (sq_PublicHostname req)))) (\<lambda>hostname.
     andthen (guardM (length hostname > 253)
              (writeError 400 (Msg ''public_hostname is too long''))) (\<lambda>_.
     andthen (if hostname \<noteq> []
       then bindM (tryDB (HostnameTaken hostname tid)) (\<lambda>r.
              guardM (case r of Inr taken \<Rightarrow> taken | Inl _ \<Rightarrow> False)
                (writeError 409 (HostnameInUse hostname)))
       else retM ()) (\<lambda>_.
     settings_tail tid req hostname)))))"

section \<open>A job that is not interrupted is the handler\<close>

lemma alone_andthen:
  assumes "\<And>x s. alone (k x) s = finish (f x) s"
  shows "alone (andthen m k) s = finish (bindM m f) s"
  using assms by (auto simp: andthen_def finish_def bindM_def split: prod.split sum.split)

lemma alone_Finished: "alone (Finished r) s = finish (retM r) s" "alone (Finished r) s = finish (failM r) s"
  by (simp_all add: finish_def retM_def failM_def)

lemma alone_option:
  "alone (case x of None \<Rightarrow> Finished r | Some y \<Rightarrow> g y) s = finish (case x of None \<Rightarrow> failM r | Some y \<Rightarrow> f y) s"
  if "\<And>y s. alone (g y) s = finish (f y) s"
  using that by (cases x) (simp_all add: finish_def failM_def)

lemma settings_job_alone: "alone (settings_job E tid b) s = finish (handleUpdateTunnelSettings E tid b) s"
  unfolding settings_job_def settings_tail_def handleUpdateTunnelSettings_def
  by (intro alone_andthen alone_Finished(1))

text \<open>The claim of the code as its two calls.\<close>

lemma claim_code_parts:
  "callDB (\<lambda>_. badCode) (ClaimSetupCode code) s =
     bindM (callDB (\<lambda>_. badCode) (GetSetting setupCodeSettingKey)) (\<lambda>stored.
     bindM (guardM (code = [] \<or> stored \<noteq> Some code) badCode) (\<lambda>_.
     bindM (callDB (\<lambda>_. badCode) (DeleteSetting setupCodeSettingKey)) (\<lambda>_. retM ()))) s"
  by (auto simp: ClaimSetupCode_def call_simps hm_simps split: option.split prod.split sum.split)

lemma bindM_assoc: "bindM (bindM m f) g = bindM m (\<lambda>x. bindM (f x) g)"
  by (rule ext) (auto simp: bindM_def split: prod.split sum.split)

lemma bindM_ret: "bindM (retM x) f = f x"
  by (rule ext) (simp add: bindM_def retM_def)

lemma claim_job_alone: "alone (claim_job E b) s = finish (handleBootstrapClaim E b) s"
proof -
  have parts: "callDB (\<lambda>_. badCode) (ClaimSetupCode code) =
     bindM (callDB (\<lambda>_. badCode) (GetSetting setupCodeSettingKey)) (\<lambda>stored.
     bindM (guardM (code = [] \<or> stored \<noteq> Some code) badCode) (\<lambda>_.
     bindM (callDB (\<lambda>_. badCode) (DeleteSetting setupCodeSettingKey)) (\<lambda>_. retM ())))" for code
    by (rule ext) (rule claim_code_parts)
  show ?thesis
    unfolding claim_job_def claim_tail_def handleBootstrapClaim_def badCode_def [symmetric]
      parts bindM_assoc bindM_ret
    by (intro alone_andthen alone_option alone_Finished(1))
qed

section \<open>Schedules\<close>

primrec run_job :: "nat \<Rightarrow> job \<Rightarrow> apiserver \<Rightarrow> job \<times> apiserver" where
  "run_job 0 j s = (j, s)"
| "run_job (Suc n) j s = (case j of Finished r \<Rightarrow> (j, s) | Stmt f \<Rightarrow> (case f s of (j', s') \<Rightarrow> run_job n j' s'))"

lemma run_andthen:
  "run_job (Suc n) (andthen m k) s = (case m s of (Inl r, s') \<Rightarrow> run_job n (Finished r) s' | (Inr x, s') \<Rightarrow> run_job n (k x) s')"
  by (simp add: andthen_def split: prod.split sum.split)

text \<open>A request may run several of its statements without an interruption, or all that are left.\<close>

lemma run_steps:
  assumes "i < length js"
  shows "jobs_step\<^sup>*\<^sup>* (js, s) (case run_job n (js ! i) s of (j, s') \<Rightarrow> (js[i := j], s'))"
  using assms
proof (induction n arbitrary: js s)
  case (Suc n)
  show ?case
  proof (cases "js ! i")
    case (Stmt f)
    obtain j s' where f: "f s = (j, s')" by fastforce
    from Suc.prems Stmt f have "jobs_step (js, s) (js[i := j], s')" by (rule jobs_step.intros)
    also have "jobs_step\<^sup>*\<^sup>* (js[i := j], s') (case run_job n (js[i := j] ! i) s' of (j, t) \<Rightarrow> (js[i := j, i := j], t))"
      using Suc.IH [of "js[i := j]" s'] Suc.prems by (auto split: prod.split)
    finally show ?thesis using Stmt f Suc.prems by (auto split: prod.splits)
  next
    case (Finished r)
    then show ?thesis using list_update_id [of js i] by simp
  qed
qed simp

lemma alone_steps:
  assumes "i < length js" and "alone (js ! i) s = (r, s')"
  shows "jobs_step\<^sup>*\<^sup>* (js, s) (js[i := Finished r], s')"
proof -
  have "\<exists>n. run_job n j s = (Finished (fst (alone j s)), snd (alone j s))" for j
  proof (induction j arbitrary: s)
    case (Finished r)
    have "run_job 0 (Finished r) s = (Finished r, s)" by simp
    then show ?case by (metis alone.simps(1) fst_conv snd_conv)
  next
    case (Stmt f)
    obtain j t where f: "f s = (j, t)" by fastforce
    have "(j, t) \<in> range f" "j \<in> Basic_BNFs.fsts (j, t)" using rangeI [of f s] f by (auto intro: fsts.intros)
    from Stmt [OF this, of t] obtain n where
      "run_job n j t = (Finished (fst (alone j t)), snd (alone j t))" ..
    with f have "run_job (Suc n) (Stmt f) s = (Finished (fst (alone (Stmt f) s)), snd (alone (Stmt f) s))"
      by simp
    then show ?case ..
  qed
  with assms run_steps [OF assms(1), of s] show ?thesis by (metis case_prod_conv fst_conv snd_conv)
qed

text \<open>Two requests: the first runs some statements, the second all of them, then the first ends.\<close>

lemma overtaken:
  assumes "run_job n j s = (j', s1)" and "alone k s1 = (r2, s2)" and "alone j' s2 = (r1, s3)"
  shows "jobs_step\<^sup>*\<^sup>* ([j, k], s) ([Finished r1, Finished r2], s3)"
proof -
  have "jobs_step\<^sup>*\<^sup>* ([j, k], s) ([j', k], s1)"
    using run_steps [of 0 "[j, k]" s n] assms(1) by simp
  also have "jobs_step\<^sup>*\<^sup>* ([j', k], s1) ([j', Finished r2], s2)"
    using alone_steps [of 1 "[j', k]" s1 r2 s2] assms(2) by simp
  also have "jobs_step\<^sup>*\<^sup>* ([j', Finished r2], s2) ([Finished r1, Finished r2], s3)"
    using alone_steps [of 0 "[j', Finished r2]" s2 r1 s3] assms(3) by simp
  finally show ?thesis .
qed

text \<open>What the first statements of a claim see, and what the rest writes.\<close>

lemma claim_looks:
  assumes "d_open (as_db s)" and "d_admins (as_db s) = []"
    and "d_settings (as_db s) setupCodeSettingKey = Some (bq_SetupCode q)" and "bq_SetupCode q \<noteq> []"
  shows "run_job 5 (claim_job E (Some q)) s = (claim_tail E q, s)"
    "alone (claim_job E (Some q)) s = alone (claim_tail E q) s"
  using assms by (simp_all add: claim_job_def andthen_def eval_nat_numeral hm_simps HasAdminUser_def GetSetting_def)

lemma claim_writes:
  assumes "d_open (as_db s)"
    and "\<forall>a \<in> set (d_admins (as_db s)). a_ID a \<noteq> ev_uuid E 0 \<and> a_Username a \<noteq> bq_Username q"
    and "3 \<le> RuneCount (bq_Username q)" "8 \<le> RuneCount (bq_Password q)"
    and "ev_generate E (bq_Password q) = Some h"
  obtains b c s' where "alone (claim_tail E q) s = (Reply 200 b c, s')"
    "as_db s' = (as_db s)\<lparr>d_settings := (d_settings (as_db s))(setupCodeSettingKey := None),
       d_admins := d_admins (as_db s) @ [\<lparr>a_ID = ev_uuid E 0, a_Username = bq_Username q,
         a_PasswordHash = h, a_MustChangePassword = False\<rparr>]\<rparr>"
proof -
  have fresh: "\<not> list_ex (\<lambda>b. a_ID b = ev_uuid E 0 \<or> a_Username b = bq_Username q) (d_admins (as_db s))"
    using assms(2) by (auto simp: list_ex_iff)
  have frame: "as_ts (OnAdminClaimed E x) = as_ts x" for x by (simp add: OnAdminClaimed_def)
  show thesis
    by (rule that, use assms fresh in \<open>simp add: claim_tail_def andthen_def hm_simps call_simps DeleteSetting_def
      CreateAdminUser_def insert_admin_def Let_def\<close>)
       (simp add: createSession_def Let_def frame)
qed

text \<open>A settings request alone before its write: the hostname is free.\<close>

lemma settings_looks:
  assumes "d_open (as_db s)" and "\<forall>l. sq_TrafficLimitBytes q = Some l \<longrightarrow> 0 < l"
    and "h = TrimSpace (ToLower (ev_lower E) (sq_PublicHostname q))" "length h \<le> 253"
    and "\<forall>t \<in> set (d_tunnels (as_db s)). r_public_hostname t \<noteq> h"
  shows "run_job 5 (settings_job E tid (Some q)) s = (settings_tail tid q h, s)"
    "alone (settings_job E tid (Some q)) s = alone (settings_tail tid q h) s"
proof -
  have free: "HostnameTaken h tid (as_db s) = (Inr False, as_db s)"
    using assms(1,5) by (auto simp: HostnameTaken_def queryM_def count_where_def filter_empty_conv)
  have limit: "(case sq_TrafficLimitBytes q of None \<Rightarrow> False | Some l \<Rightarrow> l \<le> 0) = False"
    using assms(2) by (auto split: option.split)
  show "run_job 5 (settings_job E tid (Some q)) s = (settings_tail tid q h, s)"
    "alone (settings_job E tid (Some q)) s = alone (settings_tail tid q h) s"
    using assms(4) free limit
    by (simp_all add: settings_job_def andthen_def eval_nat_numeral hm_simps tryDB_def assms(3) [symmetric])
qed

lemma settings_writes:
  assumes "d_open (as_db s)" and "tid \<in> r_id ` set (d_tunnels (as_db s))"
  obtains b s' where "alone (settings_tail tid q h) s = (Reply 200 b None, s')"
    "as_db s' = (as_db s)\<lparr>d_tunnels := upd_where (\<lambda>t. r_id t = tid)
       (\<lambda>t. t\<lparr>r_traffic_limit := sq_TrafficLimitBytes q, r_public_hostname := h,
              r_proxy_protocol := sq_ProxyProtocol q\<rparr>) (d_tunnels (as_db s))\<rparr>"
proof -
  let ?ts = "upd_where (\<lambda>t. r_id t = tid) (\<lambda>t. t\<lparr>r_traffic_limit := sq_TrafficLimitBytes q,
     r_public_hostname := h, r_proxy_protocol := sq_ProxyProtocol q\<rparr>) (d_tunnels (as_db s))"
  have n: "count_where (\<lambda>t. r_id t = tid) (d_tunnels (as_db s)) \<noteq> 0"
    using assms(2) by (auto simp: count_where_def filter_empty_conv)
  obtain row where "find (\<lambda>t. r_id t = tid) ?ts = Some row"
    using assms(2) by (cases "find (\<lambda>t. r_id t = tid) ?ts") (auto simp: find_None_iff upd_where_def)
  with n assms(1) show thesis
    by (intro that, simp add: settings_tail_def andthen_def hm_simps call_simps UpdateTunnelSettings_def
        update_tunnels_def requireRow_def GetTunnelByID_def row_or_err_def writeJSON_def) simp
qed

section \<open>Property\<close>

lemma two_claims:
  assumes "d_open (as_db s)" and "d_admins (as_db s) = []"
    and "d_settings (as_db s) setupCodeSettingKey = Some (bq_SetupCode q1)" and "bq_SetupCode q1 \<noteq> []"
    and "bq_SetupCode q2 = bq_SetupCode q1"
    and "bq_Username q1 \<noteq> bq_Username q2" and "ev_uuid E1 0 \<noteq> ev_uuid E2 0"
    and q: "\<forall>(E, q) \<in> {(E1, q1), (E2, q2)}. 3 \<le> RuneCount (bq_Username q)
          \<and> 8 \<le> RuneCount (bq_Password q) \<and> ev_generate E (bq_Password q) \<noteq> None"
  shows "\<exists>r1 r2 s'. jobs_step\<^sup>*\<^sup>* ([claim_job E1 (Some q1), claim_job E2 (Some q2)], s)
        ([Finished r1, Finished r2], s') \<and> reply_status r1 = 200 \<and> reply_status r2 = 200
      \<and> map a_Username (d_admins (as_db s')) = [bq_Username q2, bq_Username q1]"
proof -
  from q obtain h1 h2 where h: "ev_generate E1 (bq_Password q1) = Some h1" "ev_generate E2 (bq_Password q2) = Some h2"
    by auto
  note look1 = claim_looks [OF assms(1-4)]
  have look2: "alone (claim_job E2 (Some q2)) s = alone (claim_tail E2 q2) s"
    by (rule claim_looks(2)) (use assms in simp_all)
  obtain b2 c2 s2 where w2: "alone (claim_tail E2 q2) s = (Reply 200 b2 c2, s2)"
    "as_db s2 = (as_db s)\<lparr>d_settings := (d_settings (as_db s))(setupCodeSettingKey := None),
       d_admins := d_admins (as_db s) @ [\<lparr>a_ID = ev_uuid E2 0, a_Username = bq_Username q2,
         a_PasswordHash = h2, a_MustChangePassword = False\<rparr>]\<rparr>"
    by (rule claim_writes [OF assms(1), of E2 q2 h2]) (use assms(2) q h in auto)
  obtain b1 c1 s3 where w1: "alone (claim_tail E1 q1) s2 = (Reply 200 b1 c1, s3)"
    "as_db s3 = (as_db s2)\<lparr>d_settings := (d_settings (as_db s2))(setupCodeSettingKey := None),
       d_admins := d_admins (as_db s2) @ [\<lparr>a_ID = ev_uuid E1 0, a_Username = bq_Username q1,
         a_PasswordHash = h1, a_MustChangePassword = False\<rparr>]\<rparr>"
    by (rule claim_writes [of s2 E1 q1 h1]) (use assms(1,2,6,7) q h w2(2) in auto)
  show ?thesis
    using overtaken [OF look1(1) look2 [unfolded w2(1)] w1(1)] w1(2) w2(2) assms(2)
    by (intro exI conjI) auto
qed

lemma upd_ids: "(\<And>t. r_id (f t) = r_id t) \<Longrightarrow> map r_id (upd_where p f ts) = map r_id ts"
  by (simp add: upd_where_def)

lemma two_hostnames:
  assumes "d_open (as_db s)"
    and "h = TrimSpace (ToLower (ev_lower E1) (sq_PublicHostname q1))"
      "h = TrimSpace (ToLower (ev_lower E2) (sq_PublicHostname q2))" "length h \<le> 253"
    and "\<forall>t \<in> set (d_tunnels (as_db s)). r_public_hostname t \<noteq> h"
    and "\<forall>q \<in> {q1, q2}. \<forall>l. sq_TrafficLimitBytes q = Some l \<longrightarrow> 0 < l"
    and "i \<noteq> j" and ij: "{i, j} \<subseteq> r_id ` set (d_tunnels (as_db s))"
  shows "\<exists>r1 r2 s'. jobs_step\<^sup>*\<^sup>* ([settings_job E1 i (Some q1), settings_job E2 j (Some q2)], s)
        ([Finished r1, Finished r2], s') \<and> reply_status r1 = 200 \<and> reply_status r2 = 200
      \<and> map r_id (d_tunnels (as_db s')) = map r_id (d_tunnels (as_db s))
      \<and> (\<forall>t \<in> set (d_tunnels (as_db s')). r_id t \<in> {i, j} \<longrightarrow> r_public_hostname t = h)"
proof -
  from assms(6) have limits: "\<forall>l. sq_TrafficLimitBytes q1 = Some l \<longrightarrow> 0 < l"
    "\<forall>l. sq_TrafficLimitBytes q2 = Some l \<longrightarrow> 0 < l" by simp_all
  note look1 = settings_looks(1) [OF assms(1) limits(1) assms(2,4,5), of i]
  note look2 = settings_looks(2) [OF assms(1) limits(2) assms(3,4,5), of j]
  obtain b2 s2 where w2: "alone (settings_tail j q2 h) s = (Reply 200 b2 None, s2)"
    "as_db s2 = (as_db s)\<lparr>d_tunnels := upd_where (\<lambda>t. r_id t = j)
       (\<lambda>t. t\<lparr>r_traffic_limit := sq_TrafficLimitBytes q2, r_public_hostname := h,
              r_proxy_protocol := sq_ProxyProtocol q2\<rparr>) (d_tunnels (as_db s))\<rparr>"
    by (rule settings_writes [OF assms(1), of j q2 h]) (use ij in auto)
  have rows: "map r_id (d_tunnels (as_db s2)) = map r_id (d_tunnels (as_db s))"
    using w2(2) by (simp add: upd_ids)
  with ij have i: "i \<in> r_id ` set (d_tunnels (as_db s2))" by (metis insert_subset list.set_map)
  have op: "d_open (as_db s2)" using assms(1) w2(2) by simp
  obtain b1 s3 where w1: "alone (settings_tail i q1 h) s2 = (Reply 200 b1 None, s3)"
    "as_db s3 = (as_db s2)\<lparr>d_tunnels := upd_where (\<lambda>t. r_id t = i)
       (\<lambda>t. t\<lparr>r_traffic_limit := sq_TrafficLimitBytes q1, r_public_hostname := h,
              r_proxy_protocol := sq_ProxyProtocol q1\<rparr>) (d_tunnels (as_db s2))\<rparr>"
    by (rule settings_writes [OF op i, of q1 h])
  have "jobs_step\<^sup>*\<^sup>* ([settings_job E1 i (Some q1), settings_job E2 j (Some q2)], s)
        ([Finished (Reply 200 b1 None), Finished (Reply 200 b2 None)], s3)"
    by (rule overtaken [OF look1 look2 [unfolded w2(1)] w1(1)])
  moreover have "r_public_hostname t = h" if t: "t \<in> set (d_tunnels (as_db s3))" "r_id t \<in> {i, j}" for t
  proof -
    have second: "r_public_hostname u = h" if "u \<in> set (d_tunnels (as_db s2))" "r_id u = j" for u
    proof -
      let ?g = "\<lambda>u. if r_id u = j then u\<lparr>r_traffic_limit := sq_TrafficLimitBytes q2, r_public_hostname := h,
               r_proxy_protocol := sq_ProxyProtocol q2\<rparr> else u"
      have "d_tunnels (as_db s2) = map ?g (d_tunnels (as_db s))" using w2(2) by (simp add: upd_where_def)
      with that(1) have "u \<in> ?g ` set (d_tunnels (as_db s))" by (simp only: set_map)
      then obtain v where "u = ?g v" by blast
      with that(2) show ?thesis by (auto split: if_splits)
    qed
    let ?f = "\<lambda>u. if r_id u = i then u\<lparr>r_traffic_limit := sq_TrafficLimitBytes q1, r_public_hostname := h,
               r_proxy_protocol := sq_ProxyProtocol q1\<rparr> else u"
    have "d_tunnels (as_db s3) = map ?f (d_tunnels (as_db s2))" using w1(2) by (simp add: upd_where_def)
    with t(1) have "t \<in> ?f ` set (d_tunnels (as_db s2))" by (simp only: set_map)
    then obtain u where "u \<in> set (d_tunnels (as_db s2))" and "t = ?f u" by blast
    with t(2) second show ?thesis by (auto split: if_splits)
  qed
  moreover have "map r_id (d_tunnels (as_db s3)) = map r_id (d_tunnels (as_db s))"
    using rows w1(2) by (simp add: upd_ids)
  ultimately show ?thesis by (intro exI conjI) (assumption, simp_all)
qed

text \<open>One after the other, the second request of each pair is refused.\<close>

lemma claims_in_turn:
  assumes "d_open (as_db s)" and "d_admins (as_db s) = []"
    and "d_settings (as_db s) setupCodeSettingKey = Some (bq_SetupCode q1)" and "bq_SetupCode q1 \<noteq> []"
    and "3 \<le> RuneCount (bq_Username q1)" "8 \<le> RuneCount (bq_Password q1)"
    and "ev_generate E1 (bq_Password q1) \<noteq> None"
  shows "fst (alone (claim_job E2 (Some q2)) (snd (alone (claim_job E1 (Some q1)) s)))
    = writeError 409 (Msg ''setup already completed'')"
proof -
  from assms(7) obtain h where h: "ev_generate E1 (bq_Password q1) = Some h" by auto
  obtain b c s1 where w: "alone (claim_tail E1 q1) s = (Reply 200 b c, s1)"
    "as_db s1 = (as_db s)\<lparr>d_settings := (d_settings (as_db s))(setupCodeSettingKey := None),
       d_admins := d_admins (as_db s) @ [\<lparr>a_ID = ev_uuid E1 0, a_Username = bq_Username q1,
         a_PasswordHash = h, a_MustChangePassword = False\<rparr>]\<rparr>"
    by (rule claim_writes [OF assms(1), of E1 q1 h]) (use assms h in auto)
  from w(2) assms(1) have "d_open (as_db s1)" "d_admins (as_db s1) \<noteq> []" by simp_all
  from claim_refused(1) [OF this, of E2 q2] claim_looks(2) [OF assms(1-4), of E1] w(1) show ?thesis
    by (simp add: claim_job_alone finish_def)
qed

lemma hostnames_in_turn:
  assumes "d_open (as_db s)" and "i \<noteq> j" and "i \<in> r_id ` set (d_tunnels (as_db s))"
    and "h = TrimSpace (ToLower (ev_lower E1) (sq_PublicHostname q1))"
      "h = TrimSpace (ToLower (ev_lower E2) (sq_PublicHostname q2))" "length h \<le> 253" "h \<noteq> []"
    and "\<forall>t \<in> set (d_tunnels (as_db s)). r_public_hostname t \<noteq> h"
    and "\<forall>q \<in> {q1, q2}. \<forall>l. sq_TrafficLimitBytes q = Some l \<longrightarrow> 0 < l"
  shows "fst (alone (settings_job E2 j (Some q2)) (snd (alone (settings_job E1 i (Some q1)) s)))
    = writeError 409 (HostnameInUse h)"
proof -
  obtain b s1 where w: "alone (settings_tail i q1 h) s = (Reply 200 b None, s1)"
    "as_db s1 = (as_db s)\<lparr>d_tunnels := upd_where (\<lambda>t. r_id t = i)
       (\<lambda>t. t\<lparr>r_traffic_limit := sq_TrafficLimitBytes q1, r_public_hostname := h,
              r_proxy_protocol := sq_ProxyProtocol q1\<rparr>) (d_tunnels (as_db s))\<rparr>"
    by (rule settings_writes [OF assms(1,3), of q1 h])
  have first: "snd (alone (settings_job E1 i (Some q1)) s) = s1"
    using settings_looks(2) [OF assms(1) _ assms(4,6,8), of i] w(1) assms(9) by simp
  from assms(3) obtain x where x: "x \<in> set (d_tunnels (as_db s))" "r_id x = i" by auto
  let ?x = "x\<lparr>r_traffic_limit := sq_TrafficLimitBytes q1, r_public_hostname := h,
       r_proxy_protocol := sq_ProxyProtocol q1\<rparr>"
  have "?x \<in> set (d_tunnels (as_db s1))" using x w(2) by (auto simp: upd_where_def)
  then have "\<exists>t \<in> set (d_tunnels (as_db s1)). r_public_hostname t = h \<and> r_id t \<noteq> j"
    using assms(2) x(2) by (intro bexI [of _ ?x]) simp_all
  then have taken: "HostnameTaken h j (as_db s1) = (Inr True, as_db s1)"
    using assms(1) w(2) by (auto simp: HostnameTaken_def queryM_def count_where_def filter_empty_conv)
  have limit: "(case sq_TrafficLimitBytes q2 of None \<Rightarrow> False | Some l \<Rightarrow> l \<le> 0) = False"
    using assms(9) by (auto split: option.split)
  show ?thesis using first taken limit assms(6,7)
    by (simp add: settings_job_def andthen_def hm_simps tryDB_def assms(5) [symmetric])
qed

text \<open>
  C31. Requests that overlap. The one-admin rule and the uniqueness of public hostnames hold between
  requests that follow one another only. Take a server without an admin and two claims of its setup code
  under different user names: in turn, the second is answered 409; overlapping (the second runs after the
  first has read the code and before it deletes it), both are answered 200 and two admins exist. Take two
  tunnels, a hostname no tunnel has, and one settings request for each: in turn, the second is answered 409;
  overlapping between look-up and update, both are answered 200 and both tunnels carry the hostname. (A job
  no other interrupts is its handler.)
\<close>

theorem concurrent_requests_collide:
  assumes "d_open (as_db s)"
  shows "alone (claim_job E b) s = finish (handleBootstrapClaim E b) s
    \<and> alone (settings_job E i b') s = finish (handleUpdateTunnelSettings E i b') s
    \<and> (d_admins (as_db s) = [] \<and> d_settings (as_db s) setupCodeSettingKey = Some (bq_SetupCode q1)
        \<and> bq_SetupCode q1 \<noteq> [] \<and> bq_SetupCode q2 = bq_SetupCode q1
        \<and> bq_Username q1 \<noteq> bq_Username q2 \<and> ev_uuid E1 0 \<noteq> ev_uuid E2 0
        \<and> (\<forall>(E, q) \<in> {(E1, q1), (E2, q2)}. 3 \<le> RuneCount (bq_Username q)
             \<and> 8 \<le> RuneCount (bq_Password q) \<and> ev_generate E (bq_Password q) \<noteq> None)
       \<longrightarrow> fst (alone (claim_job E2 (Some q2)) (snd (alone (claim_job E1 (Some q1)) s)))
             = writeError 409 (Msg ''setup already completed'')
         \<and> (\<exists>r1 r2 s'. jobs_step\<^sup>*\<^sup>* ([claim_job E1 (Some q1), claim_job E2 (Some q2)], s)
               ([Finished r1, Finished r2], s') \<and> reply_status r1 = 200 \<and> reply_status r2 = 200
             \<and> map a_Username (d_admins (as_db s')) = [bq_Username q2, bq_Username q1]))
    \<and> (h \<noteq> [] \<and> length h \<le> 253 \<and> h = TrimSpace (ToLower (ev_lower E1) (sq_PublicHostname p1))
        \<and> h = TrimSpace (ToLower (ev_lower E2) (sq_PublicHostname p2))
        \<and> (\<forall>q \<in> {p1, p2}. \<forall>l. sq_TrafficLimitBytes q = Some l \<longrightarrow> 0 < l)
        \<and> (\<forall>t \<in> set (d_tunnels (as_db s)). r_public_hostname t \<noteq> h)
        \<and> i \<noteq> j \<and> {i, j} \<subseteq> r_id ` set (d_tunnels (as_db s))
       \<longrightarrow> fst (alone (settings_job E2 j (Some p2)) (snd (alone (settings_job E1 i (Some p1)) s)))
             = writeError 409 (HostnameInUse h)
         \<and> (\<exists>r1 r2 s'. jobs_step\<^sup>*\<^sup>* ([settings_job E1 i (Some p1), settings_job E2 j (Some p2)], s)
               ([Finished r1, Finished r2], s') \<and> reply_status r1 = 200 \<and> reply_status r2 = 200
             \<and> map r_id (d_tunnels (as_db s')) = map r_id (d_tunnels (as_db s))
             \<and> (\<forall>t \<in> set (d_tunnels (as_db s')). r_id t \<in> {i, j} \<longrightarrow> r_public_hostname t = h)))"
proof (intro conjI impI, goal_cases)
  case 3
  then show ?case by (intro claims_in_turn [OF assms]) auto
next
  case 4
  then show ?case by (intro two_claims [OF assms]) auto
next
  case 5
  then show ?case by (intro hostnames_in_turn [OF assms]) auto
next
  case 6
  then show ?case by (intro two_hostnames [OF assms]) auto
qed (simp_all add: claim_job_alone settings_job_alone)

text \<open>A fresh install claimed twice, and two tunnels that get one hostname.\<close>

definition rival_env :: env where
  "rival_env = example_env\<lparr>ev_uuid := \<lambda>n. ''v'' @ dec_nat n\<rparr>"

definition rival_claim :: bootstrapClaimRequest where
  "rival_claim = example_claim\<lparr>bq_Username := ''mallory''\<rparr>"

definition two_tunnels_db :: db where
  "two_tunnels_db = example_db\<lparr>d_tunnels := [(example_tunnel ''t1'' 25571)\<lparr>r_public_hostname := []\<rparr>,
     (example_tunnel ''t2'' 25572)\<lparr>r_public_hostname := []\<rparr>]\<rparr>"

theorem concurrent_requests_collide_witness:
  "(\<exists>r1 r2 s'. jobs_step\<^sup>*\<^sup>* ([claim_job example_env (Some example_claim), claim_job rival_env (Some rival_claim)],
        example_installed) ([Finished r1, Finished r2], s') \<and> reply_status r1 = 200 \<and> reply_status r2 = 200
      \<and> map a_Username (d_admins (as_db s')) = [''mallory'', ''admin''])
   \<and> (\<exists>r1 r2 s'. jobs_step\<^sup>*\<^sup>* ([settings_job example_env ''t1'' (Some example_settings),
          settings_job example_env ''t2'' (Some example_settings)], example_site two_tunnels_db)
        ([Finished r1, Finished r2], s') \<and> reply_status r1 = 200 \<and> reply_status r2 = 200
      \<and> map r_id (d_tunnels (as_db s')) = [''t1'', ''t2'']
      \<and> (\<forall>t \<in> set (d_tunnels (as_db s')). r_id t \<in> {''t1'', ''t2''} \<longrightarrow> r_public_hostname t = ''play.example''))"
proof
  have op: "d_open (as_db example_installed)" by (simp add: example_installed_db fresh_db_def)
  from concurrent_requests_collide [OF op, where ?q1.0 = example_claim and ?q2.0 = rival_claim
      and ?E1.0 = example_env and ?E2.0 = rival_env]
  show "\<exists>r1 r2 s'. jobs_step\<^sup>*\<^sup>* ([claim_job example_env (Some example_claim), claim_job rival_env (Some rival_claim)],
        example_installed) ([Finished r1, Finished r2], s') \<and> reply_status r1 = 200 \<and> reply_status r2 = 200
      \<and> map a_Username (d_admins (as_db s')) = [''mallory'', ''admin'']"
    by (simp add: example_installed_db fresh_db_def example_claim_def rival_claim_def rival_env_def example_env_def
        RuneCount_def)
next
  have "TrimSpace (ToLower id ''Play.Example'') = ''play.example''"
    using example_lower example_trims(3) by (simp add: ToLower_def is_ascii_def)
  then have h: "''play.example'' = TrimSpace (ToLower (ev_lower example_env) (sq_PublicHostname example_settings))"
    by (simp add: example_env_def example_settings_def)
  have rows: "\<forall>t \<in> set (d_tunnels two_tunnels_db). r_public_hostname t \<noteq> ''play.example''"
      "map r_id (d_tunnels two_tunnels_db) = [''t1'', ''t2'']" "{''t1'', ''t2''} \<subseteq> r_id ` set (d_tunnels two_tunnels_db)"
    and limits: "sq_TrafficLimitBytes example_settings = None"
    by (simp_all add: two_tunnels_db_def example_tunnel_def example_settings_def)
  have "d_open (as_db (example_site two_tunnels_db))"
    by (simp add: two_tunnels_db_def example_db_def fresh_db_def)
  from concurrent_requests_collide [OF this, where i = "''t1''" and j = "''t2''" and h = "''play.example''"
      and ?E1.0 = example_env and ?E2.0 = example_env and ?p1.0 = example_settings and ?p2.0 = example_settings]
  show "\<exists>r1 r2 s'. jobs_step\<^sup>*\<^sup>* ([settings_job example_env ''t1'' (Some example_settings),
          settings_job example_env ''t2'' (Some example_settings)], example_site two_tunnels_db)
        ([Finished r1, Finished r2], s') \<and> reply_status r1 = 200 \<and> reply_status r2 = 200
      \<and> map r_id (d_tunnels (as_db s')) = [''t1'', ''t2'']
      \<and> (\<forall>t \<in> set (d_tunnels (as_db s')). r_id t \<in> {''t1'', ''t2''} \<longrightarrow> r_public_hostname t = ''play.example'')"
    using rows limits by (simp add: h [symmetric])
qed

end
