(* ===== verification/Pipe.thy ===== *)
theory Pipe
imports Prelude "HOL-Library.Sublist"
begin

text \<open>
  The copying of a proxied connection (\<open>pipe\<close> and \<open>countingReader\<close> in \<open>internal/tunnel/server.go\<close>),
  one \<open>Read\<close> or \<open>Write\<close> at a time, and the two pipes of a connection joined by their stream: the
  server's between the visitor and the stream (\<open>proxyConn\<close>), the client's between the local service
  and the stream (\<open>handleDataStream\<close>).
\<close>

section \<open>Connections\<close>

text \<open>
  A connection as the program holds it. \<open>cn_sent\<close>: all bytes that have arrived from the other end;
  \<open>cn_in\<close>: those not read yet; \<open>cn_fin\<close>: no more will arrive; \<open>cn_err\<close>: it has failed; \<open>cn_out\<close>: the
  bytes the copying has written; \<open>cn_closed\<close>: \<open>Close\<close> was called. \<open>cn_half\<close> is a property of the kind of
  connection: whether what has arrived can still be read after \<open>Close\<close> (of a TCP connection it cannot).
\<close>

record conn_side =
  cn_sent :: "byte list"
  cn_in :: "byte list"
  cn_fin :: bool
  cn_err :: bool
  cn_out :: "byte list"
  cn_closed :: bool
  cn_half :: bool

definition conn_start :: "bool \<Rightarrow> conn_side" where
  "conn_start half = \<lparr>cn_sent = [], cn_in = [], cn_fin = False, cn_err = False, cn_out = [],
     cn_closed = False, cn_half = half\<rparr>"

definition readable :: "conn_side \<Rightarrow> bool" where
  "readable c \<longleftrightarrow> \<not> cn_err c \<and> (cn_half c \<or> \<not> cn_closed c)"

definition writable :: "conn_side \<Rightarrow> bool" where
  "writable c \<longleftrightarrow> \<not> cn_err c \<and> \<not> cn_closed c"

definition conn_arrive :: "byte list \<Rightarrow> conn_side \<Rightarrow> conn_side" where
  "conn_arrive d c = c\<lparr>cn_sent := cn_sent c @ d, cn_in := cn_in c @ d\<rparr>"

definition conn_close :: "conn_side \<Rightarrow> conn_side" where
  "conn_close c = c\<lparr>cn_closed := True\<rparr>"

section \<open>One direction\<close>

text \<open>
  \<open>io.Copy\<close> to \<open>dst\<close> from a \<open>countingReader\<close> on \<open>src\<close>, and the \<open>Close\<close> of \<open>dst\<close> after it. A \<open>Read\<close> gives
  \<open>n\<close> of the bytes that have arrived, at most the 32 KiB of \<open>io.Copy\<close>'s buffer; a failing \<open>Write\<close>
  may have written the first \<open>k\<close> bytes.
\<close>

datatype copier = Reading | Writing "byte list" | Ended

definition copyBufSize :: nat where "copyBufSize = 32 * 1024"

definition counted_read :: "nat \<Rightarrow> conn_side \<Rightarrow> int \<Rightarrow> byte list \<times> conn_side \<times> int" where
  "counted_read n src counter = (take n (cn_in src), src\<lparr>cn_in := drop n (cn_in src)\<rparr>, counter + int n)"

inductive copy_step ::
    "copier \<times> conn_side \<times> conn_side \<times> int \<Rightarrow> copier \<times> conn_side \<times> conn_side \<times> int \<Rightarrow> bool" where
  reads: "readable src \<Longrightarrow> 0 < n \<Longrightarrow> n \<le> copyBufSize \<Longrightarrow> n \<le> length (cn_in src)
    \<Longrightarrow> counted_read n src counter = (d, src', counter')
    \<Longrightarrow> copy_step (Reading, src, dst, counter) (Writing d, src', dst, counter')"
| at_end: "\<not> readable src \<or> (cn_in src = [] \<and> cn_fin src)
    \<Longrightarrow> copy_step (Reading, src, dst, counter) (Ended, src, conn_close dst, counter)"
| writes: "writable dst
    \<Longrightarrow> copy_step (Writing d, src, dst, counter) (Reading, src, dst\<lparr>cn_out := cn_out dst @ d\<rparr>, counter)"
| write_fails: "\<not> writable dst \<Longrightarrow> k \<le> length d \<Longrightarrow> (cn_closed dst \<longrightarrow> k = 0)
    \<Longrightarrow> copy_step (Writing d, src, dst, counter)
          (Ended, src, conn_close (dst\<lparr>cn_out := cn_out dst @ take k d\<rparr>), counter)"

section \<open>A pipe\<close>

text \<open>Both goroutines; \<open>pipe\<close> returns when both have ended. \<open>pp_a\<close> is a TCP connection, \<open>pp_b\<close> the stream.\<close>

record pipe =
  pp_a :: conn_side
  pp_b :: conn_side
  pp_ab :: copier
  pp_ba :: copier
  pp_in :: int
  pp_out :: int

definition pipe_start :: "bool \<Rightarrow> pipe" where
  "pipe_start half = \<lparr>pp_a = conn_start False, pp_b = conn_start half, pp_ab = Reading, pp_ba = Reading,
     pp_in = 0, pp_out = 0\<rparr>"

definition pipe_returned :: "pipe \<Rightarrow> bool" where
  "pipe_returned p \<longleftrightarrow> pp_ab p = Ended \<and> pp_ba p = Ended"

inductive pipe_step :: "pipe \<Rightarrow> pipe \<Rightarrow> bool" where
  ab: "copy_step (pp_ab p, pp_a p, pp_b p, pp_in p) (k, a, b, n)
    \<Longrightarrow> pipe_step p (p\<lparr>pp_ab := k, pp_a := a, pp_b := b, pp_in := n\<rparr>)"
| ba: "copy_step (pp_ba p, pp_b p, pp_a p, pp_out p) (k, b, a, n)
    \<Longrightarrow> pipe_step p (p\<lparr>pp_ba := k, pp_a := a, pp_b := b, pp_out := n\<rparr>)"

section \<open>Two pipes and their stream\<close>

text \<open>
  A proxied connection is a pair of pipes, each with its stream as \<open>pp_b\<close>. What one end writes to the
  stream arrives at the other in order; after its \<open>Close\<close> and all of its bytes, the end of the data does.
  The rules name one end first and hold for both. \<open>half\<close> says whether a stream can be read after its
  own \<open>Close\<close>; that is up to the multiplexer.
\<close>

type_synonym relay = "pipe \<times> pipe"

definition relay_start :: "bool \<Rightarrow> relay" where
  "relay_start half = (pipe_start half, pipe_start half)"

inductive end_step :: "relay \<Rightarrow> relay \<Rightarrow> bool" where
  pipe: "pipe_step x x' \<Longrightarrow> end_step (x, y) (x', y)"
| carry: "0 < n \<Longrightarrow> length (cn_sent (pp_b y)) + n \<le> length (cn_out (pp_b x))
    \<Longrightarrow> d = take n (drop (length (cn_sent (pp_b y))) (cn_out (pp_b x)))
    \<Longrightarrow> end_step (x, y) (x, y\<lparr>pp_b := conn_arrive d (pp_b y)\<rparr>)"
| carry_fin: "cn_closed (pp_b x) \<Longrightarrow> cn_sent (pp_b y) = cn_out (pp_b x) \<Longrightarrow> \<not> cn_fin (pp_b y)
    \<Longrightarrow> end_step (x, y) (x, y\<lparr>pp_b := (pp_b y)\<lparr>cn_fin := True\<rparr>\<rparr>)"

text \<open>What the peers and the network do: the visitor or the service sends, ends, or a connection fails.\<close>

inductive peer_step :: "pipe \<Rightarrow> pipe \<Rightarrow> bool" where
  sends: "\<not> cn_fin (pp_a x) \<Longrightarrow> peer_step x (x\<lparr>pp_a := conn_arrive d (pp_a x)\<rparr>)"
| ends: "peer_step x (x\<lparr>pp_a := (pp_a x)\<lparr>cn_fin := True\<rparr>\<rparr>)"
| fails: "peer_step x (x\<lparr>pp_a := (pp_a x)\<lparr>cn_err := True\<rparr>\<rparr>)"
| loses_stream: "peer_step x (x\<lparr>pp_b := (pp_b x)\<lparr>cn_err := True\<rparr>\<rparr>)"

text \<open>\<open>relay_step\<close>: a step of the programs or the stream; \<open>relay_next\<close>: also one of the peers.\<close>

inductive relay_step :: "relay \<Rightarrow> relay \<Rightarrow> bool" where
  near: "end_step (x, y) (x', y') \<Longrightarrow> relay_step (x, y) (x', y')"
| far: "end_step (y, x) (y', x') \<Longrightarrow> relay_step (x, y) (x', y')"

inductive relay_next :: "relay \<Rightarrow> relay \<Rightarrow> bool" where
  step: "relay_step s s' \<Longrightarrow> relay_next s s'"
| near_peer: "peer_step x x' \<Longrightarrow> relay_next (x, y) (x', y)"
| far_peer: "peer_step y y' \<Longrightarrow> relay_next (x, y) (x, y')"

inductive relay_reach :: "relay \<Rightarrow> bool" where
  start: "relay_reach (relay_start half)"
| more_steps: "relay_reach s \<Longrightarrow> relay_next s s' \<Longrightarrow> relay_reach s'"

inductive_cases copy_stepE: "copy_step (k, src, dst, n) r"
inductive_cases pipe_stepE: "pipe_step p p'"
inductive_cases end_stepE: "end_step (x, y) s"
inductive_cases peer_stepE: "peer_step p p'"
inductive_cases relay_stepE: "relay_step (x, y) s"
inductive_cases relay_nextE: "relay_next (x, y) s"

end
