(* ===== verification/PipeProps.thy ===== *)
theory PipeProps
imports Pipe
begin

text \<open>
  The bytes of a proxied connection: order, counters, the end of both pipes, and what is delivered.
\<close>

section \<open>One direction\<close>

text \<open>\<open>taken\<close> are the bytes read so far; the last chunk may be on its way to the other connection.\<close>

definition copy_ok :: "copier \<Rightarrow> conn_side \<Rightarrow> conn_side \<Rightarrow> int \<Rightarrow> bool" where
  "copy_ok k src dst n \<longleftrightarrow> (\<exists>taken. cn_sent src = taken @ cn_in src \<and> n = int (length taken)
     \<and> length taken \<le> length (cn_out dst) + copyBufSize
     \<and> (case k of Reading \<Rightarrow> cn_out dst = taken | Writing d \<Rightarrow> taken = cn_out dst @ d
        | Ended \<Rightarrow> prefix (cn_out dst) taken))
   \<and> (cn_closed dst \<longleftrightarrow> k = Ended)"

lemma copy_okD:
  assumes "copy_ok k src dst n"
  shows "prefix (cn_out dst) (cn_sent src)" "int (length (cn_out dst)) \<le> n"
    "n \<le> int (length (cn_sent src))" "n \<le> int (length (cn_out dst) + copyBufSize)"
  using assms by (cases k; auto simp: copy_ok_def prefix_def)+

lemma copy_step_frame:
  assumes "copy_step (k, src, dst, n) (k', src', dst', n')"
  shows "cn_sent src' = cn_sent src" "cn_out src' = cn_out src" "cn_fin src' = cn_fin src"
    "cn_err src' = cn_err src" "cn_half src' = cn_half src" "cn_closed src' = cn_closed src"
    "cn_sent dst' = cn_sent dst" "cn_in dst' = cn_in dst" "cn_fin dst' = cn_fin dst"
    "cn_err dst' = cn_err dst" "cn_half dst' = cn_half dst" "k \<noteq> Ended"
  using assms by (auto elim!: copy_stepE simp: counted_read_def conn_close_def)

lemma copy_step_ok:
  assumes "copy_step (k, src, dst, n) (k', src', dst', n')" and "copy_ok k src dst n"
  shows "copy_ok k' src' dst' n'"
  using assms(1)
proof (cases rule: copy_step.cases)
  case (reads m d)
  with assms(2) show ?thesis
    by (auto simp: copy_ok_def counted_read_def copyBufSize_def)
next
  case (writes d)
  with assms(2) show ?thesis by (auto simp: copy_ok_def)
next
  case (write_fails j d)
  with assms(2) show ?thesis
    by (auto simp: copy_ok_def conn_close_def prefix_def intro: exI [of _ "drop j d"])
qed (use assms(2) in \<open>auto simp: copy_ok_def conn_close_def\<close>)

lemma copy_step_end:
  assumes "copy_step (k, src, dst, n) (Ended, src', dst', n')" and "copy_ok k src dst n"
    and "\<not> cn_err src" "\<not> cn_err dst"
  shows "(cn_closed src \<and> \<not> cn_half src) \<or> (cn_in src' = [] \<and> cn_fin src \<and> cn_out dst' = cn_sent src)"
  using assms(1)
proof (cases rule: copy_step.cases)
  case at_end
  with assms(2,3) show ?thesis by (auto simp: readable_def copy_ok_def conn_close_def)
next
  case (write_fails j d)
  with assms(2,4) show ?thesis by (auto simp: writable_def copy_ok_def)
qed

text \<open>While a direction has not ended it can move, unless it waits for bytes.\<close>

lemma copy_step_enabled:
  assumes "copy_ok k src dst n" and "\<nexists>r. copy_step (k, src, dst, n) r" and "k \<noteq> Ended"
  shows "k = Reading \<and> readable src \<and> cn_in src = [] \<and> \<not> cn_fin src"
proof (cases k)
  case Reading
  have "cn_in src = []"
  proof (rule ccontr)
    assume "cn_in src \<noteq> []"
    then have "readable src \<Longrightarrow> copy_step (k, src, dst, n) (Writing (take 1 (cn_in src)), src\<lparr>cn_in := drop 1 (cn_in src)\<rparr>, dst, n + 1)"
      unfolding Reading
      by (intro copy_step.reads [where n = 1]) (simp_all add: counted_read_def copyBufSize_def Suc_leI)
    moreover have "\<not> readable src \<Longrightarrow> copy_step (k, src, dst, n) (Ended, src, conn_close dst, n)"
      unfolding Reading by (rule copy_step.at_end) simp
    ultimately show False using assms(2) by blast
  qed
  moreover have "readable src" "\<not> cn_fin src"
    using assms(2) copy_step.at_end [of src dst n] calculation unfolding Reading by blast+
  ultimately show ?thesis using Reading by simp
next
  case (Writing d)
  then have "\<exists>r. copy_step (k, src, dst, n) r"
    using copy_step.writes [of dst d src n] copy_step.write_fails [of dst 0 d src n] by blast
  with assms(2) show ?thesis by blast
qed (use assms(3) in simp)

section \<open>The invariant\<close>

definition pipe_ok :: "pipe \<Rightarrow> bool" where
  "pipe_ok p \<longleftrightarrow> copy_ok (pp_ab p) (pp_a p) (pp_b p) (pp_in p) \<and> copy_ok (pp_ba p) (pp_b p) (pp_a p) (pp_out p)
     \<and> \<not> cn_half (pp_a p)"

definition link_ok :: "pipe \<Rightarrow> pipe \<Rightarrow> bool" where
  "link_ok x y \<longleftrightarrow> prefix (cn_sent (pp_b y)) (cn_out (pp_b x))
     \<and> (cn_fin (pp_b y) \<longrightarrow> cn_closed (pp_b x) \<and> cn_sent (pp_b y) = cn_out (pp_b x))"

definition undisturbed :: "pipe \<Rightarrow> pipe \<Rightarrow> bool" where
  "undisturbed x y \<longleftrightarrow> \<not> cn_err (pp_a x) \<and> \<not> cn_err (pp_b x) \<and> \<not> cn_err (pp_b y) \<and> \<not> cn_err (pp_a y)
     \<and> \<not> cn_fin (pp_a y) \<and> cn_half (pp_b x) \<and> cn_half (pp_b y)"

text \<open>As long as the far peer keeps sending open, each direction ends only when all its bytes are through.\<close>

definition orderly :: "pipe \<Rightarrow> pipe \<Rightarrow> bool" where
  "orderly x y \<longleftrightarrow> (undisturbed x y \<longrightarrow>
     (pp_ab x = Ended \<longrightarrow> cn_in (pp_a x) = [] \<and> cn_fin (pp_a x) \<and> cn_out (pp_b x) = cn_sent (pp_a x))
     \<and> (pp_ba y = Ended \<longrightarrow> cn_fin (pp_b y) \<and> cn_out (pp_a y) = cn_sent (pp_b y))
     \<and> (pp_ab y = Ended \<longrightarrow> pp_ba y = Ended) \<and> (pp_ba x = Ended \<longrightarrow> cn_fin (pp_b x)))"

definition half_ok :: "pipe \<Rightarrow> pipe \<Rightarrow> bool" where
  "half_ok x y \<longleftrightarrow> pipe_ok x \<and> link_ok x y \<and> orderly x y"

lemma copy_ok_frame:
  assumes "copy_ok k src dst n" and "cn_sent src' = cn_sent src" "cn_in src' = cn_in src"
    and "cn_out dst' = cn_out dst" "cn_closed dst' = cn_closed dst"
  shows "copy_ok k src' dst' n"
  using assms(1) unfolding copy_ok_def assms(2-5) .

lemma pipe_step_ok:
  assumes "pipe_step p p'" and "pipe_ok p"
  shows "pipe_ok p'"
  using assms
proof (cases rule: pipe_step.cases)
  case (ab k a b n)
  note frame = copy_step_frame [OF ab(2)]
  have "copy_ok (pp_ba p) b a (pp_out p)"
    by (rule copy_ok_frame [where src = "pp_b p" and dst = "pp_a p"]) (use assms(2) frame in \<open>simp_all add: pipe_ok_def\<close>)
  with assms(2) copy_step_ok [OF ab(2)] frame ab(1) show ?thesis by (simp add: pipe_ok_def)
next
  case (ba k b a n)
  note frame = copy_step_frame [OF ba(2)]
  have "copy_ok (pp_ab p) a b (pp_in p)"
    by (rule copy_ok_frame [where src = "pp_a p" and dst = "pp_b p"]) (use assms(2) frame in \<open>simp_all add: pipe_ok_def\<close>)
  with assms(2) copy_step_ok [OF ba(2)] frame ba(1) show ?thesis by (simp add: pipe_ok_def)
qed

text \<open>What a step of one pipe leaves alone, and what it may change, as the stream and the other end see it.\<close>

lemma copy_step_grows:
  assumes "copy_step (k, src, dst, n) (k', src', dst', n')"
  shows "prefix (cn_out dst) (cn_out dst')" "cn_closed dst \<Longrightarrow> cn_closed dst' \<and> cn_out dst' = cn_out dst"
  using assms by (auto elim!: copy_stepE simp: conn_close_def writable_def)

lemma pipe_step_frame:
  assumes "pipe_step p p'"
  shows "cn_sent (pp_a p') = cn_sent (pp_a p) \<and> cn_fin (pp_a p') = cn_fin (pp_a p) \<and> cn_err (pp_a p') = cn_err (pp_a p)
    \<and> cn_sent (pp_b p') = cn_sent (pp_b p) \<and> cn_fin (pp_b p') = cn_fin (pp_b p) \<and> cn_err (pp_b p') = cn_err (pp_b p)
    \<and> cn_half (pp_b p') = cn_half (pp_b p)"
    and "prefix (cn_out (pp_b p)) (cn_out (pp_b p'))"
    and "cn_closed (pp_b p) \<Longrightarrow> cn_closed (pp_b p') \<and> cn_out (pp_b p') = cn_out (pp_b p)"
    and "pp_ab p = Ended \<Longrightarrow> pp_ab p' = Ended \<and> cn_in (pp_a p') = cn_in (pp_a p) \<and> cn_out (pp_b p') = cn_out (pp_b p)"
    and "pp_ba p = Ended \<Longrightarrow> pp_ba p' = Ended \<and> cn_out (pp_a p') = cn_out (pp_a p)"
proof -
  let ?same = "cn_sent (pp_a p') = cn_sent (pp_a p) \<and> cn_fin (pp_a p') = cn_fin (pp_a p) \<and> cn_err (pp_a p') = cn_err (pp_a p)
    \<and> cn_sent (pp_b p') = cn_sent (pp_b p) \<and> cn_fin (pp_b p') = cn_fin (pp_b p) \<and> cn_err (pp_b p') = cn_err (pp_b p)
    \<and> cn_half (pp_b p') = cn_half (pp_b p)"
  have "?same \<and> prefix (cn_out (pp_b p)) (cn_out (pp_b p'))
    \<and> (cn_closed (pp_b p) \<longrightarrow> cn_closed (pp_b p') \<and> cn_out (pp_b p') = cn_out (pp_b p))
    \<and> (pp_ab p = Ended \<longrightarrow> pp_ab p' = Ended \<and> cn_in (pp_a p') = cn_in (pp_a p) \<and> cn_out (pp_b p') = cn_out (pp_b p))
    \<and> (pp_ba p = Ended \<longrightarrow> pp_ba p' = Ended \<and> cn_out (pp_a p') = cn_out (pp_a p))"
    using assms
  proof (cases rule: pipe_step.cases)
    case (ab k a b n)
    show ?thesis using copy_step_frame [OF ab(2)] copy_step_grows [OF ab(2)] by (simp add: ab(1))
  next
    case (ba k b a n)
    show ?thesis using copy_step_frame [OF ba(2)] copy_step_grows [OF ba(2)] by (simp add: ba(1))
  qed
  then show ?same "prefix (cn_out (pp_b p)) (cn_out (pp_b p'))"
    "cn_closed (pp_b p) \<Longrightarrow> cn_closed (pp_b p') \<and> cn_out (pp_b p') = cn_out (pp_b p)"
    "pp_ab p = Ended \<Longrightarrow> pp_ab p' = Ended \<and> cn_in (pp_a p') = cn_in (pp_a p) \<and> cn_out (pp_b p') = cn_out (pp_b p)"
    "pp_ba p = Ended \<Longrightarrow> pp_ba p' = Ended \<and> cn_out (pp_a p') = cn_out (pp_a p)"
    by blast+
qed

lemma pipe_step_ends_ab:
  assumes "pipe_step p p'" and "pipe_ok p" and "\<not> cn_err (pp_a p)" and "\<not> cn_err (pp_b p)"
    and "pp_ab p' = Ended" "pp_ab p \<noteq> Ended"
  shows "pp_ba p = Ended \<or> (cn_in (pp_a p') = [] \<and> cn_fin (pp_a p) \<and> cn_out (pp_b p') = cn_sent (pp_a p))"
  using assms(1)
proof (cases rule: pipe_step.cases)
  case (ab k a b n)
  then have "copy_step (pp_ab p, pp_a p, pp_b p, pp_in p) (Ended, a, b, n)" using assms(5) by simp
  from copy_step_end [OF this _ assms(3,4)] assms(2) ab(1) show ?thesis by (auto simp: pipe_ok_def copy_ok_def)
qed (use assms(5,6) in simp)

lemma pipe_step_ends_ba:
  assumes "pipe_step p p'" and "pipe_ok p" and "\<not> cn_err (pp_a p)" and "\<not> cn_err (pp_b p)"
    and "pp_ba p' = Ended" "pp_ba p \<noteq> Ended" and "cn_half (pp_b p)"
  shows "cn_fin (pp_b p) \<and> cn_out (pp_a p') = cn_sent (pp_b p)"
  using assms(1)
proof (cases rule: pipe_step.cases)
  case (ba k b a n)
  then have "copy_step (pp_ba p, pp_b p, pp_a p, pp_out p) (Ended, b, a, n)" using assms(5) by simp
  from copy_step_end [OF this _ assms(4,3)] assms(2,7) ba(1) show ?thesis by (auto simp: pipe_ok_def copy_ok_def)
qed (use assms(5,6) in simp)

section \<open>Both ends\<close>

lemma orderlyI:
  assumes "undisturbed x y \<Longrightarrow> pp_ab x = Ended \<Longrightarrow> cn_in (pp_a x) = [] \<and> cn_fin (pp_a x) \<and> cn_out (pp_b x) = cn_sent (pp_a x)"
    and "undisturbed x y \<Longrightarrow> pp_ba y = Ended \<Longrightarrow> cn_fin (pp_b y) \<and> cn_out (pp_a y) = cn_sent (pp_b y)"
    and "undisturbed x y \<Longrightarrow> pp_ab y = Ended \<Longrightarrow> pp_ba y = Ended"
    and "undisturbed x y \<Longrightarrow> pp_ba x = Ended \<Longrightarrow> cn_fin (pp_b x)"
  shows "orderly x y"
  using assms by (simp add: orderly_def)

lemma orderlyD:
  assumes "orderly x y" and "undisturbed x y"
  shows "pp_ab x = Ended \<Longrightarrow> cn_in (pp_a x) = [] \<and> cn_fin (pp_a x) \<and> cn_out (pp_b x) = cn_sent (pp_a x)"
    and "pp_ba y = Ended \<Longrightarrow> cn_fin (pp_b y) \<and> cn_out (pp_a y) = cn_sent (pp_b y)"
    and "pp_ab y = Ended \<Longrightarrow> pp_ba y = Ended" and "pp_ba x = Ended \<Longrightarrow> cn_fin (pp_b x)"
  using assms by (simp_all add: orderly_def)

lemma pipe_ok_closed:
  assumes "pipe_ok p"
  shows "cn_closed (pp_b p) \<longleftrightarrow> pp_ab p = Ended" "cn_closed (pp_a p) \<longleftrightarrow> pp_ba p = Ended"
  using assms by (simp_all add: pipe_ok_def copy_ok_def)

lemma link_okD:
  assumes "link_ok x y"
  shows "prefix (cn_sent (pp_b y)) (cn_out (pp_b x))"
    and "cn_fin (pp_b y) \<Longrightarrow> cn_closed (pp_b x) \<and> cn_sent (pp_b y) = cn_out (pp_b x)"
  using assms by (simp_all add: link_ok_def)

text \<open>The ends follow each other around the connection: none of them is the first but the peer's.\<close>

lemma ends_follow:
  assumes "half_ok x y" and "half_ok y x" and "undisturbed x y" and "pp_ba x = Ended"
  shows "pp_ab x = Ended"
proof -
  have ok: "pipe_ok x" "pipe_ok y" "link_ok x y" "link_ok y x" and ord: "orderly x y"
    using assms(1,2) by (simp_all add: half_ok_def)
  have "cn_fin (pp_b x)" using orderlyD(4) [OF ord assms(3,4)] .
  then have "pp_ab y = Ended" using link_okD(2) [OF ok(4)] pipe_ok_closed(1) [OF ok(2)] by blast
  then have "pp_ba y = Ended" by (rule orderlyD(3) [OF ord assms(3)])
  then have "cn_fin (pp_b y)" using orderlyD(2) [OF ord assms(3)] by blast
  then show ?thesis using link_okD(2) [OF ok(3)] pipe_ok_closed(1) [OF ok(1)] by blast
qed

lemma half_ok_pipe:
  assumes step: "pipe_step x x'" and xy: "half_ok x y" and yx: "half_ok y x"
  shows "half_ok x' y" "half_ok y x'"
proof -
  have ok: "pipe_ok x" "pipe_ok y" "link_ok x y" "link_ok y x" "orderly x y" "orderly y x"
    using xy yx by (simp_all add: half_ok_def)
  note frame = pipe_step_frame [OF step]
  have near: "undisturbed x' y \<longleftrightarrow> undisturbed x y" and far: "undisturbed y x' \<longleftrightarrow> undisturbed y x"
    using frame(1) by (simp_all add: undisturbed_def)
  have links: "link_ok x' y" "link_ok y x'"
    using ok(3,4) frame(1-3) by (auto simp: link_ok_def intro: prefix_order.trans)
  have "orderly x' y"
  proof (rule orderlyI; unfold near)
    assume u: "undisturbed x y"
    then have e: "\<not> cn_err (pp_a x)" "\<not> cn_err (pp_b x)" and h: "cn_half (pp_b x)" by (simp_all add: undisturbed_def)
    show "cn_in (pp_a x') = [] \<and> cn_fin (pp_a x') \<and> cn_out (pp_b x') = cn_sent (pp_a x')" if "pp_ab x' = Ended"
      using pipe_step_ends_ab [OF step ok(1) e that] ends_follow [OF xy yx u] orderlyD(1) [OF ok(5) u] frame(1,4)
      by (cases "pp_ab x = Ended") auto
    show "cn_fin (pp_b x')" if "pp_ba x' = Ended"
      using pipe_step_ends_ba [OF step ok(1) e that _ h] orderlyD(4) [OF ok(5) u] frame(1) by (cases "pp_ba x = Ended") auto
  qed (use orderlyD(2,3) [OF ok(5)] in auto)
  moreover have "orderly y x'"
  proof (rule orderlyI; unfold far)
    assume u: "undisturbed y x"
    then have e: "\<not> cn_err (pp_a x)" "\<not> cn_err (pp_b x)" "\<not> cn_fin (pp_a x)" and h: "cn_half (pp_b x)" by (simp_all add: undisturbed_def)
    show "cn_fin (pp_b x') \<and> cn_out (pp_a x') = cn_sent (pp_b x')" if "pp_ba x' = Ended"
      using pipe_step_ends_ba [OF step ok(1) e(1,2) that _ h] orderlyD(2) [OF ok(6) u] frame(1,5)
      by (cases "pp_ba x = Ended") auto
    show "pp_ba x' = Ended" if "pp_ab x' = Ended"
      using pipe_step_ends_ab [OF step ok(1) e(1,2) that] orderlyD(3) [OF ok(6) u] frame(5) e(3)
      by (cases "pp_ab x = Ended") auto
  qed (use orderlyD(1,4) [OF ok(6)] in auto)
  ultimately show "half_ok x' y" "half_ok y x'"
    using links pipe_step_ok [OF step ok(1)] ok(2) by (simp_all add: half_ok_def)
qed

lemma prefix_carry:
  assumes "prefix us vs" and "length us + n \<le> length vs"
  shows "prefix (us @ take n (drop (length us) vs)) vs"
proof -
  from assms(1) obtain zs where "vs = us @ zs" by (auto simp: prefix_def)
  then show ?thesis by (simp add: take_is_prefix)
qed

lemma copy_ok_arrive: "copy_ok k src dst n \<Longrightarrow> copy_ok k (conn_arrive d src) dst n"
  by (auto simp: copy_ok_def conn_arrive_def)

lemma copy_ok_same:
  "copy_ok k src (conn_arrive d dst) n = copy_ok k src dst n"
  "copy_ok k (src\<lparr>cn_fin := f\<rparr>) dst n = copy_ok k src dst n"
  "copy_ok k src (dst\<lparr>cn_fin := f\<rparr>) n = copy_ok k src dst n"
  "copy_ok k (src\<lparr>cn_err := f\<rparr>) dst n = copy_ok k src dst n"
  "copy_ok k src (dst\<lparr>cn_err := f\<rparr>) n = copy_ok k src dst n"
  by (cases k; simp add: copy_ok_def conn_arrive_def)+

lemma conn_arrive_simps [simp]:
  "cn_sent (conn_arrive d c) = cn_sent c @ d" "cn_in (conn_arrive d c) = cn_in c @ d"
  "cn_fin (conn_arrive d c) = cn_fin c" "cn_err (conn_arrive d c) = cn_err c"
  "cn_out (conn_arrive d c) = cn_out c" "cn_closed (conn_arrive d c) = cn_closed c"
  "cn_half (conn_arrive d c) = cn_half c"
  by (simp_all add: conn_arrive_def)

lemma end_step_ok:
  assumes "end_step (x, y) (x', y')" and xy: "half_ok x y" and yx: "half_ok y x"
  shows "half_ok x' y' \<and> half_ok y' x'"
  using assms(1)
proof (cases rule: end_step.cases)
  case pipe
  with half_ok_pipe [OF pipe(2) xy yx] show ?thesis by simp
next
  case (carry n d)
  have ok: "link_ok x y" using xy by (simp add: half_ok_def)
  have unfinished: "\<not> cn_fin (pp_b y)" using carry(3,4) link_okD(2) [OF ok] by auto
  have "prefix (cn_sent (pp_b y) @ d) (cn_out (pp_b x))"
    unfolding carry(5) by (rule prefix_carry [OF link_okD(1) [OF ok] carry(4)])
  with xy yx unfinished show ?thesis unfolding carry(1,2)
    by (auto simp: half_ok_def pipe_ok_def link_ok_def orderly_def undisturbed_def copy_ok_same copy_ok_arrive)
next
  case carry_fin
  with xy yx show ?thesis
    by (auto simp: half_ok_def pipe_ok_def link_ok_def orderly_def undisturbed_def copy_ok_same)
qed

lemma peer_step_ok:
  assumes "peer_step x x'" and xy: "half_ok x y" and yx: "half_ok y x"
  shows "half_ok x' y \<and> half_ok y x'"
  using assms(1)
proof (cases rule: peer_step.cases)
  case (sends d)
  with xy yx show ?thesis
    by (auto simp: half_ok_def pipe_ok_def link_ok_def orderly_def undisturbed_def copy_ok_same copy_ok_arrive)
next
  case ends
  with xy yx show ?thesis
    by (auto simp: half_ok_def pipe_ok_def link_ok_def orderly_def undisturbed_def copy_ok_same)
next
  case fails
  with xy yx show ?thesis
    by (auto simp: half_ok_def pipe_ok_def link_ok_def orderly_def undisturbed_def copy_ok_same)
next
  case loses_stream
  with xy yx show ?thesis
    by (auto simp: half_ok_def pipe_ok_def link_ok_def orderly_def undisturbed_def copy_ok_same)
qed

lemma relay_step_ok: "relay_step (x, y) (x', y') \<Longrightarrow> half_ok x y \<and> half_ok y x \<Longrightarrow> half_ok x' y' \<and> half_ok y' x'"
  by (auto elim!: relay_stepE dest: end_step_ok)

lemma relay_next_ok: "relay_next (x, y) (x', y') \<Longrightarrow> half_ok x y \<and> half_ok y x \<Longrightarrow> half_ok x' y' \<and> half_ok y' x'"
  by (auto elim!: relay_nextE dest: relay_step_ok peer_step_ok)

lemma relay_reach_ok: "relay_reach s \<Longrightarrow> half_ok (fst s) (snd s) \<and> half_ok (snd s) (fst s)"
proof (induction rule: relay_reach.induct)
  case start
  show ?case
    by (auto simp: relay_start_def pipe_start_def conn_start_def half_ok_def pipe_ok_def copy_ok_def link_ok_def
        orderly_def)
next
  case (more_steps s s')
  then show ?case using relay_next_ok [of "fst s" "snd s" "fst s'" "snd s'"] by simp
qed

section \<open>The end of a relay\<close>

text \<open>
  Each byte has a weight that falls as it moves on: unread, in the hands of a copier, in the stream,
  unread at the other end, in the hands of the second copier.
\<close>

definition copier_work :: "nat \<Rightarrow> copier \<Rightarrow> nat" where
  "copier_work w k = (case k of Reading \<Rightarrow> 1 | Writing d \<Rightarrow> w * length d + 2 | Ended \<Rightarrow> 0)"

definition half_work :: "pipe \<Rightarrow> pipe \<Rightarrow> nat" where
  "half_work x y = 5 * length (cn_in (pp_a x)) + copier_work 3 (pp_ab x)
     + 3 * (length (cn_out (pp_b x)) - length (cn_sent (pp_b y)))
     + 2 * length (cn_in (pp_b y)) + copier_work 0 (pp_ba y) + (if cn_fin (pp_b y) then 0 else 1)"

definition relay_work :: "relay \<Rightarrow> nat" where
  "relay_work s = half_work (fst s) (snd s) + half_work (snd s) (fst s)"

lemma copy_step_work:
  assumes "copy_step (k, src, dst, n) (k', src', dst', n')"
  shows "(w + 2) * length (cn_in src') + copier_work w k' + w * length (cn_out dst')
    < (w + 2) * length (cn_in src) + copier_work w k + w * length (cn_out dst)"
  using assms
proof (cases rule: copy_step.cases)
  case (reads m d)
  then obtain l where "length (cn_in src) = m + l" by (auto simp: le_iff_add)
  with reads show ?thesis by (auto simp: counted_read_def copier_work_def algebra_simps)
next
  case (write_fails j d)
  then obtain l where "length d = j + l" by (auto simp: le_iff_add)
  with write_fails show ?thesis by (auto simp: copier_work_def conn_close_def algebra_simps)
qed (auto simp: copier_work_def conn_close_def algebra_simps)

lemma end_step_work:
  assumes "end_step (x, y) (x', y')"
  shows "half_work x' y' + half_work y' x' < half_work x y + half_work y x"
  using assms
proof (cases rule: end_step.cases)
  case pipe
  from pipe(2) show ?thesis
  proof (cases rule: pipe_step.cases)
    case (ab k a b n)
    have "length (cn_out (pp_b x)) \<le> length (cn_out b)"
      using copy_step_grows(1) [OF ab(2)] by (rule prefix_length_le)
    with copy_step_work [OF ab(2), of 3] copy_step_frame [OF ab(2)] show ?thesis
      by (simp add: half_work_def pipe(1) ab(1))
  next
    case (ba k b a n)
    from copy_step_work [OF ba(2), of 0] copy_step_frame [OF ba(2)] show ?thesis
      by (simp add: half_work_def pipe(1) ba(1))
  qed
next
  case (carry n d)
  then have "length d = n" by simp
  with carry show ?thesis by (simp add: half_work_def)
next
  case carry_fin
  then show ?thesis by (simp add: half_work_def)
qed

lemma relay_step_work: "relay_step s s' \<Longrightarrow> relay_work s' < relay_work s"
proof (induction rule: relay_step.induct)
  case (near x y x' y')
  then show ?case using end_step_work [OF near] by (simp add: relay_work_def)
next
  case (far y x y' x')
  then show ?case using end_step_work [OF far] by (simp add: relay_work_def)
qed

lemma relay_steps_work: "(relay_step ^^ n) s s' \<Longrightarrow> n + relay_work s' \<le> relay_work s"
proof (induction n arbitrary: s')
  case (Suc n)
  then obtain r where "(relay_step ^^ n) s r" "relay_step r s'" by auto
  with Suc.IH [of r] relay_step_work [of r s'] show ?case by simp
qed simp

lemma relay_steps_reach: "(relay_step ^^ n) s s' \<Longrightarrow> relay_reach s \<Longrightarrow> relay_reach s'"
  by (induction n arbitrary: s') (auto intro: relay_reach.more_steps relay_next.step)

section \<open>When no step is left\<close>

definition settled :: "pipe \<Rightarrow> pipe \<Rightarrow> bool" where
  "settled x y \<longleftrightarrow> (\<nexists>r. end_step (x, y) r)"

lemma settled_pipe:
  assumes "settled x y" and "pipe_ok x"
  shows "pp_ab x \<noteq> Ended \<Longrightarrow> pp_ab x = Reading \<and> readable (pp_a x) \<and> cn_in (pp_a x) = [] \<and> \<not> cn_fin (pp_a x)"
    and "pp_ba x \<noteq> Ended \<Longrightarrow> pp_ba x = Reading \<and> readable (pp_b x) \<and> cn_in (pp_b x) = [] \<and> \<not> cn_fin (pp_b x)"
proof -
  have stuck: "\<nexists>r. pipe_step x r" using assms(1) end_step.pipe [of x _ y] unfolding settled_def by blast
  have "\<nexists>r. copy_step (pp_ab x, pp_a x, pp_b x, pp_in x) r" "\<nexists>r. copy_step (pp_ba x, pp_b x, pp_a x, pp_out x) r"
    using stuck pipe_step.intros by (metis prod_cases4)+
  with assms(2) copy_step_enabled
  show "pp_ab x \<noteq> Ended \<Longrightarrow> pp_ab x = Reading \<and> readable (pp_a x) \<and> cn_in (pp_a x) = [] \<and> \<not> cn_fin (pp_a x)"
    "pp_ba x \<noteq> Ended \<Longrightarrow> pp_ba x = Reading \<and> readable (pp_b x) \<and> cn_in (pp_b x) = [] \<and> \<not> cn_fin (pp_b x)"
    unfolding pipe_ok_def by blast+
qed

lemma settled_stream:
  assumes "settled x y" and "link_ok x y"
  shows "cn_sent (pp_b y) = cn_out (pp_b x)" and "cn_closed (pp_b x) \<Longrightarrow> cn_fin (pp_b y)"
proof -
  obtain zs where zs: "cn_out (pp_b x) = cn_sent (pp_b y) @ zs"
    using link_okD(1) [OF assms(2)] by (auto simp: prefix_def)
  have "zs = []"
  proof (rule ccontr)
    assume "zs \<noteq> []"
    then have "end_step (x, y) (x, y\<lparr>pp_b := conn_arrive (take 1 zs) (pp_b y)\<rparr>)"
      by (intro end_step.carry [where n = 1]) (simp_all add: zs Suc_leI)
    with assms(1) show False by (auto simp: settled_def)
  qed
  with zs show same: "cn_sent (pp_b y) = cn_out (pp_b x)" by simp
  show "cn_fin (pp_b y)" if "cn_closed (pp_b x)"
    using assms(1) end_step.carry_fin [OF that same] by (auto simp: settled_def)
qed

lemma copy_ok_idle: "copy_ok Reading src dst n \<Longrightarrow> cn_in src = [] \<Longrightarrow> cn_out dst = cn_sent src"
  by (auto simp: copy_ok_def)

lemma settled_delivers:
  assumes "half_ok x y" "half_ok y x" "settled x y" "settled y x" and u: "undisturbed x y"
  shows "cn_out (pp_a y) = cn_sent (pp_a x)"
    and "cn_fin (pp_a x) \<Longrightarrow> pipe_returned x \<and> pipe_returned y"
proof -
  have ok: "pipe_ok x" "pipe_ok y" "link_ok x y" "link_ok y x" "orderly x y"
    using assms(1,2) by (simp_all add: half_ok_def)
  have copies: "copy_ok (pp_ab x) (pp_a x) (pp_b x) (pp_in x)" "copy_ok (pp_ba y) (pp_b y) (pp_a y) (pp_out y)"
    using ok(1,2) by (simp_all add: pipe_ok_def)
  have "cn_out (pp_b x) = cn_sent (pp_a x)"
    using orderlyD(1) [OF ok(5) u] settled_pipe(1) [OF assms(3) ok(1)] copies(1)
    by (cases "pp_ab x = Ended") (auto dest: copy_ok_idle)
  moreover have "cn_out (pp_a y) = cn_sent (pp_b y)"
    using orderlyD(2) [OF ok(5) u] settled_pipe(2) [OF assms(4) ok(2)] copies(2)
    by (cases "pp_ba y = Ended") (auto dest: copy_ok_idle)
  ultimately show "cn_out (pp_a y) = cn_sent (pp_a x)" using settled_stream(1) [OF assms(3) ok(3)] by simp
  assume "cn_fin (pp_a x)"
  then have abx: "pp_ab x = Ended" using settled_pipe(1) [OF assms(3) ok(1)] by blast
  then have "cn_fin (pp_b y)" using settled_stream(2) [OF assms(3) ok(3)] pipe_ok_closed(1) [OF ok(1)] by blast
  then have bay: "pp_ba y = Ended" using settled_pipe(2) [OF assms(4) ok(2)] by blast
  then have "\<not> readable (pp_a y)" using ok(2) pipe_ok_closed(2) [OF ok(2)] by (simp add: pipe_ok_def readable_def)
  then have aby: "pp_ab y = Ended" using settled_pipe(1) [OF assms(4) ok(2)] by blast
  then have "cn_fin (pp_b x)" using settled_stream(2) [OF assms(4) ok(4)] pipe_ok_closed(1) [OF ok(2)] by blast
  then have "pp_ba x = Ended" using settled_pipe(2) [OF assms(3) ok(1)] by blast
  with abx bay aby show "pipe_returned x \<and> pipe_returned y" by (simp add: pipe_returned_def)
qed

text \<open>The steps of programs and stream leave alone what the peers have done.\<close>

definition peers_same :: "relay \<Rightarrow> relay \<Rightarrow> bool" where
  "peers_same s s' \<longleftrightarrow> (\<forall>f\<in>{fst, snd}. cn_sent (pp_a (f s')) = cn_sent (pp_a (f s))
     \<and> cn_fin (pp_a (f s')) = cn_fin (pp_a (f s)) \<and> cn_err (pp_a (f s')) = cn_err (pp_a (f s))
     \<and> cn_err (pp_b (f s')) = cn_err (pp_b (f s)) \<and> cn_half (pp_b (f s')) = cn_half (pp_b (f s)))"

lemma end_step_peers: "end_step s s' \<Longrightarrow> peers_same s s'"
proof (induction rule: end_step.induct)
  case (pipe x x' y)
  then show ?case using pipe_step_frame(1) [OF pipe] by (simp add: peers_same_def)
qed (simp_all add: peers_same_def)

lemma relay_step_peers: "relay_step s s' \<Longrightarrow> peers_same s s'"
proof (induction rule: relay_step.induct)
  case (far y x y' x')
  then show ?case using end_step_peers [OF far] by (simp add: peers_same_def)
qed (rule end_step_peers)

lemma relay_steps_peers: "relay_step\<^sup>*\<^sup>* s s' \<Longrightarrow> peers_same s s'"
proof (induction rule: rtranclp_induct)
  case (step r s')
  from step.IH relay_step_peers [OF step.hyps(2)] show ?case by (simp add: peers_same_def)
qed (simp add: peers_same_def)

lemma relay_steps_undisturbed:
  assumes "relay_step\<^sup>*\<^sup>* (x, y) (x', y')"
  shows "undisturbed x' y' \<longleftrightarrow> undisturbed x y" "cn_sent (pp_a x') = cn_sent (pp_a x)" "cn_fin (pp_a x') = cn_fin (pp_a x)"
    "cn_sent (pp_a y') = cn_sent (pp_a y)"
  using relay_steps_peers [OF assms] by (auto simp: peers_same_def undisturbed_def)

lemma relay_ends: "\<exists>s'. relay_step\<^sup>*\<^sup>* s s' \<and> (\<nexists>r. relay_step s' r)"
proof (induction "relay_work s" arbitrary: s rule: less_induct)
  case less
  show ?case
  proof (cases "\<exists>r. relay_step s r")
    case True
    then obtain r where "relay_step s r" ..
    with less [OF relay_step_work [OF this]] show ?thesis by (meson converse_rtranclp_into_rtranclp)
  qed blast
qed

lemma relay_end_delivers:
  assumes "relay_reach (x, y)" and "undisturbed x y" and "relay_step\<^sup>*\<^sup>* (x, y) (x', y')" and "\<nexists>r. relay_step (x', y') r"
  shows "cn_out (pp_a y') = cn_sent (pp_a x)" and "cn_fin (pp_a x) \<Longrightarrow> pipe_returned x' \<and> pipe_returned y'"
proof -
  have "relay_reach (x', y')" using relay_steps_reach assms(1,3) by (metis rtranclp_imp_relpowp)
  then have ok: "half_ok x' y'" "half_ok y' x'" using relay_reach_ok by auto
  have "settled x' y'" "settled y' x'"
    unfolding settled_def using assms(4) relay_step.near relay_step.far by (metis surj_pair)+
  from settled_delivers [OF ok this] relay_steps_undisturbed [OF assms(3)] assms(2)
  show "cn_out (pp_a y') = cn_sent (pp_a x)" "cn_fin (pp_a x) \<Longrightarrow> pipe_returned x' \<and> pipe_returned y'" by simp_all
qed

text \<open>The two ends are alike.\<close>

lemma relay_next_swap: "relay_next (x, y) (x', y') \<Longrightarrow> relay_next (y, x) (y', x')"
  by (auto elim!: relay_nextE relay_stepE intro: relay_next.intros relay_step.intros)

lemma relay_reach_swap: "relay_reach s \<Longrightarrow> relay_reach (prod.swap s)"
proof (induction rule: relay_reach.induct)
  case start
  show ?case using relay_reach.start by (simp add: relay_start_def)
next
  case (more_steps s s')
  then have "relay_next (prod.swap s) (prod.swap s')"
    using relay_next_swap [of "fst s" "snd s" "fst s'" "snd s'"] by (simp add: prod.swap_def)
  with more_steps.IH show ?case by (rule relay_reach.more_steps)
qed

section \<open>After a half-close\<close>

lemma pipe_step_stuck:
  assumes "pipe_step p p'" and "pipe_ok p" and "pp_ba p = Ended"
  shows "pp_ba p' = Ended" "pp_in p' = pp_in p"
proof -
  have "\<not> readable (pp_a p)" using assms(2,3) pipe_ok_closed(2) [OF assms(2)] by (simp add: pipe_ok_def readable_def)
  then show "pp_ba p' = Ended" "pp_in p' = pp_in p"
    using assms(1,3) by (auto elim!: pipe_stepE copy_stepE)
qed

lemma end_step_stuck:
  assumes "end_step (x, y) (x', y')" and "pipe_ok x"
  shows "pp_ba x = Ended \<Longrightarrow> pp_ba x' = Ended \<and> pp_in x' = pp_in x"
    and "pp_ba y' = pp_ba y" "pp_in y' = pp_in y"
  using assms pipe_step_stuck by (auto elim!: end_stepE)

lemma relay_next_stuck:
  assumes "relay_next (x, y) (x', y')" and "pipe_ok x" "pipe_ok y" and "pp_ba y = Ended"
  shows "pp_ba y' = Ended \<and> pp_in y' = pp_in y"
  using assms(1)
proof (cases rule: relay_next.cases)
  case step
  then show ?thesis
  proof (cases rule: relay_step.cases)
    case near
    with end_step_stuck(2,3) [OF near assms(2)] assms(4) show ?thesis by simp
  next
    case far
    with end_step_stuck(1) [OF far assms(3,4)] show ?thesis by simp
  qed
qed (use assms(4) in \<open>auto elim!: peer_stepE\<close>)

lemma relay_stuck:
  assumes "relay_next\<^sup>*\<^sup>* s s'" and "relay_reach s" and "pp_ba (snd s) = Ended"
  shows "relay_reach s' \<and> pp_ba (snd s') = Ended \<and> pp_in (snd s') = pp_in (snd s)"
  using assms(1)
proof (induction rule: rtranclp_induct)
  case (step r s')
  then have "pipe_ok (fst r)" "pipe_ok (snd r)" using relay_reach_ok [of r] by (auto simp: half_ok_def)
  with step relay_next_stuck [of "fst r" "snd r" "fst s'" "snd s'"] show ?case
    by (auto intro: relay_reach.more_steps)
qed (use assms in simp)

lemma relay_bytes:
  assumes "relay_reach (x, y)"
  shows "prefix (cn_out (pp_a y)) (cn_sent (pp_a x)) \<and> prefix (cn_out (pp_a x)) (cn_sent (pp_a y))
    \<and> int (length (cn_out (pp_a y))) \<le> pp_in x \<and> pp_in x \<le> int (length (cn_sent (pp_a x)))
    \<and> int (length (cn_out (pp_b x))) \<le> pp_in x \<and> pp_in x \<le> int (length (cn_out (pp_b x)) + 32768)
    \<and> int (length (cn_out (pp_a x))) \<le> pp_out x \<and> pp_out x \<le> int (length (cn_out (pp_a x)) + 32768)
    \<and> pp_out x \<le> int (length (cn_sent (pp_a y)))"
proof -
  have ok: "pipe_ok x" "pipe_ok y" "link_ok x y" "link_ok y x"
    using relay_reach_ok [OF assms] by (simp_all add: half_ok_def)
  have copies: "copy_ok (pp_ab x) (pp_a x) (pp_b x) (pp_in x)" "copy_ok (pp_ba x) (pp_b x) (pp_a x) (pp_out x)"
    "copy_ok (pp_ab y) (pp_a y) (pp_b y) (pp_in y)" "copy_ok (pp_ba y) (pp_b y) (pp_a y) (pp_out y)"
    using ok(1,2) by (simp_all add: pipe_ok_def)
  note through = copy_okD(1) [OF copies(1)] copy_okD(1) [OF copies(2)] copy_okD(1) [OF copies(3)]
    copy_okD(1) [OF copies(4)] link_okD(1) [OF ok(3)] link_okD(1) [OF ok(4)]
  have "prefix (cn_out (pp_a y)) (cn_out (pp_b x))" "prefix (cn_sent (pp_b x)) (cn_sent (pp_a y))"
    using through by (meson prefix_order.trans)+
  with through copy_okD(2-4) [OF copies(1)] copy_okD(2-4) [OF copies(2)] show ?thesis
    by (auto simp: copyBufSize_def dest: prefix_length_le intro: prefix_order.trans)
qed

section \<open>Properties\<close>

text \<open>
  C8. A proxied connection carries bytes faithfully. Whatever the interleaving of the four copying
  goroutines, the stream, the two peers and failures: what either peer has been written is an initial
  part of what the other has sent, in order. The incoming counter of the server lies between the bytes the local service was written and
  those the visitor has sent, the outgoing one between the bytes the visitor was written and those the
  service has sent; and each is at most one buffer of 32 KiB ahead of what the server has written on, to
  the stream and to the visitor.
\<close>

theorem relay_faithful:
  assumes "relay_reach (x, y)"
  shows "prefix (cn_out (pp_a y)) (cn_sent (pp_a x)) \<and> prefix (cn_out (pp_a x)) (cn_sent (pp_a y))
    \<and> int (length (cn_out (pp_a y))) \<le> pp_in x \<and> pp_in x \<le> int (length (cn_sent (pp_a x)))
    \<and> int (length (cn_out (pp_b x))) \<le> pp_in x \<and> pp_in x \<le> int (length (cn_out (pp_b x)) + 32768)
    \<and> int (length (cn_out (pp_a x))) \<le> pp_out x \<and> pp_out x \<le> int (length (cn_out (pp_a x)) + 32768)
    \<and> pp_out x \<le> int (length (cn_sent (pp_a y)))"
  using assms by (rule relay_bytes)

text \<open>
  C9. A proxied connection delivers and ends. Take either peer as the first, and let a stream be
  readable after its own \<open>Close\<close>. While nothing fails and the second peer has not shut down its
  sending, only boundedly many steps can be made without the peers; when none is left, in whatever
  order they were made, the second has been written everything the first has sent; and if the first
  has finished sending, both pipes have returned.
\<close>

theorem relay_delivers:
  assumes "relay_reach (x, y)" and "undisturbed x y"
  shows "(\<forall>n s'. (relay_step ^^ n) (x, y) s' \<longrightarrow> n \<le> relay_work (x, y))
    \<and> (\<exists>s'. relay_step\<^sup>*\<^sup>* (x, y) s' \<and> (\<nexists>r. relay_step s' r))
    \<and> (\<forall>x' y'. relay_step\<^sup>*\<^sup>* (x, y) (x', y') \<longrightarrow> (\<nexists>r. relay_step (x', y') r) \<longrightarrow>
        cn_out (pp_a y') = cn_sent (pp_a x) \<and> (cn_fin (pp_a x) \<longrightarrow> pipe_returned x' \<and> pipe_returned y'))"
proof (intro conjI allI impI)
  fix n s' assume "(relay_step ^^ n) (x, y) s'"
  then show "n \<le> relay_work (x, y)" using relay_steps_work by fastforce
qed (use relay_ends relay_end_delivers [OF assms] in blast)+

text \<open>A visitor that sends three bytes and shuts down its sending.\<close>

definition example_visitor :: "pipe" where
  "example_visitor = (pipe_start True)\<lparr>pp_a := (conn_arrive [1, 2, 3] (conn_start False))\<lparr>cn_fin := True\<rparr>\<rparr>"

lemma example_visitor_reach: "relay_reach (example_visitor, pipe_start True)"
proof -
  have "peer_step (pipe_start True) ((pipe_start True)\<lparr>pp_a := conn_arrive [1, 2, 3] (conn_start False)\<rparr>)"
    using peer_step.sends [of "pipe_start True" "[1, 2, 3]"] by (simp add: pipe_start_def conn_start_def)
  from relay_reach.more_steps [OF relay_reach.start [unfolded relay_start_def] relay_next.near_peer [OF this]]
  have "relay_reach ((pipe_start True)\<lparr>pp_a := conn_arrive [1, 2, 3] (conn_start False)\<rparr>, pipe_start True)" .
  from relay_reach.more_steps [OF this relay_next.near_peer [OF peer_step.ends]]
  show ?thesis by (simp add: example_visitor_def)
qed

lemma example_undisturbed: "undisturbed example_visitor (pipe_start True)"
  by (simp add: undisturbed_def example_visitor_def pipe_start_def conn_start_def)

theorem relay_faithful_witness:
  "\<exists>x' y'. relay_reach (x', y') \<and> cn_out (pp_a y') = [1, 2, 3] \<and> pp_in x' = 3"
proof -
  obtain s where run: "relay_step\<^sup>*\<^sup>* (example_visitor, pipe_start True) s" "\<nexists>r. relay_step s r"
    using relay_ends by blast
  obtain x y where s: "s = (x, y)" by fastforce
  note run = run [unfolded s]
  have reach: "relay_reach (x, y)"
    using relay_steps_reach example_visitor_reach run(1) by (metis rtranclp_imp_relpowp)
  have "cn_out (pp_a y) = [1, 2, 3]" "cn_sent (pp_a x) = [1, 2, 3]"
    using relay_end_delivers(1) [OF example_visitor_reach example_undisturbed run] relay_steps_undisturbed(2) [OF run(1)]
    by (simp_all add: example_visitor_def conn_start_def)
  with relay_faithful [OF reach] reach show ?thesis by (intro exI [of _ x] exI [of _ y]) auto
qed

theorem relay_delivers_witness:
  "\<exists>x' y'. relay_step\<^sup>*\<^sup>* (example_visitor, pipe_start True) (x', y') \<and> cn_out (pp_a y') = [1, 2, 3]
    \<and> pipe_returned x' \<and> pipe_returned y'"
proof -
  note th = relay_delivers [OF example_visitor_reach example_undisturbed]
  then obtain x' y' where "relay_step\<^sup>*\<^sup>* (example_visitor, pipe_start True) (x', y')" "\<nexists>r. relay_step (x', y') r" by auto
  moreover from this th have "cn_out (pp_a y') = cn_sent (pp_a example_visitor)"
      "cn_fin (pp_a example_visitor) \<longrightarrow> pipe_returned x' \<and> pipe_returned y'"
    by blast+
  moreover have "cn_sent (pp_a example_visitor) = [1, 2, 3]" "cn_fin (pp_a example_visitor)"
    by (simp_all add: example_visitor_def conn_start_def)
  ultimately show ?thesis by auto
qed

text \<open>
  C33. An answer after a half-close is lost. Once the client has forwarded the end of the visitor's
  data, it has closed the whole connection to the local service: from then on, whatever the service
  still sends, the visitor is never written more bytes than the client had read of the answer by then.
\<close>

theorem half_close_loses_answers:
  assumes "relay_reach (x, y)" and "pp_ba y = Ended" and "relay_next\<^sup>*\<^sup>* (x, y) (x', y')"
  shows "pp_in y' = pp_in y \<and> int (length (cn_out (pp_a x'))) \<le> pp_in y"
proof -
  have reach: "relay_reach (x', y')" and same: "pp_in y' = pp_in y"
    using relay_stuck [OF assms(3,1)] assms(2) by simp_all
  have ok: "pipe_ok x'" "pipe_ok y'" "link_ok y' x'"
    using relay_reach_ok [OF reach] by (simp_all add: half_ok_def)
  then have "copy_ok (pp_ba x') (pp_b x') (pp_a x') (pp_out x')" "copy_ok (pp_ab y') (pp_a y') (pp_b y') (pp_in y')"
    by (simp_all add: pipe_ok_def)
  from copy_okD(1) [OF this(1)] copy_okD(2) [OF this(2)] link_okD(1) [OF ok(3)] same show ?thesis
    by (auto dest!: prefix_length_le)
qed

text \<open>The service answers the visitor above only after it has seen the end of the data.\<close>

theorem half_close_loses_answers_witness:
  "\<exists>x y. relay_reach (x, y) \<and> \<not> cn_err (pp_a x) \<and> cn_sent (pp_a y) = [9]
    \<and> (\<forall>x' y'. relay_next\<^sup>*\<^sup>* (x, y) (x', y') \<longrightarrow> cn_out (pp_a x') = [])"
proof -
  obtain s where run: "relay_step\<^sup>*\<^sup>* (example_visitor, pipe_start True) s" "\<nexists>r. relay_step s r"
    using relay_ends by blast
  obtain x y where s: "s = (x, y)" by fastforce
  note run = run [unfolded s]
  have reach: "relay_reach (x, y)"
    using relay_steps_reach example_visitor_reach run(1) by (metis rtranclp_imp_relpowp)
  have peers: "cn_sent (pp_a y) = []" "\<not> cn_fin (pp_a y)" "\<not> cn_err (pp_a x)"
    using relay_steps_undisturbed [OF run(1)] example_undisturbed
    by (simp_all add: undisturbed_def) (simp add: pipe_start_def conn_start_def)
  have ended: "pp_ba y = Ended"
    using relay_end_delivers(2) [OF example_visitor_reach example_undisturbed run]
    by (simp add: pipe_returned_def example_visitor_def)
  have "copy_ok (pp_ab y) (pp_a y) (pp_b y) (pp_in y)"
    using relay_reach_ok [OF reach] by (simp add: half_ok_def pipe_ok_def)
  then have none: "pp_in y \<le> 0" using copy_okD(3) peers(1) by fastforce
  let ?y = "y\<lparr>pp_a := conn_arrive [9] (pp_a y)\<rparr>"
  have reach': "relay_reach (x, ?y)"
    by (rule relay_reach.more_steps [OF reach relay_next.far_peer [OF peer_step.sends [OF peers(2)]]])
  have "cn_out (pp_a x') = []" if run': "relay_next\<^sup>*\<^sup>* (x, ?y) (x', y')" for x' y'
  proof -
    have "pp_ba ?y = Ended" "pp_in ?y \<le> 0" using ended none by simp_all
    with half_close_loses_answers [OF reach' _ run'] have "int (length (cn_out (pp_a x'))) \<le> 0" by linarith
    then show ?thesis by simp
  qed
  with reach' peers show ?thesis by (intro exI [of _ x] exI [of _ ?y]) auto
qed

end
