(* ===== verification/Booking.thy ===== *)
theory Booking
imports PipeProps TunnelServer
begin

text \<open>
  From the bytes of the connections to the totals of the database: the tunnel server with the proxied
  connections it carries (\<open>proxyConn\<close>, \<open>pipe\<close>, \<open>countingReader\<close>, \<open>trafficFlushLoop\<close>), from the start of
  the process.
\<close>

section \<open>The server with its connections\<close>

record traffic_system =
  tx_server :: tserver
  tx_conns :: "(string \<times> relay) list"

text \<open>
  A connection is proxied from its start; what a step of it reads is added to the counters of its
  tunnel. \<open>other\<close>: anything that touches neither counters nor totals.
\<close>

inductive traffic_step :: "traffic_system \<Rightarrow> traffic_system \<Rightarrow> bool" where
  accept: "proxyConn ook wok t remote (tx_server s) = (True, s')
    \<Longrightarrow> traffic_step s (s\<lparr>tx_server := s', tx_conns := tx_conns s @ [(t_ID t, relay_start half)]\<rparr>)"
| move: "k < length (tx_conns s) \<Longrightarrow> tx_conns s ! k = (x, r) \<Longrightarrow> relay_next r r'
    \<Longrightarrow> n = nat (pp_in (fst r') - pp_in (fst r)) \<Longrightarrow> m = nat (pp_out (fst r') - pp_out (fst r))
    \<Longrightarrow> traffic_step s (s\<lparr>tx_server := count_bytes x n m (tx_server s), tx_conns := (tx_conns s)[k := (x, r')]\<rparr>)"
| flush: "traffic_step s (s\<lparr>tx_server := flush_tick now order (tx_server s)\<rparr>)"
| other: "ts_live s' = ts_live (tx_server s) \<Longrightarrow> ts_flushed s' = ts_flushed (tx_server s)
    \<Longrightarrow> db_wf (ts_db s') \<Longrightarrow> tunnel_bytes (ts_db s') = tunnel_bytes (ts_db (tx_server s))
    \<Longrightarrow> traffic_step s (s\<lparr>tx_server := s'\<rparr>)"

inductive traffic_reach :: "db \<Rightarrow> traffic_system \<Rightarrow> bool" for d where
  start: "traffic_reach d \<lparr>tx_server = NewServer d, tx_conns = []\<rparr>"
| more_traffic: "traffic_reach d s \<Longrightarrow> traffic_step s s' \<Longrightarrow> traffic_reach d s'"

definition over_tunnel :: "(relay \<Rightarrow> int) \<Rightarrow> string \<Rightarrow> traffic_system \<Rightarrow> int" where
  "over_tunnel f x s = sum_list (map (\<lambda>(y, r). if y = x then f r else 0) (tx_conns s))"

section \<open>Counters follow the reads\<close>

lemma copy_step_counts: "copy_step (k, src, dst, n) (k', src', dst', n') \<Longrightarrow> n \<le> n'"
  by (auto elim!: copy_stepE simp: counted_read_def)

lemma pipe_step_counts: "pipe_step p p' \<Longrightarrow> pp_in p \<le> pp_in p' \<and> pp_out p \<le> pp_out p'"
  by (auto elim!: pipe_stepE dest: copy_step_counts)

lemma end_step_counts: "end_step s s' \<Longrightarrow> pp_in (fst s) \<le> pp_in (fst s') \<and> pp_out (fst s) \<le> pp_out (fst s')
    \<and> pp_in (snd s) \<le> pp_in (snd s') \<and> pp_out (snd s) \<le> pp_out (snd s')"
  by (induction rule: end_step.induct) (auto dest: pipe_step_counts)

lemma relay_next_counts: "relay_next r r' \<Longrightarrow> pp_in (fst r) \<le> pp_in (fst r') \<and> pp_out (fst r) \<le> pp_out (fst r')"
proof (induction rule: relay_next.induct)
  case (step s s')
  then show ?case
    by (induction rule: relay_step.induct) (auto dest: end_step_counts)
qed (auto elim!: peer_stepE)

lemma over_tunnel_append:
  "tx_conns s' = tx_conns s @ [(y, r)] \<Longrightarrow> over_tunnel f x s' = over_tunnel f x s + (if y = x then f r else 0)"
  by (simp add: over_tunnel_def)

lemma sum_list_replace: "k < length xs \<Longrightarrow> sum_list (xs[k := v]) = sum_list xs + v - (xs ! k :: int)"
  by (induction xs arbitrary: k) (auto split: nat.split)

lemma over_tunnel_update:
  assumes "k < length (tx_conns s)" "tx_conns s ! k = (y, r)" "tx_conns s' = (tx_conns s)[k := (y, r')]"
  shows "over_tunnel f x s' = over_tunnel f x s + (if y = x then f r' - f r else 0)"
  using assms(1,2) by (simp add: over_tunnel_def assms(3) map_update sum_list_replace)

lemma over_tunnel_none: "x \<notin> fst ` set (tx_conns s) \<Longrightarrow> over_tunnel f x s = 0"
proof -
  have "sum_list (map (\<lambda>(y, r). if y = x then f r else 0) cs) = 0" if "x \<notin> fst ` set cs" for cs
    using that by (induction cs) auto
  then show "x \<notin> fst ` set (tx_conns s) \<Longrightarrow> over_tunnel f x s = 0" by (simp add: over_tunnel_def)
qed

lemma over_tunnel_mono:
  "(\<And>y r. (y, r) \<in> set (tx_conns s) \<Longrightarrow> f r \<le> g r) \<Longrightarrow> over_tunnel f x s \<le> over_tunnel g x s"
  unfolding over_tunnel_def by (rule sum_list_mono) auto

section \<open>The invariant\<close>

definition booking_ok :: "db \<Rightarrow> traffic_system \<Rightarrow> bool" where
  "booking_ok d s \<longleftrightarrow> db_wf (ts_db (tx_server s)) \<and> (\<forall>(y, r)\<in>set (tx_conns s). relay_reach r)
     \<and> (\<forall>x. (case ts_live (tx_server s) x of
           None \<Rightarrow> x \<notin> fst ` set (tx_conns s) \<and> ts_flushed (tx_server s) x = (0, 0)
         | Some (i, u) \<Rightarrow> i = over_tunnel (\<lambda>r. pp_in (fst r)) x s \<and> u = over_tunnel (\<lambda>r. pp_out (fst r)) x s
             \<and> 0 \<le> fst (ts_flushed (tx_server s) x) \<and> fst (ts_flushed (tx_server s) x) \<le> i
             \<and> 0 \<le> snd (ts_flushed (tx_server s) x) \<and> snd (ts_flushed (tx_server s) x) \<le> u)
       \<and> tunnel_bytes (ts_db (tx_server s)) x
           = map_option (\<lambda>(a, b). (a + fst (ts_flushed (tx_server s) x), b + snd (ts_flushed (tx_server s) x)))
               (tunnel_bytes d x))"

lemma booking_okD:
  assumes "booking_ok d s"
  shows "db_wf (ts_db (tx_server s))" "(y, r) \<in> set (tx_conns s) \<Longrightarrow> relay_reach r"
    and "ts_live (tx_server s) x = None \<Longrightarrow> x \<notin> fst ` set (tx_conns s) \<and> ts_flushed (tx_server s) x = (0, 0)"
    and "ts_live (tx_server s) x = Some (i, u) \<Longrightarrow> i = over_tunnel (\<lambda>r. pp_in (fst r)) x s \<and> u = over_tunnel (\<lambda>r. pp_out (fst r)) x s
      \<and> 0 \<le> fst (ts_flushed (tx_server s) x) \<and> fst (ts_flushed (tx_server s) x) \<le> i
      \<and> 0 \<le> snd (ts_flushed (tx_server s) x) \<and> snd (ts_flushed (tx_server s) x) \<le> u"
    and "tunnel_bytes (ts_db (tx_server s)) x
      = map_option (\<lambda>(a, b). (a + fst (ts_flushed (tx_server s) x), b + snd (ts_flushed (tx_server s) x))) (tunnel_bytes d x)"
  using assms by (auto simp: booking_ok_def split: option.splits dest: spec [of _ x])

lemma booking_okI:
  assumes "db_wf (ts_db (tx_server s))" "\<And>y r. (y, r) \<in> set (tx_conns s) \<Longrightarrow> relay_reach r"
    and "\<And>x. ts_live (tx_server s) x = None \<Longrightarrow> x \<notin> fst ` set (tx_conns s) \<and> ts_flushed (tx_server s) x = (0, 0)"
    and "\<And>x i u. ts_live (tx_server s) x = Some (i, u) \<Longrightarrow> i = over_tunnel (\<lambda>r. pp_in (fst r)) x s \<and> u = over_tunnel (\<lambda>r. pp_out (fst r)) x s
      \<and> 0 \<le> fst (ts_flushed (tx_server s) x) \<and> fst (ts_flushed (tx_server s) x) \<le> i
      \<and> 0 \<le> snd (ts_flushed (tx_server s) x) \<and> snd (ts_flushed (tx_server s) x) \<le> u"
    and "\<And>x. tunnel_bytes (ts_db (tx_server s)) x
      = map_option (\<lambda>(a, b). (a + fst (ts_flushed (tx_server s) x), b + snd (ts_flushed (tx_server s) x))) (tunnel_bytes d x)"
  shows "booking_ok d s"
  using assms unfolding booking_ok_def by (auto split: option.split)

lemma booking_start:
  assumes "db_wf d"
  shows "booking_ok d \<lparr>tx_server = NewServer d, tx_conns = []\<rparr>"
  using assms by (intro booking_okI) (simp_all add: NewServer_def option.map_ident option.map_id)

lemma proxyConn_counter:
  assumes "proxyConn ook wok t remote s = (True, s')"
  shows "ts_db s' = ts_db s" "ts_flushed s' = ts_flushed s"
    "ts_live s' = (case ts_live s (t_ID t) of None \<Rightarrow> (ts_live s)(t_ID t \<mapsto> (0, 0)) | Some _ \<Rightarrow> ts_live s)"
  using assms by (auto simp: proxyConn_def getLiveCounter_def Let_def split: option.splits if_splits)

lemma booking_accept:
  assumes ok: "booking_ok d s" and p: "proxyConn ook wok t remote (tx_server s) = (True, t')"
    and s': "s' = s\<lparr>tx_server := t', tx_conns := tx_conns s @ [(t_ID t, relay_start half)]\<rparr>"
  shows "booking_ok d s'"
proof -
  have sums: "over_tunnel (\<lambda>r. pp_in (fst r)) x s' = over_tunnel (\<lambda>r. pp_in (fst r)) x s"
    "over_tunnel (\<lambda>r. pp_out (fst r)) x s' = over_tunnel (\<lambda>r. pp_out (fst r)) x s" for x
    using over_tunnel_append [of s' s "t_ID t" "relay_start half"]
    by (simp_all add: s' relay_start_def pipe_start_def)
  note counter = proxyConn_counter [OF p]
  show ?thesis
  proof (rule booking_okI)
    fix x i u assume "ts_live (tx_server s') x = Some (i, u)"
    then consider "ts_live (tx_server s) x = Some (i, u)" | "ts_live (tx_server s) x = None" "i = 0" "u = 0"
      by (auto simp: s' counter split: option.splits if_splits)
    then show "i = over_tunnel (\<lambda>r. pp_in (fst r)) x s' \<and> u = over_tunnel (\<lambda>r. pp_out (fst r)) x s'
      \<and> 0 \<le> fst (ts_flushed (tx_server s') x) \<and> fst (ts_flushed (tx_server s') x) \<le> i
      \<and> 0 \<le> snd (ts_flushed (tx_server s') x) \<and> snd (ts_flushed (tx_server s') x) \<le> u"
    proof cases
      case 1
      with booking_okD(4) [OF ok 1] show ?thesis by (simp add: sums) (simp add: s' counter)
    next
      case 2
      with booking_okD(3) [OF ok 2(1)] over_tunnel_none [of x s] show ?thesis by (simp add: sums) (simp add: s' counter)
    qed
  qed (use booking_okD [OF ok] relay_reach.start in \<open>auto simp: s' counter split: option.splits if_splits\<close>)
qed

lemma booking_move:
  assumes ok: "booking_ok d s" and k: "k < length (tx_conns s)" "tx_conns s ! k = (y, r)" and r: "relay_next r r'"
    and n: "n = nat (pp_in (fst r') - pp_in (fst r))" and m: "m = nat (pp_out (fst r') - pp_out (fst r))"
    and s': "s' = s\<lparr>tx_server := count_bytes y n m (tx_server s), tx_conns := (tx_conns s)[k := (y, r')]\<rparr>"
  shows "booking_ok d s'"
proof -
  have mem: "(y, r) \<in> set (tx_conns s)" using k nth_mem by metis
  obtain i u where live: "ts_live (tx_server s) y = Some (i, u)"
    using booking_okD(3) [OF ok, of y] mem by (cases "ts_live (tx_server s) y") force+
  have server: "tx_server s' = (tx_server s)\<lparr>ts_live := (ts_live (tx_server s))(y \<mapsto> (i + int n, u + int m))\<rparr>"
    by (simp add: s' count_bytes_def live)
  have mono: "pp_in (fst r) \<le> pp_in (fst r')" "pp_out (fst r) \<le> pp_out (fst r')"
    using relay_next_counts [OF r] by simp_all
  have sums: "over_tunnel f x s' = over_tunnel f x s + (if y = x then f r' - f r else 0)" for f x
    by (rule over_tunnel_update [OF k]) (simp add: s')
  have "map fst (tx_conns s) ! k = y" using k by simp
  then have names: "map fst (tx_conns s') = map fst (tx_conns s)"
    by (simp add: s' map_update) (metis list_update_id)
  show ?thesis
  proof (rule booking_okI)
    fix z q assume "(z, q) \<in> set (tx_conns s')"
    then have "(z, q) \<in> insert (y, r') (set (tx_conns s))" using set_update_subset_insert by (fastforce simp: s')
    then show "relay_reach q" using booking_okD(2) [OF ok] relay_reach.more_steps [OF booking_okD(2) [OF ok mem] r] by blast
  next
    fix x assume none: "ts_live (tx_server s') x = None"
    then have "x \<noteq> y" "ts_live (tx_server s) x = None" by (auto simp: server split: if_splits)
    moreover have "fst ` set (tx_conns s') = fst ` set (tx_conns s)" using names by (metis list.set_map)
    ultimately show "x \<notin> fst ` set (tx_conns s') \<and> ts_flushed (tx_server s') x = (0, 0)"
      using booking_okD(3) [OF ok] by (simp add: server)
  next
    fix x i' u' assume l: "ts_live (tx_server s') x = Some (i', u')"
    show "i' = over_tunnel (\<lambda>r. pp_in (fst r)) x s' \<and> u' = over_tunnel (\<lambda>r. pp_out (fst r)) x s'
      \<and> 0 \<le> fst (ts_flushed (tx_server s') x) \<and> fst (ts_flushed (tx_server s') x) \<le> i'
      \<and> 0 \<le> snd (ts_flushed (tx_server s') x) \<and> snd (ts_flushed (tx_server s') x) \<le> u'"
    proof (cases "x = y")
      case True
      with l have "i' = i + int n" "u' = u + int m" by (simp_all add: server)
      with True booking_okD(4) [OF ok live] mono show ?thesis unfolding sums by (simp add: server n m)
    next
      case False
      with l have "ts_live (tx_server s) x = Some (i', u')" by (simp add: server)
      from booking_okD(4) [OF ok this] False show ?thesis unfolding sums by (simp add: server)
    qed
  qed (use booking_okD [OF ok] in \<open>simp_all add: server\<close>)
qed

lemma booking_flush:
  assumes ok: "booking_ok d s" and s': "s' = s\<lparr>tx_server := flush_tick now order (tx_server s)\<rparr>"
  shows "booking_ok d s'"
proof -
  note facts = flush_tick_facts [OF booking_okD(1) [OF ok], of now order]
  have sums: "over_tunnel f x s' = over_tunnel f x s" for f x by (simp add: s' over_tunnel_def)
  show ?thesis
  proof (rule booking_okI)
    fix x assume "ts_live (tx_server s') x = None"
    then show "x \<notin> fst ` set (tx_conns s') \<and> ts_flushed (tx_server s') x = (0, 0)"
      using booking_okD(3) [OF ok, of x] facts(3) [of x] by (simp add: s')
  next
    fix x i u assume "ts_live (tx_server s') x = Some (i, u)"
    then have live: "ts_live (tx_server s) x = Some (i, u)" by (simp add: s')
    from booking_okD(4) [OF ok this] facts(3) [of x]
    show "i = over_tunnel (\<lambda>r. pp_in (fst r)) x s' \<and> u = over_tunnel (\<lambda>r. pp_out (fst r)) x s'
      \<and> 0 \<le> fst (ts_flushed (tx_server s') x) \<and> fst (ts_flushed (tx_server s') x) \<le> i
      \<and> 0 \<le> snd (ts_flushed (tx_server s') x) \<and> snd (ts_flushed (tx_server s') x) \<le> u"
      unfolding sums by (auto simp: s' live)
  next
    fix x
    from facts(2) [of x] booking_okD(5) [OF ok, of x]
    show "tunnel_bytes (ts_db (tx_server s')) x
      = map_option (\<lambda>(a, b). (a + fst (ts_flushed (tx_server s') x), b + snd (ts_flushed (tx_server s') x))) (tunnel_bytes d x)"
      by (cases "tunnel_bytes d x") (auto simp: db_traffic.balanced_def s')
  qed (use booking_okD(1,2) [OF ok] facts(1) in \<open>simp_all add: s'\<close>)
qed

lemma booking_reach: "traffic_reach d s \<Longrightarrow> db_wf d \<Longrightarrow> booking_ok d s"
proof (induction rule: traffic_reach.induct)
  case (more_traffic s s')
  then have ok: "booking_ok d s" by blast
  from more_traffic.hyps(2) show ?case
  proof (cases rule: traffic_step.cases)
    case accept
    then show ?thesis using booking_accept [OF ok] by blast
  next
    case move
    then show ?thesis using booking_move [OF ok] by blast
  next
    case flush
    then show ?thesis by (rule booking_flush [OF ok])
  next
    case (other t)
    have sums: "over_tunnel f x s' = over_tunnel f x s" for f x by (simp add: other(1) over_tunnel_def)
    show ?thesis
      by (rule booking_okI; (unfold sums)?) (use booking_okD [OF ok] other in auto)
  qed
qed (rule booking_start)

section \<open>Property\<close>

text \<open>
  C10. The booked traffic is the traffic that flowed. From the start of the process, with any connections
  accepted, copied, flushed (with any database calls failing) and interleaved with steps that touch
  neither counters nor totals: the totals of a tunnel in the database have grown by at most the bytes
  its visitors and its services have sent; and whenever its last flush has booked the
  counters as they are, by at least the bytes that were handed to the services and the visitors.
\<close>

theorem traffic_booked:
  assumes "traffic_reach d s" and "db_wf d" and "tunnel_bytes d x = Some (a, b)"
  shows "\<exists>a' b'. tunnel_bytes (ts_db (tx_server s)) x = Some (a', b')
    \<and> a \<le> a' \<and> a' \<le> a + over_tunnel (\<lambda>(v, c). int (length (cn_sent (pp_a v)))) x s
    \<and> b \<le> b' \<and> b' \<le> b + over_tunnel (\<lambda>(v, c). int (length (cn_sent (pp_a c)))) x s
    \<and> (ts_live (tx_server s) x = Some (ts_flushed (tx_server s) x) \<longrightarrow>
         a + over_tunnel (\<lambda>(v, c). int (length (cn_out (pp_a c)))) x s \<le> a'
         \<and> b + over_tunnel (\<lambda>(v, c). int (length (cn_out (pp_a v)))) x s \<le> b')"
proof -
  have ok: "booking_ok d s" by (rule booking_reach [OF assms(1,2)])
  have bounds: "int (length (cn_out (pp_a (snd r)))) \<le> pp_in (fst r)" "pp_in (fst r) \<le> int (length (cn_sent (pp_a (fst r))))"
    "int (length (cn_out (pp_a (fst r)))) \<le> pp_out (fst r)" "pp_out (fst r) \<le> int (length (cn_sent (pp_a (snd r))))"
    if "(y, r) \<in> set (tx_conns s)" for y r
    using relay_bytes [of "fst r" "snd r"] booking_okD(2) [OF ok that] by simp_all
  have sums: "over_tunnel (\<lambda>(v, c). int (length (cn_out (pp_a c)))) x s \<le> over_tunnel (\<lambda>r. pp_in (fst r)) x s"
    "over_tunnel (\<lambda>r. pp_in (fst r)) x s \<le> over_tunnel (\<lambda>(v, c). int (length (cn_sent (pp_a v)))) x s"
    "over_tunnel (\<lambda>(v, c). int (length (cn_out (pp_a v)))) x s \<le> over_tunnel (\<lambda>r. pp_out (fst r)) x s"
    "over_tunnel (\<lambda>r. pp_out (fst r)) x s \<le> over_tunnel (\<lambda>(v, c). int (length (cn_sent (pp_a c)))) x s"
    using bounds by (auto intro!: over_tunnel_mono simp: case_prod_unfold)
  have total: "tunnel_bytes (ts_db (tx_server s)) x
      = Some (a + fst (ts_flushed (tx_server s) x), b + snd (ts_flushed (tx_server s) x))"
    using booking_okD(5) [OF ok, of x] assms(3) by simp
  show ?thesis
  proof (cases "ts_live (tx_server s) x")
    case None
    with booking_okD(3) [OF ok None] total show ?thesis by (auto simp: over_tunnel_none)
  next
    case (Some l)
    obtain i u where l: "l = (i, u)" by fastforce
    from booking_okD(4) [OF ok Some [unfolded l]] sums total show ?thesis
      by (cases "ts_flushed (tx_server s) x") (auto simp: Some l)
  qed
qed

text \<open>A visitor sends three bytes, the server reads them, and the counters are flushed.\<close>

theorem traffic_booked_witness:
  "\<exists>s a' b'. traffic_reach example_db s \<and> over_tunnel (\<lambda>(v, c). int (length (cn_sent (pp_a v)))) ''t1'' s = 3
    \<and> ts_live (tx_server s) ''t1'' = Some (3, 0)
    \<and> tunnel_bytes (ts_db (tx_server s)) ''t1'' = Some (a', b') \<and> 0 \<le> a' \<and> a' \<le> 3"
proof -
  let ?x = "pipe_start True" and ?t = "scanTunnel (example_tunnel ''t1'' 8080)"
  let ?x1 = "?x\<lparr>pp_a := conn_arrive [1, 2, 3] (pp_a ?x)\<rparr>"
  let ?x2 = "?x1\<lparr>pp_ab := Writing [1, 2, 3], pp_a := (pp_a ?x1)\<lparr>cn_in := []\<rparr>, pp_b := pp_b ?x, pp_in := 3\<rparr>"
  have "traffic_step \<lparr>tx_server = NewServer example_db, tx_conns = []\<rparr>
      (\<lparr>tx_server = NewServer example_db, tx_conns = []\<rparr>\<lparr>tx_server := example_server\<rparr>)"
    by (rule traffic_step.other)
       (use example_db_wf in \<open>simp_all add: example_server_session\<close>, simp_all add: example_server_def register_session_def NewServer_def)
  from traffic_reach.more_traffic [OF traffic_reach.start this]
  have s0: "traffic_reach example_db \<lparr>tx_server = example_server, tx_conns = []\<rparr>" by simp
  obtain e where e: "proxyConn True True ?t [] example_server = (True, e)" "ts_live e = [''t1'' \<mapsto> (0, 0)]"
    by (simp add: proxyConn_def getLiveCounter_def Let_def example_server_def register_session_def NewServer_def
        example_client_def example_db_def scanTunnel_def example_tunnel_def)
  have s1: "traffic_reach example_db \<lparr>tx_server = e, tx_conns = [(''t1'', ?x, ?x)]\<rparr>"
    using traffic_reach.more_traffic [OF s0 traffic_step.accept [where half = True]] e(1)
    by (fastforce simp: relay_start_def scanTunnel_def example_tunnel_def)
  have "relay_next (?x, ?x) (?x1, ?x)"
    by (intro relay_next.near_peer peer_step.sends) (simp add: pipe_start_def conn_start_def)
  from traffic_reach.more_traffic [OF s1 traffic_step.move [OF _ _ this refl refl, of 0]]
  have s2: "traffic_reach example_db \<lparr>tx_server = count_bytes ''t1'' 0 0 e, tx_conns = [(''t1'', ?x1, ?x)]\<rparr>"
    by simp
  have "copy_step (pp_ab ?x1, pp_a ?x1, pp_b ?x1, pp_in ?x1) (Writing [1, 2, 3], (pp_a ?x1)\<lparr>cn_in := []\<rparr>, pp_b ?x, 3)"
    using copy_step.reads [of "pp_a ?x1" 3 0 "[1, 2, 3]" "(pp_a ?x1)\<lparr>cn_in := []\<rparr>" 3 "pp_b ?x"]
    by (simp add: pipe_start_def conn_start_def readable_def copyBufSize_def counted_read_def)
  then have "relay_next (?x1, ?x) (?x2, ?x)"
    by (intro relay_next.step relay_step.near end_step.pipe pipe_step.ab)
  from traffic_reach.more_traffic [OF s2 traffic_step.move [OF _ _ this refl refl, of 0]]
  have "traffic_reach example_db \<lparr>tx_server = count_bytes ''t1'' 3 0 (count_bytes ''t1'' 0 0 e), tx_conns = [(''t1'', ?x2, ?x)]\<rparr>"
    by (simp add: pipe_start_def)
  from traffic_reach.more_traffic [OF this traffic_step.flush]
  have s: "traffic_reach example_db
      \<lparr>tx_server = flush_tick 5 [''t1''] (count_bytes ''t1'' 3 0 (count_bytes ''t1'' 0 0 e)), tx_conns = [(''t1'', ?x2, ?x)]\<rparr>"
    by simp
  have "tunnel_bytes example_db ''t1'' = Some (0, 0)"
    by (simp add: tunnel_bytes_def example_db_def example_tunnel_def)
  from traffic_booked [OF s example_db_wf this] s e(2) show ?thesis
    by (intro exI [of _ "\<lparr>tx_server = flush_tick 5 [''t1''] (count_bytes ''t1'' 3 0 (count_bytes ''t1'' 0 0 e)), tx_conns = [(''t1'', ?x2, ?x)]\<rparr>"])
       (auto simp: over_tunnel_def count_bytes_def pipe_start_def conn_start_def)
qed

end
