(* ===== verification/Loops.thy ===== *)
theory Loops
imports UdpRelay
begin

text \<open>
  The loops that feed the handlers: the accept loops of the server (\<open>Run\<close>, \<open>RunMinecraftRouter\<close>,
  \<open>startTCPListener\<close> in \<open>internal/tunnel\<close>) and of the client (\<open>acceptDataStreams\<close>), the UDP listener
  (\<open>serveUDPTunnel\<close>, \<open>runUDPSession\<close>), and the client's device reports. A loop is a function of the list
  of what it meets; a loop that has met all of it is still running.
\<close>

section \<open>Accepting\<close>

text \<open>
  A turn is what \<open>Accept\<close> returns, with whether the loop has been told to stop (the listener's \<open>stop\<close> or
  the server's \<open>shutdownCh\<close> is closed) when it looks after an error.
\<close>

datatype 'c accepted = Accepted 'c | AcceptError

datatype loop_end = StillAccepting | StoppedOnPurpose | AcceptFailed

fun accept_loop :: "(bool \<times> 'c accepted) list \<Rightarrow> 'c list \<times> loop_end" where
  "accept_loop [] = ([], StillAccepting)"
| "accept_loop ((stop, Accepted c) # turns) = (case accept_loop turns of (cs, e) \<Rightarrow> (c # cs, e))"
| "accept_loop ((stop, AcceptError) # turns) = ([], if stop then StoppedOnPurpose else AcceptFailed)"

text \<open>The result of \<open>Run\<close> and of \<open>RunMinecraftRouter\<close>: \<open>Some (Inr ())\<close> is a return without an error.\<close>

definition listen_result :: "loop_end \<Rightarrow> (unit + unit) option" where
  "listen_result e = (case e of StillAccepting \<Rightarrow> None | StoppedOnPurpose \<Rightarrow> Some (Inr ()) | AcceptFailed \<Rightarrow> Some (Inl ()))"

definition control_accept :: "(bool \<times> 'c accepted) list \<Rightarrow> 'c list \<times> (unit + unit) option" where
  "control_accept turns = (case accept_loop turns of (cs, e) \<Rightarrow> (cs, listen_result e))"

definition mc_accept :: "(bool \<times> 'c accepted) list \<Rightarrow> 'c list \<times> (unit + unit) option" where
  "mc_accept turns = (case accept_loop turns of (cs, e) \<Rightarrow> (cs, listen_result e))"

text \<open>The client's acceptor of data streams ends with the session, always with an error.\<close>

fun acceptDataStreams :: "'c accepted list \<Rightarrow> 'c list \<times> bool" where
  "acceptDataStreams [] = ([], False)"
| "acceptDataStreams (Accepted c # turns) = (case acceptDataStreams turns of (cs, over) \<Rightarrow> (c # cs, over))"
| "acceptDataStreams (AcceptError # turns) = ([], True)"

section \<open>Listeners and their accept loops\<close>

text \<open>
  The accept loop of a TCP tunnel runs beside the entry of its listener in \<open>listeners\<close>. A reconciliation
  starts the loops of the entries it adds; a loop that fails ends without removing its entry.
\<close>

record listening =
  ln_ts :: tserver
  ln_alive :: "string set"

definition reconcile_loops :: "osports \<Rightarrow> string list \<Rightarrow> listening \<Rightarrow> listening" where
  "reconcile_loops os order l =
     (let old = fst ` set (ts_listeners (ln_ts l));
          s = reconcileListeners os order (ln_ts l);
          new = fst ` set (ts_listeners s)
      in l\<lparr>ln_ts := s, ln_alive := {i \<in> new. i \<in> old \<longrightarrow> i \<in> ln_alive l}\<rparr>)"

definition accept_loop_over :: "string \<Rightarrow> listening \<Rightarrow> listening" where
  "accept_loop_over i l = l\<lparr>ln_alive := ln_alive l - {i}\<rparr>"

section \<open>The UDP listener\<close>

definition udpRedialBackoff :: int where "udpRedialBackoff = 2 * 10 ^ 9"

text \<open>
  A session: its loop looks at \<open>done\<close> and \<open>stop\<close>, then reads the public socket for at most a second; the
  other goroutine forwards frames of the client in between. The result is the session's state and
  whether \<open>runUDPSession\<close> has returned.
\<close>

datatype udp_read = ReadTimeout | ReadError | ReadDatagram udp_addr "byte list" bool

datatype udp_session_event = PublicTurn bool bool udp_read | FromClient bool UDPPacket

fun runUDPSession :: "udp_session_event list \<Rightarrow> udp_server \<Rightarrow> udp_server \<times> bool" where
  "runUDPSession [] s = (s, False)"
| "runUDPSession (FromClient sent pkt # es) s = runUDPSession es (udp_from_client sent pkt s)"
| "runUDPSession (PublicTurn over stop r # es) s =
     (if over \<or> stop then (s, True)
      else case r of
             ReadTimeout \<Rightarrow> runUDPSession es s
           | ReadError \<Rightarrow> (s, True)
           | ReadDatagram a d wok \<Rightarrow>
               (let s' = udp_from_public wok a d s
                in if ur_over s' then (s', True) else runUDPSession es s'))"

text \<open>
  A turn of the listener: whether \<open>stop\<close> is closed at its top, the tunnel server and the results of
  opening the stream and writing its header, whether \<open>stop\<close> is closed during the backoff, and the
  events of the session.
\<close>

record udp_turn =
  ut_stop :: bool
  ut_ts :: tserver
  ut_open :: bool
  ut_write :: bool
  ut_stop_wait :: bool
  ut_session :: "udp_session_event list"

datatype udp_listener_event = Waited int | Session udp_server

definition turn_opens :: "Tunnel \<Rightarrow> udp_turn \<Rightarrow> bool" where
  "turn_opens t u = fst (openClientStream (ut_open u) (ut_write u) t (ut_ts u))"

fun serveUDPTunnel :: "Tunnel \<Rightarrow> udp_turn list \<Rightarrow> udp_listener_event list \<times> bool" where
  "serveUDPTunnel t [] = ([], False)"
| "serveUDPTunnel t (u # us) =
     (if ut_stop u then ([], True)
      else if \<not> turn_opens t u then
        (if ut_stop_wait u then ([], True)
         else case serveUDPTunnel t us of (es, over) \<Rightarrow> (Waited udpRedialBackoff # es, over))
      else case runUDPSession (ut_session u) udp_session_start of
             (s, False) \<Rightarrow> ([Session s], False)
           | (s, True) \<Rightarrow> (case serveUDPTunnel t us of (es, over) \<Rightarrow> (Session s # es, over)))"

section \<open>Device reports\<close>

definition deviceScanFirstDelay :: int where "deviceScanFirstDelay = 5 * 10 ^ 9"

definition deviceScanInterval :: int where "deviceScanInterval = 300 * 10 ^ 9"

text \<open>
  The times at which scans begin: a turn says whether the context is done before the timer fires, and
  how long the scan and its report take.
\<close>

fun report_loop :: "int \<Rightarrow> int \<Rightarrow> (bool \<times> int) list \<Rightarrow> int list" where
  "report_loop delay now [] = []"
| "report_loop delay now ((cancelled, duration) # turns) =
     (if cancelled then []
      else (now + delay) # report_loop deviceScanInterval (now + delay + duration) turns)"

definition reportDevicesLoop :: "int \<Rightarrow> (bool \<times> int) list \<Rightarrow> int list" where
  "reportDevicesLoop now turns = report_loop deviceScanFirstDelay now turns"

end
