(* ===== verification/LoopProps.thy ===== *)
theory LoopProps
imports Loops
begin

text \<open>
  What the loops do: accepting in order, the UDP listener's redials and its end, a dead accept loop, and
  the pace of the device reports.
\<close>

section \<open>Accept loops\<close>

lemma accept_loop_in_order:
  "accept_loop (map (\<lambda>c. (False, Accepted c)) cs @ turns)
     = (cs @ fst (accept_loop turns), snd (accept_loop turns))"
  by (induction cs) (auto split: prod.split)

lemma accept_loop_ends:
  "snd (accept_loop turns) = StoppedOnPurpose \<Longrightarrow> (True, AcceptError) \<in> set turns"
  "snd (accept_loop turns) = AcceptFailed \<Longrightarrow> (False, AcceptError) \<in> set turns"
  by (induction turns rule: accept_loop.induct) (auto split: prod.splits if_splits)

text \<open>A listener whose accept loop has failed is not started again while its tunnel stays enabled.\<close>

lemma dead_loop_stays_dead:
  assumes ok: "listeners_ok (ts_listeners (ln_ts l))" and run: "\<not> ts_shutdown (ln_ts l)"
    and "ListEnabledTunnels (ts_db (ln_ts l)) = (Inr tunnels, ts_db (ln_ts l))"
    and "set order = t_ID ` set tunnels" and "i \<in> t_ID ` set tunnels"
    and "(i, t) \<in> set (ts_listeners (ln_ts l))" and "i \<notin> ln_alive l"
  shows "(i, t) \<in> set (ts_listeners (ln_ts (reconcile_loops os order l))) \<and> i \<notin> ln_alive (reconcile_loops os order l)"
proof -
  let ?w = "wanted tunnels"
  have ls: "ts_listeners (reconcileListeners os order (ln_ts l)) = fold (start_one os ?w) order (stop_unwanted ?w (ts_listeners (ln_ts l)))"
    using assms(2,3) by (simp add: reconcileListeners_def reconcile_begin_def reconcile_apply_def Let_def)
  have "?w i \<noteq> None" using assms(5) by (simp add: wanted_None)
  then have "(i, t) \<in> set (stop_unwanted ?w (ts_listeners (ln_ts l)))" using assms(6) by (auto simp: stop_unwanted_def)
  moreover have "set ls' \<subseteq> set (fold (start_one os ?w) xs ls')" for xs ls'
  proof (induction xs arbitrary: ls')
    case (Cons x xs)
    have "set ls' \<subseteq> set (start_one os ?w x ls')" by (auto simp: start_one_def split: option.split)
    with Cons [of "start_one os ?w x ls'"] show ?case by auto
  qed simp
  ultimately have "(i, t) \<in> set (ts_listeners (reconcileListeners os order (ln_ts l)))" unfolding ls by blast
  moreover have "i \<in> fst ` set (ts_listeners (ln_ts l))" using assms(6) by force
  ultimately show ?thesis using assms(7) by (simp add: reconcile_loops_def Let_def)
qed

section \<open>Device reports\<close>

lemma report_loop_pace:
  assumes "\<forall>(c, d)\<in>set turns. 0 \<le> d" and "0 \<le> delay"
  shows "(\<forall>x\<in>set (report_loop delay now turns). now + delay \<le> x)
    \<and> sorted_wrt (\<lambda>x y. x + deviceScanInterval \<le> y) (report_loop delay now turns)"
  using assms
proof (induction turns arbitrary: delay now)
  case (Cons a turns)
  obtain c d where a: "a = (c, d)" by fastforce
  have "0 \<le> deviceScanInterval" by (simp add: deviceScanInterval_def)
  with Cons.IH [of deviceScanInterval "now + delay + d"] Cons.prems a show ?case by force
qed simp

section \<open>The UDP listener\<close>

lemma runUDPSession_stop:
  "runUDPSession (map (\<lambda>(b, p). FromClient b p) rs @ PublicTurn over True r # es) s
     = (fold (\<lambda>(b, p). udp_from_client b p) rs s, True)"
  by (induction rs arbitrary: s) auto

lemma turn_opens_iff:
  "turn_opens t u \<longleftrightarrow> ut_open u \<and> ut_write u
     \<and> (\<exists>i. ts_sessions (ut_ts u) (t_ClientID t) = Some i \<and> \<not> cs_closed (ts_heap (ut_ts u) ! i))"
  by (simp add: turn_opens_def openClientStream_def Let_def split: option.split)

text \<open>
  C32. The UDP listener. While nobody stops it, it never gives up: after any number of turns in which
  the machine is offline or its session fails, each followed by a wait of two seconds, the first turn at
  which the machine has an open session that takes the stream serves a UDP session; and after each
  session that ends it starts again. Once stopped it serves nothing more and returns: at once when
  idle, at its next look when in a session, without reading another datagram of the public.
\<close>

theorem udp_listener_redials:
  assumes "\<forall>u\<in>set us. \<not> ut_stop u \<and> \<not> turn_opens t u \<and> \<not> ut_stop_wait u"
    and "\<not> ut_stop v" and "ut_open v" "ut_write v"
    and "ts_sessions (ut_ts v) (t_ClientID t) = Some i" and "\<not> cs_closed (ts_heap (ut_ts v) ! i)"
    and "runUDPSession (ut_session v) udp_session_start = (s, over)"
  shows "serveUDPTunnel t (us @ v # vs)
      = (replicate (length us) (Waited (2 * 10 ^ 9)) @ Session s # (if over then fst (serveUDPTunnel t vs) else []),
         over \<and> snd (serveUDPTunnel t vs))
    \<and> (ut_stop (hd vs) \<longrightarrow> vs \<noteq> [] \<longrightarrow> over \<longrightarrow>
         serveUDPTunnel t (us @ v # vs) = (replicate (length us) (Waited (2 * 10 ^ 9)) @ [Session s], True))
    \<and> runUDPSession (map (\<lambda>(b, p). FromClient b p) rs @ PublicTurn fin True r # es) s0
      = (fold (\<lambda>(b, p). udp_from_client b p) rs s0, True)"
proof -
  have v: "turn_opens t v" using assms(3-6) by (simp add: turn_opens_iff)
  have "serveUDPTunnel t (v # vs)
      = (Session s # (if over then fst (serveUDPTunnel t vs) else []), over \<and> snd (serveUDPTunnel t vs))"
    using assms(2,7) v by (cases over) (simp_all split: prod.split)
  then have all: "serveUDPTunnel t (us @ v # vs)
      = (replicate (length us) (Waited (2 * 10 ^ 9)) @ Session s # (if over then fst (serveUDPTunnel t vs) else []),
         over \<and> snd (serveUDPTunnel t vs))"
    using assms(1) by (induction us) (simp_all add: udpRedialBackoff_def)
  moreover have "serveUDPTunnel t vs = ([], True)" if "ut_stop (hd vs)" "vs \<noteq> []"
    using that by (cases vs) simp_all
  ultimately show ?thesis using runUDPSession_stop by simp
qed

text \<open>The machine is offline for one turn, then connected; the session gets a datagram and is stopped.\<close>

definition example_offline :: udp_turn where
  "example_offline = \<lparr>ut_stop = False, ut_ts = NewServer example_db, ut_open = True, ut_write = True,
     ut_stop_wait = False, ut_session = []\<rparr>"

definition example_online :: udp_turn where
  "example_online = example_offline\<lparr>ut_ts := example_server,
     ut_session := [PublicTurn False False ReadTimeout, PublicTurn False True ReadTimeout]\<rparr>"

theorem udp_listener_redials_witness:
  "serveUDPTunnel (scanTunnel (example_tunnel ''t1'' 8080)) [example_offline, example_online, example_online\<lparr>ut_stop := True\<rparr>]
     = ([Waited (2 * 10 ^ 9), Session udp_session_start], True)"
proof -
  let ?t = "scanTunnel (example_tunnel ''t1'' 8080)"
  have off: "\<forall>u\<in>set [example_offline]. \<not> ut_stop u \<and> \<not> turn_opens ?t u \<and> \<not> ut_stop_wait u"
    by (simp add: example_offline_def turn_opens_iff NewServer_def)
  have on: "\<not> ut_stop example_online" "ut_open example_online" "ut_write example_online"
    "runUDPSession (ut_session example_online) udp_session_start = (udp_session_start, True)"
    by (simp_all add: example_online_def example_offline_def)
  have sess: "ts_sessions (ut_ts example_online) (t_ClientID ?t) = Some 0" "\<not> cs_closed (ts_heap (ut_ts example_online) ! 0)"
    by (simp_all add: example_online_def example_server_session scanTunnel_def example_tunnel_def)
      (simp add: example_server_def register_session_def NewServer_def example_client_def example_db_def)
  from udp_listener_redials [OF off on(1-3) sess on(4), of "[example_online\<lparr>ut_stop := True\<rparr>]"] show ?thesis by simp
qed

end
