(* ===== verification/InstallScript.thy ===== *)
theory InstallScript
imports ApiClients
begin

text \<open>
  The install script and the page shown to a browser (\<open>internal/api/enroll.go\<close>), line by line, and how
  a shell reads back what is substituted into the script.
\<close>

section \<open>Templates\<close>

text \<open>
  A template is its lines; a line is fixed text and the arguments of \<open>fmt.Sprintf\<close> in it, which are
  strings (counted from zero; the templates use no argument that is not given).
\<close>

datatype piece = Lit string | Arg nat

fun expand :: "string list \<Rightarrow> piece \<Rightarrow> string" where
  "expand args (Lit s) = s"
| "expand args (Arg n) = args ! n"

definition line_of :: "string list \<Rightarrow> piece list \<Rightarrow> string" where
  "line_of args row = concat (map (expand args) row)"

definition Sprintf :: "piece list list \<Rightarrow> string list \<Rightarrow> string" where
  "Sprintf rows args = concat (map (\<lambda>row. line_of args row @ [CHR 0x0A]) rows)"

definition installScriptTemplate :: "piece list list" where
  "installScriptTemplate =
    [[Lit ''#!/usr/bin/env bash''],
     [Lit ''set -euo pipefail''],
     [],
     [Lit ''if [ \"$(id -u)\" -ne 0 ]; then''],
     [Lit (''  echo \"Please run this as root, e.g.: curl -fsSL '' @ [CHR 0x27]), Arg 0, Lit ''/install.sh?code='', Arg 1, Lit ([CHR 0x27] @ '' | sudo bash\" >&2'')],
     [Lit ''  exit 1''],
     [Lit ''fi''],
     [],
     [Lit ''OS=\"$(uname -s | tr '[:upper:]' '[:lower:]')\"''],
     [Lit ''case \"$(uname -m)\" in''],
     [Lit ''  x86_64) ARCH=amd64 ;;''],
     [Lit ''  aarch64|arm64) ARCH=arm64 ;;''],
     [Lit (''  *'' @ [CHR 0x29] @ '' echo \"Unsupported architecture: $(uname -m)\" >&2; exit 1 ;;'')],
     [Lit ''esac''],
     [],
     [Lit ''BASE=\"'', Arg 0, Lit ''\"''],
     [Lit ''CODE=\"'', Arg 1, Lit ''\"''],
     [],
     [Lit ''# Download to a temp file rather than overwriting the installed binary''],
     [Lit (''# directly '' @ [CHR 0xE2, CHR 0x80, CHR 0x94] @ '' the not-yet-installed copy is what actually performs'')],
     [Lit ''# enrollment below, so if the code turns out to be invalid or expired, an''],
     [Lit ''# already-running install is never touched: nothing gets stopped, and''],
     [Lit ''# nothing gets swapped in, until enrollment has actually succeeded.''],
     [Lit ''echo \"Downloading portly-client for ${OS}/${ARCH}...\"''],
     [Lit ''TMP_BIN=\"$(mktemp /usr/local/bin/portly-client.XXXXXX)\"''],
     [Lit ''curl -fsSL -o \"${TMP_BIN}\" \"${BASE}/downloads/${OS}-${ARCH}\"''],
     [Lit ''chmod +x \"${TMP_BIN}\"''],
     [],
     [Lit ''echo \"Enrolling with ${BASE}...\"''],
     [Lit ''\"${TMP_BIN}\" enroll --api \"${BASE}\" --code \"${CODE}\" --no-start''],
     [],
     [Lit ''# Only reached once enrollment actually succeeded (set -e stops the script''],
     [Lit (''# above otherwise). A running process '' @ [CHR 0xE2, CHR 0x80, CHR 0x94] @ '' whether the background process'')],
     [Lit ''# 'enroll' just started itself (no systemd), or a previous install's still''],
     [Lit (''# running under systemd '' @ [CHR 0xE2, CHR 0x80, CHR 0x94] @ '' keeps its old binary mapped even after this'')],
     [Lit ''# replaces the directory entry, so this rename never fails trying to''],
     [Lit ''# overwrite an in-use executable.''],
     [Lit ''mv -f \"${TMP_BIN}\" /usr/local/bin/portly-client''],
     [],
     [Lit ''# Only relevant when 'enroll' installed a systemd unit above (--no-start''],
     [Lit (''# still wrote and enabled it, just didn't start it) '' @ [CHR 0xE2, CHR 0x80, CHR 0x94] @ '' on a system without'')],
     [Lit ''# systemd, enroll already started the client itself as a background''],
     [Lit ''# process, so there's nothing left to do here. 'restart' cleanly starts it''],
     [Lit ''# fresh either way: whether it was already running (rotating credentials)''],
     [Lit ''# or this is a brand new install (never started before).''],
     [Lit ''if [ -d /run/systemd/system ]; then''],
     [Lit ''  systemctl restart portly-client''],
     [Lit ''fi'']]"

definition installBlockedPageTemplate :: "piece list list" where
  "installBlockedPageTemplate =
    [[Lit ''<!doctype html>''],
     [Lit ''<html lang=\"en\">''],
     [Lit ''<head>''],
     [Lit ''<meta charset=\"utf-8\">''],
     [Lit ''<title>Portly installer</title>''],
     [Lit ''<meta name=\"viewport\" content=\"width=device-width, initial-scale=1\">''],
     [Lit ''<style>''],
     [Lit ''  :root { color-scheme: light dark; }''],
     [Lit ''  body {''],
     [Lit ''    margin: 0; min-height: 100vh; display: flex; align-items: center; justify-content: center;''],
     [Lit ''    font-family: system-ui, -apple-system, \"Segoe UI\", sans-serif;''],
     [Lit ''    background: #f9f9f7; color: #0b0b0b;''],
     [Lit ''  }''],
     [Lit ''  @media (prefers-color-scheme: dark) {''],
     [Lit ''    body { background: #0d0d0d; color: #fff; }''],
     [Lit ''    .card { background: #1a1a19 !important; border-color: rgba(255,255,255,.1) !important; }''],
     [Lit ''    code { background: #212120 !important; color: #fff; }''],
     [Lit ''  }''],
     [Lit ''  .card {''],
     [Lit ''    max-width: 30rem; margin: 1.5rem; padding: 2rem;''],
     [Lit ''    border: 1px solid rgba(11,11,11,.1); border-radius: 12px; background: #fcfcfb;''],
     [Lit ''  }''],
     [Lit ''  h1 { font-size: 1.15rem; margin: 0 0 .5rem; }''],
     [Lit ''  p { color: #52514e; line-height: 1.5; font-size: .95rem; }''],
     [Lit ''  code {''],
     [Lit ''    display: block; background: #f0efec; padding: .75rem 1rem; border-radius: 8px;''],
     [Lit ''    margin-top: 1rem; font-size: .8rem; overflow-x: auto; white-space: pre-wrap; word-break: break-all;''],
     [Lit ''  }''],
     [Lit ''</style>''],
     [Lit ''</head>''],
     [Lit ''<body>''],
     [Lit ''  <div class=\"card\">''],
     [Lit ''    <h1>This is an installer, not a web page</h1>''],
     [Lit ''    <p>This link is meant to be piped straight into a shell on the machine you're''],
     [Lit ''    setting up, not opened in a browser. Run it there instead:</p>''],
     [Lit (''    <code>curl -fsSL '' @ [CHR 0x27]), Arg 0, Lit ([CHR 0x27] @ '' | sudo bash</code>'')],
     [Lit ''  </div>''],
     [Lit ''</body>''],
     [Lit ''</html>'']]"

text \<open>The bytes of the two replies of the handler that are texts made from a template.\<close>

fun install_text :: "response \<Rightarrow> string option" where
  "install_text (Reply status (ScriptBody base code) cookie) = Some (Sprintf installScriptTemplate [base, code])"
| "install_text (Reply status (BlockedBody url) cookie) = Some (Sprintf installBlockedPageTemplate [url])"
| "install_text r = None"

section \<open>Lines of a text\<close>

definition one_line :: "string \<Rightarrow> bool" where
  "one_line s \<longleftrightarrow> CHR 0x0A \<notin> set s"

lemma one_line_append [simp]: "one_line (a @ b) \<longleftrightarrow> one_line a \<and> one_line b"
  by (auto simp: one_line_def)

lemma lines_Sprintf:
  assumes "list_all (\<lambda>row. one_line (line_of args row)) rows"
  shows "Split (CHR 0x0A) (Sprintf rows args) = map (line_of args) rows @ [[]]"
  using assms
proof (induction rows)
  case Nil
  then show ?case by (simp add: Sprintf_def)
next
  case (Cons row rows)
  have "Sprintf (row # rows) args = line_of args row @ CHR 0x0A # Sprintf rows args"
    by (simp add: Sprintf_def)
  with Cons show ?case by (simp add: one_line_def)
qed

text \<open>Lines of a template have no line break of their own, so only an argument can bring one.\<close>

fun piece_ok :: "nat \<Rightarrow> piece \<Rightarrow> bool" where
  "piece_ok n (Lit s) = one_line s"
| "piece_ok n (Arg k) = (k < n)"

lemma one_line_row:
  assumes "list_all (piece_ok (length args)) row" and "list_all one_line args"
  shows "one_line (line_of args row)"
proof -
  have "one_line (expand args p)" if "piece_ok (length args) p" for p
    using that assms(2) by (cases p) (auto simp: list_all_length)
  with assms(1) show ?thesis
    by (induction row) (auto simp: line_of_def one_line_def)
qed

lemma templates_ok:
  "list_all (list_all (piece_ok 2)) installScriptTemplate"
  "list_all (list_all (piece_ok 1)) installBlockedPageTemplate"
  by (simp_all add: installScriptTemplate_def installBlockedPageTemplate_def one_line_def)

lemma template_lines:
  assumes "list_all (list_all (piece_ok (length args))) rows" and "list_all one_line args"
  shows "Split (CHR 0x0A) (Sprintf rows args) = map (line_of args) rows @ [[]]"
  by (rule lines_Sprintf) (use assms in \<open>auto simp: list_all_iff intro!: one_line_row\<close>)

section \<open>Reading the script back\<close>

text \<open>
  A word in double quotes as POSIX shells read it, from behind its opening quote: the word and what
  follows the closing quote. Expansions and escapes are not followed (\<open>None\<close>).
\<close>

definition shell_special :: "char \<Rightarrow> bool" where
  "shell_special c \<longleftrightarrow> c \<in> {CHR ''$'', CHR 0x60, CHR 0x5C, CHR 0x00}"

fun dq_word :: "string \<Rightarrow> (string \<times> string) option" where
  "dq_word [] = None"
| "dq_word (c # cs) =
     (if c = CHR 0x22 then Some ([], cs)
      else if shell_special c then None
      else map_option (\<lambda>(w, r). (c # w, r)) (dq_word cs))"

text \<open>The first line that assigns a double-quoted word to a variable: the value and the rest of the line.\<close>

fun assignment :: "string \<Rightarrow> string list \<Rightarrow> (string \<times> string) option" where
  "assignment x [] = None"
| "assignment x (l # ls) =
     (if HasPrefix l (x @ [CHR 0x3D, CHR 0x22]) then dq_word (TrimPrefix l (x @ [CHR 0x3D, CHR 0x22]))
      else assignment x ls)"

definition shell_value :: "string \<Rightarrow> string \<Rightarrow> (string \<times> string) option" where
  "shell_value x script = assignment x (Split (CHR 0x0A) script)"

text \<open>Text without a line break and without a character that a shell expands in double quotes.\<close>

definition unexpanded :: "string \<Rightarrow> bool" where
  "unexpanded s \<longleftrightarrow> one_line s \<and> list_all (\<lambda>c. \<not> shell_special c) s"

lemma dq_word_at_quote:
  "list_all (\<lambda>c. \<not> shell_special c) u \<Longrightarrow> CHR 0x22 \<notin> set u \<Longrightarrow> dq_word (u @ CHR 0x22 # r) = Some (u, r)"
  by (induction u) auto

lemma script_values:
  assumes "unexpanded base" and "unexpanded code"
  shows "shell_value ''BASE'' (Sprintf installScriptTemplate [base, code]) = dq_word (base @ [CHR 0x22])"
    and "shell_value ''CODE'' (Sprintf installScriptTemplate [base, code]) = dq_word (code @ [CHR 0x22])"
proof -
  have lines: "Split (CHR 0x0A) (Sprintf installScriptTemplate [base, code])
      = map (line_of [base, code]) installScriptTemplate @ [[]]"
    by (rule template_lines) (use assms templates_ok in \<open>auto simp: unexpanded_def numeral_2_eq_2\<close>)
  show "shell_value ''BASE'' (Sprintf installScriptTemplate [base, code]) = dq_word (base @ [CHR 0x22])"
    unfolding shell_value_def lines
    by (simp add: installScriptTemplate_def line_of_def HasPrefix_def TrimPrefix_def)
  show "shell_value ''CODE'' (Sprintf installScriptTemplate [base, code]) = dq_word (code @ [CHR 0x22])"
    unfolding shell_value_def lines
    by (simp add: installScriptTemplate_def line_of_def HasPrefix_def TrimPrefix_def)
qed

lemma issued_code_plain:
  assumes "randomCode n r = Inr c"
  shows "unexpanded c" "CHR 0x22 \<notin> set c"
proof -
  have "x \<noteq> CHR 0x0A \<and> x \<noteq> CHR 0x22 \<and> \<not> shell_special x" if "x \<in> set enrollCodeAlphabet" for x
    using that by (auto simp: enrollCodeAlphabet_def shell_special_def)
  with randomCode_alphabet [OF assms] show "unexpanded c" "CHR 0x22 \<notin> set c"
    by (auto simp: unexpanded_def one_line_def list_all_iff)
qed

lemma page_line:
  assumes "one_line url"
  shows "''    <code>curl -fsSL '' @ [CHR 0x27] @ url @ [CHR 0x27] @ '' | sudo bash</code>''
    \<in> set (Split (CHR 0x0A) (Sprintf installBlockedPageTemplate [url]))"
proof -
  have "Split (CHR 0x0A) (Sprintf installBlockedPageTemplate [url])
      = map (line_of [url]) installBlockedPageTemplate @ [[]]"
    by (rule template_lines) (use assms templates_ok in simp_all)
  then show ?thesis by (simp add: installBlockedPageTemplate_def line_of_def)
qed

end
