(* ===== verification/InstallProps.thy ===== *)
theory InstallProps
imports InstallScript MachineProps
begin

text \<open>
  The install command of a created machine: the script it fetches carries the code to \<open>enroll\<close>; what a
  code of another's making does to it.
\<close>

lemma map_sum_InrD: "map_sum f id x = Inr y \<Longrightarrow> x = Inr y"
  by (cases x) auto

lemma code_nonempty: "randomCode n r = Inr c \<Longrightarrow> 0 < n \<Longrightarrow> r \<noteq> Some [] \<Longrightarrow> c \<noteq> []"
  by (auto simp: randomCode_def split: option.splits)

lemma apiBaseURL_put: "apiBaseURL (put_db d s) = apiBaseURL s"
  by (simp add: apiBaseURL_def put_db_def)

lemma created_code:
  assumes "handleCreateClient E (Some req) s = (Inr r, s1)"
  shows "\<exists>v code. r = writeJSON 201 (InstallBody v (installCommand code s1) code (ev_now E + 900))
    \<and> randomCode 10 (ev_rand E 1) = Inr code \<and> apiBaseURL s1 = apiBaseURL s"
proof -
  from assms obtain c code d where code: "randomCode 10 (ev_rand E 1) = Inr code" and s1: "s1 = put_db d s"
    and r: "r = writeJSON 201 (InstallBody (toClientView c False) (installCommand code s1) code (ev_now E + 900))"
    unfolding handleCreateClient_def issueInstall_def
    by (elim bindM_InrE) (auto simp: went enrollCodeTTL_def CreateEnrollmentCode_def tokM_def liftM_def callDB_def
      retM_def elim!: bindM_InrE split: prod.splits sum.splits if_splits dest!: map_sum_InrD)
  have "apiBaseURL s1 = apiBaseURL s" by (simp add: s1 apiBaseURL_put)
  with r code show ?thesis by blast
qed

lemma script_code:
  assumes "unexpanded base" and "unexpanded (u @ CHR 0x22 # v)" and "CHR 0x22 \<notin> set u"
  shows "shell_value ''CODE'' (Sprintf installScriptTemplate [base, u @ CHR 0x22 # v]) = Some (u, v @ [CHR 0x22])"
  using script_values(2) [OF assms(1,2)] assms(2,3) dq_word_at_quote [of u "v @ [CHR 0x22]"]
  by (simp add: unexpanded_def)

text \<open>
  C6. The install link. When a machine is created, the link in the answer, fetched by a shell, is
  answered with a script in which the shell reads back exactly the base URL and the code of this
  machine (for a base URL without quotes and expansions); fetched by a browser, it is answered with
  a page that has exactly the install command. A link of another's making can do more: a code with
  a double quote ends the quoted word there, and what follows is read by the shell as program text.
\<close>

theorem install_link_works:
  assumes "handleCreateClient E (Some req) s = (Inr r, s1)" and "ev_rand E 1 \<noteq> Some []"
    and "looksLikeShellFetch E2 q" and "\<not> looksLikeShellFetch E2 b"
    and "unexpanded (apiBaseURL s1)" and "CHR 0x22 \<notin> set (apiBaseURL s1)"
  shows "\<exists>v code reply script page.
      r = writeJSON 201 (InstallBody v (installCommand code s1) code (ev_now E + 900))
    \<and> handleInstallScript E2 q code s1 = (Inr reply, s1) \<and> install_text reply = Some script
    \<and> shell_value ''BASE'' script = Some (apiBaseURL s1, [])
    \<and> shell_value ''CODE'' script = Some (code, [])
    \<and> (\<exists>reply'. handleInstallScript E2 b code s1 = (Inr reply', s1) \<and> install_text reply' = Some page)
    \<and> ''    <code>'' @ installCommand code s1 @ ''</code>'' \<in> set (Split (CHR 0x0A) page)
    \<and> (\<forall>u w. unexpanded (u @ CHR 0x22 # w) \<longrightarrow> CHR 0x22 \<notin> set u \<longrightarrow>
        (\<exists>reply'' script'. handleInstallScript E2 q (u @ CHR 0x22 # w) s1 = (Inr reply'', s1)
          \<and> install_text reply'' = Some script'
          \<and> shell_value ''CODE'' script' = Some (u, w @ [CHR 0x22])))"
proof -
  obtain v code where r: "r = writeJSON 201 (InstallBody v (installCommand code s1) code (ev_now E + 900))"
    and code: "randomCode 10 (ev_rand E 1) = Inr code"
    using created_code [OF assms(1)] by blast
  note plain = issued_code_plain [OF code]
  have ne: "code \<noteq> []" by (rule code_nonempty [OF code _ assms(2)]) simp
  have url: "one_line (apiBaseURL s1 @ ''/install.sh?code='' @ code)"
    using assms(5) plain(1) by (simp add: unexpanded_def) (simp add: one_line_def)
  note vals = script_values [OF assms(5) plain(1)]
  have base: "dq_word (apiBaseURL s1 @ [CHR 0x22]) = Some (apiBaseURL s1, [])"
    using assms(5,6) by (simp add: unexpanded_def dq_word_at_quote)
  have word: "dq_word (code @ [CHR 0x22]) = Some (code, [])"
    using plain by (simp add: unexpanded_def dq_word_at_quote)
  have shell: "handleInstallScript E2 q c s1 = (Inr (Reply 200 (ScriptBody (apiBaseURL s1) c) None), s1)"
    if "c \<noteq> []" for c
    using that assms(3) by (simp add: handleInstallScript_def hm_simps getS_def)
  have browser: "handleInstallScript E2 b code s1
      = (Inr (Reply 403 (BlockedBody (apiBaseURL s1 @ ''/install.sh?code='' @ code)) None), s1)"
    using ne assms(4) by (simp add: handleInstallScript_def writeInstallBlockedPage_def hm_simps getS_def)
  show ?thesis
    using r shell [OF ne] vals base word browser page_line [OF url] script_code [OF assms(5)] shell
    by (intro exI [of _ v] exI [of _ code] exI conjI allI impI) (auto simp: installCommand_def)
qed

lemma example_url: "apiBaseURL example_installed = ''http://198.51.100.7''"
  using example_installed_db(5)
  by (simp add: apiBaseURL_def example_installed_def runServer_def example_cfg_def NewApiServer_def Let_def
      split: prod.split_asm prod.split)

theorem install_link_works_witness:
  "\<exists>code script. shell_value ''CODE'' script = Some (code, []) \<and> shell_value ''BASE'' script = Some (''http://198.51.100.7'', [])"
proof -
  let ?s = "example_installed\<lparr>as_CAFingerprint := Fingerprint id [7]\<rparr>"
  let ?b = "example_request\<lparr>hq_UserAgent := ''Mozilla/5.0''\<rparr>"
  obtain r s1 where c: "handleCreateClient example_env (Some \<lparr>nq_Name = ''nas2''\<rparr>) ?s = (Inr r, s1)"
    using example_pinned_ok by blast
  have url: "apiBaseURL s1 = ''http://198.51.100.7''"
  proof -
    have "apiBaseURL (example_installed\<lparr>as_CAFingerprint := f\<rparr>) = apiBaseURL example_installed" for f
      by (simp add: apiBaseURL_def)
    then show ?thesis using created_code [OF c] example_url by auto
  qed
  have agents: "looksLikeShellFetch example_env example_request" "\<not> looksLikeShellFetch example_env ?b"
    by (simp_all add: looksLikeShellFetch_def example_request_def ToLower_def is_ascii_def lower_char_def
        HasPrefix_def example_env_def)
  have plain: "unexpanded (apiBaseURL s1)" "CHR 0x22 \<notin> set (apiBaseURL s1)"
    by (simp_all add: url unexpanded_def one_line_def shell_special_def)
  have "ev_rand example_env 1 \<noteq> Some []" by (simp add: example_env_def)
  from install_link_works [OF c this agents plain] show ?thesis unfolding url by blast
qed

end
