(* ===== verification/Spec2Isabelle.thy ===== *)
theory Spec2Isabelle
imports MigrationProps UdpProps LanProps UpdateProps ServerRun PanelProps McProps ApiTypes ApiRaces
  Booking LoopProps InstallProps
begin

text \<open>
  Portly is a self-hosted reverse tunnel: \<open>portly-server\<close> runs on a public host and keeps its
  machines and tunnels in SQLite; \<open>portly-client\<close> runs on a machine behind NAT, dials out to
  the server over TLS and serves the server's streams from local services. A web interface
  talks to the server's management API.

  How the parts interact. The API handlers (\<open>src/internal/api\<close>) change the database
  (\<open>src/internal/db\<close>) and look at the tunnel server. The tunnel server (\<open>src/internal/tunnel\<close>)
  authenticates machines against the database, pushes their tunnels over a control stream, opens
  public listeners for enabled tunnels, proxies connections as streams, and books the traffic.
  The client reads the pushes and connects streams to local targets. The two programs
  (\<open>src/cmd\<close>) set this up: certificates and addresses on the server, enrollment, the systemd
  service, self-update and removal on the machine.

  \<^bold>\<open>Theories and sources.\<close>

  \<^item> \<open>Prelude\<close>, \<open>GoStrings\<close>, \<open>NetAddr\<close>, \<open>Host\<close>, \<open>Http\<close>: bytes, 64-bit integers, the state-and-error monad,
    table rows; what the code uses of Go's \<open>strings\<close>, \<open>strconv\<close> and \<open>net\<close> (host-port pairs, IP
    addresses as text); the files and the service of a host; the answer to an HTTP GET.
  \<^item> \<open>Tokens\<close>, \<open>Database\<close>, \<open>DbInvariant\<close>, \<open>DbTraffic\<close>, \<open>DbCredentials\<close>: \<open>internal/db/db.go\<close> and
    \<open>schema.sql\<close>, one definition per method of \<open>DB\<close>, tables as lists of rows in rowid order, with
    UNIQUE, PRIMARY KEY and foreign-key checks and transactions. The locale \<open>credential_table\<close> is
    the contract of a table looked up by the digest of a secret, for machines and API keys.
  \<^item> \<open>Migration\<close>, \<open>MigrationProps\<close>: \<open>Open\<close>, the added columns and the rebuild of the tunnels table
    on a model of the SQLite file (typed columns, constraints, the foreign-key pragma), from any
    earlier schema and with any statement failing.
  \<^item> \<open>Readers\<close>, \<open>VarInt\<close>, \<open>McRouter\<close>, \<open>McProps\<close>: \<open>internal/tunnel/mcrouter.go\<close>; the locale \<open>byte_source\<close> is
    the interface of \<open>io.ByteReader\<close>, interpreted on plain streams and on the buffered, recording reader.
  \<^item> \<open>Protocol\<close>, \<open>ProxyHeader\<close>: \<open>internal/protocol/protocol.go\<close>.
  \<^item> \<open>TunnelSessions\<close>, \<open>TunnelListeners\<close>, \<open>TunnelTraffic\<close>, \<open>TunnelServer\<close>: \<open>internal/tunnel/server.go\<close>,
    first as functions, then as a transition system whose steps are those of the goroutines. The
    locale \<open>traffic_store\<close> is what the flush loop needs of the database.
  \<^item> \<open>Updates\<close>, \<open>ApiBase\<close>, \<open>ApiAccounts\<close>, \<open>ApiTunnels\<close>, \<open>ApiClients\<close>, \<open>ApiUpdates\<close>, \<open>LiveStats\<close>,
    \<open>ApiServer\<close>: \<open>internal/api\<close>, \<open>internal/updatecheck\<close> and the hooks of \<open>cmd/portly-server/main.go\<close>; a
    handler is a program of the monad whose error is the early response; the steps of \<open>api_step\<close> are
    requests, tunnel-server steps, certificate reports, update checks, changes of the host's
    files by other programs, and restarts.
  \<^item> \<open>ApiTypes\<close>, \<open>ApiInvariant\<close>, \<open>ApiTunnelProps\<close>, \<open>ApiAuthProps\<close>, \<open>ApiLifecycle\<close>, \<open>PanelProps\<close>:
    properties of the API; \<open>ApiRaces\<close>: two handlers split into their statements, and what overlapping
    requests can do.
  \<^item> \<open>TunnelClient\<close>, \<open>ClientProps\<close>: \<open>internal/tunnel/client.go\<close>.
  \<^item> \<open>Pipe\<close>, \<open>PipeProps\<close>: \<open>pipe\<close> and \<open>countingReader\<close> of \<open>server.go\<close>, one read or write per step, and the two pipes
    of a proxied connection (server's and client's) joined by their stream; \<open>Booking\<close>: the tunnel server
    with its proxied connections, from the bytes read to the totals of the database.
  \<^item> \<open>ClientMachine\<close>, \<open>MachineProps\<close>: \<open>enroll.go\<close>, \<open>uninstall.go\<close> and the commands of
    \<open>cmd/portly-client\<close>, with \<open>internal/config\<close> and the pinned dial of \<open>internal/tlsutil\<close>.
  \<^item> \<open>InstallScript\<close>, \<open>InstallProps\<close>: the install script and the page for browsers of \<open>internal/api/enroll.go\<close>, line
    by line, and how a shell reads the values put into the script.
  \<^item> \<open>SelfUpdate\<close>, \<open>UpdateProps\<close>: \<open>cmd/portly-client/selfupdate.go\<close>.
  \<^item> \<open>Certificates\<close>, \<open>ServerMain\<close>, \<open>ServerMainProps\<close>, \<open>ServerRun\<close>: \<open>internal/tlsutil/ca.go\<close>, \<open>internal/netutil\<close>,
    the start and the end of the server and its commands on machines and tunnels.
  \<^item> \<open>UdpRelay\<close>, \<open>UdpProps\<close>: \<open>internal/tunnel/udp.go\<close>, both ends as one transition system.
  \<^item> \<open>Loops\<close>, \<open>LoopProps\<close>: the accept loops of server and client, the UDP listener with its sessions, the loop of
    the device reports, as functions of what they meet.
  \<^item> \<open>LanScan\<close>, \<open>LanProps\<close>: \<open>internal/lanscan/lanscan.go\<close>.
\<close>

text \<open>
  \<^bold>\<open>What the lemmas show.\<close>

  \<^item> Database: every method keeps keys unique and references intact, on every branch; the totals of a
    tunnel are the sums of its samples; adding traffic refines an abstract account; an upgrade keeps
    the content of any earlier file, and opening a current file changes no table.
  \<^item> Router of Minecraft connections: it sends a connection only where its handshake says, finds the
    tunnel in any spelling, and decides within a fixed number of bytes.
  \<^item> Tunnel server and client: one session per machine and one listener per port under any
    interleaving; no byte is booked twice or lost; what a push says is what the client serves; the
    reconnection waits, and the end of a removed client; replies of a UDP tunnel never go
    to another sender; both directions of a connection carry a prefix of what was sent, and all of
    it once nothing more can move, and what is booked is what flowed; the UDP listener redials until it
    is stopped.
  \<^item> API: an invariant of the whole server between requests, and the two rules of it that overlapping requests
    break; who gets past the wrappers, and for how long; the type of each
    reply; creation of tunnels, the first claim, factory reset and updates, with their errors.
  \<^item> Programs: the install link carries exactly the base URL and the code to the shell; enrollment
    installs a machine that can authenticate and dial; removal undoes it; the
    server keeps its identity over restarts; an update installs only what the server announced.

  \<^bold>\<open>Parameters.\<close> SHA-256, bcrypt, lower-casing beyond ASCII, JSON and YAML codecs, random bytes, UUIDs, the
  clock, X.509 and ECDSA operations, the answers of the network, what the operating system
  grants (ports, writes, removals, \<open>systemctl\<close>), how \<open>websocket.Accept\<close> refuses a request, as well as whether
  a stream of the multiplexer can be read after its own \<open>Close\<close>, are arguments. Where a property needs something
  of them (a codec reads back what it wrote), this is a hypothesis, and its witness has an instance.

  \<^bold>\<open>Bounds.\<close> All functions are total; loops over a network source end because the source is a finite
  list of arrivals, and the infinite loops (reconnection, accepting, update checks, the goroutines)
  are functions of the list of their turns or step relations; the steps a connection can make
  without its peers are bounded by a measure (\<open>relay_work\<close>). The constants are those of the code: frames of at
  most 1 MiB, handshakes decided within 275 bytes (four VarInts of five bytes and an
  address of at most 255), waits of 1 to 30 seconds, subnets of at most 1022 hosts, the last 8192
  bytes of the update log, sessions of seven days.

  \<^bold>\<open>Not modelled.\<close> The transports (TLS, yamux, WebSocket, SQLite's engine below its
  statements), the reverse proxy to the web interface and the interface itself, flag parsing, logging, the dials of the LAN
  scan whose result is discarded, timers and deadlines beyond the events they cause, and back pressure.

  \<^bold>\<open>Size of the steps.\<close> In \<open>api_step\<close> a request is one step; only \<open>ApiRaces\<close> interrupts handlers between
  their statements. A push of the configuration (read, write, remembered fingerprint) is one step of the
  tunnel server, which the code does under no common lock. The first datagram of a sender dials
  and delivers in one step, and IPv6 zones of senders are dropped. A write that races with the \<open>Close\<close> of its
  destination writes nothing, where the code may have written a part. The counters of bytes are unbounded
  where the code has 64 bits (they differ beyond 9.2 exabytes); sums in the database have the bounds of
  SQLite, and the rates of the dashboard wrap.
\<close>

end
